(* ===== verification/Prelude.thy ===== *)
theory Prelude
  imports Main "HOL-Library.AList"
begin

text \<open>
  What every component shares: the association-list model of a Go map with its interface as a
  locale, the bounded ``keep the newest n'' buffer that four components use, three-way comparators
  and the collections of facts that carry the component proofs.
\<close>

named_theorems go_map_simps \<open>rewriting of map lookups after an update, a delete or a filter\<close>
named_theorems inv_intros \<open>operation preserves invariant\<close>

section \<open>Go maps\<close>

text \<open>
  A Go \<^verbatim>\<open>map[K]V\<close> is an association list. The order of the list stands for one iteration order
  of \<^verbatim>\<open>range\<close>; as Go leaves that order open, every theorem is stated for an arbitrary list.
\<close>

type_synonym ('k, 'v) gomap = "('k \<times> 'v) list"

definition mget :: "('k, 'v) gomap \<Rightarrow> 'k \<Rightarrow> 'v option" where
  "mget m k = map_of m k"

definition mput :: "'k \<Rightarrow> 'v \<Rightarrow> ('k, 'v) gomap \<Rightarrow> ('k, 'v) gomap" where
  "mput k v m = AList.update k v m"

definition mdel :: "'k \<Rightarrow> ('k, 'v) gomap \<Rightarrow> ('k, 'v) gomap" where
  "mdel k m = filter (\<lambda>e. fst e \<noteq> k) m"

definition mfilter :: "('k \<Rightarrow> 'v \<Rightarrow> bool) \<Rightarrow> ('k, 'v) gomap \<Rightarrow> ('k, 'v) gomap" where
  "mfilter P m = filter (\<lambda>e. P (fst e) (snd e)) m"

definition mwf :: "('k, 'v) gomap \<Rightarrow> bool" where
  "mwf m \<longleftrightarrow> distinct (map fst m)"

definition mkeys :: "('k, 'v) gomap \<Rightarrow> 'k list" where
  "mkeys m = map fst m"

definition mcount :: "('v \<Rightarrow> bool) \<Rightarrow> ('k, 'v) gomap \<Rightarrow> nat" where
  "mcount P m = length (filter (\<lambda>e. P (snd e)) m)"

lemma mget_Nil [simp]: "mget [] k = None"
  by (simp add: mget_def)

lemma mget_mput [go_map_simps, simp]: "mget (mput k v m) k' = (if k' = k then Some v else mget m k')"
  by (simp add: mget_def mput_def update_conv')

lemma mget_mdel [go_map_simps, simp]: "mget (mdel k m) k' = (if k' = k then None else mget m k')"
  by (induction m) (auto simp: mget_def mdel_def)

lemma mget_mfilter:
  "mwf m \<Longrightarrow> mget (mfilter P m) k = (case mget m k of None \<Rightarrow> None | Some v \<Rightarrow> if P k v then Some v else None)"
  by (induction m)
    (auto simp: mget_def mfilter_def mwf_def map_of_eq_None_iff image_iff split: option.splits
      dest: map_of_SomeD)

lemma mwf_Nil [simp, inv_intros]: "mwf []"
  by (simp add: mwf_def)

lemma mwf_mput [simp, inv_intros]: "mwf m \<Longrightarrow> mwf (mput k v m)"
  by (simp add: mwf_def mput_def distinct_update)

lemma mwf_mdel [simp, inv_intros]: "mwf m \<Longrightarrow> mwf (mdel k m)"
  by (induction m) (auto simp: mwf_def mdel_def)

lemma mwf_mfilter [simp, inv_intros]: "mwf m \<Longrightarrow> mwf (mfilter P m)"
  by (induction m) (auto simp: mwf_def mfilter_def)

lemma mem_mkeys: "k \<in> set (mkeys m) \<longleftrightarrow> (\<exists>v. mget m k = Some v)"
  by (auto simp: mkeys_def mget_def dom_map_of_conv_image_fst [symmetric])

lemma mget_in_set: "mwf m \<Longrightarrow> (k, v) \<in> set m \<longleftrightarrow> mget m k = Some v"
  by (simp add: mwf_def mget_def)

lemma mget_SomeD: "mget m k = Some v \<Longrightarrow> (k, v) \<in> set m"
  by (simp add: mget_def map_of_SomeD)

lemma set_mput:
  "e \<in> set (mput k v m) \<Longrightarrow> e = (k, v) \<or> e \<in> set m"
  by (induction m) (auto simp: mput_def split: if_splits)

lemma set_mdel: "set (mdel k m) = {e \<in> set m. fst e \<noteq> k}"
  by (auto simp: mdel_def)

lemma mput_fresh: "mget m k = None \<Longrightarrow> mput k v m = m @ [(k, v)]"
  by (induction m) (auto simp: mget_def mput_def)

lemma mcount_mput_fresh:
  "mget m k = None \<Longrightarrow> mcount P (mput k v m) = mcount P m + (if P v then 1 else 0)"
  by (simp add: mcount_def mput_fresh)

lemma mcount_mdel_le: "mcount P (mdel k m) \<le> mcount P m"
  by (induction m) (auto simp: mcount_def mdel_def)

lemma mcount_zero_iff: "mcount P m = 0 \<longleftrightarrow> (\<forall>e \<in> set m. \<not> P (snd e))"
  by (auto simp: mcount_def filter_empty_conv)

lemma mcount_mput_le: "mcount P (mput k v m) \<le> mcount P m + (if P v then 1 else 0)"
  by (induction m) (auto simp: mcount_def mput_def)

text \<open>
  The interface the components use, in the style of an abstract data type: what a lookup sees after
  each operation, and that each operation keeps the keys distinct.
\<close>

locale finite_map =
  fixes empty :: "'m"
    and lookup :: "'m \<Rightarrow> 'k \<Rightarrow> 'v option"
    and update :: "'k \<Rightarrow> 'v \<Rightarrow> 'm \<Rightarrow> 'm"
    and delete :: "'k \<Rightarrow> 'm \<Rightarrow> 'm"
    and invar :: "'m \<Rightarrow> bool"
  assumes lookup_empty: "lookup empty k = None"
    and lookup_update: "lookup (update k v m) k' = (if k' = k then Some v else lookup m k')"
    and lookup_delete: "lookup (delete k m) k' = (if k' = k then None else lookup m k')"
    and invar_empty: "invar empty"
    and invar_update: "invar m \<Longrightarrow> invar (update k v m)"
    and invar_delete: "invar m \<Longrightarrow> invar (delete k m)"
begin

text \<open>Deleting a list of keys one after the other, as a loop over collected ids does.\<close>

lemma lookup_delete_list:
  "lookup (foldl (\<lambda>m k. delete k m) m ks) k = (if k \<in> set ks then None else lookup m k)"
proof (induction ks arbitrary: m)
  case Nil
  show ?case by simp
next
  case (Cons a ks)
  then show ?case by (simp add: lookup_delete)
qed

lemma invar_delete_list: "invar m \<Longrightarrow> invar (foldl (\<lambda>m k. delete k m) m ks)"
  by (induction ks arbitrary: m) (auto simp: invar_delete)

lemma delete_update_other:
  "k \<noteq> k' \<Longrightarrow> lookup (delete k (update k' v m)) k'' = lookup (update k' v (delete k m)) k''"
  by (simp add: lookup_update lookup_delete)

end

interpretation gm: finite_map "[]" mget mput mdel mwf
  by unfold_locales simp_all

section \<open>Buffers that keep the newest entries\<close>

text \<open>
  \<^verbatim>\<open>xs = append(xs, x); if len(xs) > n { xs = xs[len(xs)-n:] }\<close>: the sliding window of the
  pinger, the history of the latency detector and the log of the tunnel console.
\<close>

definition keep_last :: "nat \<Rightarrow> 'a list \<Rightarrow> 'a list" where
  "keep_last n xs = (if n < length xs then drop (length xs - n) xs else xs)"

lemma length_keep_last [simp]: "length (keep_last n xs) = min n (length xs)"
  by (simp add: keep_last_def)

lemma set_keep_last: "set (keep_last n xs) \<subseteq> set xs"
  by (simp add: keep_last_def set_drop_subset)

lemma keep_last_id: "length xs \<le> n \<Longrightarrow> keep_last n xs = xs"
  by (simp add: keep_last_def)

lemma keep_last_alt: "keep_last n xs = drop (length xs - n) xs"
  by (simp add: keep_last_def)

lemma keep_last_append: "keep_last n (keep_last n xs @ ys) = keep_last n (xs @ ys)"
  by (cases "length xs \<le> n") (auto simp: keep_last_alt add.commute)

lemma keep_last_snoc_last: "0 < n \<Longrightarrow> last (keep_last n (xs @ [x])) = x"
  by (auto simp: keep_last_def last_drop)

text \<open>Adding the entries one by one keeps the newest \<open>n\<close> of them all.\<close>

lemma keep_last_foldl:
  "foldl (\<lambda>w x. keep_last n (w @ [x])) (keep_last n xs) ys = keep_last n (xs @ ys)"
proof (induction ys arbitrary: xs)
  case Nil
  show ?case by simp
next
  case (Cons y ys)
  have "foldl (\<lambda>w x. keep_last n (w @ [x])) (keep_last n xs) (y # ys)
      = foldl (\<lambda>w x. keep_last n (w @ [x])) (keep_last n (xs @ [y])) ys"
    by (simp add: keep_last_append)
  then show ?case by (simp add: Cons.IH)
qed

section \<open>Three-way comparison\<close>

text \<open>
  Go's \<^verbatim>\<open>Compare\<close> functions return a negative, zero or positive integer. A comparator is
  antisymmetric and transitive; comparing by one key and then by another is again one.
\<close>

locale comparator =
  fixes cmp :: "'a \<Rightarrow> 'a \<Rightarrow> int"
  assumes antisym: "cmp x y = - cmp y x"
    and trans: "cmp x y \<le> 0 \<Longrightarrow> cmp y z \<le> 0 \<Longrightarrow> cmp x z \<le> 0"
begin

lemma refl: "cmp x x = 0"
  using antisym [of x x] by simp

lemma total: "cmp x y \<le> 0 \<or> cmp y x \<le> 0"
  using antisym [of x y] by linarith

lemma le_less_trans: "cmp x y \<le> 0 \<Longrightarrow> cmp y z < 0 \<Longrightarrow> cmp x z < 0"
  using trans [of x y z] trans [of z x y] antisym [of x z] antisym [of y z] by force

lemma less_le_trans: "cmp x y < 0 \<Longrightarrow> cmp y z \<le> 0 \<Longrightarrow> cmp x z < 0"
  using trans [of x y z] trans [of y z x] antisym [of x z] antisym [of x y] by force

lemma ge_trans: "cmp x y \<ge> 0 \<Longrightarrow> cmp y z \<ge> 0 \<Longrightarrow> cmp x z \<ge> 0"
  using trans [of z y x] antisym [of x y] antisym [of y z] antisym [of x z] by linarith

end

lemma comparator_lex:
  assumes "comparator c1" and "comparator c2"
  shows "comparator (\<lambda>x y. if c1 x y \<noteq> 0 then c1 x y else c2 x y)"
proof
  fix x y
  show "(if c1 x y \<noteq> 0 then c1 x y else c2 x y) = - (if c1 y x \<noteq> 0 then c1 y x else c2 y x)"
    using comparator.antisym [OF assms(1), of x y] comparator.antisym [OF assms(2), of x y]
    by auto
next
  fix x y z
  assume xy: "(if c1 x y \<noteq> 0 then c1 x y else c2 x y) \<le> 0"
    and yz: "(if c1 y z \<noteq> 0 then c1 y z else c2 y z) \<le> 0"
  have le: "c1 x y \<le> 0" "c1 y z \<le> 0"
    using xy yz by (auto split: if_splits)
  show "(if c1 x z \<noteq> 0 then c1 x z else c2 x z) \<le> 0"
  proof (cases "c1 x y = 0 \<and> c1 y z = 0")
    case True
    then show ?thesis
      using xy yz comparator.trans [OF assms(2), of x y z] comparator.trans [OF assms(1), of x y z]
      by auto
  next
    case False
    then have "c1 x z < 0"
      using le comparator.le_less_trans [OF assms(1), of x y z]
        comparator.less_le_trans [OF assms(1), of x y z]
      by (meson less_le)
    then show ?thesis by simp
  qed
qed

lemma comparator_pull: "comparator c \<Longrightarrow> comparator (\<lambda>x y. c (f x) (f y))"
  by (unfold_locales) (auto intro: comparator.antisym comparator.trans)

section \<open>More on maps\<close>

lemma mdel_absent: "mget m k = None \<Longrightarrow> mdel k m = m"
  by (induction m) (auto simp: mget_def mdel_def split: if_splits)

lemma mcount_cong: "(\<And>k v. (k, v) \<in> set m \<Longrightarrow> P v = Q v) \<Longrightarrow> mcount P m = mcount Q m"
  unfolding mcount_def by (rule arg_cong [where f = length], rule filter_cong) force+

text \<open>Collecting the keys of all entries that satisfy a test, as the drop operations do.\<close>

lemma keys_where: "mwf m \<Longrightarrow> k \<in> set (map fst (filter (\<lambda>e. P (snd e)) m)) \<longleftrightarrow> (\<exists>v. mget m k = Some v \<and> P v)"
  by (force simp: mget_in_set [symmetric])

lemma distinct_map_remove1: "distinct (map f xs) \<Longrightarrow> distinct (map f (remove1 x xs))"
  by (simp add: distinct_map distinct_remove1) (meson inj_on_diff)

text \<open>Updating an entry without changing what a projection sees of it.\<close>

lemma nth_update_proj: "f x = f (xs ! p) \<Longrightarrow> f (xs[p := x] ! q) = f (xs ! q)"
  by (cases "p < length xs"; cases "q = p") (simp_all add: list_update_beyond)

end
