(* ===== verification/Go_Strings.thy ===== *)
theory Go_Strings
  imports Prelude "HOL-Library.Sublist"
begin

text \<open>
  The functions of Go's standard library on strings that the program calls: trimming, splitting,
  prefix and substring tests, comparison and decimal conversion. A Go string is a sequence of bytes,
  here a list of \<open>char\<close>; a non-ASCII character is its UTF-8 bytes.
\<close>

section \<open>Prefixes and substrings\<close>

definition HasPrefix :: "string \<Rightarrow> string \<Rightarrow> bool" where
  "HasPrefix s p \<longleftrightarrow> take (length p) s = p"

definition HasSuffix :: "string \<Rightarrow> string \<Rightarrow> bool" where
  "HasSuffix s p \<longleftrightarrow> length p \<le> length s \<and> drop (length s - length p) s = p"

definition TrimPrefix :: "string \<Rightarrow> string \<Rightarrow> string" where
  "TrimPrefix s p = (if HasPrefix s p then drop (length p) s else s)"

definition TrimSuffix :: "string \<Rightarrow> string \<Rightarrow> string" where
  "TrimSuffix s p = (if HasSuffix s p then take (length s - length p) s else s)"

fun Contains :: "string \<Rightarrow> string \<Rightarrow> bool" where
  "Contains [] p = (p = [])"
| "Contains (c # s) p = (HasPrefix (c # s) p \<or> Contains s p)"

lemma HasPrefix_prefix: "HasPrefix s p \<longleftrightarrow> prefix p s"
  by (metis HasPrefix_def append_eq_conv_conj append_take_drop_id prefix_def)

lemma HasSuffix_suffix: "HasSuffix s p \<longleftrightarrow> suffix p s"
proof
  assume "HasSuffix s p"
  then have "s = take (length s - length p) s @ p"
    by (metis HasSuffix_def append_take_drop_id)
  then show "suffix p s" by (metis suffix_def)
next
  assume "suffix p s"
  then obtain u where "s = u @ p" by (auto simp: suffix_def)
  then show "HasSuffix s p" by (simp add: HasSuffix_def)
qed

lemma HasPrefix_append [simp]: "HasPrefix (p @ s) p"
  by (simp add: HasPrefix_def)

lemma TrimPrefix_append [simp]: "TrimPrefix (p @ s) p = s"
  by (simp add: TrimPrefix_def)

lemma Contains_char: "Contains s [c] \<longleftrightarrow> c \<in> set s"
  by (induction s) (auto simp: HasPrefix_def)

lemma Contains_sublist: "Contains s p \<longleftrightarrow> sublist p s"
  by (induction s) (auto simp: HasPrefix_prefix sublist_Cons_right)

section \<open>White space\<close>

text \<open>
  The UTF-8 encodings of the characters for which \<^verbatim>\<open>unicode.IsSpace\<close> holds. No encoding is a
  prefix or a suffix of the other, so trimming one encoding after the other is what
  \<^verbatim>\<open>strings.TrimSpace\<close> does rune by rune.
\<close>

definition space_runes :: "string list" where
  "space_runes =
    [[CHR 0x20], [CHR 0x09], [CHR 0x0A], [CHR 0x0B], [CHR 0x0C], [CHR 0x0D],
     [CHR 0xC2, CHR 0x85], [CHR 0xC2, CHR 0xA0], [CHR 0xE1, CHR 0x9A, CHR 0x80],
     [CHR 0xE2, CHR 0x80, CHR 0x80], [CHR 0xE2, CHR 0x80, CHR 0x81], [CHR 0xE2, CHR 0x80, CHR 0x82],
     [CHR 0xE2, CHR 0x80, CHR 0x83], [CHR 0xE2, CHR 0x80, CHR 0x84], [CHR 0xE2, CHR 0x80, CHR 0x85],
     [CHR 0xE2, CHR 0x80, CHR 0x86], [CHR 0xE2, CHR 0x80, CHR 0x87], [CHR 0xE2, CHR 0x80, CHR 0x88],
     [CHR 0xE2, CHR 0x80, CHR 0x89], [CHR 0xE2, CHR 0x80, CHR 0x8A], [CHR 0xE2, CHR 0x80, CHR 0xA8],
     [CHR 0xE2, CHR 0x80, CHR 0xA9], [CHR 0xE2, CHR 0x80, CHR 0xAF], [CHR 0xE2, CHR 0x81, CHR 0x9F],
     [CHR 0xE3, CHR 0x80, CHR 0x80]]"

definition lead_space :: "string \<Rightarrow> nat" where
  "lead_space s = (case List.find (\<lambda>w. HasPrefix s w) space_runes of None \<Rightarrow> 0 | Some w \<Rightarrow> length w)"

definition trail_space :: "string \<Rightarrow> nat" where
  "trail_space s = (case List.find (\<lambda>w. HasSuffix s w) space_runes of None \<Rightarrow> 0 | Some w \<Rightarrow> length w)"

lemma find_SomeD: "List.find P xs = Some x \<Longrightarrow> P x \<and> x \<in> set xs"
  by (auto simp: find_Some_iff)

lemma space_runes_nonempty: "w \<in> set space_runes \<Longrightarrow> w \<noteq> []"
  by (auto simp: space_runes_def)

lemma lead_space_le: "lead_space s \<le> length s"
  by (auto simp: lead_space_def HasPrefix_prefix find_Some_iff split: option.splits
      dest: prefix_length_le)

lemma trail_space_le: "trail_space s \<le> length s"
  by (auto simp: trail_space_def HasSuffix_suffix find_Some_iff split: option.splits
      dest: suffix_length_le)

lemma lead_space_zero_iff: "lead_space s = 0 \<longleftrightarrow> (\<forall>w \<in> set space_runes. \<not> prefix w s)"
  by (auto simp: lead_space_def HasPrefix_prefix find_None_iff split: option.splits
      dest!: find_SomeD dest: space_runes_nonempty)

lemma trail_space_zero_iff: "trail_space s = 0 \<longleftrightarrow> (\<forall>w \<in> set space_runes. \<not> suffix w s)"
  by (auto simp: trail_space_def HasSuffix_suffix find_None_iff split: option.splits
      dest!: find_SomeD dest: space_runes_nonempty)

function trim_left :: "string \<Rightarrow> string" where
  "trim_left s = (if lead_space s = 0 then s else trim_left (drop (lead_space s) s))"
  by pat_completeness auto
termination
proof (relation "measure length")
  fix s assume "lead_space s \<noteq> 0"
  then show "(drop (lead_space s) s, s) \<in> measure length"
    using lead_space_le [of s] by simp
qed simp

function trim_right :: "string \<Rightarrow> string" where
  "trim_right s = (if trail_space s = 0 then s else trim_right (take (length s - trail_space s) s))"
  by pat_completeness auto
termination
proof (relation "measure length")
  fix s assume "trail_space s \<noteq> 0"
  then show "(take (length s - trail_space s) s, s) \<in> measure length"
    using trail_space_le [of s] by simp
qed simp

declare trim_left.simps [simp del] trim_right.simps [simp del]

definition TrimSpace :: "string \<Rightarrow> string" where
  "TrimSpace s = trim_right (trim_left s)"

lemma trim_left_lead: "lead_space (trim_left s) = 0"
proof (induction s rule: trim_left.induct)
  case (1 s)
  show ?case
    using "1.IH" by (cases "lead_space s = 0") (simp_all add: trim_left.simps [of s])
qed

lemma trim_right_trail: "trail_space (trim_right s) = 0"
proof (induction s rule: trim_right.induct)
  case (1 s)
  show ?case
    using "1.IH" by (cases "trail_space s = 0") (simp_all add: trim_right.simps [of s])
qed

lemma trim_left_suffix: "suffix (trim_left s) s"
proof (induction s rule: trim_left.induct)
  case (1 s)
  show ?case
    using "1.IH" suffix_drop [of "lead_space s" s]
    by (cases "lead_space s = 0") (auto simp: trim_left.simps [of s] intro: suffix_order.trans)
qed

lemma trim_right_prefix: "prefix (trim_right s) s"
proof (induction s rule: trim_right.induct)
  case (1 s)
  show ?case
    using "1.IH" take_is_prefix [of "length s - trail_space s" s]
    by (cases "trail_space s = 0") (auto simp: trim_right.simps [of s] intro: prefix_order.trans)
qed

lemma trim_left_id: "lead_space s = 0 \<Longrightarrow> trim_left s = s"
  by (simp add: trim_left.simps [of s])

lemma trim_right_id: "trail_space s = 0 \<Longrightarrow> trim_right s = s"
  by (simp add: trim_right.simps [of s])

lemma lead_space_prefix: "prefix t s \<Longrightarrow> lead_space s = 0 \<Longrightarrow> lead_space t = 0"
  by (auto simp: lead_space_zero_iff dest: prefix_order.trans)

lemma trail_space_suffix: "suffix t s \<Longrightarrow> trail_space s = 0 \<Longrightarrow> trail_space t = 0"
  by (auto simp: trail_space_zero_iff dest: suffix_order.trans)

lemma TrimSpace_lead: "lead_space (TrimSpace s) = 0"
  using lead_space_prefix [OF trim_right_prefix trim_left_lead] by (simp add: TrimSpace_def)

lemma TrimSpace_trail: "trail_space (TrimSpace s) = 0"
  by (simp add: TrimSpace_def trim_right_trail)

lemma TrimSpace_id: "lead_space s = 0 \<Longrightarrow> trail_space s = 0 \<Longrightarrow> TrimSpace s = s"
  by (simp add: TrimSpace_def trim_left_id trim_right_id)

lemma TrimSpace_idem [simp]: "TrimSpace (TrimSpace s) = TrimSpace s"
  by (rule TrimSpace_id) (rule TrimSpace_lead, rule TrimSpace_trail)

lemma TrimSpace_sublist: "sublist (TrimSpace s) s"
  unfolding TrimSpace_def
  by (metis prefix_imp_sublist sublist_order.order.trans suffix_imp_sublist trim_left_suffix
      trim_right_prefix)

lemma set_TrimSpace: "set (TrimSpace s) \<subseteq> set s"
  by (rule set_mono_sublist [OF TrimSpace_sublist])

text \<open>A printable ASCII character neither starts nor ends a white space rune.\<close>

definition plain_char :: "char \<Rightarrow> bool" where
  "plain_char c \<longleftrightarrow> 0x21 \<le> (of_char c :: int) \<and> (of_char c :: int) \<le> 0x7E"

lemma plain_lead: "plain_char c \<Longrightarrow> lead_space (c # s) = 0"
  unfolding lead_space_zero_iff by (auto simp: plain_char_def space_runes_def)

lemma plain_trail: "plain_char c \<Longrightarrow> trail_space (s @ [c]) = 0"
  unfolding trail_space_zero_iff
  by (auto simp: plain_char_def space_runes_def suffix_def append_eq_append_conv2 Cons_eq_append_conv)

lemma TrimSpace_plain:
  "plain_char (hd s) \<Longrightarrow> plain_char (last s) \<Longrightarrow> s \<noteq> [] \<Longrightarrow> TrimSpace s = s"
  by (metis TrimSpace_id append_butlast_last_id list.collapse plain_lead plain_trail)

lemma TrimSpace_Nil [simp]: "TrimSpace [] = []"
  by (rule TrimSpace_id) (auto simp: lead_space_zero_iff trail_space_zero_iff space_runes_nonempty)

section \<open>Splitting and joining\<close>

text \<open>\<^verbatim>\<open>strings.Split\<close> with a one-byte separator: one part more than there are separators.\<close>

fun Split :: "char \<Rightarrow> string \<Rightarrow> string list" where
  "Split d [] = [[]]"
| "Split d (c # s) =
     (if c = d then [] # Split d s
      else (case Split d s of [] \<Rightarrow> [[c]] | p # ps \<Rightarrow> (c # p) # ps))"

fun Join :: "string \<Rightarrow> string list \<Rightarrow> string" where
  "Join sep [] = []"
| "Join sep [p] = p"
| "Join sep (p # q # ps) = p @ sep @ Join sep (q # ps)"

lemma Split_nonempty [simp]: "Split d s \<noteq> []"
  by (induction s) (auto split: list.splits)

lemma Join_Split: "Join [d] (Split d s) = s"
proof (induction s)
  case Nil
  show ?case by simp
next
  case (Cons c s)
  obtain p ps where "Split d s = p # ps" by (cases "Split d s") auto
  with Cons show ?case by (cases ps) auto
qed

lemma Split_no_sep: "p \<in> set (Split d s) \<Longrightarrow> d \<notin> set p"
proof (induction s arbitrary: p)
  case Nil
  then show ?case by simp
next
  case (Cons c s)
  obtain q qs where "Split d s = q # qs" by (cases "Split d s") auto
  with Cons show ?case by (auto split: if_splits)
qed

lemma Split_append_sep: "d \<notin> set p \<Longrightarrow> Split d (p @ d # s) = p # Split d s"
  by (induction p) auto

lemma Split_single: "d \<notin> set p \<Longrightarrow> Split d p = [p]"
  by (induction p) auto

lemma Split_Join:
  "ps \<noteq> [] \<Longrightarrow> \<forall>p \<in> set ps. d \<notin> set p \<Longrightarrow> Split d (Join [d] ps) = ps"
proof (induction "[d]" ps rule: Join.induct)
  case 1
  then show ?case by simp
next
  case (2 p)
  then show ?case by (simp add: Split_single)
next
  case (3 p q ps)
  then show ?case by (simp add: Split_append_sep)
qed

lemma Split_hd: "hd (Split d s) = takeWhile (\<lambda>c. c \<noteq> d) s"
  by (induction s) (auto split: list.splits)

lemma length_Split: "length (Split d s) = Suc (count_list s d)"
  by (induction s) (auto split: list.splits)

text \<open>\<^verbatim>\<open>strings.Cut\<close> with a one-byte separator.\<close>

fun Cut :: "char \<Rightarrow> string \<Rightarrow> string \<times> string \<times> bool" where
  "Cut d [] = ([], [], False)"
| "Cut d (c # s) =
     (if c = d then ([], s, True) else (case Cut d s of (a, b, ok) \<Rightarrow> (c # a, b, ok)))"

lemma Cut_append: "d \<notin> set a \<Longrightarrow> Cut d (a @ d # b) = (a, b, True)"
  by (induction a) auto

lemma Cut_found: "Cut d s = (a, b, True) \<Longrightarrow> s = a @ d # b \<and> d \<notin> set a"
  by (induction s arbitrary: a) (auto split: if_splits prod.splits)

section \<open>Comparison\<close>

text \<open>\<^verbatim>\<open>strings.Compare\<close>: bytewise lexicographic.\<close>

fun strings_Compare :: "string \<Rightarrow> string \<Rightarrow> int" where
  "strings_Compare [] [] = 0"
| "strings_Compare [] (d # t) = -1"
| "strings_Compare (c # s) [] = 1"
| "strings_Compare (c # s) (d # t) =
     (if (of_char c :: int) < of_char d then -1
      else if (of_char d :: int) < of_char c then 1 else strings_Compare s t)"

lemma strings_Compare_zero_iff: "strings_Compare s t = 0 \<longleftrightarrow> s = t"
  by (induction s t rule: strings_Compare.induct)
    (auto simp: not_less dest: order_antisym)

lemma strings_Compare_refl [simp]: "strings_Compare s s = 0"
  by (simp add: strings_Compare_zero_iff)

lemma strings_Compare_range: "strings_Compare s t \<in> {-1, 0, 1}"
  by (induction s t rule: strings_Compare.induct) auto

lemma strings_Compare_antisym: "strings_Compare s t = - strings_Compare t s"
proof -
  have "strings_Compare s t + strings_Compare t s = 0"
    by (induction s t rule: strings_Compare.induct) simp_all
  then show ?thesis by linarith
qed

lemma strings_Compare_trans:
  "strings_Compare s t \<le> 0 \<Longrightarrow> strings_Compare t u \<le> 0 \<Longrightarrow> strings_Compare s u \<le> 0"
proof (induction s t arbitrary: u rule: strings_Compare.induct)
  case (4 c s d t)
  show ?case
  proof (cases u)
    case Nil
    with "4.prems" show ?thesis by simp
  next
    case (Cons e v)
    define x y z where "x = (of_char c :: int)" and "y = (of_char d :: int)"
      and "z = (of_char e :: int)"
    have 1: "x < y \<or> x = y \<and> strings_Compare s t \<le> 0"
      using "4.prems"(1) by (simp add: x_def y_def split: if_splits)
    have 2: "y < z \<or> y = z \<and> strings_Compare t v \<le> 0"
      using "4.prems"(2) by (simp add: y_def z_def Cons split: if_splits)
    have 3: "x = y \<Longrightarrow> strings_Compare s t \<le> 0 \<Longrightarrow> strings_Compare t v \<le> 0
        \<Longrightarrow> strings_Compare s v \<le> 0"
      using "4.IH" by (simp add: x_def y_def)
    from 1 2 have "x < z \<or> x = z \<and> strings_Compare s v \<le> 0"
      using 3 by auto
    then show ?thesis by (auto simp: Cons x_def z_def)
  qed
next
  case (2 d t)
  then show ?case by (cases u) auto
qed auto

interpretation str: comparator strings_Compare
  by unfold_locales (rule strings_Compare_antisym, rule strings_Compare_trans)

section \<open>Decimal numbers\<close>

text \<open>
  \<^verbatim>\<open>strconv.Atoi\<close> on a 64-bit platform. It returns a value beside the error: 0 for a syntax
  error, the nearest \<^verbatim>\<open>int64\<close> for a range error. The digits are read left to right, so an overflow
  is reported before a bad character that follows it.
\<close>

datatype num_error = ErrSyntax | ErrRange

definition is_digit :: "char \<Rightarrow> bool" where
  "is_digit c \<longleftrightarrow> 48 \<le> (of_char c :: int) \<and> (of_char c :: int) \<le> 57"

definition digit_val :: "char \<Rightarrow> int" where
  "digit_val c = of_char c - 48"

definition digit_char :: "int \<Rightarrow> char" where
  "digit_char n = char_of (48 + n)"

fun parse_uint :: "int \<Rightarrow> string \<Rightarrow> num_error + int" where
  "parse_uint n [] = Inr n"
| "parse_uint n (c # cs) =
     (if \<not> is_digit c then Inl ErrSyntax
      else if n * 10 + digit_val c > 2 ^ 64 - 1 then Inl ErrRange
      else parse_uint (n * 10 + digit_val c) cs)"

definition atoi_unsigned :: "bool \<Rightarrow> string \<Rightarrow> int \<times> num_error option" where
  "atoi_unsigned neg s =
     (if s = [] then (0, Some ErrSyntax)
      else (case parse_uint 0 s of
          Inl ErrSyntax \<Rightarrow> (0, Some ErrSyntax)
        | Inl ErrRange \<Rightarrow> (if neg then - (2 ^ 63) else 2 ^ 63 - 1, Some ErrRange)
        | Inr n \<Rightarrow>
            (if \<not> neg \<and> n \<ge> 2 ^ 63 then (2 ^ 63 - 1, Some ErrRange)
             else if neg \<and> n > 2 ^ 63 then (- (2 ^ 63), Some ErrRange)
             else (if neg then - n else n, None))))"

definition Atoi :: "string \<Rightarrow> int \<times> num_error option" where
  "Atoi s =
     (case s of
        [] \<Rightarrow> (0, Some ErrSyntax)
      | c # cs \<Rightarrow>
          (if c = CHR ''+'' then atoi_unsigned False cs
           else if c = CHR ''-'' then atoi_unsigned True cs
           else atoi_unsigned False s))"

function int_digits :: "int \<Rightarrow> string" where
  "int_digits n =
     (if n < 10 then [digit_char n] else int_digits (n div 10) @ [digit_char (n mod 10)])"
  by pat_completeness auto
termination
  by (relation "measure nat") auto

declare int_digits.simps [simp del]

definition Itoa :: "int \<Rightarrow> string" where
  "Itoa n = (if n < 0 then CHR ''-'' # int_digits (- n) else int_digits n)"

lemma digit_char_val:
  "0 \<le> n \<Longrightarrow> n < 10 \<Longrightarrow> is_digit (digit_char n) \<and> digit_val (digit_char n) = n"
  by (simp add: is_digit_def digit_val_def digit_char_def)

lemma is_digit_plain: "is_digit c \<Longrightarrow> plain_char c"
  by (simp add: is_digit_def plain_char_def)

lemma int_digits_digits: "0 \<le> n \<Longrightarrow> c \<in> set (int_digits n) \<Longrightarrow> is_digit c"
proof (induction n rule: int_digits.induct)
  case (1 n)
  then show ?case
    by (cases "n < 10") (auto simp: int_digits.simps [of n] digit_char_val)
qed

lemma int_digits_nonempty [simp]: "int_digits n \<noteq> []"
  by (simp add: int_digits.simps [of n])

lemma parse_uint_append:
  "parse_uint a (s @ [c]) =
     (case parse_uint a s of Inl e \<Rightarrow> Inl e | Inr n \<Rightarrow> parse_uint n [c])"
  by (induction a s rule: parse_uint.induct) auto

lemma parse_uint_int_digits:
  "0 \<le> n \<Longrightarrow> n < 2 ^ 64 \<Longrightarrow> parse_uint 0 (int_digits n) = Inr n"
proof (induction n rule: int_digits.induct)
  case (1 n)
  show ?case
  proof (cases "n < 10")
    case True
    with "1.prems" show ?thesis by (simp add: int_digits.simps [of n] digit_char_val)
  next
    case False
    with "1" have "parse_uint 0 (int_digits (n div 10)) = Inr (n div 10)" by simp
    then show ?thesis
      using False "1.prems"
      by (simp add: int_digits.simps [of n] parse_uint_append digit_char_val)
  qed
qed

lemma digit_not_sign: "is_digit c \<Longrightarrow> c \<noteq> CHR ''+'' \<and> c \<noteq> CHR ''-''"
  by (auto simp: is_digit_def)

text \<open>Printing and reading back an \<^verbatim>\<open>int\<close> gives the same number.\<close>

lemma Atoi_Itoa: "- (2 ^ 63) \<le> n \<Longrightarrow> n < 2 ^ 63 \<Longrightarrow> Atoi (Itoa n) = (n, None)"
proof (cases "n < 0")
  case True
  assume "- (2 ^ 63) \<le> n"
  with True show ?thesis
    by (simp add: Itoa_def Atoi_def atoi_unsigned_def parse_uint_int_digits)
next
  case False
  assume "n < 2 ^ 63"
  obtain c cs where cs: "int_digits n = c # cs" by (cases "int_digits n") auto
  then have "is_digit c" using int_digits_digits [of n c] False by simp
  moreover have "parse_uint 0 (c # cs) = Inr n"
    using \<open>n < 2 ^ 63\<close> False parse_uint_int_digits [of n] by (simp add: cs)
  ultimately show ?thesis
    using False \<open>n < 2 ^ 63\<close> digit_not_sign [of c]
    by (simp add: Itoa_def Atoi_def cs atoi_unsigned_def)
qed

lemma parse_uint_nonneg: "0 \<le> n \<Longrightarrow> parse_uint n s = Inr m \<Longrightarrow> 0 \<le> m"
  by (induction n s rule: parse_uint.induct) (auto simp: is_digit_def digit_val_def split: if_splits)

lemma atoi_unsigned_range:
  "- (2 ^ 63) \<le> fst (atoi_unsigned neg s) \<and> fst (atoi_unsigned neg s) < 2 ^ 63"
proof (cases "parse_uint 0 s")
  case (Inl e)
  then show ?thesis by (cases e) (simp_all add: atoi_unsigned_def)
next
  case (Inr m)
  with parse_uint_nonneg [OF _ this] show ?thesis by (simp add: atoi_unsigned_def)
qed

lemma Atoi_range: "- (2 ^ 63) \<le> fst (Atoi s) \<and> fst (Atoi s) < 2 ^ 63"
  using atoi_unsigned_range by (auto simp: Atoi_def split: list.splits)

lemma Itoa_plain: "c \<in> set (Itoa n) \<Longrightarrow> plain_char c"
  using int_digits_digits [of n c] int_digits_digits [of "- n" c] is_digit_plain [of c]
  by (auto simp: Itoa_def plain_char_def split: if_splits)


section \<open>Fields\<close>

text \<open>\<^verbatim>\<open>strings.Fields\<close>: the maximal runs of non-space runes.\<close>

fun field_run :: "string \<Rightarrow> string" where
  "field_run [] = []"
| "field_run (c # s) = (if lead_space (c # s) \<noteq> 0 then [] else c # field_run s)"

lemma field_run_nonempty: "lead_space s = 0 \<Longrightarrow> s \<noteq> [] \<Longrightarrow> field_run s \<noteq> []"
  by (cases s) simp_all

lemma length_trim_left: "length (trim_left s) \<le> length s"
  using trim_left_suffix [of s] by (rule suffix_length_le)

function Fields :: "string \<Rightarrow> string list" where
  "Fields s =
     (let t = trim_left s
      in if t = [] then [] else field_run t # Fields (drop (length (field_run t)) t))"
  by pat_completeness auto

termination
proof (relation "measure length")
  fix s t :: string assume t: "t = trim_left s" "t \<noteq> []"
  have "0 < length (field_run t)" using field_run_nonempty [of t] trim_left_lead [of s] t by simp
  moreover have "0 < length t" using t by simp
  ultimately have "length t - length (field_run t) < length s"
    using length_trim_left [of s] unfolding t(1) by linarith
  then show "(drop (length (field_run t)) t, s) \<in> measure length" by simp
qed simp

declare Fields.simps [simp del]

section \<open>Trimming, folding and lines\<close>

text \<open>\<^verbatim>\<open>strings.TrimRight\<close> with a cutset of one ASCII character.\<close>

definition TrimRight :: "string \<Rightarrow> char \<Rightarrow> string" where
  "TrimRight s ch = rev (dropWhile (\<lambda>x. x = ch) (rev s))"

text \<open>
  \<^verbatim>\<open>strings.ToLower\<close> and \<^verbatim>\<open>strings.EqualFold\<close> on ASCII letters. The callers compare with hexadecimal digits
  and header names, none of whose letters has a non-ASCII case variant.
\<close>

definition lower_char :: "char \<Rightarrow> char" where
  "lower_char c = (if 65 \<le> (of_char c :: int) \<and> (of_char c :: int) \<le> 90 then char_of ((of_char c :: int) + 32) else c)"

definition ToLower :: "string \<Rightarrow> string" where
  "ToLower s = map lower_char s"

definition EqualFold :: "string \<Rightarrow> string \<Rightarrow> bool" where
  "EqualFold s t \<longleftrightarrow> ToLower s = ToLower t"

text \<open>
  \<^verbatim>\<open>bufio.Scanner\<close> over a string with its default split function: lines without their line end, up to the first
  line that does not fit the 64 KiB buffer, which ends the scan.
\<close>

definition MaxScanTokenSize :: nat where "MaxScanTokenSize = 64 * 1024"

definition drop_cr :: "string \<Rightarrow> string" where
  "drop_cr s = TrimSuffix s [CHR 0x0D]"

function Scan_lines :: "string \<Rightarrow> string list" where
  "Scan_lines s =
     (if s = [] then []
      else let l = takeWhile (\<lambda>c. c \<noteq> CHR 0x0A) s
           in if length l \<ge> MaxScanTokenSize then []
              else drop_cr l # Scan_lines (drop (Suc (length l)) s))"
  by pat_completeness auto

termination
  by (relation "measure length") auto

declare Scan_lines.simps [simp del]

lemma Scan_lines_Nil [simp]: "Scan_lines [] = []"
  by (simp add: Scan_lines.simps)

lemma takeWhile_line: "d \<notin> set l \<Longrightarrow> takeWhile (\<lambda>c. c \<noteq> d) (l @ d # s) = l"
  by (induction l) auto

lemma Scan_lines_line:
  "CHR 0x0A \<notin> set l \<Longrightarrow> length l < MaxScanTokenSize \<Longrightarrow>
   Scan_lines (l @ CHR 0x0A # s) = drop_cr l # Scan_lines s"
  by (simp add: Scan_lines.simps [of "l @ CHR 0x0A # s"] takeWhile_line not_le)

lemma TrimRight_keep: "s \<noteq> [] \<Longrightarrow> last s \<noteq> ch \<Longrightarrow> TrimRight s ch = s"
  by (cases s rule: rev_cases) (simp_all add: TrimRight_def)

end
