(* ===== verification/Version.thy ===== *)
theory Version
  imports Go_Strings
begin

text \<open>
  Version strings, \<^verbatim>\<open>shared/version/version.go\<close>: normalisation, display and the comparison that gates
  probe features on the Host and self-updates on the probe. The comparison is shown to be a total
  order on normalised strings, which is what makes the gates monotone.
\<close>

definition Unknown :: string where "Unknown = ''unknown''"
definition Dev :: string where "Dev = ''dev''"

definition Clean :: "string \<Rightarrow> string" where
  "Clean v = TrimPrefix (TrimPrefix (TrimSpace v) ''v'') ''V''"

definition IsUnknown :: "string \<Rightarrow> bool" where
  "IsUnknown v = (let clean = Clean v in clean = '''' \<or> clean = Unknown \<or> clean = Dev)"

definition Display :: "string \<Rightarrow> string" where
  "Display v =
     (let raw = TrimSpace v in
      if raw = '''' then ''''
      else let clean = Clean raw in
        if clean = '''' \<or> (of_char (hd clean) :: int) < of_char (CHR ''0'')
           \<or> (of_char (hd clean) :: int) > of_char (CHR ''9'')
        then raw
        else ''v'' @ clean)"

text \<open>The loop over the dotted parts: a missing or malformed part counts as 0.\<close>

definition part_num :: "string list \<Rightarrow> nat \<Rightarrow> int" where
  "part_num parts i = (if i < length parts then fst (Atoi (parts ! i)) else 0)"

fun compare_parts :: "(nat \<Rightarrow> int) \<Rightarrow> (nat \<Rightarrow> int) \<Rightarrow> nat list \<Rightarrow> int" where
  "compare_parts f g [] = 0"
| "compare_parts f g (i # is) =
     (if f i > g i then 1 else if f i < g i then -1 else compare_parts f g is)"

definition core_parts :: "string \<Rightarrow> string list" where
  "core_parts v = Split (CHR ''.'') (hd (Split (CHR ''-'') v))"

definition Compare :: "string \<Rightarrow> string \<Rightarrow> int" where
  "Compare a b =
     (let v1 = Clean a; v2 = Clean b in
      if v1 = v2 then 0
      else
        let parts1 = core_parts v1; parts2 = core_parts v2;
            maxLen = (if length parts2 > length parts1 then length parts2 else length parts1);
            c = compare_parts (part_num parts1) (part_num parts2) [0..<maxLen]
        in if c \<noteq> 0 then c
           else let hasPre1 = Contains v1 ''-''; hasPre2 = Contains v2 ''-'' in
             if hasPre1 \<and> \<not> hasPre2 then -1
             else if \<not> hasPre1 \<and> hasPre2 then 1
             else strings_Compare v1 v2)"

definition AtLeast :: "string \<Rightarrow> string \<Rightarrow> bool" where
  "AtLeast v minv = (if IsUnknown v \<or> IsUnknown minv then False else Compare v minv \<ge> 0)"

definition IsNewer :: "string \<Rightarrow> string \<Rightarrow> bool" where
  "IsNewer latest current =
     (if Clean latest = '''' then False
      else if IsUnknown current then True
      else Compare latest current > 0)"

section \<open>Comparing the dotted parts\<close>

lemma compare_parts_range: "compare_parts f g is \<in> {-1, 0, 1}"
  by (induction "is") auto

lemma compare_parts_zero: "\<forall>i \<in> set is. f i = g i \<Longrightarrow> compare_parts f g is = 0"
  by (induction "is") auto

lemma compare_parts_append:
  "compare_parts f g (is @ js) =
     (if compare_parts f g is \<noteq> 0 then compare_parts f g is else compare_parts f g js)"
  by (induction "is") auto

text \<open>Padding with zeros changes nothing, so three lists can be compared over one length.\<close>

lemma compare_parts_pad:
  assumes "n \<le> m" and "\<And>i. n \<le> i \<Longrightarrow> f i = 0" and "\<And>i. n \<le> i \<Longrightarrow> g i = 0"
  shows "compare_parts f g [0..<m] = compare_parts f g [0..<n]"
proof -
  have "[0..<m] = [0..<n] @ [n..<m]"
    using assms(1) by (metis le0 le_add_diff_inverse upt_add_eq_append)
  moreover have "compare_parts f g [n..<m] = 0"
    by (rule compare_parts_zero) (simp add: assms(2,3))
  ultimately show ?thesis by (simp add: compare_parts_append)
qed

lemma compare_parts_antisym: "compare_parts f g is = - compare_parts g f is"
  by (induction "is") auto

lemma compare_parts_trans:
  "compare_parts f g is \<le> 0 \<Longrightarrow> compare_parts g h is \<le> 0 \<Longrightarrow> compare_parts f h is \<le> 0"
  by (induction "is") (auto split: if_splits)

lemma part_num_pad: "length parts \<le> i \<Longrightarrow> part_num parts i = 0"
  by (simp add: part_num_def)

definition nums_cmp :: "string \<Rightarrow> string \<Rightarrow> int" where
  "nums_cmp v1 v2 =
     compare_parts (part_num (core_parts v1)) (part_num (core_parts v2))
       [0..<max (length (core_parts v1)) (length (core_parts v2))]"

lemma nums_cmp_pad:
  assumes "length (core_parts v1) \<le> m" and "length (core_parts v2) \<le> m"
  shows "nums_cmp v1 v2 =
    compare_parts (part_num (core_parts v1)) (part_num (core_parts v2)) [0..<m]"
  unfolding nums_cmp_def
  by (rule compare_parts_pad [symmetric]) (use assms in \<open>auto simp: part_num_pad\<close>)

lemma nums_cmp_comparator: "comparator nums_cmp"
proof
  fix x y
  show "nums_cmp x y = - nums_cmp y x"
    unfolding nums_cmp_def by (subst compare_parts_antisym) (simp add: max.commute)
next
  fix x y z
  define m where "m = max (length (core_parts x))
    (max (length (core_parts y)) (length (core_parts z)))"
  assume "nums_cmp x y \<le> 0" and "nums_cmp y z \<le> 0"
  then show "nums_cmp x z \<le> 0"
    using compare_parts_trans [of "part_num (core_parts x)" "part_num (core_parts y)" "[0..<m]"]
    by (simp add: nums_cmp_pad [of _ m] m_def)
qed

definition pre_cmp :: "string \<Rightarrow> string \<Rightarrow> int" where
  "pre_cmp v1 v2 =
     (if Contains v1 ''-'' \<and> \<not> Contains v2 ''-'' then -1
      else if \<not> Contains v1 ''-'' \<and> Contains v2 ''-'' then 1 else 0)"

lemma pre_cmp_comparator: "comparator pre_cmp"
  by unfold_locales (auto simp: pre_cmp_def split: if_splits)

text \<open>
  \<^verbatim>\<open>Compare\<close> is the lexicographic order by numeric parts, then release before pre-release, then
  bytes, on the normalised strings.
\<close>

lemma max_code: "(if b > a then b else a) = max a (b :: nat)"
  by simp

lemma Compare_lex:
  "Compare a b =
     (if nums_cmp (Clean a) (Clean b) \<noteq> 0 then nums_cmp (Clean a) (Clean b)
      else if pre_cmp (Clean a) (Clean b) \<noteq> 0 then pre_cmp (Clean a) (Clean b)
      else strings_Compare (Clean a) (Clean b))"
proof (cases "Clean a = Clean b")
  case True
  then show ?thesis
    using comparator.refl [OF nums_cmp_comparator, of "Clean b"]
    by (simp add: Compare_def pre_cmp_def)
next
  case False
  then show ?thesis
    unfolding Compare_def nums_cmp_def pre_cmp_def Let_def max_code by auto
qed

definition version_cmp :: "string \<Rightarrow> string \<Rightarrow> int" where
  "version_cmp x y =
     (if nums_cmp x y \<noteq> 0 then nums_cmp x y
      else (\<lambda>x y. if pre_cmp x y \<noteq> 0 then pre_cmp x y else strings_Compare x y) x y)"

lemma version_cmp_comparator: "comparator version_cmp"
  unfolding version_cmp_def [abs_def]
  by (rule comparator_lex [OF nums_cmp_comparator
        comparator_lex [OF pre_cmp_comparator str.comparator_axioms]])

lemma Compare_comparator: "comparator Compare"
proof -
  have "Compare = (\<lambda>a b. version_cmp (Clean a) (Clean b))"
    by (intro ext) (simp only: Compare_lex version_cmp_def)
  then show ?thesis
    using comparator_pull [OF version_cmp_comparator, of Clean] by simp
qed

interpretation ver: comparator Compare
  by (rule Compare_comparator)

lemma Compare_zero_iff: "Compare a b = 0 \<longleftrightarrow> Clean a = Clean b"
proof
  assume "Compare a b = 0"
  then show "Clean a = Clean b"
    by (auto simp: Compare_lex strings_Compare_zero_iff split: if_splits)
qed (simp add: Compare_def)

section \<open>Normalisation\<close>

lemma Clean_trail: "trail_space (Clean v) = 0"
proof -
  have "suffix (Clean v) (TrimSpace v)"
    unfolding Clean_def TrimPrefix_def
    by (simp add: suffix_drop)
  then show ?thesis using trail_space_suffix TrimSpace_trail by blast
qed

lemma Clean_TrimSpace [simp]: "Clean (TrimSpace v) = Clean v"
  by (simp add: Clean_def)

lemma digit_plain:
  "\<not> ((of_char c :: int) < of_char (CHR ''0'') \<or> (of_char c :: int) > of_char (CHR ''9''))
     \<longleftrightarrow> is_digit c"
  by (auto simp: is_digit_def not_less)

lemma Display_cases:
  "Display v = (if Clean v \<noteq> '''' \<and> is_digit (hd (Clean v)) then ''v'' @ Clean v else TrimSpace v)"
  using digit_plain [of "hd (Clean v)"]
  by (cases "TrimSpace v = ''''") (auto simp: Display_def Let_def Clean_def TrimPrefix_def HasPrefix_def)

lemma Clean_v_digits:
  assumes "is_digit (hd c)" "c \<noteq> ''''" "trail_space c = 0"
  shows "Clean (''v'' @ c) = c"
proof -
  have "suffix c (''v'' @ c)" by (simp add: suffix_def)
  have "lead_space (''v'' @ c) = 0" using plain_lead [of "CHR ''v''" c] by (simp add: plain_char_def)
  moreover have "trail_space (''v'' @ c) = 0"
  proof -
    have "plain_char (CHR ''v'')" by (simp add: plain_char_def)
    show ?thesis
      unfolding trail_space_zero_iff
    proof
      fix w assume w: "w \<in> set space_runes"
      show "\<not> suffix w (''v'' @ c)"
      proof
        assume "suffix w (''v'' @ c)"
        then have "suffix w c \<or> w = ''v'' @ c"
          using suffix_ConsD2 by (auto simp: suffix_Cons)
        moreover have "\<not> suffix w c" using assms(3) w by (simp add: trail_space_zero_iff)
        moreover have "w \<noteq> ''v'' @ c" using w by (auto simp: space_runes_def)
        ultimately show False by blast
      qed
    qed
  qed
  ultimately have "TrimSpace (''v'' @ c) = ''v'' @ c" by (rule TrimSpace_id)
  moreover have "hd c \<noteq> CHR ''V''" using assms(1) by (auto simp: is_digit_def)
  ultimately show ?thesis
    using assms(2) by (cases c) (auto simp: Clean_def TrimPrefix_def HasPrefix_def)
qed

section \<open>Properties\<close>

text \<open>
  C38: version comparison is a total order on normalised version strings: it is antisymmetric,
  transitive, and two versions compare equal exactly when they are the same after trimming blanks
  and the leading ``v''. Feature gates and update decisions rely on it.
\<close>

theorem Compare_total_order:
  "Compare a b = - Compare b a
   \<and> (Compare a b \<le> 0 \<longrightarrow> Compare b c \<le> 0 \<longrightarrow> Compare a c \<le> 0)
   \<and> (Compare a b = 0 \<longleftrightarrow> Clean a = Clean b)"
  using ver.antisym [of a b] ver.trans [of a b c] Compare_zero_iff [of a b] by simp

theorem Compare_total_order_witness:
  "Compare ''1.0.7'' ''v1.0.10'' \<le> 0 \<and> Compare ''v1.0.10'' ''1.2'' \<le> 0 \<and> Compare ''1.0.7'' ''1.2'' \<le> 0"
proof -
  have "Compare ''1.0.7'' ''v1.0.10'' \<le> 0" and "Compare ''v1.0.10'' ''1.2'' \<le> 0"
    by code_simp+
  then show ?thesis
    using Compare_total_order [of "''1.0.7''" "''v1.0.10''" "''1.2''"] by blast
qed

text \<open>
  rendering a version for display is idempotent and does not change what it compares as: the
  display form normalises to what the original string normalises to, so comparing it with any
  version gives the same result.
\<close>

theorem Display_faithful:
  "Display (Display v) = Display v \<and> Clean (Display v) = Clean v
   \<and> Compare (Display v) w = Compare v w"
proof -
  have clean: "Clean (Display v) = Clean v"
    using Clean_v_digits [of "Clean v"] Clean_trail [of v] by (auto simp: Display_cases [of v])
  moreover have "Display (Display v) = Display v"
    unfolding Display_cases [of "Display v"] clean by (auto simp: Display_cases [of v])
  ultimately show ?thesis by (simp add: Compare_lex)
qed

text \<open>
  among identifiable versions ``newer'' is a strict order, so a probe that updates only to newer
  versions never updates to the version it runs and never cycles between versions.
\<close>

theorem IsNewer_strict_order:
  assumes "\<not> IsUnknown a" and "\<not> IsUnknown b" and "\<not> IsUnknown c"
  shows "\<not> IsNewer a a \<and> (IsNewer c b \<longrightarrow> IsNewer b a \<longrightarrow> IsNewer c a)"
proof -
  have "Clean a \<noteq> ''''" "Clean b \<noteq> ''''" "Clean c \<noteq> ''''"
    using assms by (auto simp: IsUnknown_def Let_def)
  then show ?thesis
    using assms ver.refl [of a] ver.antisym [of c b] ver.antisym [of c a] ver.antisym [of b a]
      ver.less_le_trans [of a b c]
    by (auto simp: IsNewer_def)
qed

theorem IsNewer_strict_order_witness:
  "\<not> IsUnknown ''v1.0.3'' \<and> \<not> IsUnknown ''1.0.13'' \<and> \<not> IsUnknown ''1.2.1''
   \<and> IsNewer ''1.2.1'' ''1.0.13'' \<and> IsNewer ''1.0.13'' ''v1.0.3'' \<and> IsNewer ''1.2.1'' ''v1.0.3''"
proof -
  have known: "\<not> IsUnknown ''v1.0.3''" "\<not> IsUnknown ''1.0.13''" "\<not> IsUnknown ''1.2.1''"
    by code_simp+
  moreover have newer: "IsNewer ''1.2.1'' ''1.0.13''" "IsNewer ''1.0.13'' ''v1.0.3''"
    by code_simp+
  moreover have "IsNewer ''1.2.1'' ''v1.0.3''"
    using IsNewer_strict_order [OF known] newer by blast
  ultimately show ?thesis by blast
qed

end
