(* ===== verification/Feature.thy ===== *)
theory Feature
  imports Version
begin

text \<open>
  Probe capabilities and the forced-restart ladder, \<^verbatim>\<open>host/internal/feature\<close>: the registry of
  features with the first release that has each, the support test the Host gates its controls with,
  and the choice between asking a probe to exit, crashing it and giving up.
\<close>

type_synonym feature_key = string

definition Traceroute :: feature_key where "Traceroute = ''traceroute''"
definition RouteOverride :: feature_key where "RouteOverride = ''route_override''"
definition Proxy :: feature_key where "Proxy = ''proxy''"
definition UpdateCheck :: feature_key where "UpdateCheck = ''update_check''"
definition SoftExit :: feature_key where "SoftExit = ''soft_exit''"

lemmas feature_keys = Traceroute_def RouteOverride_def Proxy_def UpdateCheck_def SoftExit_def

record Definition =
  Key :: feature_key
  Name :: string
  MinVersionOf :: string

definition registry :: "Definition list" where
  "registry =
    [\<lparr>Key = Traceroute, Name = ''Route tracing'', MinVersionOf = ''1.0.7''\<rparr>,
     \<lparr>Key = RouteOverride, Name = ''Per-probe route override'', MinVersionOf = ''1.0.10''\<rparr>,
     \<lparr>Key = Proxy, Name = ''HTTPS proxy tunnel'', MinVersionOf = ''1.0.12''\<rparr>,
     \<lparr>Key = UpdateCheck, Name = ''Manual update check'', MinVersionOf = ''1.0.13''\<rparr>,
     \<lparr>Key = SoftExit, Name = ''Graceful restart for forced updates'', MinVersionOf = ''1.2.1''\<rparr>]"

definition All :: "Definition list" where
  "All = registry"

definition MinVersion :: "feature_key \<Rightarrow> string \<times> bool" where
  "MinVersion key =
     (case List.find (\<lambda>def. Key def = key) registry of
        Some def \<Rightarrow> (MinVersionOf def, True)
      | None \<Rightarrow> ('''', False))"

definition Supports :: "string \<Rightarrow> feature_key \<Rightarrow> bool" where
  "Supports agentVersion key =
     (let (minv, tracked) = MinVersion key in
      if \<not> tracked \<or> IsUnknown minv \<or> IsUnknown agentVersion then True
      else AtLeast agentVersion minv)"

definition Unsupported :: "string \<Rightarrow> feature_key list" where
  "Unsupported agentVersion =
     map Key (filter (\<lambda>def. \<not> Supports agentVersion (Key def)) registry)"

definition LegacyCrashMinVersion :: string where
  "LegacyCrashMinVersion = ''1.0.3''"

definition LegacyCrashPacketCount :: int where
  "LegacyCrashPacketCount = 2 ^ 50"

definition LegacyCrashIntervalSec :: int where
  "LegacyCrashIntervalSec = 9223372037"

datatype ForceRestartMode = ForceRestartSoftExit | ForceRestartCrash | ForceRestartUnsupported

definition sixtyFourBitArchs :: "string list" where
  "sixtyFourBitArchs =
     [''amd64'', ''arm64'', ''mips64'', ''mips64le'', ''ppc64'', ''ppc64le'', ''riscv64'', ''s390x'']"

definition ForceRestartModeFor :: "string \<Rightarrow> string \<Rightarrow> ForceRestartMode" where
  "ForceRestartModeFor agentVersion agentArch =
     (if Supports agentVersion SoftExit then ForceRestartSoftExit
      else if \<not> AtLeast agentVersion LegacyCrashMinVersion then ForceRestartUnsupported
      else if agentArch \<notin> set sixtyFourBitArchs then ForceRestartUnsupported
      else ForceRestartCrash)"

section \<open>Evaluating the registry\<close>

lemma Clean_plain:
  "s \<noteq> [] \<Longrightarrow> is_digit (hd s) \<Longrightarrow> is_digit (last s) \<Longrightarrow> Clean s = s"
  by (auto simp: Clean_def TrimSpace_plain is_digit_plain TrimPrefix_def HasPrefix_def is_digit_def
      dest: arg_cong [of _ _ hd])

lemmas registry_versions =
  Clean_plain [of "''1.0.7''"] Clean_plain [of "''1.0.10''"] Clean_plain [of "''1.0.12''"]
  Clean_plain [of "''1.0.13''"] Clean_plain [of "''1.2.1''"] Clean_plain [of "''1.0.3''"]

lemma registry_clean [simp]:
  "Clean ''1.0.7'' = ''1.0.7''" "Clean ''1.0.10'' = ''1.0.10''" "Clean ''1.0.12'' = ''1.0.12''"
  "Clean ''1.0.13'' = ''1.0.13''" "Clean ''1.2.1'' = ''1.2.1''" "Clean ''1.0.3'' = ''1.0.3''"
  by (simp_all add: registry_versions is_digit_def)

lemma registry_known [simp]:
  "\<not> IsUnknown ''1.0.7''" "\<not> IsUnknown ''1.0.10''" "\<not> IsUnknown ''1.0.12''"
  "\<not> IsUnknown ''1.0.13''" "\<not> IsUnknown ''1.2.1''" "\<not> IsUnknown ''1.0.3''"
  by (simp_all add: IsUnknown_def Unknown_def Dev_def)

lemma registry_chain: "sorted_wrt (\<lambda>d e. Compare (MinVersionOf d) (MinVersionOf e) < 0) registry"
  by code_simp

section \<open>Support is monotone in the version\<close>

lemma registry_keys_distinct: "distinct (map Key registry)"
  by (simp add: registry_def feature_keys)

lemma MinVersion_registry: "d \<in> set registry \<Longrightarrow> MinVersion (Key d) = (MinVersionOf d, True)"
  by (auto simp: MinVersion_def registry_def feature_keys)

lemma registry_min_known: "d \<in> set registry \<Longrightarrow> \<not> IsUnknown (MinVersionOf d)"
  by (auto simp: registry_def)

lemma Supports_registry:
  "d \<in> set registry \<Longrightarrow> Supports v (Key d) \<longleftrightarrow> IsUnknown v \<or> Compare v (MinVersionOf d) \<ge> 0"
  by (simp add: Supports_def MinVersion_registry registry_min_known AtLeast_def)

lemma Supports_SoftExit: "Supports v SoftExit \<longleftrightarrow> IsUnknown v \<or> Compare v ''1.2.1'' \<ge> 0"
  using Supports_registry [of "last registry" v] by (simp add: registry_def)

text \<open>Filtering a list by a property that, once it holds, holds from there on drops a prefix.\<close>

lemma filter_suffix:
  assumes "sorted_wrt R xs" and "\<And>x y. R x y \<Longrightarrow> P x \<Longrightarrow> P y"
  shows "\<exists>n. filter P xs = drop n xs"
  using assms(1)
proof (induction xs)
  case Nil
  show ?case by simp
next
  case (Cons x xs)
  show ?case
  proof (cases "P x")
    case True
    then have "filter P (x # xs) = drop 0 (x # xs)"
      using Cons.prems assms(2) by (auto simp: filter_id_conv)
    then show ?thesis by blast
  next
    case False
    with Cons obtain n where "filter P xs = drop n xs" by auto
    with False have "filter P (x # xs) = drop (Suc n) (x # xs)" by simp
    then show ?thesis by blast
  qed
qed

definition restart_rank :: "ForceRestartMode \<Rightarrow> nat" where
  "restart_rank m =
     (case m of ForceRestartUnsupported \<Rightarrow> 0 | ForceRestartCrash \<Rightarrow> 1 | ForceRestartSoftExit \<Rightarrow> 2)"

lemma AtLeast_mono: "\<not> IsUnknown w \<Longrightarrow> Compare w v \<ge> 0 \<Longrightarrow> AtLeast v m \<Longrightarrow> AtLeast w m"
  using ver.ge_trans [of w v m] by (auto simp: AtLeast_def split: if_splits)

lemma Supports_mono:
  "\<not> IsUnknown v \<Longrightarrow> \<not> IsUnknown w \<Longrightarrow> Compare w v \<ge> 0 \<Longrightarrow> Supports v key \<Longrightarrow> Supports w key"
  using AtLeast_mono by (auto simp: Supports_def split: prod.splits if_splits)

section \<open>Properties\<close>

text \<open>
  upgrading a probe never takes a feature away: a feature that the Host offers for one
  identifiable version is offered for every identifiable version that compares at least as new.
\<close>

theorem upgrade_keeps_features:
  assumes "\<not> IsUnknown v" and "\<not> IsUnknown w" and "Compare w v \<ge> 0"
  shows "(Supports v key \<longrightarrow> Supports w key) \<and> set (Unsupported w) \<subseteq> set (Unsupported v)"
  using assms Supports_mono [OF assms] by (auto simp: Unsupported_def)

theorem upgrade_keeps_features_witness:
  "Supports ''1.0.13'' Proxy \<and> Compare ''v1.2.0'' ''1.0.13'' \<ge> 0 \<and> Supports ''v1.2.0'' Proxy"
proof -
  have h: "\<not> IsUnknown ''1.0.13''" "\<not> IsUnknown ''v1.2.0''" "Compare ''v1.2.0'' ''1.0.13'' \<ge> 0"
    by code_simp+
  have "Supports ''1.0.13'' Proxy" by code_simp
  then show ?thesis using upgrade_keeps_features [OF h] h by blast
qed

text \<open>
  the features a probe lacks are always the newest ones: for every version string the list the
  Host reports as unsupported is a tail of the registry, so support is decided by one cut-off.
\<close>

theorem unsupported_is_registry_tail:
  "\<exists>n. Unsupported v = map Key (drop n registry)"
proof -
  have "filter (\<lambda>d. \<not> Supports v (Key d)) registry
      = filter (\<lambda>d. \<not> IsUnknown v \<and> Compare v (MinVersionOf d) < 0) registry"
    by (rule filter_cong) (auto simp: Supports_registry)
  moreover have "\<exists>n. filter (\<lambda>d. \<not> IsUnknown v \<and> Compare v (MinVersionOf d) < 0) registry
      = drop n registry"
    by (rule filter_suffix [OF registry_chain]) (meson less_imp_le ver.less_le_trans)
  ultimately show ?thesis by (auto simp: Unsupported_def)
qed

text \<open>
  the forced-restart ladder. A probe at 1.2.1 or later, or one that reports no usable version, is
  asked to exit; an identifiable older probe is crashed exactly when it is at least 1.0.3 and runs on
  a 64-bit architecture; any other probe cannot be restarted. On a given architecture the route never
  gets worse with a newer version.
\<close>

theorem restart_ladder:
  "(ForceRestartModeFor v arch = ForceRestartSoftExit \<longleftrightarrow> IsUnknown v \<or> Compare v ''1.2.1'' \<ge> 0)
   \<and> (ForceRestartModeFor v arch = ForceRestartCrash \<longleftrightarrow>
        \<not> IsUnknown v \<and> Compare v ''1.2.1'' < 0 \<and> Compare v ''1.0.3'' \<ge> 0
        \<and> arch \<in> set sixtyFourBitArchs)
   \<and> (\<not> IsUnknown v \<longrightarrow> \<not> IsUnknown w \<longrightarrow> Compare w v \<ge> 0 \<longrightarrow>
        restart_rank (ForceRestartModeFor v arch) \<le> restart_rank (ForceRestartModeFor w arch))"
proof -
  have modes: "(ForceRestartModeFor v arch = ForceRestartSoftExit \<longleftrightarrow> IsUnknown v \<or> Compare v ''1.2.1'' \<ge> 0)
   \<and> (ForceRestartModeFor v arch = ForceRestartCrash \<longleftrightarrow>
        \<not> IsUnknown v \<and> Compare v ''1.2.1'' < 0 \<and> Compare v ''1.0.3'' \<ge> 0
        \<and> arch \<in> set sixtyFourBitArchs)"
    by (auto simp: ForceRestartModeFor_def Supports_SoftExit AtLeast_def LegacyCrashMinVersion_def)
  moreover have "restart_rank (ForceRestartModeFor v arch) \<le> restart_rank (ForceRestartModeFor w arch)"
    if "\<not> IsUnknown v" "\<not> IsUnknown w" "Compare w v \<ge> 0"
    using Supports_mono [OF that, of SoftExit] AtLeast_mono [OF that(2,3), of LegacyCrashMinVersion]
    by (auto simp: ForceRestartModeFor_def restart_rank_def)
  ultimately show ?thesis by blast
qed

theorem restart_ladder_witness:
  "ForceRestartModeFor ''1.0.2'' ''arm64'' = ForceRestartUnsupported
   \<and> ForceRestartModeFor ''1.1.0'' ''arm64'' = ForceRestartCrash
   \<and> restart_rank (ForceRestartModeFor ''1.0.2'' ''arm64'') \<le> restart_rank (ForceRestartModeFor ''1.1.0'' ''arm64'')"
proof -
  have h: "\<not> IsUnknown ''1.0.2''" "\<not> IsUnknown ''1.1.0''" "Compare ''1.1.0'' ''1.0.2'' \<ge> 0"
    by code_simp+
  have "ForceRestartModeFor ''1.0.2'' ''arm64'' = ForceRestartUnsupported"
    "ForceRestartModeFor ''1.1.0'' ''arm64'' = ForceRestartCrash"
    by code_simp+
  then show ?thesis using restart_ladder [of "''1.0.2''" "''arm64''" "''1.1.0''"] h by blast
qed

end
