(* ===== verification/Go_Encoding.thy ===== *)
theory Go_Encoding
  imports Go_Strings
begin

text \<open>
  Encodings of Go's standard library that the tunnel protocol uses: \<^verbatim>\<open>hex.EncodeToString\<close>,
  \<^verbatim>\<open>base64.StdEncoding\<close> and the \<^verbatim>\<open>host:port\<close> syntax of package \<^verbatim>\<open>net\<close>, with the round trips the
  two ends of a tunnel rely on.
\<close>

section \<open>Hexadecimal\<close>

definition hex_char :: "int \<Rightarrow> char" where
  "hex_char n = (if n < 10 then char_of (48 + n) else char_of (87 + n))"

definition hex_encode :: "string \<Rightarrow> string" where
  "hex_encode bs = concat (map (\<lambda>b. [hex_char (of_char b div 16), hex_char (of_char b mod 16)]) bs)"

lemma length_hex_encode [simp]: "length (hex_encode bs) = 2 * length bs"
  by (induction bs) (auto simp: hex_encode_def)

lemma of_char_bounds: "0 \<le> (of_char c :: int)" "(of_char c :: int) < 256"
proof -
  have "(of_char c :: int) mod 256 = of_char c" by simp
  then show "0 \<le> (of_char c :: int)" "(of_char c :: int) < 256"
    by (metis pos_mod_sign zero_less_numeral, metis pos_mod_bound zero_less_numeral)
qed

lemma char_of_of_char_int [simp]: "char_of (of_char c :: int) = c"
  by simp

section \<open>Base64\<close>

definition b64_alphabet :: string where
  "b64_alphabet = ''ABCDEFGHIJKLMNOPQRSTUVWXYZabcdefghijklmnopqrstuvwxyz0123456789+/''"

definition b64_char :: "int \<Rightarrow> char" where
  "b64_char n = b64_alphabet ! nat n"

definition b64_val :: "char \<Rightarrow> int option" where
  "b64_val c = map_option int (List.find (\<lambda>i. b64_alphabet ! i = c) [0..<64])"

fun b64_encode :: "int list \<Rightarrow> string" where
  "b64_encode (x # y # z # r) =
     b64_char (x div 4) # b64_char (x mod 4 * 16 + y div 16)
     # b64_char (y mod 16 * 4 + z div 64) # b64_char (z mod 64) # b64_encode r"
| "b64_encode [x, y] =
     [b64_char (x div 4), b64_char (x mod 4 * 16 + y div 16), b64_char (y mod 16 * 4), CHR ''='']"
| "b64_encode [x] = [b64_char (x div 4), b64_char (x mod 4 * 16), CHR ''='', CHR ''='']"
| "b64_encode [] = []"

definition EncodeToString :: "string \<Rightarrow> string" where
  "EncodeToString bs = b64_encode (map of_char bs)"

text \<open>
  Decoding skips line ends anywhere, wants padding only in the last group and nothing after it, and
  (as \<^verbatim>\<open>StdEncoding\<close> is not strict) ignores the unused low bits of a padded group.
\<close>

fun b64_decode :: "string \<Rightarrow> int list option" where
  "b64_decode [] = Some []"
| "b64_decode (a # b # c # d # r) =
     (case (b64_val a, b64_val b) of
        (Some x, Some y) \<Rightarrow>
          (if c = CHR ''='' then
             (if d = CHR ''='' \<and> r = [] then Some [x * 4 + y div 16] else None)
           else (case b64_val c of
               None \<Rightarrow> None
             | Some z \<Rightarrow>
                 if d = CHR ''='' then
                   (if r = [] then Some [x * 4 + y div 16, y mod 16 * 16 + z div 4] else None)
                 else (case b64_val d of
                     None \<Rightarrow> None
                   | Some w \<Rightarrow>
                       map_option (\<lambda>t. (x * 4 + y div 16) # (y mod 16 * 16 + z div 4)
                                       # (z mod 4 * 64 + w) # t) (b64_decode r))))
      | _ \<Rightarrow> None)"
| "b64_decode _ = None"

definition DecodeString :: "string \<Rightarrow> string option" where
  "DecodeString s =
     map_option (map char_of) (b64_decode (filter (\<lambda>c. c \<noteq> CHR 0x0A \<and> c \<noteq> CHR 0x0D) s))"

lemma b64_alphabet_length: "length b64_alphabet = 64"
  by (simp add: b64_alphabet_def)

lemma b64_alphabet_ok:
  "list_all (\<lambda>i. b64_val (b64_alphabet ! i) = Some (int i) \<and> plain_char (b64_alphabet ! i)
     \<and> b64_alphabet ! i \<noteq> CHR ''='') [0..<64]"
  by code_simp

lemma b64_char_ok:
  assumes "0 \<le> n" "n < 64"
  shows "b64_val (b64_char n) = Some n" "plain_char (b64_char n)" "b64_char n \<noteq> CHR ''=''"
proof -
  have "nat n \<in> set [0..<64]" using assms by auto
  then have "b64_val (b64_alphabet ! nat n) = Some (int (nat n)) \<and> plain_char (b64_alphabet ! nat n)
      \<and> b64_alphabet ! nat n \<noteq> CHR ''=''"
    using b64_alphabet_ok unfolding list_all_iff by blast
  then show "b64_val (b64_char n) = Some n" "plain_char (b64_char n)" "b64_char n \<noteq> CHR ''=''"
    using assms by (auto simp: b64_char_def)
qed

definition byte_list :: "int list \<Rightarrow> bool" where
  "byte_list bs \<longleftrightarrow> (\<forall>b \<in> set bs. 0 \<le> b \<and> b < 256)"

lemma div_mod_parts:
  fixes a b n :: int
  assumes "0 \<le> b" "b < n"
  shows "(a * n + b) div n = a" "(a * n + b) mod n = b"
  using assms by (simp_all add: div_pos_pos_trivial)

lemma sextets:
  fixes x y z :: int
  assumes "0 \<le> x" "x < 256" "0 \<le> y" "y < 256" "0 \<le> z" "z < 256"
  shows "0 \<le> x div 4" "x div 4 < 64"
    "0 \<le> x mod 4 * 16 + y div 16" "x mod 4 * 16 + y div 16 < 64"
    "0 \<le> y mod 16 * 4 + z div 64" "y mod 16 * 4 + z div 64 < 64"
    "0 \<le> x mod 4 * 16" "x mod 4 * 16 < 64" "0 \<le> y mod 16 * 4" "y mod 16 * 4 < 64"
    "0 \<le> z mod 64" "z mod 64 < 64"
    "x div 4 * 4 + (x mod 4 * 16 + y div 16) div 16 = x"
    "(x mod 4 * 16 + y div 16) mod 16 * 16 + (y mod 16 * 4 + z div 64) div 4 = y"
    "(y mod 16 * 4 + z div 64) mod 4 * 64 + z mod 64 = z"
    "x div 4 * 4 + (x mod 4 * 16) div 16 = x"
    "(x mod 4 * 16 + y div 16) mod 16 * 16 + (y mod 16 * 4) div 4 = y"
proof -
  define a b c d e f where "a = x div 4" and "b = x mod 4" and "c = y div 16" and "d = y mod 16"
    and "e = z div 64" and "f = z mod 64"
  have x: "a * 4 + b = x" and y: "c * 16 + d = y" and z: "e * 64 + f = z"
    by (simp_all add: a_def b_def c_def d_def e_def f_def)
  have bnd: "0 \<le> b" "b < 4" "0 \<le> d" "d < 16" "0 \<le> f" "f < 64"
    by (simp_all add: b_def d_def f_def)
  have bnd2: "0 \<le> a" "a < 64" "0 \<le> c" "c < 16" "0 \<le> e" "e < 4"
    using assms x y z bnd by linarith+
  note dm = div_mod_parts [OF bnd2(3,4), of b] div_mod_parts [OF bnd2(5,6), of d]
  have b16: "b * 16 div 16 = b" "d * 4 div 4 = d" by simp_all
  show "0 \<le> x div 4" "x div 4 < 64"
    "0 \<le> x mod 4 * 16 + y div 16" "x mod 4 * 16 + y div 16 < 64"
    "0 \<le> y mod 16 * 4 + z div 64" "y mod 16 * 4 + z div 64 < 64"
    "0 \<le> x mod 4 * 16" "x mod 4 * 16 < 64" "0 \<le> y mod 16 * 4" "y mod 16 * 4 < 64"
    "0 \<le> z mod 64" "z mod 64 < 64"
    unfolding a_def [symmetric] b_def [symmetric] c_def [symmetric] d_def [symmetric]
      e_def [symmetric] f_def [symmetric]
    using bnd bnd2 by linarith+
  show "x div 4 * 4 + (x mod 4 * 16 + y div 16) div 16 = x"
    "(x mod 4 * 16 + y div 16) mod 16 * 16 + (y mod 16 * 4 + z div 64) div 4 = y"
    "(y mod 16 * 4 + z div 64) mod 4 * 64 + z mod 64 = z"
    "x div 4 * 4 + (x mod 4 * 16) div 16 = x"
    "(x mod 4 * 16 + y div 16) mod 16 * 16 + (y mod 16 * 4) div 4 = y"
    unfolding a_def [symmetric] b_def [symmetric] c_def [symmetric] d_def [symmetric]
      e_def [symmetric] f_def [symmetric] dm b16
    by (rule x y z)+
qed

lemma b64_decode_group:
  assumes "0 \<le> p" "p < 64" "0 \<le> q" "q < 64" "0 \<le> r" "r < 64" "0 \<le> s" "s < 64"
  shows "b64_decode (b64_char p # b64_char q # b64_char r # b64_char s # t) =
    map_option (\<lambda>t. (p * 4 + q div 16) # (q mod 16 * 16 + r div 4) # (r mod 4 * 64 + s) # t)
      (b64_decode t)"
  by (simp only: b64_decode.simps b64_char_ok [OF assms(1,2)] b64_char_ok [OF assms(3,4)]
      b64_char_ok [OF assms(5,6)] b64_char_ok [OF assms(7,8)] option.case prod.case if_False)

lemma b64_decode_group2:
  assumes "0 \<le> p" "p < 64" "0 \<le> q" "q < 64" "0 \<le> r" "r < 64"
  shows "b64_decode [b64_char p, b64_char q, b64_char r, CHR ''=''] =
      Some [p * 4 + q div 16, q mod 16 * 16 + r div 4]"
    and "b64_decode [b64_char p, b64_char q, CHR ''='', CHR ''=''] = Some [p * 4 + q div 16]"
  by (simp_all only: b64_decode.simps b64_char_ok [OF assms(1,2)] b64_char_ok [OF assms(3,4)]
      b64_char_ok [OF assms(5,6)] option.case prod.case if_False if_True simp_thms)

lemma byte_listD: "byte_list (x # r) \<Longrightarrow> 0 \<le> x \<and> x < 256 \<and> byte_list r"
  by (simp add: byte_list_def)

lemma b64_roundtrip: "byte_list bs \<Longrightarrow> b64_decode (b64_encode bs) = Some bs"
proof (induction bs rule: b64_encode.induct)
  case (1 x y z r)
  then have b: "0 \<le> x" "x < 256" "0 \<le> y" "y < 256" "0 \<le> z" "z < 256" and r: "byte_list r"
    by (auto dest!: byte_listD)
  note s = sextets [OF b]
  show ?case
    by (simp only: b64_encode.simps b64_decode_group [OF s(1-6,11,12)] "1.IH" [OF r] option.map s(13-15))
next
  case (2 x y)
  then have b: "0 \<le> x" "x < 256" "0 \<le> y" "y < 256" by (auto dest!: byte_listD)
  have z: "0 \<le> (0 :: int)" "(0 :: int) < 256" by simp_all
  note s = sextets [OF b z]
  show ?case by (simp only: b64_encode.simps b64_decode_group2(1) [OF s(1-4,9,10)] s(13,17))
next
  case (3 x)
  then have b: "0 \<le> x" "x < 256" by (auto dest!: byte_listD)
  have z: "0 \<le> (0 :: int)" "(0 :: int) < 256" by simp_all
  note s = sextets [OF b z z]
  show ?case by (simp only: b64_encode.simps b64_decode_group2(2) [OF s(1,2,7,8,7,8)] s(16))
next
  case 4
  show ?case by simp
qed

lemma b64_encode_plain: "byte_list bs \<Longrightarrow> list_all plain_char (b64_encode bs)"
proof (induction bs rule: b64_encode.induct)
  case (1 x y z r)
  then have b: "0 \<le> x" "x < 256" "0 \<le> y" "y < 256" "0 \<le> z" "z < 256" and r: "byte_list r"
    by (auto dest!: byte_listD)
  note s = sextets [OF b]
  show ?case
    by (simp only: b64_encode.simps list.pred_inject "1.IH" [OF r] b64_char_ok(2) [OF s(1,2)]
        b64_char_ok(2) [OF s(3,4)] b64_char_ok(2) [OF s(5,6)] b64_char_ok(2) [OF s(11,12)] simp_thms)
next
  case (2 x y)
  then have b: "0 \<le> x" "x < 256" "0 \<le> y" "y < 256" by (auto dest!: byte_listD)
  have z: "0 \<le> (0 :: int)" "(0 :: int) < 256" "plain_char (CHR ''='')"
    by (simp_all add: plain_char_def)
  note s = sextets [OF b z(1,2)]
  show ?case
    by (simp only: b64_encode.simps list.pred_inject z(3) b64_char_ok(2) [OF s(1,2)]
        b64_char_ok(2) [OF s(3,4)] b64_char_ok(2) [OF s(9,10)] simp_thms)
next
  case (3 x)
  then have b: "0 \<le> x" "x < 256" by (auto dest!: byte_listD)
  have z: "0 \<le> (0 :: int)" "(0 :: int) < 256" "plain_char (CHR ''='')"
    by (simp_all add: plain_char_def)
  note s = sextets [OF b z(1,2,1,2)]
  show ?case
    by (simp only: b64_encode.simps list.pred_inject z(3) b64_char_ok(2) [OF s(1,2)]
        b64_char_ok(2) [OF s(7,8)] simp_thms)
next
  case 4
  show ?case by simp
qed

lemma byte_list_of_char: "byte_list (map of_char s)"
  by (auto simp: byte_list_def of_char_bounds)

lemma EncodeToString_plain: "c \<in> set (EncodeToString s) \<Longrightarrow> plain_char c"
  using b64_encode_plain [OF byte_list_of_char, of s] by (simp add: EncodeToString_def list_all_iff)

lemma not_plain_newline: "\<not> plain_char (CHR 0x0A)" "\<not> plain_char (CHR 0x0D)"
  by (simp_all add: plain_char_def)

lemma DecodeString_EncodeToString: "DecodeString (EncodeToString s) = Some s"
proof -
  have "filter (\<lambda>c. c \<noteq> CHR 0x0A \<and> c \<noteq> CHR 0x0D) (EncodeToString s) = EncodeToString s"
    unfolding filter_id_conv using EncodeToString_plain [of _ s] not_plain_newline by metis
  moreover have "b64_decode (EncodeToString s) = Some (map of_char s)"
    unfolding EncodeToString_def by (rule b64_roundtrip [OF byte_list_of_char])
  ultimately show ?thesis by (simp add: DecodeString_def comp_def)
qed

lemma EncodeToString_nonempty: "s \<noteq> [] \<Longrightarrow> EncodeToString s \<noteq> []"
  by (cases "map of_char s :: int list" rule: b64_encode.cases) (auto simp: EncodeToString_def)

section \<open>Host and port\<close>

text \<open>\<^verbatim>\<open>net.SplitHostPort\<close> and \<^verbatim>\<open>net.JoinHostPort\<close>; callers only test whether an error came back.\<close>

fun index_byte :: "string \<Rightarrow> char \<Rightarrow> nat option" where
  "index_byte [] c = None"
| "index_byte (x # s) c = (if x = c then Some 0 else map_option Suc (index_byte s c))"

definition last_byte :: "string \<Rightarrow> char \<Rightarrow> nat option" where
  "last_byte s c = map_option (\<lambda>i. length s - 1 - i) (index_byte (rev s) c)"

definition SplitHostPort :: "string \<Rightarrow> (string \<times> string) option" where
  "SplitHostPort hostport =
     (case last_byte hostport (CHR '':'') of
        None \<Rightarrow> None
      | Some i \<Rightarrow>
          (if hostport \<noteq> [] \<and> hd hostport = CHR ''['' then
             (case index_byte hostport (CHR '']'') of
                None \<Rightarrow> None
              | Some e \<Rightarrow>
                  if e + 1 = length hostport \<or> e + 1 \<noteq> i then None
                  else if CHR ''['' \<in> set (drop 1 hostport) \<or> CHR '']'' \<in> set (drop (e + 1) hostport)
                  then None
                  else Some (drop 1 (take e hostport), drop (i + 1) hostport))
           else if CHR '':'' \<in> set (take i hostport) then None
           else if CHR ''['' \<in> set hostport \<or> CHR '']'' \<in> set hostport then None
           else Some (take i hostport, drop (i + 1) hostport)))"

definition JoinHostPort :: "string \<Rightarrow> string \<Rightarrow> string" where
  "JoinHostPort host port =
     (if CHR '':'' \<in> set host then ''['' @ host @ '']:'' @ port else host @ '':'' @ port)"

lemma index_byte_append: "c \<notin> set s \<Longrightarrow> index_byte (s @ c # t) c = Some (length s)"
  by (induction s) auto

lemma last_byte_append: "c \<notin> set t \<Longrightarrow> last_byte (s @ c # t) c = Some (length s)"
  using index_byte_append [of c "rev t" "rev s"] by (simp add: last_byte_def)

lemma index_byte_None: "index_byte s c = None \<longleftrightarrow> c \<notin> set s"
  by (induction s) auto

lemma index_byte_Some: "index_byte s c = Some i \<Longrightarrow> i < length s \<and> s ! i = c \<and> c \<notin> set (take i s)"
  by (induction s arbitrary: i) (auto split: if_splits)

lemma last_byte_None: "last_byte s c = None \<longleftrightarrow> c \<notin> set s"
  by (simp add: last_byte_def index_byte_None)

text \<open>What \<^verbatim>\<open>JoinHostPort\<close> writes, \<^verbatim>\<open>SplitHostPort\<close> reads back.\<close>

lemma Split_Join_HostPort:
  assumes "CHR ''['' \<notin> set host" "CHR '']'' \<notin> set host"
    and "CHR '':'' \<notin> set port" "CHR ''['' \<notin> set port" "CHR '']'' \<notin> set port"
  shows "SplitHostPort (JoinHostPort host port) = Some (host, port)"
proof (cases "CHR '':'' \<in> set host")
  case True
  let ?s = "(CHR ''['' # host) @ CHR '']'' # CHR '':'' # port"
  have "last_byte ?s (CHR '':'') = Some (length host + 2)"
    using last_byte_append [OF assms(3), of "(CHR ''['' # host) @ [CHR '']'']"] by simp
  moreover have "index_byte ?s (CHR '']'') = Some (length host + 1)"
    using index_byte_append [of "CHR '']''" "CHR ''['' # host"] assms(2) by simp
  ultimately show ?thesis
    using True assms by (simp add: SplitHostPort_def JoinHostPort_def)
next
  case False
  have "last_byte (host @ CHR '':'' # port) (CHR '':'') = Some (length host)"
    by (rule last_byte_append [OF assms(3)])
  moreover have "\<not> (host @ CHR '':'' # port \<noteq> [] \<and> hd (host @ CHR '':'' # port) = CHR ''['')"
    using assms(1) by (cases host) auto
  ultimately show ?thesis
    using False assms by (simp add: SplitHostPort_def JoinHostPort_def)
qed

lemma SplitHostPort_host: "SplitHostPort s = Some (host, port) \<Longrightarrow> CHR ''['' \<notin> set host \<and> CHR '']'' \<notin> set host"
proof -
  assume a: "SplitHostPort s = Some (host, port)"
  show ?thesis
  proof (cases "s \<noteq> [] \<and> hd s = CHR ''[''")
    case True
    with a obtain e where e: "index_byte s (CHR '']'') = Some e"
      and h: "host = drop 1 (take e s)" "CHR ''['' \<notin> set (drop 1 s)"
      by (auto simp: SplitHostPort_def split: option.splits if_splits)
    have "set host \<subseteq> set (take e s)"
      using h(1) by (metis set_drop_subset)
    moreover have "set host \<subseteq> set (drop 1 s)"
      using h(1) by (metis drop_take set_take_subset)
    ultimately show ?thesis using h(2) index_byte_Some [OF e] by auto
  next
    case False
    with a show ?thesis
      by (auto simp: SplitHostPort_def split: option.splits if_splits dest: in_set_takeD)
  qed
qed

lemma SplitHostPort_port: "SplitHostPort s = Some (host, port) \<Longrightarrow> CHR '':'' \<notin> set port"
proof -
  assume a: "SplitHostPort s = Some (host, port)"
  then obtain i where i: "last_byte s (CHR '':'') = Some i" and p: "port = drop (i + 1) s"
    by (auto simp: SplitHostPort_def split: option.splits if_splits)
  from i obtain j where j: "index_byte (rev s) (CHR '':'') = Some j" and ij: "i = length s - 1 - j"
    by (auto simp: last_byte_def)
  have "rev port = take j (rev s)"
    using index_byte_Some [OF j] by (simp add: p ij rev_drop)
  then show ?thesis
    using index_byte_Some [OF j] by (metis set_rev)
qed

end
