(* ===== verification/Session_Store.thy ===== *)
theory Session_Store
  imports Go_Encoding
begin

text \<open>
  The short-lived proxy credentials, \<^verbatim>\<open>host/internal/proxy/session.go\<close>. The two Go maps hold pointers
  to shared \<^verbatim>\<open>Session\<close> objects, and \<^verbatim>\<open>Revoke\<close> and \<^verbatim>\<open>purgeLocked\<close> compare pointers, so the store is
  modelled with an explicit heap of sessions. \<^verbatim>\<open>sha256.Sum256\<close> is a parameter \<open>H\<close> on byte strings;
  the clock and the random source are arguments of the operations that read them.
\<close>

section \<open>Model\<close>

type_synonym nanos = int

definition SessionTTL :: nanos where
  "SessionTTL = 10 * 60 * 1000000000"

record Session =
  ID :: string
  AgentID :: string
  AgentName :: string
  Username :: string
  CreatedBy :: nat
  CreatedAt :: nanos
  ExpiresAt :: nanos
  passwordHash :: string
  revoked :: bool

type_synonym session_ptr = nat

record Store =
  heap :: "Session list"
  byID :: "(string, session_ptr) gomap"
  byUser :: "(string, session_ptr) gomap"

definition NewStore :: Store where
  "NewStore = \<lparr>heap = [], byID = [], byUser = []\<rparr>"

datatype issue_error = ErrRandom | ErrAllocSession | ErrAllocUsername

datatype auth_error = ErrUnauthorized

text \<open>\<^verbatim>\<open>!now.Before(sess.ExpiresAt)\<close> or the revoked flag: the session cannot be used any more.\<close>

definition dead :: "nanos \<Rightarrow> Session \<Rightarrow> bool" where
  "dead now sess \<longleftrightarrow> revoked sess \<or> \<not> now < ExpiresAt sess"

definition drop_user :: "Store \<Rightarrow> session_ptr \<Rightarrow> Store" where
  "drop_user s p =
     (let user = Username (heap s ! p) in
      if mget (byUser s) user = Some p then s\<lparr>byUser := mdel user (byUser s)\<rparr> else s)"

fun purge_loop :: "nanos \<Rightarrow> (string \<times> session_ptr) list \<Rightarrow> Store \<Rightarrow> Store" where
  "purge_loop now [] s = s"
| "purge_loop now ((sid, p) # es) s =
     purge_loop now es
       (if dead now (heap s ! p) then drop_user (s\<lparr>byID := mdel sid (byID s)\<rparr>) p else s)"

definition purgeLocked :: "nanos \<Rightarrow> Store \<Rightarrow> Store" where
  "purgeLocked now s = purge_loop now (byID s) s"

definition randomHex :: "string option \<Rightarrow> string option" where
  "randomHex read = map_option hex_encode read"

text \<open>The five attempts at a free user name; \<open>reads i\<close> is what the random source gives to the i-th.\<close>

fun alloc_username ::
  "(nat \<Rightarrow> string option) \<Rightarrow> (string, session_ptr) gomap \<Rightarrow> nat list \<Rightarrow> issue_error + string" where
  "alloc_username reads users [] = Inl ErrAllocUsername"
| "alloc_username reads users (i # is) =
     (case randomHex (reads i) of
        None \<Rightarrow> Inl ErrRandom
      | Some suf \<Rightarrow>
          let username = ''jp'' @ suf in
          if mget users username \<noteq> None then alloc_username reads users is else Inr username)"

definition Issue ::
  "(string \<Rightarrow> string) \<Rightarrow> nanos \<Rightarrow> string option \<Rightarrow> string option \<Rightarrow> (nat \<Rightarrow> string option)
     \<Rightarrow> string \<Rightarrow> string \<Rightarrow> nat \<Rightarrow> Store \<Rightarrow> Store \<times> (issue_error + Session \<times> string)" where
  "Issue H now passRaw idRaw reads agentID agentName userID s =
     (case passRaw of
        None \<Rightarrow> (s, Inl ErrRandom)
      | Some raw \<Rightarrow>
        let password = hex_encode raw; digest = H password in
        (case randomHex idRaw of
           None \<Rightarrow> (s, Inl ErrRandom)
         | Some sid \<Rightarrow>
           let s1 = purgeLocked now s in
           if mget (byID s1) sid \<noteq> None then (s1, Inl ErrAllocSession)
           else (case alloc_username reads (byUser s1) [0..<5] of
               Inl e \<Rightarrow> (s1, Inl e)
             | Inr username \<Rightarrow>
                 let sess = \<lparr>ID = sid, AgentID = agentID, AgentName = agentName, Username = username,
                       CreatedBy = userID, CreatedAt = now, ExpiresAt = now + SessionTTL,
                       passwordHash = hex_encode digest, revoked = False\<rparr>;
                     p = length (heap s1)
                 in (s1\<lparr>heap := heap s1 @ [sess], byID := mput sid p (byID s1),
                        byUser := mput username p (byUser s1)\<rparr>,
                     Inr (sess, password)))))"

definition Authenticate ::
  "(string \<Rightarrow> string) \<Rightarrow> nanos \<Rightarrow> string \<Rightarrow> string \<Rightarrow> Store \<Rightarrow> auth_error + Session" where
  "Authenticate H now username password s =
     (let got = hex_encode (H password) in
      case mget (byUser s) username of
        None \<Rightarrow> Inl ErrUnauthorized
      | Some p \<Rightarrow>
          let sess = heap s ! p in
          if revoked sess \<or> \<not> now < ExpiresAt sess then Inl ErrUnauthorized
          else if got \<noteq> passwordHash sess then Inl ErrUnauthorized
          else Inr sess)"

text \<open>\<^verbatim>\<open>sort.Slice\<close> leaves the order of equal keys open; the stable sort is one of its outcomes.\<close>

definition List_sessions :: "nanos \<Rightarrow> Store \<Rightarrow> Store \<times> Session list" where
  "List_sessions now s =
     (let s1 = purgeLocked now s
      in (s1, sort_key ExpiresAt (map (\<lambda>e. heap s1 ! snd e) (byID s1))))"

definition Store_Revoke :: "nanos \<Rightarrow> string \<Rightarrow> Store \<Rightarrow> Store \<times> bool" where
  "Store_Revoke now sid s =
     (case mget (byID s) sid of
        None \<Rightarrow> (s, False)
      | Some p \<Rightarrow>
          let sess = heap s ! p in
          if revoked sess \<or> \<not> now < ExpiresAt sess then (s, False)
          else (drop_user (s\<lparr>heap := (heap s)[p := sess\<lparr>revoked := True\<rparr>],
                  byID := mdel sid (byID s)\<rparr>) p, True))"

section \<open>Invariant\<close>

text \<open>
  The two maps describe the same sessions: every pointer is allocated, a session is found under its
  own id and under its own user name, a session that is found is not revoked, and all sessions expire after the same time.
\<close>

definition store_wf :: "Store \<Rightarrow> bool" where
  "store_wf s \<longleftrightarrow>
     mwf (byID s) \<and> mwf (byUser s)
     \<and> (\<forall>sess \<in> set (heap s). ExpiresAt sess = CreatedAt sess + SessionTTL)
     \<and> (\<forall>sid p. mget (byID s) sid = Some p \<longrightarrow>
          p < length (heap s) \<and> ID (heap s ! p) = sid \<and> \<not> revoked (heap s ! p)
          \<and> mget (byUser s) (Username (heap s ! p)) = Some p)
     \<and> (\<forall>u p. mget (byUser s) u = Some p \<longrightarrow>
          p < length (heap s) \<and> Username (heap s ! p) = u
          \<and> mget (byID s) (ID (heap s ! p)) = Some p)"

lemma store_wfD:
  assumes "store_wf s"
  shows "mwf (byID s)" "mwf (byUser s)"
    and "mget (byID s) sid = Some p \<Longrightarrow> p < length (heap s) \<and> ID (heap s ! p) = sid
      \<and> \<not> revoked (heap s ! p) \<and> mget (byUser s) (Username (heap s ! p)) = Some p"
    and "mget (byUser s) u = Some p \<Longrightarrow> p < length (heap s) \<and> Username (heap s ! p) = u
      \<and> mget (byID s) (ID (heap s ! p)) = Some p"
    and "sess \<in> set (heap s) \<Longrightarrow> ExpiresAt sess = CreatedAt sess + SessionTTL"
  using assms by (auto simp: store_wf_def)

lemma store_wf_NewStore: "store_wf NewStore"
  by (simp add: store_wf_def NewStore_def)

text \<open>Removing one session from both maps keeps the invariant and every other session.\<close>

lemma remove_session:
  assumes "store_wf s" and "mget (byID s) sid = Some p"
  defines "s' \<equiv> drop_user (s\<lparr>byID := mdel sid (byID s)\<rparr>) p"
  shows "store_wf s'" "heap s' = heap s" "byID s' = mdel sid (byID s)"
    "byUser s' = mdel (Username (heap s ! p)) (byUser s)"
proof -
  note p = store_wfD(3) [OF assms(1,2)]
  have s': "s' = s\<lparr>byID := mdel sid (byID s), byUser := mdel (Username (heap s ! p)) (byUser s)\<rparr>"
    using p by (simp add: s'_def drop_user_def Let_def)
  then show "heap s' = heap s" "byID s' = mdel sid (byID s)"
    "byUser s' = mdel (Username (heap s ! p)) (byUser s)"
    by simp_all
  show "store_wf s'"
    unfolding store_wf_def
  proof (intro conjI allI impI ballI)
    show "mwf (byID s')" "mwf (byUser s')"
      using assms(1) by (simp_all add: s' store_wfD)
  next
    fix x assume "x \<in> set (heap s')"
    then show "ExpiresAt x = CreatedAt x + SessionTTL"
      using store_wfD(5) [OF assms(1)] by (simp add: s')
  next
    fix sid' p' assume "mget (byID s') sid' = Some p'"
    then have ne: "sid' \<noteq> sid" and g: "mget (byID s) sid' = Some p'"
      by (simp_all add: s' split: if_splits)
    note q = store_wfD(3) [OF assms(1) g]
    show "p' < length (heap s')" "ID (heap s' ! p') = sid'" "\<not> revoked (heap s' ! p')"
      using q by (simp_all add: s')
    have "Username (heap s ! p') \<noteq> Username (heap s ! p)"
      using p q ne by (metis option.inject)
    then show "mget (byUser s') (Username (heap s' ! p')) = Some p'"
      using q by (simp add: s')
  next
    fix u p' assume "mget (byUser s') u = Some p'"
    then have ne: "u \<noteq> Username (heap s ! p)" and g: "mget (byUser s) u = Some p'"
      by (simp_all add: s' split: if_splits)
    note q = store_wfD(4) [OF assms(1) g]
    show "p' < length (heap s')" "Username (heap s' ! p') = u"
      using q by (simp_all add: s')
    have "ID (heap s ! p') \<noteq> sid"
      using q ne assms(2) by (metis option.inject)
    then show "mget (byID s') (ID (heap s' ! p')) = Some p'"
      using q by (simp add: s')
  qed
qed

section \<open>Purging\<close>

lemma purge_loop_spec:
  assumes "store_wf s" and "distinct (map fst es)"
    and "\<And>sid p. (sid, p) \<in> set es \<Longrightarrow> mget (byID s) sid = Some p"
  shows "store_wf (purge_loop now es s) \<and> heap (purge_loop now es s) = heap s
    \<and> (\<forall>sid. mget (byID (purge_loop now es s)) sid =
         (case mget (byID s) sid of
            None \<Rightarrow> None
          | Some p \<Rightarrow> if sid \<in> fst ` set es \<and> dead now (heap s ! p) then None else Some p))"
  using assms
proof (induction es arbitrary: s)
  case Nil
  then show ?case by (simp split: option.splits)
next
  case (Cons e es)
  obtain sid p where e: "e = (sid, p)" by (cases e)
  define s1 where "s1 =
    (if dead now (heap s ! p) then drop_user (s\<lparr>byID := mdel sid (byID s)\<rparr>) p else s)"
  have g: "mget (byID s) sid = Some p" using Cons.prems(3) by (simp add: e)
  note r = remove_session [OF Cons.prems(1) g]
  have wf1: "store_wf s1" and h1: "heap s1 = heap s"
    using r Cons.prems(1) by (simp_all add: s1_def)
  have g1: "mget (byID s1) k = (if k = sid \<and> dead now (heap s ! p) then None else mget (byID s) k)" for k
    using r g by (simp add: s1_def)
  have d: "distinct (map fst es)" "sid \<notin> fst ` set es"
    using Cons.prems(2) by (simp_all add: e)
  have "mget (byID s1) k = Some q" if "(k, q) \<in> set es" for k q
    using that d(2) Cons.prems(3) [of k q] by (auto simp: g1 image_iff)
  note IH = Cons.IH [OF wf1 d(1) this]
  have "purge_loop now (e # es) s = purge_loop now es s1" by (simp add: e s1_def)
  then show ?case
    using IH g d(2) by (auto simp: h1 g1 e split: option.splits)
qed

lemma purge_spec:
  assumes "store_wf s"
  shows "store_wf (purgeLocked now s)" "heap (purgeLocked now s) = heap s"
    "mget (byID (purgeLocked now s)) sid =
       (case mget (byID s) sid of None \<Rightarrow> None | Some p \<Rightarrow> if dead now (heap s ! p) then None else Some p)"
proof -
  have "store_wf (purgeLocked now s) \<and> heap (purgeLocked now s) = heap s
    \<and> (\<forall>sid. mget (byID (purgeLocked now s)) sid =
         (case mget (byID s) sid of
            None \<Rightarrow> None
          | Some p \<Rightarrow> if sid \<in> fst ` set (byID s) \<and> dead now (heap s ! p) then None else Some p))"
    unfolding purgeLocked_def
    by (rule purge_loop_spec [OF assms])
      (use store_wfD(1) [OF assms] in \<open>auto simp: mwf_def mget_def\<close>)
  then show "store_wf (purgeLocked now s)" "heap (purgeLocked now s) = heap s"
    "mget (byID (purgeLocked now s)) sid =
       (case mget (byID s) sid of None \<Rightarrow> None | Some p \<Rightarrow> if dead now (heap s ! p) then None else Some p)"
    by (auto split: option.splits dest!: mget_SomeD simp: image_iff)
qed

lemma purge_byUser:
  assumes "store_wf s"
  shows "mget (byUser (purgeLocked now s)) u = Some p \<longleftrightarrow>
    mget (byUser s) u = Some p \<and> \<not> dead now (heap s ! p)"
proof -
  note w = purge_spec [OF assms, of now]
  show ?thesis
  proof
    assume "mget (byUser (purgeLocked now s)) u = Some p"
    from store_wfD(4) [OF w(1) this]
    have "Username (heap s ! p) = u" "mget (byID (purgeLocked now s)) (ID (heap s ! p)) = Some p"
      by (simp_all add: w(2))
    then show "mget (byUser s) u = Some p \<and> \<not> dead now (heap s ! p)"
      using store_wfD(3) [OF assms, of "ID (heap s ! p)" p]
      by (auto simp: w(3) split: option.splits if_splits)
  next
    assume a: "mget (byUser s) u = Some p \<and> \<not> dead now (heap s ! p)"
    then have "Username (heap s ! p) = u" "mget (byID s) (ID (heap s ! p)) = Some p"
      using store_wfD(4) [OF assms, of u p] by auto
    then have "mget (byID (purgeLocked now s)) (ID (heap s ! p)) = Some p"
      using a by (simp add: w(3))
    from store_wfD(3) [OF w(1) this] show "mget (byUser (purgeLocked now s)) u = Some p"
      using \<open>Username (heap s ! p) = u\<close> by (simp add: w(2))
  qed
qed

section \<open>The credentials the store stands for\<close>

text \<open>
  The abstract view of the store at a moment: user names to the sessions that can still be used.
\<close>

definition creds :: "Store \<Rightarrow> nanos \<Rightarrow> string \<Rightarrow> Session option" where
  "creds s now u =
     (case mget (byUser s) u of
        None \<Rightarrow> None
      | Some p \<Rightarrow> if dead now (heap s ! p) then None else Some (heap s ! p))"

lemma dead_mono: "dead now x \<Longrightarrow> now \<le> t \<Longrightarrow> dead t x"
  by (auto simp: dead_def)

lemma creds_purge:
  assumes "store_wf s" and "now \<le> t"
  shows "creds (purgeLocked now s) t = creds s t"
proof
  fix u
  note b = purge_byUser [OF assms(1), of now u] and h = purge_spec(2) [OF assms(1), of now]
  show "creds (purgeLocked now s) t u = creds s t u"
  proof (cases "mget (byUser s) u")
    case None
    then have "mget (byUser (purgeLocked now s)) u = None"
      using b by (metis not_None_eq option.distinct(1))
    with None show ?thesis by (simp add: creds_def)
  next
    case (Some p)
    show ?thesis
    proof (cases "dead now (heap s ! p)")
      case True
      then have "mget (byUser (purgeLocked now s)) u = None"
        using b Some by (metis not_None_eq option.inject)
      with Some dead_mono [OF True assms(2)] show ?thesis by (simp add: creds_def)
    next
      case False
      with b Some have "mget (byUser (purgeLocked now s)) u = Some p" by blast
      with Some h show ?thesis by (simp add: creds_def)
    qed
  qed
qed

lemma Authenticate_creds:
  "Authenticate H now u pw s =
     (case creds s now u of
        None \<Rightarrow> Inl ErrUnauthorized
      | Some x \<Rightarrow> if hex_encode (H pw) = passwordHash x then Inr x else Inl ErrUnauthorized)"
  by (auto simp: Authenticate_def creds_def dead_def Let_def split: option.splits)

lemma creds_SomeE:
  assumes "creds s t u = Some x"
  obtains p where "mget (byUser s) u = Some p" "heap s ! p = x" "\<not> dead t x"
proof (cases "mget (byUser s) u")
  case None
  with assms show thesis by (simp add: creds_def)
next
  case (Some p)
  with assms have "\<not> dead t (heap s ! p)" "heap s ! p = x"
    by (auto simp: creds_def split: if_splits)
  with Some that show thesis by blast
qed

lemma creds_in_heap: "store_wf s \<Longrightarrow> creds s t u = Some x \<Longrightarrow> x \<in> set (heap s) \<and> Username x = u"
  by (erule creds_SomeE) (metis nth_mem store_wfD(4))

lemma creds_by_id:
  assumes "store_wf s" and "creds s t u = Some x"
  obtains p where "mget (byID s) (ID x) = Some p" "heap s ! p = x" "\<not> dead t x"
    "mget (byUser s) u = Some p"
  using assms(2) by (rule creds_SomeE) (metis that store_wfD(4) [OF assms(1)])

lemma alloc_username_free:
  "alloc_username reads users is = Inr u \<Longrightarrow> mget users u = None"
  by (induction "is") (auto simp: Let_def split: option.splits if_splits)

section \<open>Issuing\<close>

lemma Issue_cases:
  assumes "Issue H now passRaw idRaw reads agentID agentName userID s = (s', r)"
  obtains
    (fail) e where "r = Inl e" "s' = s \<or> s' = purgeLocked now s"
  | (ok) sid u raw where
      "r = Inr (\<lparr>ID = sid, AgentID = agentID, AgentName = agentName, Username = u,
                 CreatedBy = userID, CreatedAt = now, ExpiresAt = now + SessionTTL,
                 passwordHash = hex_encode (H (hex_encode raw)), revoked = False\<rparr>, hex_encode raw)"
      "passRaw = Some raw"
      "mget (byID (purgeLocked now s)) sid = None" "mget (byUser (purgeLocked now s)) u = None"
      "s' = (purgeLocked now s)\<lparr>
          heap := heap (purgeLocked now s) @ [fst (projr r)],
          byID := mput sid (length (heap (purgeLocked now s))) (byID (purgeLocked now s)),
          byUser := mput u (length (heap (purgeLocked now s))) (byUser (purgeLocked now s))\<rparr>"
proof (cases "passRaw = None \<or> randomHex idRaw = None")
  case True
  then show thesis
    using assms fail [of ErrRandom] by (auto simp: Issue_def split: option.splits)
next
  case False
  then obtain raw sid where r: "passRaw = Some raw" "randomHex idRaw = Some sid" by auto
  let ?s1 = "purgeLocked now s"
  show thesis
  proof (cases "mget (byID ?s1) sid")
    case (Some p)
    then show thesis
      using assms fail [of ErrAllocSession] by (simp add: Issue_def Let_def r)
  next
    case None
    show thesis
    proof (cases "alloc_username reads (byUser ?s1) [0..<5]")
      case (Inl e)
      then show thesis using assms fail [of e] None by (simp add: Issue_def Let_def r del: upt_rec_numeral)
    next
      case (Inr u)
      from Inr have "mget (byUser ?s1) u = None" by (rule alloc_username_free)
      with Inr None show thesis
        using assms ok [of sid u raw] by (auto simp: Issue_def Let_def r simp del: upt_rec_numeral)
    qed
  qed
qed

text \<open>A new session under a fresh id and a fresh user name keeps the invariant.\<close>

lemma add_session:
  assumes "store_wf s" and "mget (byID s) (ID x) = None" and "mget (byUser s) (Username x) = None"
    and "\<not> revoked x" and "ExpiresAt x = CreatedAt x + SessionTTL"
  shows "store_wf (s\<lparr>heap := heap s @ [x], byID := mput (ID x) (length (heap s)) (byID s),
    byUser := mput (Username x) (length (heap s)) (byUser s)\<rparr>)"
proof -
  have old: "mget (byID s) sid = Some p \<Longrightarrow>
      p < length (heap s) \<and> ID (heap s ! p) = sid \<and> \<not> revoked (heap s ! p)
      \<and> mget (byUser s) (Username (heap s ! p)) = Some p \<and> Username (heap s ! p) \<noteq> Username x" for sid p
    using store_wfD(3) [OF assms(1), of sid p] assms(3) by auto
  have old': "mget (byUser s) u = Some p \<Longrightarrow>
      p < length (heap s) \<and> Username (heap s ! p) = u
      \<and> mget (byID s) (ID (heap s ! p)) = Some p \<and> ID (heap s ! p) \<noteq> ID x" for u p
    using store_wfD(4) [OF assms(1), of u p] assms(2) by auto
  show ?thesis
    unfolding store_wf_def
    using assms(4,5) store_wfD(1,2,5) [OF assms(1)]
    by (auto simp: nth_append dest: old old')
qed

lemma Issue_wf: "store_wf s \<Longrightarrow> store_wf (fst (Issue H now passRaw idRaw reads a n uid s))"
proof -
  assume wf: "store_wf s"
  obtain s' r where i: "Issue H now passRaw idRaw reads a n uid s = (s', r)"
    by (cases "Issue H now passRaw idRaw reads a n uid s")
  from i have "store_wf s'"
  proof (cases rule: Issue_cases)
    case (fail e)
    then show ?thesis using wf purge_spec(1) [OF wf] by auto
  next
    case (ok sid u raw)
    then show ?thesis
      using add_session [OF purge_spec(1) [OF wf, of now], of "fst (projr r)"] by simp
  qed
  with i show ?thesis by simp
qed

lemma Issue_creds:
  assumes wf: "store_wf s" and i: "Issue H now passRaw idRaw reads a n uid s = (s', Inr (x, pw))"
    and t: "now \<le> t"
  shows "creds s' t = (creds s t)(Username x := if t < ExpiresAt x then Some x else None)"
    and "creds s now (Username x) = None" and "passwordHash x = hex_encode (H pw)"
    and "ExpiresAt x = now + SessionTTL" and "AgentID x = a"
proof -
  note w = purge_spec [OF wf, of now]
  from i show "creds s' t = (creds s t)(Username x := if t < ExpiresAt x then Some x else None)"
  proof (cases rule: Issue_cases)
    case (ok sid u raw)
    have "creds s' t v = ((creds (purgeLocked now s) t)(u := if t < ExpiresAt x then Some x else None)) v" for v
      using ok store_wfD(4) [OF w(1), of v] by (auto simp: creds_def dead_def nth_append split: option.splits)
    then show ?thesis using ok creds_purge [OF wf t] by (auto simp: fun_eq_iff)
  qed simp
  from i show "creds s now (Username x) = None"
  proof (cases rule: Issue_cases)
    case (ok sid u raw)
    then have "creds (purgeLocked now s) now (Username x) = None" by (simp add: creds_def)
    then show ?thesis by (simp add: creds_purge [OF wf order_refl])
  qed simp
  show "passwordHash x = hex_encode (H pw)" "ExpiresAt x = now + SessionTTL" "AgentID x = a"
    using i by (auto elim!: Issue_cases)
qed

lemma Issue_error_creds:
  "store_wf s \<Longrightarrow> Issue H now passRaw idRaw reads a n uid s = (s', Inl e) \<Longrightarrow> now \<le> t \<Longrightarrow>
     creds s' t = creds s t"
  by (erule Issue_cases) (auto simp: creds_purge)

section \<open>Revoking and listing\<close>

text \<open>
  Changing the flag of a session that is in neither map changes neither the invariant nor the
  credentials.
\<close>

lemma flag_unreachable:
  assumes wf: "store_wf s" and p: "p < length (heap s)"
    and other: "\<And>k. mget (byID s) k \<noteq> Some p" "\<And>v. mget (byUser s) v \<noteq> Some p"
  defines "s' \<equiv> s\<lparr>heap := (heap s)[p := (heap s ! p)\<lparr>revoked := True\<rparr>]\<rparr>"
  shows "store_wf s'" and "creds s' t = creds s t"
proof -
  have nth: "heap s' ! q = heap s ! q" if "q \<noteq> p" for q using that by (simp add: s'_def)
  show "store_wf s'"
    unfolding store_wf_def
  proof (intro conjI allI impI ballI)
    show "mwf (byID s')" "mwf (byUser s')" using store_wfD(1,2) [OF wf] by (simp_all add: s'_def)
  next
    fix x assume "x \<in> set (heap s')"
    then have "x \<in> set (heap s) \<or> x = (heap s ! p)\<lparr>revoked := True\<rparr>"
      using set_update_subset_insert [of "heap s" p] by (auto simp: s'_def)
    then show "ExpiresAt x = CreatedAt x + SessionTTL"
      using store_wfD(5) [OF wf] p nth_mem by fastforce
  next
    fix k q assume "mget (byID s') k = Some q"
    then have g: "mget (byID s) k = Some q" by (simp add: s'_def)
    then have "q \<noteq> p" using other(1) by auto
    with store_wfD(3) [OF wf g]
    show "q < length (heap s')" "ID (heap s' ! q) = k" "\<not> revoked (heap s' ! q)"
      "mget (byUser s') (Username (heap s' ! q)) = Some q"
      by (simp_all add: s'_def)
  next
    fix v q assume "mget (byUser s') v = Some q"
    then have g: "mget (byUser s) v = Some q" by (simp add: s'_def)
    then have "q \<noteq> p" using other(2) by auto
    with store_wfD(4) [OF wf g]
    show "q < length (heap s')" "Username (heap s' ! q) = v"
      "mget (byID s') (ID (heap s' ! q)) = Some q"
      by (simp_all add: s'_def)
  qed
  show "creds s' t = creds s t"
  proof
    fix v
    show "creds s' t v = creds s t v"
    proof (cases "mget (byUser s) v")
      case None
      then show ?thesis by (simp add: creds_def s'_def)
    next
      case (Some q)
      then have "q \<noteq> p" using other(2) [of v] by auto
      with Some nth show ?thesis by (simp add: creds_def s'_def)
    qed
  qed
qed

lemma revoke_found:
  assumes wf: "store_wf s" and g: "mget (byID s) sid = Some p"
  defines "s' \<equiv> drop_user (s\<lparr>heap := (heap s)[p := (heap s ! p)\<lparr>revoked := True\<rparr>],
               byID := mdel sid (byID s)\<rparr>) p"
  shows "store_wf s'" and "creds s' t = (creds s t)(Username (heap s ! p) := None)"
proof -
  note w = store_wfD(3) [OF wf g]
  note rm = remove_session [OF wf g]
  define s1 where "s1 = drop_user (s\<lparr>byID := mdel sid (byID s)\<rparr>) p"
  have s': "s' = s1\<lparr>heap := (heap s1)[p := (heap s1 ! p)\<lparr>revoked := True\<rparr>]\<rparr>"
    using w by (simp add: s'_def s1_def drop_user_def Let_def)
  have "mget (byID s1) k \<noteq> Some p" for k
    using rm(3) store_wfD(3) [OF wf, of k p] w by (simp add: s1_def) blast
  moreover have "mget (byUser s1) v \<noteq> Some p" for v
    using rm(4) store_wfD(4) [OF wf, of v p] w by (simp add: s1_def) blast
  moreover have "store_wf s1" "p < length (heap s1)" using rm w by (simp_all add: s1_def)
  ultimately have wf': "store_wf s'" and c: "creds s' t = creds s1 t"
    unfolding s' by (auto intro: flag_unreachable)
  show "store_wf s'" by (rule wf')
  show "creds s' t = (creds s t)(Username (heap s ! p) := None)"
    unfolding c by (rule ext) (simp add: creds_def s1_def rm split: option.splits)
qed

lemma Store_Revoke_spec:
  assumes wf: "store_wf s" and r: "Store_Revoke now sid s = (s', ok)"
  shows "store_wf s'"
    and "ok \<longleftrightarrow> (\<exists>u x. creds s now u = Some x \<and> ID x = sid)"
    and "creds s now u = Some x \<Longrightarrow> ID x = sid \<Longrightarrow> creds s' t = (creds s t)(u := None)"
    and "\<not> ok \<Longrightarrow> s' = s"
proof -
  have by_id: "\<exists>p. mget (byID s) sid = Some p \<and> heap s ! p = x \<and> \<not> dead now x \<and> Username x = u"
    if "creds s now u = Some x" "ID x = sid" for u x
    using creds_by_id [OF wf that(1)] creds_in_heap [OF wf that(1)] that(2) by metis
  show "\<not> ok \<Longrightarrow> s' = s"
    using r by (auto simp: Store_Revoke_def Let_def split: option.splits if_splits)
  show "store_wf s'"
    using r wf revoke_found(1) [OF wf]
    by (auto simp: Store_Revoke_def Let_def split: option.splits if_splits)
  show "ok \<longleftrightarrow> (\<exists>u x. creds s now u = Some x \<and> ID x = sid)"
  proof
    assume ok
    then obtain p where p: "mget (byID s) sid = Some p" "\<not> dead now (heap s ! p)"
      using r by (auto simp: Store_Revoke_def dead_def Let_def split: option.splits if_splits)
    then have "creds s now (Username (heap s ! p)) = Some (heap s ! p)" "ID (heap s ! p) = sid"
      using store_wfD(3) [OF wf p(1)] by (simp_all add: creds_def)
    then show "\<exists>u x. creds s now u = Some x \<and> ID x = sid" by blast
  next
    assume "\<exists>u x. creds s now u = Some x \<and> ID x = sid"
    then obtain p where "mget (byID s) sid = Some p" "\<not> dead now (heap s ! p)"
      using by_id by blast
    then show ok using r by (simp add: Store_Revoke_def dead_def Let_def)
  qed
  show "creds s' t = (creds s t)(u := None)" if x: "creds s now u = Some x" "ID x = sid"
  proof -
    obtain p where p: "mget (byID s) sid = Some p" "heap s ! p = x" "\<not> dead now x" "Username x = u"
      using by_id [OF x] by blast
    with r have "s' = drop_user (s\<lparr>heap := (heap s)[p := (heap s ! p)\<lparr>revoked := True\<rparr>],
        byID := mdel sid (byID s)\<rparr>) p"
      by (simp add: Store_Revoke_def dead_def Let_def)
    with revoke_found(2) [OF wf p(1), of t] p show ?thesis by simp
  qed
qed

lemma List_sessions_set:
  assumes "store_wf s"
  shows "set (snd (List_sessions now s)) = {x. \<exists>u. creds s now u = Some x}"
proof -
  note w = purge_spec [OF assms, of now]
  have "x \<in> set (snd (List_sessions now s)) \<longleftrightarrow> (\<exists>u. creds s now u = Some x)" for x
  proof
    assume "x \<in> set (snd (List_sessions now s))"
    then obtain sid p where "(sid, p) \<in> set (byID (purgeLocked now s))" and x: "x = heap s ! p"
      by (auto simp: List_sessions_def Let_def w(2))
    then have "mget (byID (purgeLocked now s)) sid = Some p"
      using mget_in_set [OF store_wfD(1) [OF w(1)]] by blast
    from store_wfD(3) [OF w(1) this] have "mget (byUser (purgeLocked now s)) (Username x) = Some p"
      by (simp add: x w(2))
    then have "creds s now (Username x) = Some x"
      using purge_byUser [OF assms, of now "Username x" p] by (simp add: creds_def x)
    then show "\<exists>u. creds s now u = Some x" by blast
  next
    assume "\<exists>u. creds s now u = Some x"
    then obtain u p where p: "mget (byID s) (ID x) = Some p" "heap s ! p = x" "\<not> dead now x"
      using creds_by_id [OF assms] by metis
    then have "(ID x, p) \<in> set (byID (purgeLocked now s))"
      by (intro mget_SomeD) (simp add: w(3))
    then show "x \<in> set (snd (List_sessions now s))"
      using p(2) by (force simp: List_sessions_def Let_def w(2))
  qed
  then show ?thesis by blast
qed

section \<open>Runs of the store\<close>

datatype store_op =
    OpIssue nanos "string option" "string option" "nat \<Rightarrow> string option" string string nat
  | OpList nanos
  | OpRevoke nanos string

fun op_time :: "store_op \<Rightarrow> nanos" where
  "op_time (OpIssue now _ _ _ _ _ _) = now"
| "op_time (OpList now) = now"
| "op_time (OpRevoke now _) = now"

fun store_apply :: "(string \<Rightarrow> string) \<Rightarrow> Store \<Rightarrow> store_op \<Rightarrow> Store" where
  "store_apply H s (OpIssue now pr ir rs a n uid) = fst (Issue H now pr ir rs a n uid s)"
| "store_apply H s (OpList now) = fst (List_sessions now s)"
| "store_apply H s (OpRevoke now sid) = fst (Store_Revoke now sid s)"

definition store_run :: "(string \<Rightarrow> string) \<Rightarrow> Store \<Rightarrow> store_op list \<Rightarrow> Store" where
  "store_run H = foldl (store_apply H)"

lemma store_apply_wf [inv_intros]: "store_wf s \<Longrightarrow> store_wf (store_apply H s opn)"
proof (cases opn)
  case (OpRevoke now sid)
  assume "store_wf s"
  then show ?thesis
    using Store_Revoke_spec(1) [of s now sid] OpRevoke by (cases "Store_Revoke now sid s") simp
qed (auto simp: Issue_wf List_sessions_def Let_def purge_spec)

lemma store_run_wf: "store_wf s \<Longrightarrow> store_wf (store_run H s ops)"
  by (induction ops arbitrary: s) (auto simp: store_run_def store_apply_wf)

lemma store_apply_keeps:
  assumes wf: "store_wf s" and x: "creds s t u = Some x" and t: "op_time opn \<le> t"
    and nr: "\<And>now. opn \<noteq> OpRevoke now (ID x)"
  shows "creds (store_apply H s opn) t u = Some x"
proof (cases opn)
  case (OpIssue now pr ir rs a n uid)
  obtain s' r where i: "Issue H now pr ir rs a n uid s = (s', r)"
    by (cases "Issue H now pr ir rs a n uid s")
  have now: "now \<le> t" using t OpIssue by simp
  then have "creds s now u = Some x"
    using x dead_mono by (auto simp: creds_def split: option.splits if_splits)
  then show ?thesis
  proof (cases r)
    case (Inr z)
    obtain y pw where z: "z = (y, pw)" by (cases z)
    then have "creds s now (Username y) = None"
      using Issue_creds(2) [OF wf _ now] i Inr by metis
    then have "u \<noteq> Username y" using \<open>creds s now u = Some x\<close> by auto
    then show ?thesis
      using Issue_creds(1) [OF wf _ now] i Inr z x OpIssue by simp
  qed (use Issue_error_creds [OF wf _ now] i x OpIssue in simp)
next
  case (OpList now)
  then show ?thesis using creds_purge [OF wf] t x by (simp add: List_sessions_def Let_def)
next
  case (OpRevoke now sid)
  obtain s' ok where r: "Store_Revoke now sid s = (s', ok)" by (cases "Store_Revoke now sid s")
  show ?thesis
  proof (cases ok)
    case True
    then obtain v y where y: "creds s now v = Some y" "ID y = sid"
      using Store_Revoke_spec(2) [OF wf r] by blast
    have "creds s now u = Some x"
      using x t OpRevoke dead_mono by (auto simp: creds_def split: option.splits if_splits)
    then have "u \<noteq> v" using y nr [of now] OpRevoke by auto
    then show ?thesis
      using Store_Revoke_spec(3) [OF wf r y, of t] x OpRevoke r by simp
  qed (use Store_Revoke_spec(4) [OF wf r] r x OpRevoke in simp)
qed

lemma store_run_keeps:
  assumes "store_wf s" and "creds s t u = Some x"
    and "\<And>opn. opn \<in> set ops \<Longrightarrow> op_time opn \<le> t \<and> (\<forall>now. opn \<noteq> OpRevoke now (ID x))"
  shows "creds (store_run H s ops) t u = Some x"
  using assms
proof (induction ops arbitrary: s)
  case Nil
  then show ?case by (simp add: store_run_def)
next
  case (Cons opn ops)
  have "creds (store_apply H s opn) t u = Some x"
    by (rule store_apply_keeps) (use Cons.prems in auto)
  then show ?case
    using Cons.IH [of "store_apply H s opn"] Cons.prems by (simp add: store_run_def store_apply_wf)
qed

section \<open>Properties\<close>

text \<open>
  A concrete run for the witnesses: a hash that reverses its input, and one issued credential.
\<close>

definition demo_hash :: "string \<Rightarrow> string" where
  "demo_hash pw = rev pw"

definition demo_issue :: "Store \<times> (issue_error + Session \<times> string)" where
  "demo_issue = Issue demo_hash 0 (Some ''ab'') (Some ''cd'') (\<lambda>_. Some ''ef'') ''agent'' ''probe'' 1 NewStore"

definition demo_session :: Session where
  "demo_session =
     \<lparr>ID = ''6364'', AgentID = ''agent'', AgentName = ''probe'', Username = ''jp6566'', CreatedBy = 1,
      CreatedAt = 0, ExpiresAt = SessionTTL, passwordHash = hex_encode (demo_hash ''6162''),
      revoked = False\<rparr>"

definition demo_store :: Store where
  "demo_store = \<lparr>heap = [demo_session], byID = [(''6364'', 0)], byUser = [(''jp6566'', 0)]\<rparr>"

lemma demo_issue_eq: "demo_issue = (demo_store, Inr (demo_session, ''6162''))"
  by code_simp

lemma demo_wf: "store_wf demo_store"
  using Issue_wf [OF store_wf_NewStore, of demo_hash 0 "Some ''ab''" "Some ''cd''" "\<lambda>_. Some ''ef''"
      "''agent''" "''probe''" 1] demo_issue_eq
  by (simp add: demo_issue_def)

text \<open>
  in every state the credential store can reach, the id map and the user map describe the same
  sessions: a pointer found by id is allocated, carries that id, is not revoked and is what its user
  name finds, and the other way round.
\<close>

theorem store_maps_agree:
  assumes "s = store_run H NewStore ops"
  shows "store_wf s"
  unfolding assms by (rule store_run_wf [OF store_wf_NewStore])

theorem store_maps_agree_witness:
  "store_wf (store_run demo_hash NewStore
     [OpIssue 0 (Some ''ab'') (Some ''cd'') (\<lambda>_. Some ''ef'') ''agent'' ''probe'' 1,
      OpRevoke 5 ''6364'', OpList 9])"
  by (rule store_maps_agree [OF refl])

text \<open>
  an issued credential works for its whole lifetime: whatever is issued, listed or revoked
  meanwhile (other than this credential), the issued user name and password authenticate to the issued
  session at every moment before it expires.
\<close>

theorem credential_valid_until_expiry:
  assumes "store_wf s"
    and "Issue H now passRaw idRaw reads agent name uid s = (s', Inr (x, pw))"
    and "\<forall>opn \<in> set ops. op_time opn \<le> t \<and> (\<forall>n. opn \<noteq> OpRevoke n (ID x))"
    and "now \<le> t" and "t < now + SessionTTL"
  shows "Authenticate H t (Username x) pw (store_run H s' ops) = Inr x"
proof -
  note c = Issue_creds [OF assms(1,2,4)]
  have "creds s' t (Username x) = Some x" using c(1,4) assms(5) by simp
  moreover have "store_wf s'" using Issue_wf [OF assms(1)] assms(2) by (metis fst_conv)
  ultimately have "creds (store_run H s' ops) t (Username x) = Some x"
    using assms(3) by (intro store_run_keeps) auto
  then show ?thesis using c(3) by (simp add: Authenticate_creds)
qed

theorem credential_valid_until_expiry_witness:
  "Authenticate demo_hash 1000 ''jp6566'' ''6162'' (store_run demo_hash demo_store [OpList 7, OpRevoke 8 ''00''])
     = Inr demo_session"
proof -
  have "store_wf NewStore" by (rule store_wf_NewStore)
  moreover have "Issue demo_hash 0 (Some ''ab'') (Some ''cd'') (\<lambda>_. Some ''ef'') ''agent'' ''probe'' 1 NewStore
      = (demo_store, Inr (demo_session, ''6162''))"
    using demo_issue_eq by (simp add: demo_issue_def)
  moreover have "\<forall>opn \<in> set [OpList 7, OpRevoke 8 ''00''].
      op_time opn \<le> 1000 \<and> (\<forall>n. opn \<noteq> OpRevoke n (ID demo_session))"
    by (simp add: demo_session_def)
  moreover have "(0 :: int) \<le> 1000" "(1000 :: int) < 0 + SessionTTL"
    by (simp_all add: SessionTTL_def)
  ultimately have "Authenticate demo_hash 1000 (Username demo_session) ''6162''
      (store_run demo_hash demo_store [OpList 7, OpRevoke 8 ''00'']) = Inr demo_session"
    by (rule credential_valid_until_expiry)
  then show ?thesis by (simp add: demo_session_def)
qed

text \<open>
  C13: authentication accepts nothing else. When it succeeds, the session is stored under that user
  name, has not been revoked, was created less than ten minutes ago (if the clock has not run
  backwards, no earlier than its creation) and holds the hash of the given password.
\<close>

theorem authenticate_sound:
  assumes "store_wf s" and "Authenticate H now u pw s = Inr x"
  shows "Username x = u \<and> \<not> revoked x \<and> now < CreatedAt x + SessionTTL
    \<and> passwordHash x = hex_encode (H pw)
    \<and> (\<exists>p. mget (byUser s) u = Some p \<and> mget (byID s) (ID x) = Some p \<and> heap s ! p = x)"
proof -
  have x: "creds s now u = Some x" and h: "passwordHash x = hex_encode (H pw)"
    using assms(2) by (auto simp: Authenticate_creds split: option.splits if_splits)
  obtain p where p: "mget (byID s) (ID x) = Some p" "heap s ! p = x" "\<not> dead now x"
    "mget (byUser s) u = Some p"
    using creds_by_id [OF assms(1) x] .
  have "x \<in> set (heap s)" "Username x = u" using creds_in_heap [OF assms(1) x] by simp_all
  then show ?thesis
    using p h store_wfD(5) [OF assms(1)] by (auto simp: dead_def)
qed

theorem authenticate_sound_witness:
  "Authenticate demo_hash 1000 ''jp6566'' ''6162'' demo_store = Inr demo_session
   \<and> 1000 < CreatedAt demo_session + SessionTTL"
proof -
  have a: "Authenticate demo_hash 1000 ''jp6566'' ''6162'' demo_store = Inr demo_session" by code_simp
  show ?thesis using a authenticate_sound [OF demo_wf a] by simp
qed

text \<open>
  C14: revoking refines removing one entry from the abstract credential map. It reports success exactly
  when a usable session has that id; then at every moment that user name no longer authenticates with
  any password, and every other user's credential is untouched; otherwise nothing changes.
\<close>

theorem revoke_refines_removal:
  assumes "store_wf s" and "Store_Revoke now sid s = (s', ok)"
  shows "(ok \<longleftrightarrow> (\<exists>u x. creds s now u = Some x \<and> ID x = sid))
    \<and> (\<forall>u x. creds s now u = Some x \<longrightarrow> ID x = sid \<longrightarrow>
         creds s' t = (creds s t)(u := None) \<and> Authenticate H t u pw s' = Inl ErrUnauthorized)
    \<and> (\<not> ok \<longrightarrow> s' = s)"
  using Store_Revoke_spec [OF assms] by (auto simp: Authenticate_creds)

theorem revoke_refines_removal_witness:
  "snd (Store_Revoke 5 ''6364'' demo_store)
   \<and> Authenticate demo_hash 6 ''jp6566'' ''6162'' (fst (Store_Revoke 5 ''6364'' demo_store)) = Inl ErrUnauthorized"
proof -
  obtain s' ok where r: "Store_Revoke 5 ''6364'' demo_store = (s', ok)"
    by (cases "Store_Revoke 5 ''6364'' demo_store")
  have c: "creds demo_store 5 ''jp6566'' = Some demo_session" "ID demo_session = ''6364''"
    by code_simp+
  show ?thesis
    using revoke_refines_removal [OF demo_wf r, of 6 demo_hash "''6162''"] c r by auto
qed

text \<open>
  the admin list shows exactly the credentials that can still authenticate, ordered by expiry, and
  listing does not change any of them.
\<close>

theorem list_shows_usable:
  assumes "store_wf s"
  shows "set (snd (List_sessions now s)) = {x. \<exists>u. creds s now u = Some x}
    \<and> sorted (map ExpiresAt (snd (List_sessions now s)))
    \<and> (\<forall>t \<ge> now. creds (fst (List_sessions now s)) t = creds s t)"
  using List_sessions_set [OF assms] creds_purge [OF assms]
  by (auto simp: List_sessions_def Let_def)

theorem list_shows_usable_witness:
  "set (snd (List_sessions 3 demo_store)) = {x. \<exists>u. creds demo_store 3 u = Some x}
   \<and> snd (List_sessions 3 demo_store) = [demo_session]"
proof -
  have "snd (List_sessions 3 demo_store) = [demo_session]" by code_simp
  then show ?thesis using list_shows_usable [OF demo_wf, of 3] by simp
qed

end
