(* ===== verification/Float64.thy ===== *)
theory Float64
  imports Complex_Main Prelude
begin

text \<open>
  IEEE 754 binary64 arithmetic on finite values. A \<^verbatim>\<open>float64\<close> is the rational number it denotes and
  every arithmetic operation is the exact operation followed by \<open>rnd\<close>, rounding to nearest with
  ties to even on a 53-bit significand with gradual underflow. Overflow (magnitudes of about
  \<open>1.8e308\<close>) and NaN lie outside the model.
\<close>

type_synonym float64 = rat

section \<open>Binary exponent\<close>

function ilog2 :: "int \<Rightarrow> int" where
  "ilog2 n = (if n \<le> 1 then 0 else 1 + ilog2 (n div 2))"
  by pat_completeness auto

termination
  by (relation "measure nat") auto

declare ilog2.simps [simp del]

lemma ilog2_nonneg: "0 \<le> ilog2 n"
  by (induction n rule: ilog2.induct) (simp add: ilog2.simps)

lemma ilog2_bounds: "1 \<le> n \<Longrightarrow> 2 ^ nat (ilog2 n) \<le> n \<and> n < 2 * 2 ^ nat (ilog2 n)"
proof (induction n rule: ilog2.induct)
  case (1 n)
  show ?case
  proof (cases "n \<le> 1")
    case True
    with 1(2) show ?thesis by (simp add: ilog2.simps)
  next
    case False
    then have IH: "2 ^ nat (ilog2 (n div 2)) \<le> n div 2 \<and> n div 2 < 2 * 2 ^ nat (ilog2 (n div 2))"
      by (intro "1.IH") auto
    have "ilog2 n = 1 + ilog2 (n div 2)"
      using False by (simp add: ilog2.simps [of n])
    then have "(2::int) ^ nat (ilog2 n) = 2 * 2 ^ nat (ilog2 (n div 2))"
      using ilog2_nonneg [of "n div 2"] by (simp add: nat_add_distrib)
    then show ?thesis using IH by presburger
  qed
qed

definition fexp :: "rat \<Rightarrow> int" where
  "fexp x = (let (a, b) = quotient_of x; k = ilog2 a - ilog2 b in if 2 powi k \<le> x then k else k - 1)"

lemma pow2_pos [simp]: "0 < (2::rat) powi k"
  by simp

lemma pow2_add_one: "(2::rat) powi (k + 1) = 2 * 2 powi k"
  by (simp add: power_int_add)

lemma pow2_mono: "j \<le> k \<Longrightarrow> (2::rat) powi j \<le> 2 powi k"
  by (simp add: power_int_increasing)

lemma pow2_nat: "0 \<le> k \<Longrightarrow> (2::rat) powi k = of_int (2 ^ nat k)"
  by (simp add: power_int_def)

lemma pow2_minus_one: "(2::rat) powi k = 2 * 2 powi (k - 1)"
  using pow2_add_one [of "k - 1"] by simp

lemma ilog2_rat:
  assumes "1 \<le> n"
  shows "(2::rat) powi ilog2 n \<le> of_int n \<and> of_int n < 2 * (2::rat) powi ilog2 n"
proof -
  note b = ilog2_bounds [OF assms] and p = pow2_nat [OF ilog2_nonneg [of n]]
  have "(of_int (2 ^ nat (ilog2 n)) :: rat) \<le> of_int n" using b by (simp only: of_int_le_iff)
  moreover have "(of_int n :: rat) < of_int (2 * 2 ^ nat (ilog2 n))" using b by (simp only: of_int_less_iff)
  ultimately show ?thesis by (simp add: p)
qed

lemma fexp_bounds:
  assumes "0 < x"
  shows "2 powi fexp x \<le> x \<and> x < 2 powi (fexp x + 1)"
proof -
  obtain a b where q: "quotient_of x = (a, b)" by (cases "quotient_of x")
  then have b: "0 < b" and x: "x = of_int a / of_int b"
    using quotient_of_denom_pos quotient_of_div by blast+
  with assms have a: "1 \<le> a" by (simp add: zero_less_divide_iff)
  let ?la = "ilog2 a" and ?lb = "ilog2 b"
  let ?A = "(2::rat) powi ?la" and ?B = "(2::rat) powi ?lb"
  have ia: "?A \<le> of_int a" "of_int a < 2 * ?A"
    using ilog2_rat [OF a] by simp_all
  have ib: "?B \<le> of_int b" "of_int b < 2 * ?B"
    using ilog2_rat [of b] b by simp_all
  have k: "(2::rat) powi (?la - ?lb) = ?A / ?B" by (simp add: power_int_diff)
  have bp: "0 < (of_int b :: rat)" using b by simp
  have "x * ?B \<le> x * of_int b" using ib(1) assms by simp
  also have "x * of_int b = of_int a" using bp by (simp add: x)
  finally have "x * ?B < 2 * ?A" using ia(2) by simp
  then have up: "x < 2 powi (?la - ?lb + 1)"
    unfolding pow2_add_one k by (simp add: pos_less_divide_eq)
  have "of_int a = x * of_int b" using bp by (simp add: x)
  also have "\<dots> < x * (2 * ?B)" using ib(2) assms by simp
  finally have "?A < 2 * (x * ?B)" using ia(1) by simp
  then have "?A / ?B < 2 * x" by (simp add: pos_divide_less_eq mult.assoc)
  then have lo: "2 powi (?la - ?lb - 1) \<le> x"
    using pow2_minus_one [of "?la - ?lb"] k by simp
  show ?thesis
    using up lo by (auto simp: fexp_def q Let_def)
qed

lemma fexp_mono:
  assumes "0 < x" and "x \<le> y"
  shows "fexp x \<le> fexp y"
proof (rule ccontr)
  assume "\<not> fexp x \<le> fexp y"
  then have "(2::rat) powi (fexp y + 1) \<le> 2 powi fexp x" by (intro pow2_mono) simp
  with fexp_bounds [of x] fexp_bounds [of y] assms show False by force
qed

section \<open>Rounding\<close>

definition ulp_exp :: "rat \<Rightarrow> int" where
  "ulp_exp x = max (fexp x) (- 1022) - 52"

definition round_even :: "rat \<Rightarrow> int" where
  "round_even q =
     (let n = \<lfloor>q\<rfloor>; r = q - of_int n in
      if r < 1 / 2 then n else if 1 / 2 < r then n + 1 else if even n then n else n + 1)"

definition rnd_pos :: "rat \<Rightarrow> float64" where
  "rnd_pos x = of_int (round_even (x / 2 powi ulp_exp x)) * 2 powi ulp_exp x"

definition rnd :: "rat \<Rightarrow> float64" where
  "rnd x = (if x = 0 then 0 else if 0 < x then rnd_pos x else - rnd_pos (- x))"

lemma round_even_int [simp]: "round_even (of_int n) = n"
  by (simp add: round_even_def)

lemma round_even_mono:
  assumes "p \<le> q" shows "round_even p \<le> round_even q"
proof (cases "\<lfloor>p\<rfloor> = \<lfloor>q\<rfloor>")
  case True
  with assms show ?thesis by (auto simp: round_even_def Let_def)
next
  case False
  then have "\<lfloor>p\<rfloor> + 1 \<le> \<lfloor>q\<rfloor>" using floor_mono [OF assms] by simp
  then show ?thesis by (auto simp: round_even_def Let_def)
qed

lemma round_even_le: "q \<le> of_int n \<Longrightarrow> round_even q \<le> n"
  using round_even_mono [of q "of_int n"] by simp

lemma round_even_ge: "of_int n \<le> q \<Longrightarrow> n \<le> round_even q"
  using round_even_mono [of "of_int n" q] by simp

lemma ulp_exp_mono: "0 < x \<Longrightarrow> x \<le> y \<Longrightarrow> ulp_exp x \<le> ulp_exp y"
  using fexp_mono [of x y] by (simp add: ulp_exp_def)

text \<open>The next power of two above a value bounds what the value rounds to.\<close>

lemma rnd_pos_le_binade:
  assumes "0 < x"
  shows "rnd_pos x \<le> 2 powi (ulp_exp x + 53)"
proof -
  let ?u = "ulp_exp x"
  have "fexp x + 1 \<le> ?u + 53" by (simp add: ulp_exp_def)
  then have "x \<le> 2 powi (?u + 53)"
    using fexp_bounds [OF assms] pow2_mono [of "fexp x + 1" "?u + 53"] by simp
  also have "\<dots> = of_int (2 ^ 53) * 2 powi ?u" by (simp add: power_int_add)
  finally have "x / 2 powi ?u \<le> of_int (2 ^ 53)" by (simp add: pos_divide_le_eq)
  from round_even_le [OF this]
  have "(of_int (round_even (x / 2 powi ?u)) :: rat) \<le> of_int (2 ^ 53)"
    unfolding of_int_le_iff .
  then have "rnd_pos x \<le> of_int (2 ^ 53) * 2 powi ?u"
    unfolding rnd_pos_def by (rule mult_right_mono) simp
  then show ?thesis by (simp add: power_int_add)
qed

lemma rnd_pos_ge_binade:
  assumes "0 < x" and "k \<le> fexp x" and "ulp_exp x \<le> k"
  shows "2 powi k \<le> rnd_pos x"
proof -
  let ?u = "ulp_exp x"
  have "(2::rat) powi k \<le> x"
    using fexp_bounds [OF assms(1)] pow2_mono [OF assms(2)] by simp
  moreover have k: "(2::rat) powi k = of_int (2 ^ nat (k - ?u)) * 2 powi ?u"
    using assms(3) by (simp add: pow2_nat [symmetric] power_int_add [symmetric] del: of_int_power)
  ultimately have "of_int (2 ^ nat (k - ?u)) \<le> x / 2 powi ?u"
    by (simp add: pos_le_divide_eq)
  from round_even_ge [OF this]
  have "(of_int (2 ^ nat (k - ?u)) :: rat) \<le> of_int (round_even (x / 2 powi ?u))"
    unfolding of_int_le_iff .
  then have "of_int (2 ^ nat (k - ?u)) * 2 powi ?u \<le> rnd_pos x"
    unfolding rnd_pos_def by (rule mult_right_mono) simp
  then show ?thesis by (simp add: k)
qed

lemma rnd_pos_mono:
  assumes "0 < x" and "x \<le> y"
  shows "rnd_pos x \<le> rnd_pos y"
proof (cases "ulp_exp x = ulp_exp y")
  case True
  have "x / 2 powi ulp_exp x \<le> y / 2 powi ulp_exp x"
    using assms by (simp add: divide_right_mono)
  from round_even_mono [OF this] show ?thesis
    unfolding rnd_pos_def True [symmetric] by (intro mult_right_mono) simp_all
next
  case False
  then have lt: "ulp_exp x < ulp_exp y" using ulp_exp_mono [OF assms] by simp
  then have fy: "fexp y = ulp_exp y + 52" by (auto simp: ulp_exp_def max_def split: if_splits)
  have "rnd_pos x \<le> 2 powi (ulp_exp x + 53)" by (rule rnd_pos_le_binade [OF assms(1)])
  also have "\<dots> \<le> 2 powi fexp y" using lt fy by (intro pow2_mono) simp
  also have "\<dots> \<le> rnd_pos y" using assms fy by (intro rnd_pos_ge_binade) simp_all
  finally show ?thesis .
qed

lemma rnd_pos_nonneg: "0 < x \<Longrightarrow> 0 \<le> rnd_pos x"
  unfolding rnd_pos_def using round_even_ge [of 0 "x / 2 powi ulp_exp x"] by simp

lemma rnd_0 [simp]: "rnd 0 = 0"
  by (simp add: rnd_def)

lemma rnd_minus: "rnd (- x) = - rnd x"
  by (simp add: rnd_def)

lemma rnd_nonneg: "0 \<le> x \<Longrightarrow> 0 \<le> rnd x"
  by (simp add: rnd_def rnd_pos_nonneg)

lemma rnd_mono:
  assumes "x \<le> y" shows "rnd x \<le> rnd y"
proof -
  consider "0 < x" | "x \<le> 0" "0 \<le> y" | "y < 0" by linarith
  then show ?thesis
  proof cases
    case 1
    with assms show ?thesis using rnd_pos_mono [of x y] by (simp add: rnd_def)
  next
    case 2
    then have "rnd x \<le> 0" using rnd_nonneg [of "- x"] by (simp add: rnd_minus)
    with rnd_nonneg [of y] 2 show ?thesis by simp
  next
    case 3
    with assms show ?thesis using rnd_pos_mono [of "- y" "- x"] by (simp add: rnd_def)
  qed
qed

text \<open>Integers of at most 53 bits are exact.\<close>

lemma rnd_of_int:
  assumes "\<bar>n\<bar> \<le> 2 ^ 53"
  shows "rnd (of_int n) = of_int n"
proof -
  have pos: "rnd_pos (of_int m) = of_int m" if m: "0 < m" "m \<le> 2 ^ 53" for m :: int
  proof -
    let ?u = "ulp_exp (of_int m)"
    have b: "2 powi fexp (of_int m) \<le> (of_int m :: rat)"
      using fexp_bounds [of "of_int m"] m by simp
    show ?thesis
    proof (cases "?u \<le> 0")
      case True
      then have "(2::rat) powi (- ?u) = of_int (2 ^ nat (- ?u))" by (intro pow2_nat) simp
      moreover have "(2::rat) powi ?u * 2 powi (- ?u) = 1" by (simp add: power_int_minus)
      ultimately have k: "of_int (2 ^ nat (- ?u)) * (2::rat) powi ?u = 1" by (simp only: mult.commute)
      then have h: "(of_int m :: rat) = of_int (m * 2 ^ nat (- ?u)) * 2 powi ?u"
        by (simp only: of_int_mult mult.assoc mult_1_right)
      then have "(of_int m :: rat) / 2 powi ?u = of_int (m * 2 ^ nat (- ?u))"
        by (simp only: nonzero_eq_divide_eq [symmetric] pow2_pos [THEN less_imp_neq, symmetric] not_False_eq_True
            nonzero_divide_eq_eq)
      then have "round_even (of_int m / 2 powi ?u) = m * 2 ^ nat (- ?u)"
        by (simp only: round_even_int)
      with h show ?thesis by (simp only: rnd_pos_def)
    next
      case False
      then have f: "53 \<le> fexp (of_int m)" by (simp add: ulp_exp_def max_def split: if_splits)
      have "(2::rat) powi 53 \<le> 2 powi fexp (of_int m)" by (rule pow2_mono [OF f])
      with b have "(2::rat) ^ 53 \<le> of_int m" by simp
      then have "(of_int (2 ^ 53) :: rat) \<le> of_int m" by simp
      then have "2 ^ 53 \<le> m" unfolding of_int_le_iff .
      with m have "m = 2 ^ 52 * 2" by simp
      then have h: "(of_int m :: rat) = of_int (2 ^ 52) * 2" by (simp only: of_int_mult of_int_numeral)
      then have m': "(of_int m :: rat) = 2 powi 53" by simp
      have "\<not> 54 \<le> fexp (of_int m)"
      proof
        assume "54 \<le> fexp (of_int m)"
        from pow2_mono [OF this] b have "(2::rat) powi 54 \<le> 2 powi 53" by (simp only: m')
        then show False by simp
      qed
      with f have u: "?u = 1" by (simp add: ulp_exp_def)
      have "(of_int m :: rat) / 2 powi ?u = of_int (2 ^ 52)" unfolding u by (simp add: h)
      then have "round_even (of_int m / 2 powi ?u) = 2 ^ 52" by (simp only: round_even_int)
      then have "rnd_pos (of_int m) = of_int (2 ^ 52) * 2 powi ?u" by (simp only: rnd_pos_def)
      then show ?thesis unfolding u by (simp only: h power_int_1_right)
    qed
  qed
  from assms show ?thesis
    using pos [of n] pos [of "- n"] by (auto simp: rnd_def)
qed

lemma rnd_numeral: "(numeral n :: int) \<le> 2 ^ 53 \<Longrightarrow> rnd (numeral n) = numeral n"
  using rnd_of_int [of "numeral n"] by simp

lemma rnd_1 [simp]: "rnd 1 = 1"
  using rnd_of_int [of 1] by simp

lemma rnd_le: "x \<le> c \<Longrightarrow> rnd c = c \<Longrightarrow> rnd x \<le> c"
  using rnd_mono [of x c] by simp

lemma rnd_ge: "c \<le> x \<Longrightarrow> rnd c = c \<Longrightarrow> c \<le> rnd x"
  using rnd_mono [of c x] by simp


section \<open>Exact values\<close>

lemma pow2_less_cancel: "(2::rat) powi j < 2 powi k \<Longrightarrow> j < k"
  using pow2_mono [of k j] by (meson not_le)

text \<open>A value with a significand below \<open>2^53\<close> and an exponent in range is a \<^verbatim>\<open>float64\<close> value.\<close>

lemma rnd_pos_exact:
  assumes y: "y = of_int m * 2 powi e" and m: "0 < m" "m < 2 ^ 53" and e: "-1074 \<le> e"
  shows "rnd_pos y = y"
proof -
  let ?u = "ulp_exp y"
  have pos: "0 < y" using m by (simp add: y)
  have "(of_int m :: rat) < of_int (2 ^ 53)" using m(2) unfolding of_int_less_iff .
  then have "y < of_int (2 ^ 53) * 2 powi e" unfolding y by (rule mult_strict_right_mono) simp
  then have "y < 2 powi (e + 53)" by (simp add: power_int_add)
  with fexp_bounds [OF pos] have "(2::rat) powi fexp y < 2 powi (e + 53)" by simp
  then have "fexp y < e + 53" by (rule pow2_less_cancel)
  with e have u: "?u \<le> e" by (simp add: ulp_exp_def)
  have "(2::rat) powi e = 2 powi (e - ?u) * 2 powi ?u" by (simp add: power_int_add [symmetric])
  also have "(2::rat) powi (e - ?u) = of_int (2 ^ nat (e - ?u))" using u by (intro pow2_nat) simp
  finally have h: "y = of_int (m * 2 ^ nat (e - ?u)) * 2 powi ?u"
    unfolding y by (simp only: of_int_mult mult.assoc)
  then have "y / 2 powi ?u = of_int (m * 2 ^ nat (e - ?u))"
    by (simp only: nonzero_divide_eq_eq pow2_pos [THEN less_imp_neq, symmetric] not_False_eq_True)
  then have "round_even (y / 2 powi ?u) = m * 2 ^ nat (e - ?u)" by (simp only: round_even_int)
  with h show ?thesis by (simp only: rnd_pos_def)
qed

definition representable :: "rat \<Rightarrow> bool" where
  "representable x \<longleftrightarrow> (\<exists>m e. x = of_int m * 2 powi e \<and> \<bar>m\<bar> < 2 ^ 53 \<and> -1074 \<le> e)"

lemma representableI: "x = of_int m * 2 powi e \<Longrightarrow> \<bar>m\<bar> < 2 ^ 53 \<Longrightarrow> -1074 \<le> e \<Longrightarrow> representable x"
  unfolding representable_def by blast

lemma rnd_representable: "representable x \<Longrightarrow> rnd x = x"
proof -
  assume "representable x"
  then obtain m e where x: "x = of_int m * 2 powi e" and m: "\<bar>m\<bar> < 2 ^ 53" and e: "-1074 \<le> e"
    unfolding representable_def by blast
  consider "m = 0" | "0 < m" | "m < 0" by linarith
  then show ?thesis
  proof cases
    case 1
    then show ?thesis by (simp add: x)
  next
    case 2
    then have "0 < x" by (simp add: x)
    then show ?thesis using rnd_pos_exact [OF x 2 _ e] m by (simp add: rnd_def)
  next
    case 3
    have x': "- x = of_int (- m) * 2 powi e" by (simp add: x)
    have "x < 0" using 3 by (simp add: x mult_neg_pos)
    then show ?thesis using rnd_pos_exact [OF x' _ _ e] m 3 by (simp add: rnd_def)
  qed
qed

lemma representable_minus: "representable x \<Longrightarrow> representable (- x)"
proof -
  assume "representable x"
  then obtain m e where x: "x = of_int m * 2 powi e" "\<bar>m\<bar> < 2 ^ 53" "-1074 \<le> e" unfolding representable_def by blast
  have "- x = of_int (- m) * 2 powi e" by (simp add: x(1))
  then show ?thesis by (rule representableI) (use x in simp_all)
qed

lemma representable_rnd_pos:
  assumes "0 < x" shows "representable (rnd_pos x)"
proof -
  let ?u = "ulp_exp x" and ?m = "round_even (x / 2 powi ulp_exp x)"
  have u: "-1074 \<le> ?u" by (simp add: ulp_exp_def)
  have "0 \<le> x / 2 powi ?u" using assms by simp
  then have m0: "0 \<le> ?m" using round_even_ge [of 0 "x / 2 powi ?u"] by simp
  have le: "of_int ?m * 2 powi ?u \<le> of_int (2 ^ 53) * (2::rat) powi ?u"
    using rnd_pos_le_binade [OF assms] by (simp add: rnd_pos_def power_int_add)
  then have "(of_int ?m :: rat) \<le> of_int (2 ^ 53)" by (rule mult_right_le_imp_le) simp
  then have m53: "?m \<le> 2 ^ 53" unfolding of_int_le_iff .
  show ?thesis
  proof (cases "?m = 2 ^ 53")
    case True
    have "rnd_pos x = of_int (2 ^ 52) * 2 powi (?u + 1)"
      by (simp add: rnd_pos_def True pow2_add_one)
    then show ?thesis by (rule representableI) (use u in simp_all)
  next
    case False
    then show ?thesis using u m0 m53 by (intro representableI [of "rnd_pos x" ?m ?u]) (simp_all add: rnd_pos_def)
  qed
qed

lemma representable_0 [simp]: "representable 0"
  unfolding representable_def by (intro exI [of _ 0]) simp

lemma representable_rnd: "representable (rnd x)"
  using representable_rnd_pos [of x] representable_rnd_pos [of "- x"]
  by (auto simp: rnd_def intro: representable_minus)

lemma rnd_idem [simp]: "rnd (rnd x) = rnd x"
  by (rule rnd_representable [OF representable_rnd])

lemma representable_iff: "representable x \<longleftrightarrow> rnd x = x"
  using rnd_representable representable_rnd [of x] by auto

lemma rnd_double: "rnd x = x \<Longrightarrow> rnd (2 * x) = 2 * x"
proof -
  assume "rnd x = x"
  then obtain m e where x: "x = of_int m * 2 powi e" "\<bar>m\<bar> < 2 ^ 53" "-1074 \<le> e"
    unfolding representable_iff [symmetric] representable_def by blast
  have "2 * x = of_int m * 2 powi (e + 1)" by (simp add: x(1) pow2_add_one)
  then have "representable (2 * x)" by (rule representableI) (use x in simp_all)
  then show ?thesis by (rule rnd_representable)
qed

text \<open>Rounding at most doubles.\<close>

lemma round_even_le_double: "0 \<le> q \<Longrightarrow> of_int (round_even q) \<le> 2 * q"
proof -
  assume q: "0 \<le> q"
  define f :: rat where "f = of_int \<lfloor>q\<rfloor>"
  have f: "0 \<le> f" "f \<le> q" using q by (simp_all add: f_def)
  have "(of_int (round_even q) :: rat) = (if q - f < 1 / 2 \<or> (q - f = 1 / 2 \<and> even \<lfloor>q\<rfloor>) then f else f + 1)"
    by (auto simp: round_even_def Let_def f_def)
  also have "\<dots> \<le> 2 * q" using f by (auto simp: not_less)
  finally show ?thesis .
qed

lemma rnd_le_double: "0 \<le> x \<Longrightarrow> rnd x \<le> 2 * x"
proof (cases "x = 0")
  case False
  assume "0 \<le> x"
  with False have x: "0 < x" by simp
  have "of_int (round_even (x / 2 powi ulp_exp x)) * 2 powi ulp_exp x \<le> (2 * (x / 2 powi ulp_exp x)) * 2 powi ulp_exp x"
    using round_even_le_double [of "x / 2 powi ulp_exp x"] x by (intro mult_right_mono) simp_all
  then show ?thesis using x by (simp add: rnd_def rnd_pos_def)
qed simp

section \<open>Rounding to an integer, square root\<close>

text \<open>\<^verbatim>\<open>math.Round\<close>: half away from zero, exactly.\<close>

definition math_Round :: "rat \<Rightarrow> rat" where
  "math_Round x = (if x < 0 then - of_int \<lfloor>- x + 1 / 2\<rfloor> else of_int \<lfloor>x + 1 / 2\<rfloor>)"

lemma math_Round_nonneg: "0 \<le> x \<Longrightarrow> 0 \<le> math_Round x"
  by (simp add: math_Round_def)

lemma math_Round_of_int [simp]: "math_Round (of_int n) = of_int n"
proof -
  have "\<lfloor>(of_int k :: rat) + 1 / 2\<rfloor> = k" for k :: int by linarith
  from this [of n] this [of "- n"] show ?thesis by (simp add: math_Round_def)
qed

lemma math_Round_mono: "x \<le> y \<Longrightarrow> math_Round x \<le> math_Round y"
proof -
  assume le: "x \<le> y"
  consider "0 \<le> x" | "x < 0" "0 \<le> y" | "y < 0" by linarith
  then show ?thesis
  proof cases
    case 1
    then show ?thesis using le floor_mono [of "x + 1/2" "y + 1/2"] by (simp add: math_Round_def)
  next
    case 2
    have "0 \<le> \<lfloor>- x + 1/2\<rfloor>" "0 \<le> \<lfloor>y + 1/2\<rfloor>" using 2 by linarith+
    then have "- (of_int \<lfloor>- x + 1/2\<rfloor> :: rat) \<le> 0" "0 \<le> (of_int \<lfloor>y + 1/2\<rfloor> :: rat)"
      by (simp_all only: neg_le_0_iff_le of_int_0_le_iff)
    then have "- (of_int \<lfloor>- x + 1/2\<rfloor> :: rat) \<le> of_int \<lfloor>y + 1/2\<rfloor>" by (rule order_trans)
    then show ?thesis unfolding math_Round_def using 2 by simp
  next
    case 3
    then show ?thesis using le floor_mono [of "- y + 1/2" "- x + 1/2"] by (simp add: math_Round_def)
  qed
qed

function isqrt :: "int \<Rightarrow> int" where
  "isqrt n = (if n \<le> 0 then 0 else let r = 2 * isqrt (n div 4) in if (r + 1) * (r + 1) \<le> n then r + 1 else r)"
  by pat_completeness auto

termination
  by (relation "measure nat") auto

declare isqrt.simps [simp del]

lemma isqrt_bounds: "0 \<le> n \<Longrightarrow> 0 \<le> isqrt n \<and> isqrt n * isqrt n \<le> n \<and> n < (isqrt n + 1) * (isqrt n + 1)"
proof (induction n rule: isqrt.induct)
  case (1 n)
  show ?case
  proof (cases "n \<le> 0")
    case True
    with 1(2) show ?thesis by (simp add: isqrt.simps)
  next
    case False
    let ?r = "isqrt (n div 4)"
    have IH: "0 \<le> ?r \<and> ?r * ?r \<le> n div 4 \<and> n div 4 < (?r + 1) * (?r + 1)" using False by (intro "1.IH") auto
    then have a: "(2 * ?r) * (2 * ?r) \<le> n" by linarith
    have b: "n < (2 * ?r + 2) * (2 * ?r + 2)"
    proof -
      have "n div 4 + 1 \<le> (?r + 1) * (?r + 1)" using IH by linarith
      then have "4 * (n div 4) + 4 \<le> 4 * ((?r + 1) * (?r + 1))" by linarith
      moreover have "n < 4 * (n div 4) + 4" by linarith
      ultimately show ?thesis by (simp add: algebra_simps)
    qed
    show ?thesis using False IH a b by (auto simp: isqrt.simps [of n] Let_def algebra_simps)
  qed
qed

text \<open>
  \<^verbatim>\<open>math.Sqrt\<close>, correctly rounded: the root in units of its last place \<open>2^k\<close> is the integer root of the
  scaled argument, plus one if the argument is above the square of the midpoint.
\<close>

definition math_Sqrt :: "float64 \<Rightarrow> float64" where
  "math_Sqrt x =
     (if x \<le> 0 then 0
      else let k = fexp x div 2 - 52; s = x / 4 powi k; n = isqrt \<lfloor>s\<rfloor>
           in of_int (if (of_int n + 1 / 2) * (of_int n + 1 / 2) < s then n + 1 else n) * 2 powi k)"

lemma math_Sqrt_nonneg: "0 \<le> math_Sqrt x"
proof -
  have "0 \<le> \<lfloor>x / 4 powi k\<rfloor>" if "0 < x" for k using that by simp
  then have "0 \<le> isqrt \<lfloor>x / 4 powi k\<rfloor>" if "0 < x" for k using isqrt_bounds that by blast
  then show ?thesis unfolding math_Sqrt_def Let_def by (auto intro!: mult_nonneg_nonneg)
qed

end
