(* ===== verification/Go_Json.thy ===== *)
theory Go_Json
  imports Go_Strings Float64
begin

text \<open>
  What the program uses of \<^verbatim>\<open>encoding/json\<close>, on JSON values rather than on their text: the field
  matching of \<^verbatim>\<open>Unmarshal\<close> into a struct (exact or case-folded names, later fields win, \<^verbatim>\<open>null\<close> leaves
  the field, a wrong type is an error, unknown fields are ignored) and the detour over \<^verbatim>\<open>any\<close> that
  every payload takes (\<^verbatim>\<open>json.Marshal(env.Payload)\<close> and \<^verbatim>\<open>json.Unmarshal\<close> again): objects come back
  with sorted distinct keys and numbers as \<^verbatim>\<open>float64\<close>. A decoder returns \<open>None\<close> for a non-nil error.
\<close>

datatype json = JNull | JBool bool | JNum rat | JStr string | JArr "json list" | JObj "(string \<times> json) list"

section \<open>Field names\<close>

text \<open>
  \<^verbatim>\<open>foldName\<close>: simple case folding. Besides the ASCII letters, the long s (\<^verbatim>\<open>U+017F\<close>) folds with
  \<^verbatim>\<open>s\<close> and the Kelvin sign (\<^verbatim>\<open>U+212A\<close>) with \<^verbatim>\<open>k\<close>; no other rune folds to an ASCII letter.
\<close>

fun fold_key :: "string \<Rightarrow> string" where
  "fold_key (a # b # c # r) =
     (if a = CHR 0xC5 \<and> b = CHR 0xBF then CHR ''s'' # fold_key (c # r)
      else if a = CHR 0xE2 \<and> b = CHR 0x84 \<and> c = CHR 0xAA then CHR ''k'' # fold_key r
      else lower_char a # fold_key (b # c # r))"
| "fold_key [a, b] =
     (if a = CHR 0xC5 \<and> b = CHR 0xBF then ''s'' else [lower_char a, lower_char b])"
| "fold_key [a] = [lower_char a]"
| "fold_key [] = []"

declare fold_key.simps [simp del]

section \<open>Objects\<close>

text \<open>A \<^verbatim>\<open>map[string]any\<close> and its marshalled order: distinct keys, sorted, the last value wins.\<close>

fun put_sorted :: "string \<Rightarrow> json \<Rightarrow> (string \<times> json) list \<Rightarrow> (string \<times> json) list" where
  "put_sorted k v [] = [(k, v)]"
| "put_sorted k v (e # es) =
     (if strings_Compare k (fst e) = 0 then (k, v) # es
      else if strings_Compare k (fst e) < 0 then (k, v) # e # es
      else e # put_sorted k v es)"

definition any_obj :: "(string \<times> json) list \<Rightarrow> (string \<times> json) list" where
  "any_obj kvs = foldl (\<lambda>m e. put_sorted (fst e) (snd e) m) [] kvs"

text \<open>\<open>field k v acc\<close> stores the value of the field with the folded name \<open>k\<close>.\<close>

fun dec_fields :: "(string \<Rightarrow> json \<Rightarrow> 'a \<Rightarrow> 'a option) \<Rightarrow> 'a \<Rightarrow> (string \<times> json) list \<Rightarrow> 'a option" where
  "dec_fields field acc [] = Some acc"
| "dec_fields field acc (e # es) =
     (case field (fold_key (fst e)) (snd e) acc of None \<Rightarrow> None | Some acc' \<Rightarrow> dec_fields field acc' es)"

fun dec_struct :: "(string \<Rightarrow> json \<Rightarrow> 'a \<Rightarrow> 'a option) \<Rightarrow> 'a \<Rightarrow> json \<Rightarrow> 'a option" where
  "dec_struct field zero (JObj kvs) = dec_fields field zero (any_obj kvs)"
| "dec_struct field zero JNull = Some zero"
| "dec_struct field zero _ = None"

section \<open>Scalars and arrays\<close>

fun dec_string :: "string \<Rightarrow> json \<Rightarrow> string option" where
  "dec_string old (JStr s) = Some s"
| "dec_string old JNull = Some old"
| "dec_string old _ = None"

fun dec_bool :: "bool \<Rightarrow> json \<Rightarrow> bool option" where
  "dec_bool old (JBool b) = Some b"
| "dec_bool old JNull = Some old"
| "dec_bool old _ = None"

text \<open>
  A number passes through \<^verbatim>\<open>float64\<close>; an integral one below \<open>10^21\<close> is printed without an exponent
  and is then accepted by an \<^verbatim>\<open>int\<close> field of the given width.
\<close>

fun dec_int :: "nat \<Rightarrow> int \<Rightarrow> json \<Rightarrow> int option" where
  "dec_int w old (JNum r) =
     (let f = rnd r; n = \<lfloor>f\<rfloor>
      in if f = of_int n \<and> - (2 ^ (w - 1)) \<le> n \<and> n < 2 ^ (w - 1) then Some n else None)"
| "dec_int w old JNull = Some old"
| "dec_int w old _ = None"

fun dec_float :: "float64 \<Rightarrow> json \<Rightarrow> float64 option" where
  "dec_float old (JNum r) = Some (rnd r)"
| "dec_float old JNull = Some old"
| "dec_float old _ = None"

fun dec_each :: "(json \<Rightarrow> 'a option) \<Rightarrow> json list \<Rightarrow> 'a list option" where
  "dec_each d [] = Some []"
| "dec_each d (j # js) =
     (case d j of None \<Rightarrow> None | Some x \<Rightarrow> map_option (Cons x) (dec_each d js))"

fun dec_array :: "(json \<Rightarrow> 'a option) \<Rightarrow> json \<Rightarrow> 'a list option" where
  "dec_array d (JArr js) = dec_each d js"
| "dec_array d JNull = Some []"
| "dec_array d _ = None"

section \<open>Facts\<close>

lemma dec_each_map: "(\<And>x. x \<in> set xs \<Longrightarrow> d (e x) = Some x) \<Longrightarrow> dec_each d (map e xs) = Some xs"
  by (induction xs) auto

lemma dec_int_exact:
  assumes "\<bar>n\<bar> \<le> 2 ^ 53" and "- (2 ^ (w - 1)) \<le> n" and "n < 2 ^ (w - 1)"
  shows "dec_int w old (JNum (of_int n)) = Some n"
  using assms by (simp add: rnd_of_int Let_def)

text \<open>An omitted empty field (\<^verbatim>\<open>omitempty\<close>) reads back as the zero value.\<close>

definition omit_str :: "string \<Rightarrow> string \<Rightarrow> (string \<times> json) list" where
  "omit_str k s = (if s = '''' then [] else [(k, JStr s)])"

definition omit_bool :: "string \<Rightarrow> bool \<Rightarrow> (string \<times> json) list" where
  "omit_bool k b = (if b then [(k, JBool b)] else [])"

end
