(* ===== verification/Proxy_Syntax.thy ===== *)
theory Proxy_Syntax
  imports Go_Encoding Go_Json
begin

text \<open>
  The text the proxy's three parties exchange: the Basic credential header (written by the tunnel
  client, \<^verbatim>\<open>tunnel/cmd/tunnel/dialer.go\<close>, read by the Host, \<^verbatim>\<open>host/internal/proxy/session.go\<close>), the
  \<^verbatim>\<open>host:port\<close> target (client, Host and probe, \<^verbatim>\<open>agent/internal/client/proxy.go\<close>).
\<close>

section \<open>Model\<close>

definition ParseBasicAuth :: "string \<Rightarrow> (string \<times> string) option" where
  "ParseBasicAuth header =
     (if length header < length ''basic '' \<or> map lower_char (take (length ''basic '') header) \<noteq> ''basic ''
      then None
      else case DecodeString (TrimSpace (drop (length ''basic '') header)) of
        None \<Rightarrow> None
      | Some raw \<Rightarrow>
          let (user, pass, ok) = Cut (CHR '':'') raw
          in if \<not> ok \<or> user = '''' \<or> pass = '''' then None else Some (user, pass))"

definition ParseConnectTarget :: "string \<Rightarrow> (string \<times> int) option" where
  "ParseConnectTarget raw =
     (case SplitHostPort (TrimSpace raw) of
        None \<Rightarrow> None
      | Some (host, portStr) \<Rightarrow>
          let (port, err) = Atoi portStr
          in if err \<noteq> None \<or> port < 1 \<or> port > 65535 \<or> host = '''' then None else Some (host, port))"

text \<open>The two headers \<^verbatim>\<open>tunnelCredential\<close> looks at, an absent header being empty.\<close>

definition tunnelCredential :: "string \<Rightarrow> string \<Rightarrow> (string \<times> string) option" where
  "tunnelCredential proxyAuthorization authorization =
     (case ParseBasicAuth proxyAuthorization of
        Some c \<Rightarrow> Some c
      | None \<Rightarrow> ParseBasicAuth authorization)"

definition dialer_auth :: "string \<Rightarrow> string \<Rightarrow> string" where
  "dialer_auth username password = ''Basic '' @ EncodeToString (username @ '':'' @ password)"

datatype target_error = ErrEmptyTarget | ErrInvalidTarget

definition splitTarget :: "string \<Rightarrow> target_error + string \<times> string" where
  "splitTarget raw =
     (let addr = TrimSpace raw in
      if addr = '''' then Inl ErrEmptyTarget
      else if \<not> Contains addr '':'' then Inr (addr, ''443'')
      else case SplitHostPort addr of
        None \<Rightarrow> Inl ErrInvalidTarget
      | Some (host, port) \<Rightarrow> if host = '''' \<or> port = '''' then Inl ErrInvalidTarget else Inr (host, port))"

text \<open>The target the client's \<^verbatim>\<open>Dial\<close> asks the Host for.\<close>

definition dial_target :: "string \<Rightarrow> target_error + string" where
  "dial_target addr =
     (case splitTarget addr of Inl e \<Rightarrow> Inl e | Inr (host, port) \<Rightarrow> Inr (JoinHostPort host port))"

text \<open>
  The probe's \<^verbatim>\<open>itoa\<close> fills a buffer of six bytes from the end; \<open>None\<close> is the panic of writing
  before its start.
\<close>

function itoa_loop :: "int \<Rightarrow> nat \<Rightarrow> string \<Rightarrow> string option" where
  "itoa_loop n i acc =
     (if n > 0 then
        (if i = 0 then None else itoa_loop (n div 10) (i - 1) (digit_char (n mod 10) # acc))
      else Some acc)"
  by pat_completeness auto

termination
  by (relation "measure (\<lambda>(n, i, acc). i)") auto

definition itoa :: "int \<Rightarrow> string option" where
  "itoa n = (if n = 0 then Some ''0'' else itoa_loop n 6 '''')"

section \<open>Credentials\<close>

lemma length_basic: "length ''basic '' = 6"
  by simp

lemma ParseBasicAuth_dialer:
  assumes "CHR '':'' \<notin> set user" and "user \<noteq> ''''" and "pass \<noteq> ''''"
  shows "ParseBasicAuth (dialer_auth user pass) = Some (user, pass)"
proof -
  let ?enc = "EncodeToString (user @ CHR '':'' # pass)"
  have ne: "?enc \<noteq> []" by (rule EncodeToString_nonempty) simp
  have trim: "TrimSpace ?enc = ?enc"
    using EncodeToString_plain [OF hd_in_set [OF ne]] EncodeToString_plain [OF last_in_set [OF ne]] ne
    by (rule TrimSpace_plain)
  have low: "map lower_char ''Basic '' = ''basic ''" by code_simp
  have "take 6 (dialer_auth user pass) = ''Basic ''" "drop 6 (dialer_auth user pass) = ?enc"
    by (simp_all add: dialer_auth_def)
  then show ?thesis
    using assms low trim
    by (simp add: ParseBasicAuth_def)
      (simp add: dialer_auth_def DecodeString_EncodeToString Cut_append)
qed

lemma ParseBasicAuth_sound:
  assumes "ParseBasicAuth header = Some (user, pass)"
  shows "DecodeString (TrimSpace (drop 6 header)) = Some (user @ '':'' @ pass)"
    "user \<noteq> ''''" "pass \<noteq> ''''" "CHR '':'' \<notin> set user" "map lower_char (take 6 header) = ''basic ''"
proof -
  obtain raw where r: "DecodeString (TrimSpace (drop 6 header)) = Some raw"
    "Cut (CHR '':'') raw = (user, pass, True)" "user \<noteq> ''''" "pass \<noteq> ''''"
    "map lower_char (take 6 header) = ''basic ''"
    using assms unfolding ParseBasicAuth_def length_basic
    by (cases "DecodeString (TrimSpace (drop 6 header))")
      (simp_all only: option.simps Let_def split: if_splits prod.splits, auto)
  from Cut_found [OF r(2)] r
  show "DecodeString (TrimSpace (drop 6 header)) = Some (user @ '':'' @ pass)" "CHR '':'' \<notin> set user"
    "user \<noteq> ''''" "pass \<noteq> ''''" "map lower_char (take 6 header) = ''basic ''"
    by auto
qed

section \<open>Targets\<close>

lemma Itoa_nonneg_digits: "0 \<le> n \<Longrightarrow> c \<in> set (Itoa n) \<Longrightarrow> is_digit c"
  by (simp add: Itoa_def int_digits_digits)

lemma Itoa_nonempty: "0 \<le> n \<Longrightarrow> Itoa n \<noteq> []"
  by (simp add: Itoa_def)

lemma digit_not_special:
  "\<not> is_digit (CHR '':'')" "\<not> is_digit (CHR ''['')" "\<not> is_digit (CHR '']'')"
  by (simp_all add: is_digit_def)

lemma SplitHostPort_JoinHostPort_Itoa:
  assumes "CHR ''['' \<notin> set host" "CHR '']'' \<notin> set host" "0 \<le> n"
  shows "SplitHostPort (JoinHostPort host (Itoa n)) = Some (host, Itoa n)"
  using assms Itoa_nonneg_digits [of n] digit_not_special by (intro Split_Join_HostPort) blast+

lemma lead_space_append: "lead_space h = 0 \<Longrightarrow> h \<noteq> [] \<Longrightarrow> plain_char c \<Longrightarrow> lead_space (h @ c # t) = 0"
  unfolding lead_space_zero_iff
  by (auto simp: space_runes_def plain_char_def prefix_append prefix_Cons Cons_eq_append_conv append_eq_Cons_conv)

lemma TrimSpace_JoinHostPort:
  assumes "lead_space host = 0" "host \<noteq> ''''" "port \<noteq> ''''" "plain_char (last port)"
  shows "TrimSpace (JoinHostPort host port) = JoinHostPort host port"
proof (rule TrimSpace_id)
  show "lead_space (JoinHostPort host port) = 0"
    using assms(1,2) by (simp add: JoinHostPort_def plain_lead plain_char_def lead_space_append)
  have "JoinHostPort host port = butlast (JoinHostPort host port) @ [last port]"
    using assms(3) by (simp add: JoinHostPort_def butlast_append)
  then show "trail_space (JoinHostPort host port) = 0"
    using plain_trail [OF assms(4)] by metis
qed

lemma ParseConnectTarget_JoinHostPort:
  assumes "CHR ''['' \<notin> set host" "CHR '']'' \<notin> set host" "host \<noteq> ''''" "lead_space host = 0"
    and "1 \<le> port" "port \<le> 65535"
  shows "ParseConnectTarget (JoinHostPort host (Itoa port)) = Some (host, port)"
proof -
  have "plain_char (last (Itoa port))"
    using assms by (intro Itoa_plain [OF last_in_set] Itoa_nonempty) simp
  then have "TrimSpace (JoinHostPort host (Itoa port)) = JoinHostPort host (Itoa port)"
    using assms Itoa_nonempty [of port] by (intro TrimSpace_JoinHostPort) simp_all
  then show ?thesis
    using assms Atoi_Itoa [of port] SplitHostPort_JoinHostPort_Itoa [of host port]
    by (simp add: ParseConnectTarget_def)
qed

lemma ParseConnectTarget_Some:
  assumes "ParseConnectTarget raw = Some (host, port)"
  shows "host \<noteq> ''''" "1 \<le> port" "port \<le> 65535" "CHR ''['' \<notin> set host" "CHR '']'' \<notin> set host"
  using assms SplitHostPort_host [of "TrimSpace raw" host]
  by (auto simp: ParseConnectTarget_def split: option.splits if_splits prod.splits)

lemma itoa_loop_digits:
  "0 < n \<Longrightarrow> n < 10 ^ i \<Longrightarrow> itoa_loop n i acc = Some (int_digits n @ acc)"
proof (induction i arbitrary: n acc)
  case 0
  then show ?case by simp
next
  case (Suc i)
  show ?case
  proof (cases "n < 10")
    case True
    with Suc.prems have "n div 10 = 0" "n mod 10 = n" by simp_all
    with Suc.prems True show ?thesis
      by (simp add: itoa_loop.simps [of n] itoa_loop.simps [of 0] int_digits.simps [of n] del: itoa_loop.simps)
  next
    case False
    with Suc.prems have "0 < n div 10" "n div 10 < 10 ^ i" by simp_all
    from Suc.IH [OF this] Suc.prems False show ?thesis
      by (simp add: itoa_loop.simps [of n] int_digits.simps [of n] del: itoa_loop.simps)
  qed
qed

lemma Itoa_0: "Itoa 0 = ''0''"
  by code_simp

lemma itoa_Itoa: "0 \<le> n \<Longrightarrow> n < 10 ^ 6 \<Longrightarrow> itoa n = Some (Itoa n)"
  using itoa_loop_digits [of n 6 "''''"]
  by (cases "n = 0") (simp_all add: itoa_def Itoa_0 del: itoa_loop.simps, simp add: Itoa_def)

end
