(* ===== verification/Protocol.thy ===== *)
theory Protocol
  imports Go_Json
begin

text \<open>
  The messages the Host and the probes exchange, \<^verbatim>\<open>shared/protocol/message.go\<close>: the message types,
  the payload structs with their JSON field names, and that each side decodes what the other encodes.
\<close>

section \<open>Message types\<close>

datatype MessageType =
  TypeRegisterRequest | TypeRegisterResponse | TypeHeartbeat | TypeHeartbeatAck | TypeTargetSync
| TypePingReport | TypeTracerouteReport | TypeProxyOpen | TypeProxyOpenResult | TypeProxyData
| TypeProxyClose | TypeUpdateCheck | TypeUpdateResult | TypeSoftExit | TypeError
| TypeOther string

fun type_name :: "MessageType \<Rightarrow> string" where
  "type_name TypeRegisterRequest = ''register_request''"
| "type_name TypeRegisterResponse = ''register_response''"
| "type_name TypeHeartbeat = ''heartbeat''"
| "type_name TypeHeartbeatAck = ''heartbeat_ack''"
| "type_name TypeTargetSync = ''target_sync''"
| "type_name TypePingReport = ''ping_report''"
| "type_name TypeTracerouteReport = ''traceroute_report''"
| "type_name TypeProxyOpen = ''proxy_open''"
| "type_name TypeProxyOpenResult = ''proxy_open_result''"
| "type_name TypeProxyData = ''proxy_data''"
| "type_name TypeProxyClose = ''proxy_close''"
| "type_name TypeUpdateCheck = ''update_check''"
| "type_name TypeUpdateResult = ''update_result''"
| "type_name TypeSoftExit = ''soft_exit''"
| "type_name TypeError = ''error''"
| "type_name (TypeOther s) = s"

text \<open>The \<^verbatim>\<open>switch env.Type\<close> on the wire name.\<close>

definition known_types :: "MessageType list" where
  "known_types = [TypeRegisterRequest, TypeRegisterResponse, TypeHeartbeat, TypeHeartbeatAck,
     TypeTargetSync, TypePingReport, TypeTracerouteReport, TypeProxyOpen, TypeProxyOpenResult,
     TypeProxyData, TypeProxyClose, TypeUpdateCheck, TypeUpdateResult, TypeSoftExit, TypeError]"

definition parse_type :: "string \<Rightarrow> MessageType" where
  "parse_type s = (case find (\<lambda>t. type_name t = s) known_types of Some t \<Rightarrow> t | None \<Rightarrow> TypeOther s)"

record Envelope =
  Type :: MessageType
  Payload :: json

section \<open>Payloads\<close>

record RegisterRequest =
  Token :: string
  Hostname :: string
  reg_OS :: string
  reg_Arch :: string
  reg_Version :: string

record TargetConfig =
  tc_ID :: string
  tc_Name :: string
  tc_Host :: string
  tc_PacketCount :: int
  tc_IntervalSec :: int
  tc_DisableRoute :: bool

record ProxyOpenPayload =
  open_TunnelID :: string
  open_Host :: string
  open_Port :: int

record ProxyOpenResultPayload =
  res_TunnelID :: string
  res_OK :: bool
  res_Error :: string

record ProxyDataPayload =
  data_TunnelID :: string
  data_Data :: string

record ProxyClosePayload =
  close_TunnelID :: string
  close_Reason :: string

record UpdateResultPayload =
  upd_AgentID :: string
  CurrentVersion :: string
  LatestVersion :: string
  Updating :: bool
  upd_Error :: string

text \<open>Timestamps are nanoseconds; the zero \<^verbatim>\<open>time.Time\<close> is \<open>None\<close>.\<close>

record SinglePingResult =
  TargetID :: string
  TargetHost :: string
  Timestamp :: "int option"
  PacketsSent :: int
  PacketsRecv :: int
  LossPct :: float64
  MinRTT :: float64
  MaxRTT :: float64
  AvgRTT :: float64
  Jitter :: float64
  StdDev :: float64
  ErrorMsg :: string

record PingReportPayload =
  rep_AgentID :: string
  Results :: "SinglePingResult list"

record TracerouteHop =
  TTL :: int
  hop_IP :: string
  hop_Hostname :: string
  RTTs :: "float64 list"
  hop_AvgRTT :: float64
  hop_LossPct :: float64

record TracerouteReportPayload =
  tr_AgentID :: string
  tr_TargetID :: string
  tr_TargetHost :: string
  ResolvedIP :: string
  tr_Timestamp :: "int option"
  DurationMs :: int
  Reached :: bool
  Hops :: "TracerouteHop list"

section \<open>Encoding\<close>

definition enc_TargetConfig :: "TargetConfig \<Rightarrow> json" where
  "enc_TargetConfig t = JObj ([(''id'', JStr (tc_ID t)), (''name'', JStr (tc_Name t)),
     (''host'', JStr (tc_Host t)), (''packet_count'', JNum (of_int (tc_PacketCount t))),
     (''interval_sec'', JNum (of_int (tc_IntervalSec t)))] @ omit_bool ''disable_route'' (tc_DisableRoute t))"

definition enc_TargetSync :: "TargetConfig list \<Rightarrow> json" where
  "enc_TargetSync ts = JObj [(''targets'', JArr (map enc_TargetConfig ts))]"

definition enc_ProxyOpen :: "ProxyOpenPayload \<Rightarrow> json" where
  "enc_ProxyOpen p = JObj [(''tunnel_id'', JStr (open_TunnelID p)), (''host'', JStr (open_Host p)),
     (''port'', JNum (of_int (open_Port p)))]"

definition enc_ProxyOpenResult :: "ProxyOpenResultPayload \<Rightarrow> json" where
  "enc_ProxyOpenResult p = JObj ([(''tunnel_id'', JStr (res_TunnelID p)), (''ok'', JBool (res_OK p))]
     @ omit_str ''error'' (res_Error p))"

definition enc_ProxyData :: "ProxyDataPayload \<Rightarrow> json" where
  "enc_ProxyData p = JObj [(''tunnel_id'', JStr (data_TunnelID p)), (''data'', JStr (data_Data p))]"

definition enc_ProxyClose :: "ProxyClosePayload \<Rightarrow> json" where
  "enc_ProxyClose p = JObj ((''tunnel_id'', JStr (close_TunnelID p)) # omit_str ''reason'' (close_Reason p))"

definition enc_UpdateResult :: "UpdateResultPayload \<Rightarrow> json" where
  "enc_UpdateResult p = JObj ([(''agent_id'', JStr (upd_AgentID p)),
     (''current_version'', JStr (CurrentVersion p))] @ omit_str ''latest_version'' (LatestVersion p)
     @ [(''updating'', JBool (Updating p))] @ omit_str ''error'' (upd_Error p))"

definition enc_RegisterRequest :: "RegisterRequest \<Rightarrow> json" where
  "enc_RegisterRequest p = JObj [(''token'', JStr (Token p)), (''hostname'', JStr (Hostname p)),
     (''os'', JStr (reg_OS p)), (''arch'', JStr (reg_Arch p)), (''version'', JStr (reg_Version p))]"

section \<open>Decoding\<close>

definition dec_TargetConfig :: "json \<Rightarrow> TargetConfig option" where
  "dec_TargetConfig = dec_struct (\<lambda>k v t.
       if k = ''id'' then map_option (\<lambda>s. t\<lparr>tc_ID := s\<rparr>) (dec_string (tc_ID t) v)
       else if k = ''name'' then map_option (\<lambda>s. t\<lparr>tc_Name := s\<rparr>) (dec_string (tc_Name t) v)
       else if k = ''host'' then map_option (\<lambda>s. t\<lparr>tc_Host := s\<rparr>) (dec_string (tc_Host t) v)
       else if k = ''packet_count'' then map_option (\<lambda>n. t\<lparr>tc_PacketCount := n\<rparr>) (dec_int 64 (tc_PacketCount t) v)
       else if k = ''interval_sec'' then map_option (\<lambda>n. t\<lparr>tc_IntervalSec := n\<rparr>) (dec_int 64 (tc_IntervalSec t) v)
       else if k = ''disable_route'' then map_option (\<lambda>b. t\<lparr>tc_DisableRoute := b\<rparr>) (dec_bool (tc_DisableRoute t) v)
       else Some t)
     \<lparr>tc_ID = '''', tc_Name = '''', tc_Host = '''', tc_PacketCount = 0, tc_IntervalSec = 0, tc_DisableRoute = False\<rparr>"

definition dec_TargetSync :: "json \<Rightarrow> TargetConfig list option" where
  "dec_TargetSync = dec_struct (\<lambda>k v t.
     if k = ''targets'' then dec_array dec_TargetConfig v else Some t) []"

definition dec_ProxyOpen :: "json \<Rightarrow> ProxyOpenPayload option" where
  "dec_ProxyOpen = dec_struct (\<lambda>k v p.
       if k = ''tunnel_id'' then map_option (\<lambda>s. p\<lparr>open_TunnelID := s\<rparr>) (dec_string (open_TunnelID p) v)
       else if k = ''host'' then map_option (\<lambda>s. p\<lparr>open_Host := s\<rparr>) (dec_string (open_Host p) v)
       else if k = ''port'' then map_option (\<lambda>n. p\<lparr>open_Port := n\<rparr>) (dec_int 64 (open_Port p) v)
       else Some p)
     \<lparr>open_TunnelID = '''', open_Host = '''', open_Port = 0\<rparr>"

definition dec_ProxyOpenResult :: "json \<Rightarrow> ProxyOpenResultPayload option" where
  "dec_ProxyOpenResult = dec_struct (\<lambda>k v p.
       if k = ''tunnel_id'' then map_option (\<lambda>s. p\<lparr>res_TunnelID := s\<rparr>) (dec_string (res_TunnelID p) v)
       else if k = ''ok'' then map_option (\<lambda>b. p\<lparr>res_OK := b\<rparr>) (dec_bool (res_OK p) v)
       else if k = ''error'' then map_option (\<lambda>s. p\<lparr>res_Error := s\<rparr>) (dec_string (res_Error p) v)
       else Some p)
     \<lparr>res_TunnelID = '''', res_OK = False, res_Error = ''''\<rparr>"

definition dec_ProxyData :: "json \<Rightarrow> ProxyDataPayload option" where
  "dec_ProxyData = dec_struct (\<lambda>k v p.
       if k = ''tunnel_id'' then map_option (\<lambda>s. p\<lparr>data_TunnelID := s\<rparr>) (dec_string (data_TunnelID p) v)
       else if k = ''data'' then map_option (\<lambda>s. p\<lparr>data_Data := s\<rparr>) (dec_string (data_Data p) v)
       else Some p)
     \<lparr>data_TunnelID = '''', data_Data = ''''\<rparr>"

definition dec_ProxyClose :: "json \<Rightarrow> ProxyClosePayload option" where
  "dec_ProxyClose = dec_struct (\<lambda>k v p.
       if k = ''tunnel_id'' then map_option (\<lambda>s. p\<lparr>close_TunnelID := s\<rparr>) (dec_string (close_TunnelID p) v)
       else if k = ''reason'' then map_option (\<lambda>s. p\<lparr>close_Reason := s\<rparr>) (dec_string (close_Reason p) v)
       else Some p)
     \<lparr>close_TunnelID = '''', close_Reason = ''''\<rparr>"

definition dec_UpdateResult :: "json \<Rightarrow> UpdateResultPayload option" where
  "dec_UpdateResult = dec_struct (\<lambda>k v p.
       if k = ''agent_id'' then map_option (\<lambda>s. p\<lparr>upd_AgentID := s\<rparr>) (dec_string (upd_AgentID p) v)
       else if k = ''current_version'' then map_option (\<lambda>s. p\<lparr>CurrentVersion := s\<rparr>) (dec_string (CurrentVersion p) v)
       else if k = ''latest_version'' then map_option (\<lambda>s. p\<lparr>LatestVersion := s\<rparr>) (dec_string (LatestVersion p) v)
       else if k = ''updating'' then map_option (\<lambda>b. p\<lparr>Updating := b\<rparr>) (dec_bool (Updating p) v)
       else if k = ''error'' then map_option (\<lambda>s. p\<lparr>upd_Error := s\<rparr>) (dec_string (upd_Error p) v)
       else Some p)
     \<lparr>upd_AgentID = '''', CurrentVersion = '''', LatestVersion = '''', Updating = False, upd_Error = ''''\<rparr>"

definition dec_RegisterRequest :: "json \<Rightarrow> RegisterRequest option" where
  "dec_RegisterRequest = dec_struct (\<lambda>k v p.
       if k = ''token'' then map_option (\<lambda>s. p\<lparr>Token := s\<rparr>) (dec_string (Token p) v)
       else if k = ''hostname'' then map_option (\<lambda>s. p\<lparr>Hostname := s\<rparr>) (dec_string (Hostname p) v)
       else if k = ''os'' then map_option (\<lambda>s. p\<lparr>reg_OS := s\<rparr>) (dec_string (reg_OS p) v)
       else if k = ''arch'' then map_option (\<lambda>s. p\<lparr>reg_Arch := s\<rparr>) (dec_string (reg_Arch p) v)
       else if k = ''version'' then map_option (\<lambda>s. p\<lparr>reg_Version := s\<rparr>) (dec_string (reg_Version p) v)
       else Some p)
     \<lparr>Token = '''', Hostname = '''', reg_OS = '''', reg_Arch = '''', reg_Version = ''''\<rparr>"

section \<open>Each side decodes what the other encodes\<close>

lemma fold_key_names [simp]:
  "fold_key ''tunnel_id'' = ''tunnel_id''" "fold_key ''host'' = ''host''" "fold_key ''port'' = ''port''"
  "fold_key ''ok'' = ''ok''" "fold_key ''error'' = ''error''" "fold_key ''data'' = ''data''"
  "fold_key ''reason'' = ''reason''" "fold_key ''id'' = ''id''" "fold_key ''name'' = ''name''"
  "fold_key ''packet_count'' = ''packet_count''" "fold_key ''interval_sec'' = ''interval_sec''"
  "fold_key ''disable_route'' = ''disable_route''" "fold_key ''targets'' = ''targets''"
  "fold_key ''agent_id'' = ''agent_id''" "fold_key ''current_version'' = ''current_version''"
  "fold_key ''latest_version'' = ''latest_version''" "fold_key ''updating'' = ''updating''"
  "fold_key ''token'' = ''token''" "fold_key ''hostname'' = ''hostname''" "fold_key ''os'' = ''os''"
  "fold_key ''arch'' = ''arch''" "fold_key ''version'' = ''version''"
  by code_simp+

lemma parse_type_name: "t \<in> set known_types \<Longrightarrow> parse_type (type_name t) = t"
proof -
  have "list_all (\<lambda>t. parse_type (type_name t) = t) known_types" by code_simp
  then show "t \<in> set known_types \<Longrightarrow> parse_type (type_name t) = t" by (simp add: list_all_iff)
qed

lemma dec_enc_ProxyOpen:
  "\<bar>open_Port p\<bar> \<le> 2 ^ 53 \<Longrightarrow> dec_ProxyOpen (enc_ProxyOpen p) = Some p"
  by (simp add: dec_ProxyOpen_def enc_ProxyOpen_def any_obj_def dec_int_exact del: dec_int.simps)

lemma dec_enc_ProxyOpenResult: "dec_ProxyOpenResult (enc_ProxyOpenResult p) = Some p"
  by (simp add: dec_ProxyOpenResult_def enc_ProxyOpenResult_def any_obj_def omit_str_def)

lemma dec_enc_ProxyData: "dec_ProxyData (enc_ProxyData p) = Some p"
  by (simp add: dec_ProxyData_def enc_ProxyData_def any_obj_def)

lemma dec_enc_ProxyClose: "dec_ProxyClose (enc_ProxyClose p) = Some p"
  by (simp add: dec_ProxyClose_def enc_ProxyClose_def any_obj_def omit_str_def)

lemma dec_enc_UpdateResult: "dec_UpdateResult (enc_UpdateResult p) = Some p"
  by (simp add: dec_UpdateResult_def enc_UpdateResult_def any_obj_def omit_str_def)

lemma dec_enc_RegisterRequest: "dec_RegisterRequest (enc_RegisterRequest p) = Some p"
  by (simp add: dec_RegisterRequest_def enc_RegisterRequest_def any_obj_def)

lemma dec_enc_TargetConfig:
  "\<bar>tc_PacketCount t\<bar> \<le> 2 ^ 53 \<Longrightarrow> \<bar>tc_IntervalSec t\<bar> \<le> 2 ^ 53 \<Longrightarrow> dec_TargetConfig (enc_TargetConfig t) = Some t"
  by (simp add: dec_TargetConfig_def enc_TargetConfig_def any_obj_def omit_bool_def dec_int_exact
      del: dec_int.simps)

lemma dec_enc_TargetSync:
  assumes "\<And>t. t \<in> set ts \<Longrightarrow> \<bar>tc_PacketCount t\<bar> \<le> 2 ^ 53 \<and> \<bar>tc_IntervalSec t\<bar> \<le> 2 ^ 53"
  shows "dec_TargetSync (enc_TargetSync ts) = Some ts"
  using assms
  by (simp add: dec_TargetSync_def enc_TargetSync_def any_obj_def dec_each_map dec_enc_TargetConfig)

end
