(* ===== verification/Proxy_Service.thy ===== *)
theory Proxy_Service
  imports Session_Store Proxy_Syntax Protocol
begin

text \<open>
  The Host's proxy, \<^verbatim>\<open>host/internal/proxy/service.go\<close> and \<^verbatim>\<open>tunnel.go\<close>. Handlers hold pointers to tunnels
  that may meanwhile be removed from the table, so tunnels live in a heap. Every \<^verbatim>\<open>select\<close> that can
  block splits its handler in two: the part before it and one continuation per ready case, so that
  other goroutines may run in between. The \<^verbatim>\<open>Bridge\<close> interface (implemented by the hub) is the
  parameter \<open>B\<close>, a record of operations on a bridge state of any type.
\<close>

section \<open>State\<close>

definition maxTunnelsPerSession :: nat where "maxTunnelsPerSession = 64"
definition proxyChunkSize :: int where "proxyChunkSize = 16 * 1024"
definition inboundQueue :: nat where "inboundQueue = 32"

record 'b Bridge =
  Online :: "'b \<Rightarrow> string \<Rightarrow> bool"
  Send :: "string \<Rightarrow> MessageType \<Rightarrow> json \<Rightarrow> 'b \<Rightarrow> 'b \<times> string option"

record tunnel =
  t_id :: string
  t_agentID :: string
  t_sessionID :: string
  opened :: "ProxyOpenResultPayload option"
  inbound :: "string list"
  t_done :: bool

type_synonym tunnel_ptr = nat

record 'b Service =
  sessions :: Store
  bridge :: "'b option"
  theap :: "tunnel list"
  tunnels :: "(string, tunnel_ptr) gomap"

definition NewService :: "'b Service" where
  "NewService = \<lparr>sessions = NewStore, bridge = None, theap = [], tunnels = []\<rparr>"

definition SetBridge :: "'b \<Rightarrow> 'b Service \<Rightarrow> 'b Service" where
  "SetBridge b s = s\<lparr>bridge := Some b\<rparr>"

text \<open>\<^verbatim>\<open>newTunnel\<close>: the random source gives bytes or an error text.\<close>

definition newTunnel :: "string + string \<Rightarrow> string \<Rightarrow> string \<Rightarrow> string + tunnel" where
  "newTunnel raw agentID sessionID =
     (case raw of
        Inl err \<Rightarrow> Inl err
      | Inr bytes \<Rightarrow> Inr \<lparr>t_id = hex_encode bytes, t_agentID = agentID, t_sessionID = sessionID,
                      opened = None, inbound = [], t_done = False\<rparr>)"

definition tunnel_close :: "tunnel \<Rightarrow> tunnel" where
  "tunnel_close t = t\<lparr>t_done := True\<rparr>"

section \<open>The tunnel table\<close>

definition finish :: "'b Bridge \<Rightarrow> string \<Rightarrow> string \<Rightarrow> bool \<Rightarrow> 'b Service \<Rightarrow> 'b Service" where
  "finish B tid reason notify s =
     (case mget (tunnels s) tid of
        None \<Rightarrow> s
      | Some p \<Rightarrow>
          let t = theap s ! p;
              s1 = s\<lparr>tunnels := mdel tid (tunnels s), theap := (theap s)[p := tunnel_close t]\<rparr>
          in if notify then
               (case bridge s of
                  None \<Rightarrow> s1
                | Some b \<Rightarrow> s1\<lparr>bridge := Some (fst (Send B (t_agentID t) TypeProxyClose
                     (enc_ProxyClose \<lparr>close_TunnelID = t_id t, close_Reason = reason\<rparr>) b))\<rparr>)
             else s1)"

fun finish_all :: "'b Bridge \<Rightarrow> string \<Rightarrow> bool \<Rightarrow> string list \<Rightarrow> 'b Service \<Rightarrow> 'b Service" where
  "finish_all B reason notify [] s = s"
| "finish_all B reason notify (tid # ids) s = finish_all B reason notify ids (finish B tid reason notify s)"

definition DropAgent :: "'b Bridge \<Rightarrow> string \<Rightarrow> 'b Service \<Rightarrow> 'b Service" where
  "DropAgent B agentID s =
     finish_all B ''agent disconnected'' False
       (map fst (filter (\<lambda>e. t_agentID (theap s ! snd e) = agentID) (tunnels s))) s"

definition dropSession :: "'b Bridge \<Rightarrow> string \<Rightarrow> 'b Service \<Rightarrow> 'b Service" where
  "dropSession B sessionID s =
     finish_all B ''revoked'' True
       (map fst (filter (\<lambda>e. t_sessionID (theap s ! snd e) = sessionID) (tunnels s))) s"

definition Service_Revoke :: "'b Bridge \<Rightarrow> nanos \<Rightarrow> string \<Rightarrow> 'b Service \<Rightarrow> 'b Service \<times> bool" where
  "Service_Revoke B now sid s =
     (let (st, ok) = Store_Revoke now sid (sessions s); s1 = s\<lparr>sessions := st\<rparr>
      in if \<not> ok then (s1, False) else (dropSession B sid s1, True))"

definition addTunnel :: "tunnel \<Rightarrow> 'b Service \<Rightarrow> 'b Service \<times> (string + tunnel_ptr)" where
  "addTunnel t s =
     (let n = mcount (\<lambda>p. t_sessionID (theap s ! p) = t_sessionID t) (tunnels s)
      in if n \<ge> maxTunnelsPerSession then (s, Inl ''too many tunnels'')
         else (s\<lparr>theap := theap s @ [t], tunnels := mput (t_id t) (length (theap s)) (tunnels s)\<rparr>,
               Inr (length (theap s))))"

definition bridgeSend ::
  "'b Bridge \<Rightarrow> string \<Rightarrow> MessageType \<Rightarrow> json \<Rightarrow> 'b Service \<Rightarrow> 'b Service \<times> string option" where
  "bridgeSend B agentID ty payload s =
     (case bridge s of
        None \<Rightarrow> (s, Some ''agent offline'')
      | Some b \<Rightarrow>
          if \<not> Online B b agentID then (s, Some ''agent offline'')
          else let (b', err) = Send B agentID ty payload b in (s\<lparr>bridge := Some b'\<rparr>, err))"

definition online :: "'b Bridge \<Rightarrow> 'b Service \<Rightarrow> string \<Rightarrow> bool" where
  "online B s agentID = (case bridge s of None \<Rightarrow> False | Some b \<Rightarrow> Online B b agentID)"

section \<open>Messages from a probe\<close>

text \<open>
  The tunnel a message names, unless there is none or it belongs to another probe
  (\<^verbatim>\<open>t == nil || t.agentID != agentID\<close>).
\<close>

definition owned :: "string \<Rightarrow> string \<Rightarrow> 'b Service \<Rightarrow> tunnel_ptr option" where
  "owned agentID tid s =
     (case mget (tunnels s) tid of
        None \<Rightarrow> None
      | Some p \<Rightarrow> if t_agentID (theap s ! p) \<noteq> agentID then None else Some p)"

definition handle_open_result :: "string \<Rightarrow> ProxyOpenResultPayload \<Rightarrow> 'b Service \<Rightarrow> 'b Service" where
  "handle_open_result agentID res s =
     (if res_TunnelID res = '''' then s
      else case owned agentID (res_TunnelID res) s of
        None \<Rightarrow> s
      | Some p \<Rightarrow>
          if opened (theap s ! p) = None
          then s\<lparr>theap := (theap s)[p := (theap s ! p)\<lparr>opened := Some res\<rparr>]\<rparr>
          else s)"

definition handle_data ::
  "'b Bridge \<Rightarrow> string \<Rightarrow> ProxyDataPayload \<Rightarrow> 'b Service \<Rightarrow> 'b Service \<times> (tunnel_ptr \<times> string) option" where
  "handle_data B agentID msg s =
     (if data_TunnelID msg = '''' \<or> data_Data msg = '''' then (s, None)
      else case owned agentID (data_TunnelID msg) s of
        None \<Rightarrow> (s, None)
      | Some p \<Rightarrow>
          (case DecodeString (data_Data msg) of
             None \<Rightarrow> (finish B (t_id (theap s ! p)) ''bad payload'' True s, None)
           | Some raw \<Rightarrow>
               if raw = '''' \<or> int (length raw) > proxyChunkSize * 4
               then (finish B (t_id (theap s ! p)) ''bad payload'' True s, None)
               else (s, Some (p, raw))))"

definition handle_close :: "'b Bridge \<Rightarrow> string \<Rightarrow> ProxyClosePayload \<Rightarrow> 'b Service \<Rightarrow> 'b Service" where
  "handle_close B agentID msg s =
     (if close_TunnelID msg = '''' then s
      else case owned agentID (close_TunnelID msg) s of
        None \<Rightarrow> s
      | Some p \<Rightarrow> finish B (t_id (theap s ! p)) ''agent closed'' False s)"

text \<open>
  \<open>HandleAgent\<close> up to its blocking \<^verbatim>\<open>select\<close>; the second component is the chunk it then wants to put
  into a tunnel's queue.
\<close>

definition HandleAgent ::
  "'b Bridge \<Rightarrow> string \<Rightarrow> Envelope \<Rightarrow> 'b Service \<Rightarrow> 'b Service \<times> (tunnel_ptr \<times> string) option" where
  "HandleAgent B agentID env s =
     (case Type env of
        TypeProxyOpenResult \<Rightarrow>
          (case dec_ProxyOpenResult (Payload env) of
             None \<Rightarrow> (s, None) | Some res \<Rightarrow> (handle_open_result agentID res s, None))
      | TypeProxyData \<Rightarrow>
          (case dec_ProxyData (Payload env) of
             None \<Rightarrow> (s, None) | Some msg \<Rightarrow> handle_data B agentID msg s)
      | TypeProxyClose \<Rightarrow>
          (case dec_ProxyClose (Payload env) of
             None \<Rightarrow> (s, None) | Some msg \<Rightarrow> (handle_close B agentID msg s, None))
      | _ \<Rightarrow> (s, None))"

text \<open>The cases of the \<^verbatim>\<open>select\<close> on the queue, each with its readiness.\<close>

datatype deliver_case = DeliverDone | DeliverQueue | DeliverTimer

fun deliver_ready :: "deliver_case \<Rightarrow> tunnel \<Rightarrow> bool" where
  "deliver_ready DeliverDone t = t_done t"
| "deliver_ready DeliverQueue t = (length (inbound t) < inboundQueue)"
| "deliver_ready DeliverTimer t = True"

fun deliver :: "'b Bridge \<Rightarrow> deliver_case \<Rightarrow> tunnel_ptr \<Rightarrow> string \<Rightarrow> 'b Service \<Rightarrow> 'b Service" where
  "deliver B DeliverDone p raw s = s"
| "deliver B DeliverQueue p raw s =
     s\<lparr>theap := (theap s)[p := (theap s ! p)\<lparr>inbound := inbound (theap s ! p) @ [raw]\<rparr>]\<rparr>"
| "deliver B DeliverTimer p raw s = finish B (t_id (theap s ! p)) ''slow consumer'' True s"

section \<open>Opening a tunnel\<close>

definition openTunnel_begin ::
  "'b Bridge \<Rightarrow> string + string \<Rightarrow> Session \<Rightarrow> string \<Rightarrow> int \<Rightarrow> 'b Service \<Rightarrow> 'b Service \<times> (string + tunnel_ptr)" where
  "openTunnel_begin B raw sess host port s =
     (case newTunnel raw (AgentID sess) (ID sess) of
        Inl err \<Rightarrow> (s, Inl err)
      | Inr t \<Rightarrow>
          (case addTunnel t s of
             (s1, Inl err) \<Rightarrow> (s1, Inl err)
           | (s1, Inr p) \<Rightarrow>
               (case bridgeSend B (AgentID sess) TypeProxyOpen
                   (enc_ProxyOpen \<lparr>open_TunnelID = t_id t, open_Host = host, open_Port = port\<rparr>) s1 of
                  (s2, Some err) \<Rightarrow> (finish B (t_id t) ''agent offline'' False s2, Inl err)
                | (s2, None) \<Rightarrow> (s2, Inr p))))"

datatype open_case = OpenResult | OpenTimer | OpenDone

fun open_ready :: "open_case \<Rightarrow> tunnel \<Rightarrow> bool" where
  "open_ready OpenResult t = (opened t \<noteq> None)"
| "open_ready OpenTimer t = True"
| "open_ready OpenDone t = t_done t"

fun openTunnel_end ::
  "'b Bridge \<Rightarrow> open_case \<Rightarrow> tunnel_ptr \<Rightarrow> 'b Service \<Rightarrow> 'b Service \<times> (string + tunnel_ptr)" where
  "openTunnel_end B OpenResult p s =
     (case opened (theap s ! p) of
        None \<Rightarrow> (s, Inr p)
      | Some res \<Rightarrow>
          let s1 = s\<lparr>theap := (theap s)[p := (theap s ! p)\<lparr>opened := None\<rparr>]\<rparr>
          in if \<not> res_OK res then
               (finish B (t_id (theap s ! p)) ''dial failed'' False s1,
                Inl (if res_Error res = '''' then ''exit dial failed'' else res_Error res))
             else (s1, Inr p))"
| "openTunnel_end B OpenTimer p s = (finish B (t_id (theap s ! p)) ''timeout'' True s, Inl ''exit timed out'')"
| "openTunnel_end B OpenDone p s = (s, Inl ''tunnel closed'')"

section \<open>Relaying\<close>

text \<open>One turn of the goroutine that reads from the client: \<open>n\<close> bytes, then possibly an error.\<close>

definition pump_read ::
  "'b Bridge \<Rightarrow> tunnel_ptr \<Rightarrow> string \<Rightarrow> bool \<Rightarrow> 'b Service \<Rightarrow> 'b Service \<times> bool" where
  "pump_read B p buf failed s =
     (let t = theap s ! p;
          (s1, err) = (if buf = '''' then (s, None)
             else bridgeSend B (t_agentID t) TypeProxyData
               (enc_ProxyData \<lparr>data_TunnelID = t_id t, data_Data = EncodeToString buf\<rparr>) s)
      in if err \<noteq> None then (finish B (t_id t) ''send failed'' False s1, False)
         else if failed then (finish B (t_id t) ''client closed'' True s1, False)
         else (s1, True))"

text \<open>
  One turn of \<^verbatim>\<open>writeToClient\<close>. Before \<open>done\<close> is seen, the next chunk is written; once it is seen the
  loop only drains what is queued and returns on the first empty look. The result is the chunk
  written and whether the loop goes on (and in which mode).
\<close>

datatype writer = Writing | Draining | Returned

definition writeChunk ::
  "'b Bridge \<Rightarrow> writer \<Rightarrow> bool \<Rightarrow> tunnel_ptr \<Rightarrow> 'b Service \<Rightarrow> 'b Service \<times> string list \<times> writer" where
  "writeChunk B mode wok p s =
     (case inbound (theap s ! p) of
        [] \<Rightarrow> (s, [], mode)
      | chunk # rest \<Rightarrow>
          let s1 = s\<lparr>theap := (theap s)[p := (theap s ! p)\<lparr>inbound := rest\<rparr>]\<rparr>
          in if wok then (s1, [chunk], mode)
             else (finish B (t_id (theap s ! p)) ''client write failed'' True s1, [], Returned))"

datatype write_case = WriteInbound bool | WriteDone

fun write_ready :: "write_case \<Rightarrow> writer \<Rightarrow> tunnel \<Rightarrow> bool" where
  "write_ready (WriteInbound wok) m t = (m \<noteq> Returned \<and> inbound t \<noteq> [])"
| "write_ready WriteDone Writing t = t_done t"
| "write_ready WriteDone Draining t = (inbound t = [])"
| "write_ready WriteDone Returned t = False"

fun writeToClient ::
  "'b Bridge \<Rightarrow> write_case \<Rightarrow> writer \<Rightarrow> tunnel_ptr \<Rightarrow> 'b Service \<Rightarrow> 'b Service \<times> string list \<times> writer" where
  "writeToClient B (WriteInbound wok) m p s = writeChunk B m wok p s"
| "writeToClient B WriteDone m p s = (s, [], if m = Writing then Draining else Returned)"

section \<open>The two entry points\<close>

datatype reply =
  HttpError string int
| ProxyAuthRequired
| NoReply
| WsReply bool string
| Pumping tunnel_ptr nanos

text \<open>
  \<^verbatim>\<open>HandleConnect\<close> in three parts: authentication, the target up to the wait for the probe, and what
  follows that wait. Other goroutines may run between the parts.
\<close>

definition HandleConnect_auth ::
  "(string \<Rightarrow> string) \<Rightarrow> nanos \<Rightarrow> string \<Rightarrow> string \<Rightarrow> 'b Service \<Rightarrow> reply + Session" where
  "HandleConnect_auth H now httpMethod proxyAuthorization s =
     (if httpMethod \<noteq> ''CONNECT'' then Inl (HttpError ''connect required'' 405)
      else case ParseBasicAuth proxyAuthorization of
        None \<Rightarrow> Inl ProxyAuthRequired
      | Some (user, pass) \<Rightarrow>
          (case Authenticate H now user pass (sessions s) of
             Inl _ \<Rightarrow> Inl ProxyAuthRequired
           | Inr sess \<Rightarrow> Inr sess))"

definition HandleConnect_target ::
  "'b Bridge \<Rightarrow> string + string \<Rightarrow> string \<Rightarrow> string \<Rightarrow> Session \<Rightarrow> 'b Service \<Rightarrow> 'b Service \<times> (reply + tunnel_ptr)" where
  "HandleConnect_target B raw reqHost urlHost sess s =
     (let target = (if urlHost \<noteq> '''' then urlHost else reqHost) in
      case ParseConnectTarget target of
        None \<Rightarrow> (s, Inl (HttpError ''invalid connect target'' 400))
      | Some (host, port) \<Rightarrow>
          if \<not> online B s (AgentID sess) then (s, Inl (HttpError ''probe offline'' 502))
          else (case openTunnel_begin B raw sess host port s of
              (s1, Inl err) \<Rightarrow> (s1, Inl (HttpError err (if err = ''too many tunnels'' then 429 else 502)))
            | (s1, Inr p) \<Rightarrow> (s1, Inr p)))"

datatype hijack = NoHijacker | HijackFailed | EstablishFailed | HijackOk

definition HandleConnect_end ::
  "'b Bridge \<Rightarrow> open_case \<Rightarrow> hijack \<Rightarrow> Session \<Rightarrow> tunnel_ptr \<Rightarrow> 'b Service \<Rightarrow> 'b Service \<times> reply" where
  "HandleConnect_end B oc hj sess p s =
     (case openTunnel_end B oc p s of
        (s1, Inl err) \<Rightarrow> (s1, HttpError err (if err = ''too many tunnels'' then 429 else 502))
      | (s1, Inr q) \<Rightarrow>
          (case hj of
             NoHijacker \<Rightarrow> (finish B (t_id (theap s1 ! q)) ''hijack unsupported'' True s1,
                            HttpError ''hijack unsupported'' 500)
           | HijackFailed \<Rightarrow> (finish B (t_id (theap s1 ! q)) ''hijack failed'' True s1, NoReply)
           | EstablishFailed \<Rightarrow> (finish B (t_id (theap s1 ! q)) ''establish failed'' True s1, NoReply)
           | HijackOk \<Rightarrow> (s1, Pumping q (ExpiresAt sess))))"

text \<open>
  \<^verbatim>\<open>HandleTunnel\<close>: after the upgrade the handler blocks until the client has sent its target (at most
  ten seconds), so the credential is checked some time before the tunnel is opened.
\<close>

definition HandleTunnel_auth ::
  "(string \<Rightarrow> string) \<Rightarrow> nanos \<Rightarrow> string \<Rightarrow> string \<Rightarrow> bool \<Rightarrow> 'b Service \<Rightarrow> reply + Session" where
  "HandleTunnel_auth H now proxyAuthorization authorization upgraded s =
     (case tunnelCredential proxyAuthorization authorization of
        None \<Rightarrow> Inl ProxyAuthRequired
      | Some (user, pass) \<Rightarrow>
          (case Authenticate H now user pass (sessions s) of
             Inl _ \<Rightarrow> Inl ProxyAuthRequired
           | Inr sess \<Rightarrow> if \<not> upgraded then Inl NoReply else Inr sess))"

definition HandleTunnel_target ::
  "'b Bridge \<Rightarrow> string + string \<Rightarrow> string option \<Rightarrow> Session \<Rightarrow> 'b Service \<Rightarrow> 'b Service \<times> (reply + tunnel_ptr)" where
  "HandleTunnel_target B raw req sess s =
     (case req of
        None \<Rightarrow> (s, Inl NoReply)
      | Some target \<Rightarrow>
          (case ParseConnectTarget target of
             None \<Rightarrow> (s, Inl (WsReply False ''invalid target''))
           | Some (host, port) \<Rightarrow>
               if \<not> online B s (AgentID sess) then (s, Inl (WsReply False ''probe offline''))
               else (case openTunnel_begin B raw sess host port s of
                   (s1, Inl err) \<Rightarrow> (s1, Inl (WsReply False err))
                 | (s1, Inr p) \<Rightarrow> (s1, Inr p))))"

definition HandleTunnel_end ::
  "'b Bridge \<Rightarrow> open_case \<Rightarrow> bool \<Rightarrow> Session \<Rightarrow> tunnel_ptr \<Rightarrow> 'b Service \<Rightarrow> 'b Service \<times> reply" where
  "HandleTunnel_end B oc wok sess p s =
     (case openTunnel_end B oc p s of
        (s1, Inl err) \<Rightarrow> (s1, WsReply False err)
      | (s1, Inr q) \<Rightarrow>
          if \<not> wok then (finish B (t_id (theap s1 ! q)) ''handshake failed'' True s1, NoReply)
          else (s1, Pumping q (ExpiresAt sess)))"

section \<open>Invariant\<close>

text \<open>
  A tunnel in the table is allocated, is found under its own id and has not been closed; no session
  has more than 64 of them; no queue is longer than its channel.
\<close>

definition svc_inv :: "'b Service \<Rightarrow> bool" where
  "svc_inv s \<longleftrightarrow> mwf (tunnels s)
     \<and> (\<forall>tid p. mget (tunnels s) tid = Some p \<longrightarrow>
          p < length (theap s) \<and> t_id (theap s ! p) = tid \<and> \<not> t_done (theap s ! p))
     \<and> (\<forall>sid. mcount (\<lambda>p. t_sessionID (theap s ! p) = sid) (tunnels s) \<le> maxTunnelsPerSession)
     \<and> (\<forall>p < length (theap s). length (inbound (theap s ! p)) \<le> inboundQueue)"

lemma svc_invD:
  assumes "svc_inv s"
  shows "mwf (tunnels s)"
    and "mget (tunnels s) tid = Some p \<Longrightarrow>
      p < length (theap s) \<and> t_id (theap s ! p) = tid \<and> \<not> t_done (theap s ! p)"
    and "mcount (\<lambda>p. t_sessionID (theap s ! p) = sid) (tunnels s) \<le> maxTunnelsPerSession"
    and "p < length (theap s) \<Longrightarrow> length (inbound (theap s ! p)) \<le> inboundQueue"
  using assms by (auto simp: svc_inv_def)

lemma svc_inv_NewService: "svc_inv NewService"
  by (simp add: svc_inv_def NewService_def mcount_def)

lemma svc_inv_congs [simp]:
  "svc_inv (s\<lparr>bridge := b\<rparr>) = svc_inv s" "svc_inv (s\<lparr>sessions := st\<rparr>) = svc_inv s"
  by (simp_all add: svc_inv_def)

text \<open>Changing one tunnel without touching its identity or its closed flag.\<close>

definition same_tunnel :: "tunnel \<Rightarrow> tunnel \<Rightarrow> bool" where
  "same_tunnel t t' \<longleftrightarrow> t_id t' = t_id t \<and> t_agentID t' = t_agentID t \<and> t_sessionID t' = t_sessionID t"

lemma same_tunnel_refl [simp]: "same_tunnel t t"
  by (simp add: same_tunnel_def)

lemma svc_inv_upd:
  assumes "svc_inv s" and "same_tunnel (theap s ! p) t" and "t_done t = t_done (theap s ! p)"
    and "length (inbound t) \<le> inboundQueue"
  shows "svc_inv (s\<lparr>theap := (theap s)[p := t]\<rparr>)"
proof -
  have eq: "t_id ((theap s)[p := t] ! q) = t_id (theap s ! q)"
    "t_sessionID ((theap s)[p := t] ! q) = t_sessionID (theap s ! q)"
    "t_done ((theap s)[p := t] ! q) = t_done (theap s ! q)" for q
    using assms(2,3) unfolding same_tunnel_def
    by (metis list_update_beyond not_less nth_list_update_eq nth_list_update_neq)+
  show ?thesis
    unfolding svc_inv_def
  proof (intro conjI allI impI)
    fix q assume "q < length (theap (s\<lparr>theap := (theap s)[p := t]\<rparr>))"
    then show "length (inbound (theap (s\<lparr>theap := (theap s)[p := t]\<rparr>) ! q)) \<le> inboundQueue"
      using assms(4) svc_invD(4) [OF assms(1), of q] by (cases "q = p") simp_all
  next
    fix tid q assume "mget (tunnels (s\<lparr>theap := (theap s)[p := t]\<rparr>)) tid = Some q"
    then have g: "mget (tunnels s) tid = Some q" by simp
    from svc_invD(2) [OF assms(1) g]
    show "q < length (theap (s\<lparr>theap := (theap s)[p := t]\<rparr>))"
      "t_id (theap (s\<lparr>theap := (theap s)[p := t]\<rparr>) ! q) = tid"
      "\<not> t_done (theap (s\<lparr>theap := (theap s)[p := t]\<rparr>) ! q)"
      by (simp_all add: eq)
  next
    fix sid
    show "mcount (\<lambda>q. t_sessionID (theap (s\<lparr>theap := (theap s)[p := t]\<rparr>) ! q) = sid)
        (tunnels (s\<lparr>theap := (theap s)[p := t]\<rparr>)) \<le> maxTunnelsPerSession"
      using svc_invD(3) [OF assms(1), of sid] by (simp add: eq)
  qed (simp add: svc_invD(1) [OF assms(1)])
qed

section \<open>What removing a tunnel does\<close>

lemma finish_tunnels [simp]: "tunnels (finish B tid r n s) = mdel tid (tunnels s)"
  by (auto simp: finish_def Let_def mdel_absent split: option.splits)

lemma finish_sessions [simp]: "sessions (finish B tid r n s) = sessions s"
  by (auto simp: finish_def Let_def split: option.splits)

lemma finish_theap:
  "theap (finish B tid r n s) =
     (case mget (tunnels s) tid of None \<Rightarrow> theap s | Some p \<Rightarrow> (theap s)[p := tunnel_close (theap s ! p)])"
  by (auto simp: finish_def Let_def split: option.splits)

lemma finish_length [simp]: "length (theap (finish B tid r n s)) = length (theap s)"
  by (simp add: finish_theap split: option.splits)

lemma finish_nth:
  assumes "svc_inv s"
  shows "theap (finish B tid r n s) ! q =
    (if mget (tunnels s) tid = Some q then tunnel_close (theap s ! q) else theap s ! q)"
  using svc_invD(2) [OF assms, of tid] by (auto simp: finish_theap nth_list_update split: option.splits)

lemma finish_same: "svc_inv s \<Longrightarrow> same_tunnel (theap s ! q) (theap (finish B tid r n s) ! q)"
  by (simp add: finish_nth same_tunnel_def tunnel_close_def)

lemma finish_inbound: "svc_inv s \<Longrightarrow> inbound (theap (finish B tid r n s) ! q) = inbound (theap s ! q)"
  by (simp add: finish_nth tunnel_close_def)

lemma svc_inv_finish [inv_intros]:
  assumes "svc_inv s" shows "svc_inv (finish B tid r n s)"
  unfolding svc_inv_def
proof (intro conjI allI impI)
  note same = finish_same [OF assms, of _ B tid r n, unfolded same_tunnel_def]
  show "mwf (tunnels (finish B tid r n s))" using svc_invD(1) [OF assms] by simp
  fix tid' p assume g: "mget (tunnels (finish B tid r n s)) tid' = Some p"
  then have ne: "tid' \<noteq> tid" and g': "mget (tunnels s) tid' = Some p" by (auto split: if_splits)
  note a = svc_invD(2) [OF assms g']
  have "mget (tunnels s) tid \<noteq> Some p" using a ne svc_invD(2) [OF assms, of tid p] by auto
  then show "t_id (theap (finish B tid r n s) ! p) = tid'" "\<not> t_done (theap (finish B tid r n s) ! p)"
    "p < length (theap (finish B tid r n s))"
    using a by (simp_all add: finish_nth [OF assms])
next
  fix sid
  have "mcount (\<lambda>p. t_sessionID (theap (finish B tid r n s) ! p) = sid) (mdel tid (tunnels s))
      \<le> mcount (\<lambda>p. t_sessionID (theap (finish B tid r n s) ! p) = sid) (tunnels s)"
    by (rule mcount_mdel_le)
  also have "\<dots> = mcount (\<lambda>p. t_sessionID (theap s ! p) = sid) (tunnels s)"
    using finish_same [OF assms, of _ B tid r n] by (intro mcount_cong) (simp add: same_tunnel_def)
  also have "\<dots> \<le> maxTunnelsPerSession" by (rule svc_invD(3) [OF assms])
  finally show "mcount (\<lambda>p. t_sessionID (theap (finish B tid r n s) ! p) = sid) (tunnels (finish B tid r n s))
      \<le> maxTunnelsPerSession" by simp
next
  fix p assume "p < length (theap (finish B tid r n s))"
  then show "length (inbound (theap (finish B tid r n s) ! p)) \<le> inboundQueue"
    using svc_invD(4) [OF assms] by (simp add: finish_inbound [OF assms])
qed

lemma finish_all_frame:
  "length (theap (finish_all B r n ids s)) = length (theap s) \<and> sessions (finish_all B r n ids s) = sessions s
   \<and> tunnels (finish_all B r n ids s) = foldl (\<lambda>m k. mdel k m) (tunnels s) ids"
  by (induction ids arbitrary: s) simp_all

lemma svc_inv_finish_all [inv_intros]: "svc_inv s \<Longrightarrow> svc_inv (finish_all B r n ids s)"
  by (induction ids arbitrary: s) (simp_all add: svc_inv_finish)

lemma finish_all_nth:
  assumes "svc_inv s"
  shows "theap (finish_all B r n ids s) ! q =
    (if \<exists>tid \<in> set ids. mget (tunnels s) tid = Some q then tunnel_close (theap s ! q) else theap s ! q)"
  using assms
proof (induction ids arbitrary: s)
  case Nil
  show ?case by simp
next
  case (Cons tid ids)
  note IH = Cons.IH [OF svc_inv_finish [OF Cons.prems, of B tid r n]]
  have cc: "tunnel_close (tunnel_close t) = tunnel_close t" for t by (simp add: tunnel_close_def)
  show ?case
    using IH finish_nth [OF Cons.prems, of B tid r n q] by (auto simp: cc)
qed

section \<open>Dropping the tunnels of a probe or of a credential\<close>

text \<open>Both drop operations collect the matching ids and finish each of them.\<close>

definition drop_where :: "'b Bridge \<Rightarrow> string \<Rightarrow> bool \<Rightarrow> (tunnel \<Rightarrow> bool) \<Rightarrow> 'b Service \<Rightarrow> 'b Service" where
  "drop_where B reason notify P s =
     finish_all B reason notify (map fst (filter (\<lambda>e. P (theap s ! snd e)) (tunnels s))) s"

lemma DropAgent_drop_where: "DropAgent B a = drop_where B ''agent disconnected'' False (\<lambda>t. t_agentID t = a)"
  by (rule ext) (simp add: DropAgent_def drop_where_def)

lemma dropSession_drop_where: "dropSession B sid = drop_where B ''revoked'' True (\<lambda>t. t_sessionID t = sid)"
  by (rule ext) (simp add: dropSession_def drop_where_def)

lemma drop_where_frame [simp]:
  "sessions (drop_where B r n P s) = sessions s" "length (theap (drop_where B r n P s)) = length (theap s)"
  by (simp_all add: drop_where_def finish_all_frame)

lemma svc_inv_drop_where [inv_intros]: "svc_inv s \<Longrightarrow> svc_inv (drop_where B r n P s)"
  by (simp add: drop_where_def svc_inv_finish_all)

lemma mget_drop_where:
  assumes "svc_inv s"
  shows "mget (tunnels (drop_where B r n P s)) tid =
    (case mget (tunnels s) tid of None \<Rightarrow> None | Some p \<Rightarrow> if P (theap s ! p) then None else Some p)"
  using keys_where [OF svc_invD(1) [OF assms], of tid "\<lambda>p. P (theap s ! p)"]
  by (auto simp: drop_where_def finish_all_frame gm.lookup_delete_list split: option.splits)

lemma drop_where_nth:
  assumes "svc_inv s"
  shows "theap (drop_where B r n P s) ! q =
    (if (\<exists>tid. mget (tunnels s) tid = Some q) \<and> P (theap s ! q) then tunnel_close (theap s ! q) else theap s ! q)"
proof -
  have "(\<exists>tid \<in> set (map fst (filter (\<lambda>e. P (theap s ! snd e)) (tunnels s))). mget (tunnels s) tid = Some q)
      \<longleftrightarrow> (\<exists>tid. mget (tunnels s) tid = Some q) \<and> P (theap s ! q)"
    using keys_where [OF svc_invD(1) [OF assms], of _ "\<lambda>p. P (theap s ! p)"] by (metis option.inject)
  then show ?thesis by (simp add: drop_where_def finish_all_nth [OF assms])
qed

section \<open>Opening\<close>

lemma addTunnel_Inr:
  assumes "addTunnel t s = (s', Inr p)"
  shows "p = length (theap s)" "theap s' = theap s @ [t]" "tunnels s' = mput (t_id t) p (tunnels s)"
    "sessions s' = sessions s" "bridge s' = bridge s"
    "mcount (\<lambda>p. t_sessionID (theap s ! p) = t_sessionID t) (tunnels s) < maxTunnelsPerSession"
  using assms by (auto simp: addTunnel_def Let_def split: if_splits)

lemma addTunnel_Inl: "addTunnel t s = (s', Inl e) \<Longrightarrow> s' = s \<and> e = ''too many tunnels''"
  by (auto simp: addTunnel_def Let_def split: if_splits)

lemma svc_inv_addTunnel [inv_intros]:
  assumes "svc_inv s" and "addTunnel t s = (s', Inr p)" and "\<not> t_done t" and "inbound t = []"
  shows "svc_inv s'"
proof -
  note a = addTunnel_Inr [OF assms(2)]
  have old: "theap s' ! q = theap s ! q" if "(k, q) \<in> set (tunnels s)" for k q
  proof -
    have "mget (tunnels s) k = Some q" using that mget_in_set [OF svc_invD(1) [OF assms(1)]] by simp
    then show ?thesis using svc_invD(2) [OF assms(1)] by (simp add: a(2) nth_append)
  qed
  show ?thesis
    unfolding svc_inv_def
  proof (intro conjI allI impI)
    show "mwf (tunnels s')" using svc_invD(1) [OF assms(1)] by (simp add: a(3))
  next
    fix tid q assume g: "mget (tunnels s') tid = Some q"
    have "q < length (theap s') \<and> t_id (theap s' ! q) = tid \<and> \<not> t_done (theap s' ! q)"
    proof (cases "tid = t_id t")
      case True
      with g have "q = p" by (simp add: a(3))
      with True show ?thesis using assms(3) by (simp add: a(1,2))
    next
      case False
      with g have "mget (tunnels s) tid = Some q" by (simp add: a(3))
      from svc_invD(2) [OF assms(1) this] show ?thesis by (simp add: a(2) nth_append)
    qed
    then show "q < length (theap s')" "t_id (theap s' ! q) = tid" "\<not> t_done (theap s' ! q)" by simp_all
  next
    fix sid
    let ?P = "\<lambda>q. t_sessionID (theap s' ! q) = sid"
    have eq: "mcount ?P (tunnels s) = mcount (\<lambda>q. t_sessionID (theap s ! q) = sid) (tunnels s)"
      by (rule mcount_cong) (simp add: old)
    have "mcount ?P (tunnels s') \<le> mcount ?P (tunnels s) + (if ?P p then 1 else 0)"
      unfolding a(3) by (rule mcount_mput_le)
    also have "\<dots> \<le> maxTunnelsPerSession"
    proof (cases "?P p")
      case True
      then have "t_sessionID t = sid" by (simp add: a(1,2))
      with a(6) True show ?thesis by (simp add: eq)
    next
      case False
      then show ?thesis using svc_invD(3) [OF assms(1), of sid] by (simp add: eq)
    qed
    finally show "mcount ?P (tunnels s') \<le> maxTunnelsPerSession" .
  next
    fix q assume "q < length (theap s')"
    then show "length (inbound (theap s' ! q)) \<le> inboundQueue"
      using svc_invD(4) [OF assms(1), of q] assms(4) by (cases "q = length (theap s)") (auto simp: a(2) nth_append)
  qed
qed

lemma bridgeSend_frame:
  "bridgeSend B a ty pl s = (s', e) \<Longrightarrow> \<exists>b. s' = s\<lparr>bridge := b\<rparr>"
  by (cases s) (auto simp: bridgeSend_def Let_def split: option.splits if_splits prod.splits)

lemma newTunnel_Inr:
  "newTunnel raw a sid = Inr t \<Longrightarrow> t_agentID t = a \<and> t_sessionID t = sid \<and> inbound t = [] \<and> opened t = None \<and> \<not> t_done t"
  by (auto simp: newTunnel_def split: sum.splits)

lemma openTunnel_begin_Inr:
  assumes "openTunnel_begin B raw sess host port s = (s', Inr p)"
  obtains t s1 b where "newTunnel raw (AgentID sess) (ID sess) = Inr t" "addTunnel t s = (s1, Inr p)"
    "s' = s1\<lparr>bridge := b\<rparr>"
proof -
  obtain t where t: "newTunnel raw (AgentID sess) (ID sess) = Inr t"
    using assms by (auto simp: openTunnel_begin_def split: sum.splits)
  obtain s1 r where a: "addTunnel t s = (s1, r)" by (cases "addTunnel t s")
  with assms t obtain p' where r: "r = Inr p'"
    by (auto simp: openTunnel_begin_def split: sum.splits)
  obtain s2 e where b: "bridgeSend B (AgentID sess) TypeProxyOpen
     (enc_ProxyOpen \<lparr>open_TunnelID = t_id t, open_Host = host, open_Port = port\<rparr>) s1 = (s2, e)"
    by (cases "bridgeSend B (AgentID sess) TypeProxyOpen
     (enc_ProxyOpen \<lparr>open_TunnelID = t_id t, open_Host = host, open_Port = port\<rparr>) s1")
  have "s' = s2" "p' = p"
    using assms by (auto simp: openTunnel_begin_def t a r b split: option.splits)
  with that [OF t] a r bridgeSend_frame [OF b] show thesis by blast
qed

text \<open>When opening fails at once, the table is as before; an object may have been allocated and closed.\<close>

lemma openTunnel_begin_Inl:
  assumes "svc_inv s" and "openTunnel_begin B raw sess host port s = (s', Inl e)"
    and "\<And>bytes. raw = Inr bytes \<Longrightarrow> mget (tunnels s) (hex_encode bytes) = None"
  shows "tunnels s' = tunnels s"
proof (cases "newTunnel raw (AgentID sess) (ID sess)")
  case (Inl err)
  then show ?thesis using assms(2) by (simp add: openTunnel_begin_def)
next
  case (Inr t)
  obtain s1 r where a: "addTunnel t s = (s1, r)" by (cases "addTunnel t s")
  show ?thesis
  proof (cases r)
    case (Inl err)
    then show ?thesis using assms(2) addTunnel_Inl [of t s s1 err] by (simp add: openTunnel_begin_def Inr a)
  next
    case (Inr p)
    note i = addTunnel_Inr [OF a [unfolded Inr]]
    obtain s2 er where b: "bridgeSend B (AgentID sess) TypeProxyOpen
       (enc_ProxyOpen \<lparr>open_TunnelID = t_id t, open_Host = host, open_Port = port\<rparr>) s1 = (s2, er)"
      by (cases "bridgeSend B (AgentID sess) TypeProxyOpen
       (enc_ProxyOpen \<lparr>open_TunnelID = t_id t, open_Host = host, open_Port = port\<rparr>) s1")
    from bridgeSend_frame [OF b] have s2: "tunnels s2 = tunnels s1" by auto
    have fresh: "mget (tunnels s) (t_id t) = None"
      using assms(3) \<open>newTunnel raw (AgentID sess) (ID sess) = Inr t\<close>
      by (auto simp: newTunnel_def split: sum.splits)
    have "s' = finish B (t_id t) ''agent offline'' False s2"
      using assms(2) by (auto simp: openTunnel_begin_def \<open>newTunnel raw _ _ = Inr t\<close> a Inr b split: option.splits)
    then show ?thesis
      using fresh by (simp add: s2 i mput_fresh mdel_absent [unfolded mdel_def] mdel_def)
  qed
qed

section \<open>Effects of the handlers\<close>

lemma owned_Some: "owned a tid s = Some p \<longleftrightarrow> mget (tunnels s) tid = Some p \<and> t_agentID (theap s ! p) = a"
  by (auto simp: owned_def split: option.splits)

text \<open>All a message can do: nothing, note a dial result, remove a tunnel of that probe, or ask to queue.\<close>

definition agent_effect ::
  "'b Bridge \<Rightarrow> string \<Rightarrow> 'b Service \<Rightarrow> 'b Service \<Rightarrow> (tunnel_ptr \<times> string) option \<Rightarrow> bool" where
  "agent_effect B a s s' d \<longleftrightarrow>
     (s' = s \<and> d = None)
     \<or> (\<exists>p tid. owned a tid s = Some p
          \<and> ((\<exists>res. s' = s\<lparr>theap := (theap s)[p := (theap s ! p)\<lparr>opened := Some res\<rparr>]\<rparr> \<and> d = None)
             \<or> (\<exists>r n. s' = finish B (t_id (theap s ! p)) r n s \<and> d = None)
             \<or> (\<exists>raw. s' = s \<and> d = Some (p, raw) \<and> raw \<noteq> '''' \<and> int (length raw) \<le> proxyChunkSize * 4)))"

lemma agent_effect_none: "agent_effect B a s s None"
  by (simp add: agent_effect_def)

lemma handle_open_result_effect: "agent_effect B a s (handle_open_result a res s) None"
  unfolding handle_open_result_def by (auto simp: agent_effect_def split: option.splits)

lemma handle_close_effect: "agent_effect B a s (handle_close B a msg s) None"
  unfolding handle_close_def by (auto simp: agent_effect_def split: option.splits)

lemma handle_data_effect: "handle_data B a msg s = (s', d) \<Longrightarrow> agent_effect B a s s' d"
  unfolding handle_data_def agent_effect_def
  by (cases "owned a (data_TunnelID msg) s"; cases "DecodeString (data_Data msg)")
    (auto simp: not_less split: if_splits)

lemma HandleAgent_effect:
  assumes "HandleAgent B a env s = (s', d)"
  shows "agent_effect B a s s' d"
  using assms handle_open_result_effect [of B a s] handle_close_effect [of B a s]
    handle_data_effect [of B a _ s s' d] agent_effect_none [of B a s]
  unfolding HandleAgent_def by (cases "Type env") (auto split: option.splits)

lemma HandleAgent_cases:
  assumes "HandleAgent B a env s = (s', d)"
  obtains
    (same) "s' = s" "d = None"
  | (result) p tid res where "owned a tid s = Some p"
      "s' = s\<lparr>theap := (theap s)[p := (theap s ! p)\<lparr>opened := Some res\<rparr>]\<rparr>" "d = None"
  | (fin) p tid r n where "owned a tid s = Some p" "s' = finish B (t_id (theap s ! p)) r n s" "d = None"
  | (chunk) p tid raw where "owned a tid s = Some p" "s' = s" "d = Some (p, raw)" "raw \<noteq> ''''"
      "int (length raw) \<le> proxyChunkSize * 4"
  using HandleAgent_effect [OF assms] unfolding agent_effect_def by blast

text \<open>
  \<open>quiet s s'\<close>: tunnels may be added (with an empty queue) and closed, but no queue changes and no
  tunnel changes its identity or is reopened.
\<close>

definition quiet :: "'b Service \<Rightarrow> 'b Service \<Rightarrow> bool" where
  "quiet s s' \<longleftrightarrow> length (theap s) \<le> length (theap s')
     \<and> (\<forall>q < length (theap s). same_tunnel (theap s ! q) (theap s' ! q)
          \<and> inbound (theap s' ! q) = inbound (theap s ! q) \<and> (t_done (theap s ! q) \<longrightarrow> t_done (theap s' ! q)))
     \<and> (\<forall>q < length (theap s'). length (theap s) \<le> q \<longrightarrow> inbound (theap s' ! q) = [])"

lemma quiet_refl [simp]: "quiet s s"
  by (simp add: quiet_def)

lemma quiet_same_heap: "theap s' = theap s \<Longrightarrow> quiet s s'"
  by (simp add: quiet_def)

lemma quiet_trans: "quiet s s' \<Longrightarrow> quiet s' s'' \<Longrightarrow> quiet s s''"
proof -
  assume a: "quiet s s'" and b: "quiet s' s''"
  have len: "length (theap s) \<le> length (theap s')" "length (theap s') \<le> length (theap s'')"
    using a b by (simp_all add: quiet_def)
  have old: "same_tunnel (theap s ! q) (theap s'' ! q) \<and> inbound (theap s'' ! q) = inbound (theap s ! q)
      \<and> (t_done (theap s ! q) \<longrightarrow> t_done (theap s'' ! q))" if "q < length (theap s)" for q
    using a b that len(1) by (simp add: quiet_def same_tunnel_def)
  have new: "inbound (theap s'' ! q) = []" if "q < length (theap s'')" "length (theap s) \<le> q" for q
    using a b that by (cases "q < length (theap s')") (simp_all add: quiet_def)
  show ?thesis using len old new by (simp add: quiet_def)
qed

lemma quiet_finish: "svc_inv s \<Longrightarrow> quiet s (finish B tid r n s)"
  by (simp add: quiet_def finish_same finish_inbound) (simp add: finish_nth tunnel_close_def)

lemma quiet_upd:
  "same_tunnel (theap s ! p) t \<Longrightarrow> inbound t = inbound (theap s ! p) \<Longrightarrow> t_done t = t_done (theap s ! p) \<Longrightarrow>
   quiet s (s\<lparr>theap := (theap s)[p := t]\<rparr>)"
  unfolding quiet_def by (cases "p < length (theap s)") (auto simp: nth_list_update)

definition good :: "'b Service \<Rightarrow> 'b Service \<Rightarrow> bool" where
  "good s s' \<longleftrightarrow> (svc_inv s \<longrightarrow> svc_inv s' \<and> quiet s s')
     \<and> (store_wf (sessions s) \<longrightarrow> store_wf (sessions s'))"

lemma good_refl [simp]: "good s s"
  by (simp add: good_def)

lemma good_trans: "good s s' \<Longrightarrow> good s' s'' \<Longrightarrow> good s s''"
  by (auto simp: good_def intro: quiet_trans)

lemma good_finish: "good s (finish B tid r n s)"
  by (simp add: good_def svc_inv_finish quiet_finish)

lemma good_bridge [simp]: "good s (s\<lparr>bridge := b\<rparr>)"
  by (simp add: good_def quiet_same_heap)

lemma good_store: "(store_wf (sessions s) \<Longrightarrow> store_wf st) \<Longrightarrow> good s (s\<lparr>sessions := st\<rparr>)"
  by (simp add: good_def quiet_same_heap)

lemma good_opened: "good s (s\<lparr>theap := (theap s)[p := (theap s ! p)\<lparr>opened := r\<rparr>]\<rparr>)"
proof (cases "p < length (theap s)")
  case True
  then show ?thesis
    by (auto simp: good_def same_tunnel_def svc_invD(4) intro!: svc_inv_upd quiet_upd)
next
  case False
  then have "(theap s)[p := (theap s ! p)\<lparr>opened := r\<rparr>] = theap s" by (intro list_update_beyond) simp
  then have "s\<lparr>theap := (theap s)[p := (theap s ! p)\<lparr>opened := r\<rparr>]\<rparr> = s" by simp
  then show ?thesis by simp
qed

lemma good_bridgeSend: "bridgeSend B a ty pl s = (s', e) \<Longrightarrow> good s s'"
  using bridgeSend_frame by (metis good_bridge)

lemma good_drop_where: "good s (drop_where B r n P s)"
proof -
  have "good s (finish_all B r n ids s)" for ids
    by (induction ids arbitrary: s) (auto intro: good_trans good_finish)
  then show ?thesis by (simp add: drop_where_def)
qed

lemma good_HandleAgent: "HandleAgent B a env s = (s', d) \<Longrightarrow> good s s'"
  by (erule HandleAgent_cases) (simp_all add: good_finish good_opened)

lemma good_addTunnel:
  assumes "addTunnel t s = (s', Inr p)" and "\<not> t_done t" and "inbound t = []"
  shows "good s s'"
  unfolding good_def addTunnel_Inr(4) [OF assms(1)]
proof (intro impI conjI)
  assume "svc_inv s"
  then show "svc_inv s'" using assms by (rule svc_inv_addTunnel)
  show "quiet s s'"
    using assms(3) unfolding quiet_def addTunnel_Inr(2) [OF assms(1)]
    by (auto simp: nth_append less_Suc_eq_le)
qed simp

lemma good_openTunnel_begin:
  assumes "openTunnel_begin B raw sess host port s = (s', r)"
  shows "good s s'"
proof (cases "newTunnel raw (AgentID sess) (ID sess)")
  case (Inl err)
  then show ?thesis using assms by (simp add: openTunnel_begin_def)
next
  case (Inr t)
  note t = newTunnel_Inr [OF Inr]
  obtain s1 r1 where a: "addTunnel t s = (s1, r1)" by (cases "addTunnel t s")
  obtain s2 e where b: "bridgeSend B (AgentID sess) TypeProxyOpen
     (enc_ProxyOpen \<lparr>open_TunnelID = t_id t, open_Host = host, open_Port = port\<rparr>) s1 = (s2, e)"
    by (cases "bridgeSend B (AgentID sess) TypeProxyOpen
     (enc_ProxyOpen \<lparr>open_TunnelID = t_id t, open_Host = host, open_Port = port\<rparr>) s1")
  show ?thesis
  proof (cases r1)
    case (Inl err)
    then show ?thesis
      using assms addTunnel_Inl a by (fastforce simp: openTunnel_begin_def \<open>newTunnel raw _ _ = Inr t\<close>)
  next
    case (Inr p)
    have "good s s2"
      using good_addTunnel [OF a [unfolded Inr]] t good_bridgeSend [OF b] by (blast intro: good_trans)
    then show ?thesis
      using assms good_trans [OF _ good_finish]
      by (auto simp: openTunnel_begin_def \<open>newTunnel raw _ _ = Inr t\<close> a Inr b split: option.splits)
  qed
qed

lemma good_openTunnel_end: "openTunnel_end B oc p s = (s', r) \<Longrightarrow> good s s'"
  by (cases oc)
    (auto simp: Let_def good_finish good_opened intro: good_trans [OF good_opened good_finish]
      split: option.splits if_splits)

lemma good_pump_read: "pump_read B p buf failed s = (s', k) \<Longrightarrow> good s s'"
  using good_bridgeSend
  by (force simp: pump_read_def Let_def good_finish intro: good_trans split: prod.splits if_splits)

lemma HandleConnect_target_open:
  "HandleConnect_target B raw rh uh sess s = (s', r) \<Longrightarrow>
   (s' = s \<and> isl r) \<or> (\<exists>host port r'. openTunnel_begin B raw sess host port s = (s', r')
      \<and> (\<forall>p. r = Inr p \<longleftrightarrow> r' = Inr p))"
  by (auto simp: HandleConnect_target_def Let_def split: option.splits sum.splits if_splits prod.splits)

lemma HandleTunnel_target_open:
  "HandleTunnel_target B raw req sess s = (s', r) \<Longrightarrow>
   (s' = s \<and> isl r) \<or> (\<exists>host port r'. openTunnel_begin B raw sess host port s = (s', r')
      \<and> (\<forall>p. r = Inr p \<longleftrightarrow> r' = Inr p))"
  by (auto simp: HandleTunnel_target_def Let_def split: option.splits sum.splits if_splits prod.splits)

lemma openTunnel_begin_fresh:
  assumes "openTunnel_begin B raw sess host port s = (s', Inr p)"
  shows "p = length (theap s)" "length (theap s') = Suc (length (theap s))" "t_sessionID (theap s' ! p) = ID sess"
    "t_agentID (theap s' ! p) = AgentID sess" "inbound (theap s' ! p) = []"
    "mget (tunnels s') (t_id (theap s' ! p)) = Some p" "sessions s' = sessions s"
proof -
  obtain t s1 b where o: "newTunnel raw (AgentID sess) (ID sess) = Inr t" "addTunnel t s = (s1, Inr p)"
    "s' = s1\<lparr>bridge := b\<rparr>"
    using assms by (rule openTunnel_begin_Inr)
  note a = addTunnel_Inr [OF o(2)] and n = newTunnel_Inr [OF o(1)]
  show "p = length (theap s)" by (rule a(1))
  have nth: "theap s' ! p = t" by (simp add: o(3) a(1,2))
  from n show "t_sessionID (theap s' ! p) = ID sess" "t_agentID (theap s' ! p) = AgentID sess"
    "inbound (theap s' ! p) = []"
    by (simp_all add: nth)
  show "length (theap s') = Suc (length (theap s))" "sessions s' = sessions s"
    using o(3) a(2,4) by simp_all
  show "mget (tunnels s') (t_id (theap s' ! p)) = Some p" by (simp add: nth) (simp add: o(3) a(3))
qed

lemma good_HandleConnect_end:
  "HandleConnect_end B oc hj sess p s = (s', r) \<Longrightarrow> good s s'"
  by (auto simp: HandleConnect_end_def dest!: good_openTunnel_end intro: good_trans good_finish
      split: sum.splits hijack.splits prod.splits)

lemma good_HandleTunnel_end:
  "HandleTunnel_end B oc wok sess p s = (s', r) \<Longrightarrow> good s s'"
  by (auto simp: HandleTunnel_end_def dest!: good_openTunnel_end intro: good_trans good_finish
      split: sum.splits if_splits prod.splits)

lemma good_Service_Revoke:
  assumes "Service_Revoke B now sid s = (s', ok)"
  shows "good s s'"
proof -
  obtain st ok' where r: "Store_Revoke now sid (sessions s) = (st, ok')" by (cases "Store_Revoke now sid (sessions s)")
  have "good s (s\<lparr>sessions := st\<rparr>)"
    using store_apply_wf [of "sessions s" undefined "OpRevoke now sid"] r by (intro good_store) simp
  then show ?thesis
    using assms good_trans [OF _ good_drop_where]
    by (auto simp: Service_Revoke_def dropSession_drop_where r Let_def split: if_splits)
qed

section \<open>The proxy as a concurrent system\<close>

text \<open>
  The service together with the goroutines that use it: chunks waiting for queue space, handlers
  that have authenticated, handlers that wait for the probe, and the client writers. \<open>accepted\<close> and
  \<open>wrote\<close> record, in order, what entered a tunnel's queue and what was written to its client.
\<close>

record 'b World =
  svc :: "'b Service"
  pending :: "(tunnel_ptr \<times> string) list"
  connected :: "Session list"
  awaiting :: "(Session \<times> tunnel_ptr) list"
  writers :: "(tunnel_ptr, writer) gomap"
  accepted :: "(tunnel_ptr \<times> string) list"
  wrote :: "(tunnel_ptr \<times> string) list"

definition chunks :: "tunnel_ptr \<Rightarrow> (tunnel_ptr \<times> string) list \<Rightarrow> string list" where
  "chunks p xs = map snd (filter (\<lambda>e. fst e = p) xs)"

definition start :: "'b World" where
  "start = \<lparr>svc = NewService, pending = [], connected = [], awaiting = [], writers = [], accepted = [], wrote = []\<rparr>"

fun start_pump :: "reply \<Rightarrow> (tunnel_ptr, writer) gomap \<Rightarrow> (tunnel_ptr, writer) gomap" where
  "start_pump (Pumping q dl) ws = mput q Writing ws"
| "start_pump _ ws = ws"

inductive svc_step :: "'b Bridge \<Rightarrow> (string \<Rightarrow> string) \<Rightarrow> 'b World \<Rightarrow> 'b World \<Rightarrow> bool" for B H where
  store_op: "svc_step B H w (w\<lparr>svc := (svc w)\<lparr>sessions := store_apply H (sessions (svc w)) oper\<rparr>\<rparr>)"
    if "case oper of OpRevoke _ _ \<Rightarrow> False | _ \<Rightarrow> True"
| revoke: "svc_step B H w (w\<lparr>svc := s'\<rparr>)" if "Service_Revoke B now sid (svc w) = (s', ok)"
| bridge_change: "svc_step B H w (w\<lparr>svc := (svc w)\<lparr>bridge := b\<rparr>\<rparr>)"
| drop_agent: "svc_step B H w (w\<lparr>svc := DropAgent B a (svc w)\<rparr>)"
| message: "svc_step B H w (w\<lparr>svc := s', pending := pending w @ (case d of None \<Rightarrow> [] | Some x \<Rightarrow> [x])\<rparr>)"
    if "HandleAgent B a env (svc w) = (s', d)"
| queue: "svc_step B H w (w\<lparr>svc := deliver B c p raw (svc w), pending := remove1 (p, raw) (pending w),
      accepted := accepted w @ (if c = DeliverQueue then [(p, raw)] else [])\<rparr>)"
    if "(p, raw) \<in> set (pending w)" "deliver_ready c (theap (svc w) ! p)"
| connect: "svc_step B H w (w\<lparr>connected := connected w @ [sess]\<rparr>)"
    if "HandleConnect_auth H now m pa (svc w) = Inr sess"
| upgrade: "svc_step B H w (w\<lparr>connected := connected w @ [sess]\<rparr>)"
    if "HandleTunnel_auth H now pa au up (svc w) = Inr sess"
| target_connect: "svc_step B H w (w\<lparr>connected := remove1 sess (connected w), svc := s',
      awaiting := awaiting w @ (case r of Inl _ \<Rightarrow> [] | Inr p \<Rightarrow> [(sess, p)])\<rparr>)"
    if "sess \<in> set (connected w)" "HandleConnect_target B raw rh uh sess (svc w) = (s', r)"
| target_tunnel: "svc_step B H w (w\<lparr>connected := remove1 sess (connected w), svc := s',
      awaiting := awaiting w @ (case r of Inl _ \<Rightarrow> [] | Inr p \<Rightarrow> [(sess, p)])\<rparr>)"
    if "sess \<in> set (connected w)" "HandleTunnel_target B raw req sess (svc w) = (s', r)"
| open_connect: "svc_step B H w (w\<lparr>svc := s', awaiting := remove1 (sess, p) (awaiting w),
      writers := start_pump r (writers w)\<rparr>)"
    if "(sess, p) \<in> set (awaiting w)" "open_ready oc (theap (svc w) ! p)"
      "HandleConnect_end B oc hj sess p (svc w) = (s', r)"
| open_tunnel: "svc_step B H w (w\<lparr>svc := s', awaiting := remove1 (sess, p) (awaiting w),
      writers := start_pump r (writers w)\<rparr>)"
    if "(sess, p) \<in> set (awaiting w)" "open_ready oc (theap (svc w) ! p)"
      "HandleTunnel_end B oc wok sess p (svc w) = (s', r)"
| client_read: "svc_step B H w (w\<lparr>svc := s'\<rparr>)"
    if "mget (writers w) p = Some m" "pump_read B p buf failed (svc w) = (s', go)"
| client_write: "svc_step B H w (w\<lparr>svc := s', wrote := wrote w @ map (Pair p) out,
      writers := mput p m' (writers w)\<rparr>)"
    if "mget (writers w) p = Some m" "write_ready c m (theap (svc w) ! p)"
      "writeToClient B c m p (svc w) = (s', out, m')"

inductive svc_reach :: "'b Bridge \<Rightarrow> (string \<Rightarrow> string) \<Rightarrow> 'b World \<Rightarrow> bool" for B H where
  init: "svc_reach B H start"
| step: "svc_reach B H w \<Longrightarrow> svc_step B H w w' \<Longrightarrow> svc_reach B H w'"

section \<open>Invariant of the system\<close>

text \<open>What is known of one tunnel's bytes, depending on its writer.\<close>

fun flow :: "writer option \<Rightarrow> string list \<Rightarrow> string list \<Rightarrow> string list \<Rightarrow> bool" where
  "flow None acc wr q \<longleftrightarrow> wr = [] \<and> acc = q"
| "flow (Some Returned) acc wr q \<longleftrightarrow> prefix wr acc"
| "flow (Some m) acc wr q \<longleftrightarrow> acc = wr @ q"

definition world_inv :: "'b World \<Rightarrow> bool" where
  "world_inv w \<longleftrightarrow> svc_inv (svc w) \<and> store_wf (sessions (svc w))
     \<and> (\<forall>e \<in> set (pending w) \<union> set (accepted w) \<union> set (wrote w). fst e < length (theap (svc w)))
     \<and> (\<forall>e \<in> set (awaiting w). snd e < length (theap (svc w)) \<and> mget (writers w) (snd e) = None)
     \<and> distinct (map snd (awaiting w))
     \<and> (\<forall>p m. mget (writers w) p = Some m \<longrightarrow> p < length (theap (svc w)))
     \<and> (\<forall>p < length (theap (svc w)).
          flow (mget (writers w) p) (chunks p (accepted w)) (chunks p (wrote w)) (inbound (theap (svc w) ! p)))"

lemma world_invD:
  assumes "world_inv w"
  shows "svc_inv (svc w)" "store_wf (sessions (svc w))"
    and "e \<in> set (pending w) \<Longrightarrow> fst e < length (theap (svc w))"
    and "e \<in> set (accepted w) \<Longrightarrow> fst e < length (theap (svc w))"
    and "e \<in> set (wrote w) \<Longrightarrow> fst e < length (theap (svc w))"
    and "x \<in> set (awaiting w) \<Longrightarrow> snd x < length (theap (svc w)) \<and> mget (writers w) (snd x) = None"
    and "distinct (map snd (awaiting w))"
    and "mget (writers w) p = Some m \<Longrightarrow> p < length (theap (svc w))"
    and "p < length (theap (svc w)) \<Longrightarrow>
      flow (mget (writers w) p) (chunks p (accepted w)) (chunks p (wrote w)) (inbound (theap (svc w) ! p))"
  using assms by (auto simp: world_inv_def)

lemma world_invI:
  assumes "svc_inv (svc w)" "store_wf (sessions (svc w))"
    and "\<And>e. e \<in> set (pending w) \<Longrightarrow> fst e < length (theap (svc w))"
    and "\<And>e. e \<in> set (accepted w) \<Longrightarrow> fst e < length (theap (svc w))"
    and "\<And>e. e \<in> set (wrote w) \<Longrightarrow> fst e < length (theap (svc w))"
    and "\<And>x. x \<in> set (awaiting w) \<Longrightarrow> snd x < length (theap (svc w)) \<and> mget (writers w) (snd x) = None"
    and "distinct (map snd (awaiting w))"
    and "\<And>p m. mget (writers w) p = Some m \<Longrightarrow> p < length (theap (svc w))"
    and "\<And>p. p < length (theap (svc w)) \<Longrightarrow>
      flow (mget (writers w) p) (chunks p (accepted w)) (chunks p (wrote w)) (inbound (theap (svc w) ! p))"
  shows "world_inv w"
  using assms by (auto simp: world_inv_def)

lemma chunks_append [simp]: "chunks p (xs @ ys) = chunks p xs @ chunks p ys"
  by (simp add: chunks_def)

lemma chunks_Nil [simp]: "chunks p [] = []"
  by (simp add: chunks_def)

lemma chunks_single [simp]: "chunks p [(q, x)] = (if p = q then [x] else [])"
  by (simp add: chunks_def)

lemma chunks_Pair [simp]: "chunks p (map (Pair q) xs) = (if p = q then xs else [])"
  by (induction xs) (auto simp: chunks_def)

lemma chunks_none: "(\<And>e. e \<in> set xs \<Longrightarrow> fst e < n) \<Longrightarrow> n \<le> p \<Longrightarrow> chunks p xs = []"
  by (force simp: chunks_def filter_empty_conv)

text \<open>A quiet change of the service keeps everything, whatever it adds.\<close>

lemma world_inv_quiet:
  assumes "world_inv w" and "good (svc w) s'"
  shows "world_inv (w\<lparr>svc := s'\<rparr>)"
proof -
  have i: "svc_inv s'" "store_wf (sessions s')" and q: "quiet (svc w) s'"
    using assms world_invD(1,2) by (auto simp: good_def)
  have len: "length (theap (svc w)) \<le> length (theap s')" using q by (simp add: quiet_def)
  have fl: "flow (mget (writers w) p) (chunks p (accepted w)) (chunks p (wrote w)) (inbound (theap s' ! p))"
    if p: "p < length (theap s')" for p
  proof (cases "p < length (theap (svc w))")
    case True
    then have "inbound (theap s' ! p) = inbound (theap (svc w) ! p)" using q by (simp add: quiet_def)
    then show ?thesis using world_invD(9) [OF assms(1) True] by simp
  next
    case False
    then have "inbound (theap s' ! p) = []" using q p by (simp add: quiet_def)
    moreover have "mget (writers w) p = None" using False world_invD(8) [OF assms(1)] by (meson not_None_eq)
    moreover have "chunks p (accepted w) = []" "chunks p (wrote w) = []"
      using False world_invD(4,5) [OF assms(1)] chunks_none [of _ "length (theap (svc w))" p] by (simp_all add: not_less)
    ultimately show ?thesis by simp
  qed
  note old = world_invD(3-8) [OF assms(1)]
  show ?thesis
  proof (rule world_invI)
    show "snd x < length (theap (svc (w\<lparr>svc := s'\<rparr>))) \<and> mget (writers (w\<lparr>svc := s'\<rparr>)) (snd x) = None"
      if "x \<in> set (awaiting (w\<lparr>svc := s'\<rparr>))" for x
      using that old(4) [of x] len by simp
    show "p < length (theap (svc (w\<lparr>svc := s'\<rparr>)))" if "mget (writers (w\<lparr>svc := s'\<rparr>)) p = Some m" for p m
      using that old(6) [of p m] len by simp
  qed (use i fl old(5) order_less_le_trans [OF old(1) len] order_less_le_trans [OF old(2) len]
      order_less_le_trans [OF old(3) len] in simp_all)
qed

lemma world_inv_connected [simp]: "world_inv (w\<lparr>connected := xs\<rparr>) = world_inv w"
  by (simp add: world_inv_def)

lemma world_inv_pending:
  "world_inv w \<Longrightarrow> (\<And>e. e \<in> set xs \<Longrightarrow> fst e < length (theap (svc w))) \<Longrightarrow> world_inv (w\<lparr>pending := xs\<rparr>)"
  by (auto simp: world_inv_def)

lemma world_inv_await:
  "world_inv w \<Longrightarrow> p < length (theap (svc w)) \<Longrightarrow> mget (writers w) p = None \<Longrightarrow> p \<notin> snd ` set (awaiting w) \<Longrightarrow>
   world_inv (w\<lparr>awaiting := awaiting w @ [(sess, p)]\<rparr>)"
  by (auto simp: world_inv_def)

lemma world_inv_await_remove: "world_inv w \<Longrightarrow> world_inv (w\<lparr>awaiting := remove1 x (awaiting w)\<rparr>)"
  by (auto simp: world_inv_def intro: distinct_map_remove1 dest: set_remove1_subset [THEN subsetD])

text \<open>A handler stops waiting and starts relaying.\<close>

lemma world_inv_start_pump:
  assumes "world_inv w" and "(sess, p) \<in> set (awaiting w)"
  shows "world_inv (w\<lparr>awaiting := remove1 (sess, p) (awaiting w), writers := mput p Writing (writers w)\<rparr>)"
proof -
  note old = world_invD [OF assms(1)]
  have p: "p < length (theap (svc w))" "mget (writers w) p = None" using old(6) [OF assms(2)] by simp_all
  have ne: "snd x \<noteq> p" if "x \<in> set (remove1 (sess, p) (awaiting w))" for x
    using that assms(2) old(7) by (auto simp: distinct_map inj_on_def dest: set_remove1_subset [THEN subsetD])
  let ?w = "w\<lparr>awaiting := remove1 (sess, p) (awaiting w), writers := mput p Writing (writers w)\<rparr>"
  show ?thesis
  proof (rule world_invI)
    show "snd x < length (theap (svc ?w)) \<and> mget (writers ?w) (snd x) = None" if "x \<in> set (awaiting ?w)" for x
      using that ne [of x] old(6) [of x] set_remove1_subset [THEN subsetD, of x "(sess, p)" "awaiting w"] by simp
    show "distinct (map snd (awaiting ?w))"
      using old(7) by (simp add: distinct_map_remove1)
    show "q < length (theap (svc ?w))" if "mget (writers ?w) q = Some m" for q m
      using that p old(8) [of q m] by (auto split: if_splits)
    show "flow (mget (writers ?w) q) (chunks q (accepted ?w)) (chunks q (wrote ?w)) (inbound (theap (svc ?w) ! q))"
      if "q < length (theap (svc ?w))" for q
      using that p old(9) [of q] by (cases "q = p") simp_all
  qed (use old(1-5) in simp_all)
qed

lemma HandleAgent_chunk:
  "svc_inv s \<Longrightarrow> HandleAgent B a env s = (s', Some (p, raw)) \<Longrightarrow> p < length (theap s')"
  by (erule HandleAgent_cases) (auto simp: owned_Some svc_invD(2))

lemma openTunnel_end_Inr: "openTunnel_end B oc p s = (s', Inr q) \<Longrightarrow> q = p"
  by (cases oc) (auto simp: Let_def split: option.splits if_splits)

lemma HandleConnect_end_pump: "HandleConnect_end B oc hj sess p s = (s', Pumping q dl) \<Longrightarrow> q = p \<and> dl = ExpiresAt sess"
  by (auto simp: HandleConnect_end_def dest: openTunnel_end_Inr split: sum.splits hijack.splits prod.splits)

lemma HandleTunnel_end_pump: "HandleTunnel_end B oc wok sess p s = (s', Pumping q dl) \<Longrightarrow> q = p \<and> dl = ExpiresAt sess"
  by (auto simp: HandleTunnel_end_def dest: openTunnel_end_Inr split: sum.splits if_splits prod.splits)

section \<open>Queues and writers\<close>

lemma world_inv_queue:
  assumes "world_inv w" and "p < length (theap (svc w))" and "length (inbound (theap (svc w) ! p)) < inboundQueue"
  shows "world_inv (w\<lparr>svc := deliver B DeliverQueue p raw (svc w), accepted := accepted w @ [(p, raw)]\<rparr>)"
proof -
  note old = world_invD [OF assms(1)]
  let ?t = "(theap (svc w) ! p)\<lparr>inbound := inbound (theap (svc w) ! p) @ [raw]\<rparr>"
  let ?w = "w\<lparr>svc := (svc w)\<lparr>theap := (theap (svc w))[p := ?t]\<rparr>, accepted := accepted w @ [(p, raw)]\<rparr>"
  have "world_inv ?w"
  proof (rule world_invI)
    show "svc_inv (svc ?w)"
      using svc_inv_upd [OF old(1), of p ?t] assms(3) by (simp add: same_tunnel_def)
    show "flow (mget (writers ?w) q) (chunks q (accepted ?w)) (chunks q (wrote ?w)) (inbound (theap (svc ?w) ! q))"
      if "q < length (theap (svc ?w))" for q
    proof (cases "q = p")
      case True
      then show ?thesis
        using old(9) [OF assms(2)] assms(2)
        by (cases "(mget (writers w) p, chunks p (accepted w), chunks p (wrote w), inbound (theap (svc w) ! p))"
            rule: flow.cases) (auto simp: prefix_def)
    next
      case False
      then show ?thesis using that old(9) [of q] by simp
    qed
    show "fst e < length (theap (svc ?w))" if "e \<in> set (accepted ?w)" for e
      using that old(4) [of e] assms(2) by auto
  qed (use old in simp_all)
  then show ?thesis by simp
qed

lemma writeToClient_Done: "writeToClient B WriteDone m p s = (s', out, m') \<Longrightarrow> s' = s \<and> out = [] \<and> m' = (if m = Writing then Draining else Returned)"
  by simp

lemma flow_Returned: "flow (Some m) acc wr q \<Longrightarrow> flow (Some Returned) acc wr q'"
  by (cases m) auto

lemma world_inv_writer:
  assumes "world_inv w" and "mget (writers w) p = Some m" and "flow (Some m') (chunks p (accepted w)) (chunks p (wrote w)) (inbound (theap (svc w) ! p))"
  shows "world_inv (w\<lparr>writers := mput p m' (writers w)\<rparr>)"
proof -
  note old = world_invD [OF assms(1)]
  let ?w = "w\<lparr>writers := mput p m' (writers w)\<rparr>"
  show ?thesis
  proof (rule world_invI)
    show "snd x < length (theap (svc ?w)) \<and> mget (writers ?w) (snd x) = None" if "x \<in> set (awaiting ?w)" for x
      using that old(6) [of x] assms(2) by auto
    show "q < length (theap (svc ?w))" if "mget (writers ?w) q = Some m''" for q m''
      using that old(8) [of q m''] old(8) [OF assms(2)] by (auto split: if_splits)
    show "flow (mget (writers ?w) q) (chunks q (accepted ?w)) (chunks q (wrote ?w)) (inbound (theap (svc ?w) ! q))"
      if "q < length (theap (svc ?w))" for q
      using that old(9) [of q] assms(3) by simp
  qed (use old in simp_all)
qed

text \<open>Taking the first chunk from the queue, written or not.\<close>

lemma world_inv_take:
  assumes "world_inv w" and "mget (writers w) p = Some m" and "m \<noteq> Returned"
    and "inbound (theap (svc w) ! p) = chunk # rest"
  defines "s1 \<equiv> (svc w)\<lparr>theap := (theap (svc w))[p := (theap (svc w) ! p)\<lparr>inbound := rest\<rparr>]\<rparr>"
  shows "world_inv (w\<lparr>svc := s1, wrote := wrote w @ [(p, chunk)]\<rparr>)"
    and "world_inv (w\<lparr>svc := s1, writers := mput p Returned (writers w)\<rparr>)"
proof -
  note old = world_invD [OF assms(1)]
  have p: "p < length (theap (svc w))" by (rule old(8) [OF assms(2)])
  have f: "chunks p (accepted w) = chunks p (wrote w) @ chunk # rest"
    using old(9) [OF p] assms(2-4) by (cases m) simp_all
  have i1: "svc_inv s1"
    unfolding s1_def using old(1) svc_invD(4) [OF old(1) p] assms(4) by (intro svc_inv_upd) (simp_all add: same_tunnel_def)
  have nth: "theap s1 ! q = (if q = p then (theap (svc w) ! p)\<lparr>inbound := rest\<rparr> else theap (svc w) ! q)" for q
    using p by (simp add: s1_def nth_list_update)
  have len: "length (theap s1) = length (theap (svc w))" "sessions s1 = sessions (svc w)" by (simp_all add: s1_def)
  let ?w1 = "w\<lparr>svc := s1, wrote := wrote w @ [(p, chunk)]\<rparr>"
  show "world_inv ?w1"
  proof (rule world_invI)
    show "flow (mget (writers ?w1) q) (chunks q (accepted ?w1)) (chunks q (wrote ?w1)) (inbound (theap (svc ?w1) ! q))"
      if "q < length (theap (svc ?w1))" for q
    proof (cases "q = p")
      case True
      then show ?thesis using f assms(2,3) by (cases m) (simp_all add: nth)
    next
      case False
      then show ?thesis using that old(9) [of q] by (simp add: nth len)
    qed
    show "fst e < length (theap (svc ?w1))" if "e \<in> set (wrote ?w1)" for e
      using that old(5) [of e] p by (auto simp: len)
  qed (use old i1 in \<open>simp_all add: len\<close>)
  let ?w2 = "w\<lparr>svc := s1, writers := mput p Returned (writers w)\<rparr>"
  show "world_inv ?w2"
  proof (rule world_invI)
    show "snd x < length (theap (svc ?w2)) \<and> mget (writers ?w2) (snd x) = None" if "x \<in> set (awaiting ?w2)" for x
      using that old(6) [of x] assms(2) by (auto simp: len)
    show "q < length (theap (svc ?w2))" if "mget (writers ?w2) q = Some m''" for q m''
      using that old(8) [of q m''] p by (auto simp: len split: if_splits)
    show "flow (mget (writers ?w2) q) (chunks q (accepted ?w2)) (chunks q (wrote ?w2)) (inbound (theap (svc ?w2) ! q))"
      if "q < length (theap (svc ?w2))" for q
      using that old(9) [of q] f by (cases "q = p") (simp_all add: nth len)
  qed (use old i1 in \<open>simp_all add: len\<close>)
qed

section \<open>Every step keeps the invariant\<close>

lemma world_inv_start: "world_inv start"
  by (rule world_invI) (simp_all add: start_def svc_inv_NewService, simp_all add: NewService_def store_wf_NewStore)

lemma deliver_step:
  assumes "world_inv w" and "(p, raw) \<in> set (pending w)" and "deliver_ready c (theap (svc w) ! p)"
  shows "world_inv (w\<lparr>svc := deliver B c p raw (svc w),
      accepted := accepted w @ (if c = DeliverQueue then [(p, raw)] else [])\<rparr>)"
proof (cases c)
  case DeliverDone
  then show ?thesis using assms(1) by simp
next
  case DeliverQueue
  then show ?thesis using world_inv_queue [OF assms(1)] world_invD(3) [OF assms(1,2)] assms(3) by simp
next
  case DeliverTimer
  then show ?thesis using world_inv_quiet [OF assms(1) good_finish] by simp
qed

lemma target_step:
  assumes "world_inv w"
    and "(s' = svc w \<and> isl r) \<or> (\<exists>host port r'. openTunnel_begin B raw sess host port (svc w) = (s', r')
      \<and> (\<forall>p. r = Inr p \<longleftrightarrow> r' = Inr p))"
  shows "world_inv (w\<lparr>svc := s', awaiting := awaiting w @ (case r of Inl _ \<Rightarrow> [] | Inr p \<Rightarrow> [(sess, p)])\<rparr>)"
  using assms(2)
proof (elim disjE exE conjE)
  assume "s' = svc w" "isl r"
  then show ?thesis using assms(1) by (auto simp: isl_def)
next
  fix host port r' assume o: "openTunnel_begin B raw sess host port (svc w) = (s', r')"
    and r: "\<forall>p. r = Inr p \<longleftrightarrow> r' = Inr p"
  have w1: "world_inv (w\<lparr>svc := s'\<rparr>)"
    by (rule world_inv_quiet [OF assms(1) good_openTunnel_begin [OF o]])
  show ?thesis
  proof (cases r)
    case (Inl e)
    then show ?thesis using w1 by simp
  next
    case (Inr p)
    then have "r' = Inr p" using r by simp
    note f = openTunnel_begin_fresh [OF o [unfolded this]]
    have "mget (writers w) p = None"
      using world_invD(8) [OF assms(1), of p] f(1) by (metis less_irrefl not_None_eq)
    moreover have "p \<notin> snd ` set (awaiting w)"
      using world_invD(6) [OF assms(1)] f(1) by fastforce
    ultimately show ?thesis
      using world_inv_await [OF w1, of p sess] f(1,2) Inr by simp
  qed
qed

lemma open_step:
  assumes "world_inv w" and "(sess, p) \<in> set (awaiting w)" and "good (svc w) s'"
    and "\<And>q dl. r = Pumping q dl \<Longrightarrow> q = p"
  shows "world_inv (w\<lparr>svc := s', awaiting := remove1 (sess, p) (awaiting w), writers := start_pump r (writers w)\<rparr>)"
proof -
  have w1: "world_inv (w\<lparr>svc := s'\<rparr>)" by (rule world_inv_quiet [OF assms(1,3)])
  show ?thesis
  proof (cases "\<exists>q dl. r = Pumping q dl")
    case True
    then show ?thesis using world_inv_start_pump [OF w1, of sess p] assms(2,4) by auto
  next
    case False
    then have "start_pump r (writers w) = writers w" by (cases r) simp_all
    then show ?thesis using world_inv_await_remove [OF w1, of "(sess, p)"] by simp
  qed
qed

lemma write_step:
  assumes "world_inv w" and "mget (writers w) p = Some m" and "write_ready c m (theap (svc w) ! p)"
    and "writeToClient B c m p (svc w) = (s', out, m')"
  shows "world_inv (w\<lparr>svc := s', wrote := wrote w @ map (Pair p) out, writers := mput p m' (writers w)\<rparr>)"
proof -
  note fl = world_invD(9) [OF assms(1) world_invD(8) [OF assms(1,2)], unfolded assms(2)]
  show ?thesis
  proof (cases c)
    case WriteDone
    then have "s' = svc w" "out = []" "m' = (if m = Writing then Draining else Returned)"
      using assms(4) by simp_all
    moreover have "flow (Some m') (chunks p (accepted w)) (chunks p (wrote w)) (inbound (theap (svc w) ! p))"
      using fl calculation(3) flow_Returned [OF fl] by (cases m) simp_all
    ultimately show ?thesis using world_inv_writer [OF assms(1,2)] by simp
  next
    case (WriteInbound wok)
    then obtain chunk rest where q: "inbound (theap (svc w) ! p) = chunk # rest" and m: "m \<noteq> Returned"
      using assms(3) by (auto simp: neq_Nil_conv)
    note t = world_inv_take [OF assms(1,2) m q]
    show ?thesis
    proof (cases wok)
      case True
      then have "m' = m" "out = [chunk]"
        "s' = (svc w)\<lparr>theap := (theap (svc w))[p := (theap (svc w) ! p)\<lparr>inbound := rest\<rparr>]\<rparr>"
        using assms(4) WriteInbound q by (simp_all add: writeChunk_def)
      then show ?thesis
        using world_inv_writer [OF t(1), of p m m] assms(2) world_invD(9) [OF t(1), of p]
          world_invD(8) [OF t(1), of p m] by simp
    next
      case False
      then have "m' = Returned" "out = []" "s' = finish B (t_id (theap (svc w) ! p)) ''client write failed'' True
          ((svc w)\<lparr>theap := (theap (svc w))[p := (theap (svc w) ! p)\<lparr>inbound := rest\<rparr>]\<rparr>)"
        using assms(4) WriteInbound q by (simp_all add: writeChunk_def Let_def)
      then have eq: "w\<lparr>svc := s', wrote := wrote w @ map (Pair p) out, writers := mput p m' (writers w)\<rparr>
        = (w\<lparr>svc := (svc w)\<lparr>theap := (theap (svc w))[p := (theap (svc w) ! p)\<lparr>inbound := rest\<rparr>]\<rparr>,
             writers := mput p Returned (writers w)\<rparr>)\<lparr>svc := s'\<rparr>" by (cases w) simp
      show ?thesis
        unfolding eq by (rule world_inv_quiet [OF t(2)]) (simp add: good_finish \<open>s' = _\<close>)
    qed
  qed
qed

lemma world_inv_step:
  assumes "svc_step B H w w'" and inv: "world_inv w"
  shows "world_inv w'"
  using assms(1)
proof cases
  case (store_op oper)
  then show ?thesis using store_apply_wf inv by (blast intro: world_inv_quiet good_store)
next
  case (message a env s' d)
  have w1: "world_inv (w\<lparr>svc := s'\<rparr>)"
    by (rule world_inv_quiet [OF inv good_HandleAgent [OF message(2)]])
  have "fst x < length (theap s')" if "d = Some x" for x
    using HandleAgent_chunk [OF world_invD(1) [OF inv], of B a env s' "fst x" "snd x"] message(2) that by simp
  then have "world_inv (w\<lparr>svc := s', pending := pending w @ (case d of None \<Rightarrow> [] | Some x \<Rightarrow> [x])\<rparr>)"
    using world_invD(3) [OF w1] by (intro world_inv_pending [OF w1]) (auto split: option.splits)
  then show ?thesis using message(1) by simp
next
  case (queue p raw c)
  let ?w = "w\<lparr>svc := deliver B c p raw (svc w),
      accepted := accepted w @ (if c = DeliverQueue then [(p, raw)] else [])\<rparr>"
  note w1 = deliver_step [OF inv queue(2,3), of B]
  have "world_inv (?w\<lparr>pending := remove1 (p, raw) (pending w)\<rparr>)"
    by (rule world_inv_pending [OF w1])
      (use world_invD(3) [OF w1] set_remove1_subset [of "(p, raw)" "pending w"] in auto)
  moreover have "?w\<lparr>pending := remove1 (p, raw) (pending w)\<rparr> = w'" unfolding queue(1) by (cases w) simp
  ultimately show ?thesis by (simp only:)
next
  case (target_connect sess raw rh uh s' r)
  have "world_inv (w\<lparr>connected := remove1 sess (connected w)\<rparr>)" using inv by simp
  from target_step [OF this] HandleConnect_target_open [OF target_connect(3)]
  show ?thesis unfolding target_connect(1) by simp
next
  case (target_tunnel sess raw req s' r)
  have "world_inv (w\<lparr>connected := remove1 sess (connected w)\<rparr>)" using inv by simp
  from target_step [OF this] HandleTunnel_target_open [OF target_tunnel(3)]
  show ?thesis unfolding target_tunnel(1) by simp
next
  case (open_connect sess p oc hj s' r)
  have "q = p" if "r = Pumping q dl" for q dl
    using HandleConnect_end_pump open_connect(4) that by blast
  from open_step [OF inv open_connect(2) good_HandleConnect_end [OF open_connect(4)] this]
  show ?thesis unfolding open_connect(1) .
next
  case (open_tunnel sess p oc wok s' r)
  have "q = p" if "r = Pumping q dl" for q dl
    using HandleTunnel_end_pump open_tunnel(4) that by blast
  from open_step [OF inv open_tunnel(2) good_HandleTunnel_end [OF open_tunnel(4)] this]
  show ?thesis unfolding open_tunnel(1) .
next
  case (client_write p m c s' out m')
  from write_step [OF inv client_write(2-4)] show ?thesis unfolding client_write(1) .
qed (use inv in \<open>auto simp: DropAgent_drop_where
    intro: world_inv_quiet good_Service_Revoke good_bridge good_drop_where good_pump_read\<close>)

lemma world_inv_reach: "svc_reach B H w \<Longrightarrow> world_inv w"
  by (induction rule: svc_reach.induct) (auto intro: world_inv_start world_inv_step)

end
