(* ===== verification/Proxy_Properties.thy ===== *)
theory Proxy_Properties
  imports Proxy_Service
begin

text \<open>
  What the Host's proxy guarantees in every interleaving of its goroutines, proved from the invariant of
  \<open>Proxy_Service\<close>, and the one guarantee it misses (a revoked credential can still open a tunnel).
\<close>

section \<open>A concrete run for the witnesses\<close>

type_synonym demo_log = "(string \<times> MessageType \<times> json) list"

definition demo_bridge :: "demo_log Bridge" where
  "demo_bridge = \<lparr>Online = (\<lambda>b a. True), Send = (\<lambda>a ty pl b. (b @ [(a, ty, pl)], None))\<rparr>"

definition demo_s2 :: "demo_log Service" where
  "demo_s2 = \<lparr>sessions = demo_store, bridge = Some [], theap = [], tunnels = []\<rparr>"

definition demo_t :: tunnel where
  "demo_t = \<lparr>t_id = ''6768'', t_agentID = ''agent'', t_sessionID = ''6364'', opened = None, inbound = [], t_done = False\<rparr>"

definition demo_request :: "string \<times> MessageType \<times> json" where
  "demo_request = (''agent'', TypeProxyOpen,
     enc_ProxyOpen \<lparr>open_TunnelID = ''6768'', open_Host = ''example.com'', open_Port = 443\<rparr>)"

definition demo_s :: "ProxyOpenResultPayload option \<Rightarrow> string list \<Rightarrow> demo_log Service" where
  "demo_s res q = \<lparr>sessions = demo_store, bridge = Some [demo_request],
     theap = [demo_t\<lparr>opened := res, inbound := q\<rparr>], tunnels = [(''6768'', 0)]\<rparr>"

definition demo_result :: ProxyOpenResultPayload where
  "demo_result = \<lparr>res_TunnelID = ''6768'', res_OK = True, res_Error = ''''\<rparr>"

definition demo_w :: "demo_log Service \<Rightarrow> demo_log World" where
  "demo_w s = \<lparr>svc = s, pending = [], connected = [], awaiting = [], writers = [], accepted = [], wrote = []\<rparr>"

definition demo_w9 :: "demo_log World" where
  "demo_w9 = (demo_w (demo_s None []))\<lparr>writers := [(0, Writing)], accepted := [(0, ''hello'')], wrote := [(0, ''hello'')]\<rparr>"

lemma demo_upgrade: "HandleTunnel_auth demo_hash 5 '''' (dialer_auth ''jp6566'' ''6162'') True demo_s2 = Inr demo_session"
  by code_simp

lemma demo_target: "HandleTunnel_target demo_bridge (Inr ''gh'') (Some ''example.com:443'') demo_session demo_s2
    = (demo_s None [], Inr 0)"
  by code_simp

lemma demo_opened: "HandleAgent demo_bridge ''agent'' \<lparr>Type = TypeProxyOpenResult, Payload = enc_ProxyOpenResult demo_result\<rparr>
    (demo_s None []) = (demo_s (Some demo_result) [], None)"
  by code_simp

lemma demo_pumping: "HandleTunnel_end demo_bridge OpenResult True demo_session 0 (demo_s (Some demo_result) [])
    = (demo_s None [], Pumping 0 SessionTTL)"
  by code_simp

lemma demo_chunk: "HandleAgent demo_bridge ''agent'' \<lparr>Type = TypeProxyData,
      Payload = enc_ProxyData \<lparr>data_TunnelID = ''6768'', data_Data = EncodeToString ''hello''\<rparr>\<rparr> (demo_s None [])
    = (demo_s None [], Some (0, ''hello''))"
  by code_simp

lemma demo_reach2: "svc_reach demo_bridge demo_hash (demo_w demo_s2)"
proof -
  have "svc_reach demo_bridge demo_hash (start\<lparr>svc := (svc start)\<lparr>bridge := Some []\<rparr>\<rparr>)"
    by (rule svc_reach.step [OF svc_reach.init svc_step.bridge_change])
  from svc_reach.step [OF this svc_step.store_op [of "OpIssue 0 (Some ''ab'') (Some ''cd'') (\<lambda>_. Some ''ef'') ''agent'' ''probe'' 1"]]
    demo_issue_eq
  show ?thesis by (simp add: demo_w_def demo_s2_def start_def NewService_def demo_issue_def)
qed

lemma demo_reach3: "svc_reach demo_bridge demo_hash ((demo_w demo_s2)\<lparr>connected := [demo_session]\<rparr>)"
  using svc_reach.step [OF demo_reach2 svc_step.upgrade [of demo_hash 5 "''''" "dialer_auth ''jp6566'' ''6162''" True]]
    demo_upgrade by (simp add: demo_w_def)

lemma demo_reach5:
  "svc_reach demo_bridge demo_hash ((demo_w (demo_s (Some demo_result) []))\<lparr>awaiting := [(demo_session, 0)]\<rparr>)"
proof -
  have "svc_reach demo_bridge demo_hash ((demo_w (demo_s None []))\<lparr>awaiting := [(demo_session, 0)]\<rparr>)"
    using svc_reach.step [OF demo_reach3 svc_step.target_tunnel [of demo_session _ demo_bridge "Inr ''gh''"
          "Some ''example.com:443''" "demo_s None []" "Inr 0"]] demo_target
    by (simp add: demo_w_def)
  from svc_reach.step [OF this svc_step.message] demo_opened show ?thesis by (force simp: demo_w_def)
qed

lemma demo_reach6: "svc_reach demo_bridge demo_hash ((demo_w (demo_s None []))\<lparr>writers := [(0, Writing)]\<rparr>)"
  using svc_reach.step [OF demo_reach5 svc_step.open_tunnel [of demo_session 0 _ OpenResult demo_bridge True]] demo_pumping
  by (simp add: demo_w_def mput_def) (simp add: demo_s_def)

lemma demo_reach9: "svc_reach demo_bridge demo_hash demo_w9"
proof -
  have r7: "svc_reach demo_bridge demo_hash
      ((demo_w (demo_s None []))\<lparr>pending := [(0, ''hello'')], writers := [(0, Writing)]\<rparr>)"
    using svc_reach.step [OF demo_reach6 svc_step.message] demo_chunk by (force simp: demo_w_def)
  have r8: "svc_reach demo_bridge demo_hash ((demo_w (demo_s None [''hello'']))\<lparr>writers := [(0, Writing)],
      accepted := [(0, ''hello'')]\<rparr>)"
    using svc_reach.step [OF r7 svc_step.queue [of 0 "''hello''" _ DeliverQueue]]
    by (simp add: demo_w_def demo_s_def demo_t_def inboundQueue_def)
  from svc_reach.step [OF r8 svc_step.client_write [of _ 0 Writing "WriteInbound True"]]
  show ?thesis
    by (simp add: demo_w9_def demo_w_def demo_s_def demo_t_def mget_def mput_def writeChunk_def)
qed

lemma demo_w9_facts:
  "mget (tunnels (svc demo_w9)) ''6768'' = Some 0" "t_id (theap (svc demo_w9) ! 0) = ''6768''"
  "t_agentID (theap (svc demo_w9) ! 0) = ''agent''" "t_sessionID (theap (svc demo_w9) ! 0) = ''6364''"
  "length (theap (svc demo_w9)) = 1" "mget (writers demo_w9) 0 = Some Writing"
  "chunks 0 (accepted demo_w9) = [''hello'']" "chunks 0 (wrote demo_w9) = [''hello'']"
  by (simp_all add: demo_w9_def demo_w_def demo_s_def demo_t_def mget_def)

section \<open>Properties\<close>

text \<open>
  C2: the tunnel table stays within its bounds in every interleaving: no credential ever has more than
  64 open tunnels, no tunnel queues more than 32 chunks, and every tunnel in the table is filed under
  its own id and has not been closed.
\<close>

theorem tunnel_table_bounded:
  assumes "svc_reach B H w"
  shows "mcount (\<lambda>p. t_sessionID (theap (svc w) ! p) = sid) (tunnels (svc w)) \<le> maxTunnelsPerSession
    \<and> (p < length (theap (svc w)) \<longrightarrow> length (inbound (theap (svc w) ! p)) \<le> inboundQueue)
    \<and> (mget (tunnels (svc w)) tid = Some p \<longrightarrow>
        p < length (theap (svc w)) \<and> t_id (theap (svc w) ! p) = tid \<and> \<not> t_done (theap (svc w) ! p))"
  using svc_invD [OF world_invD(1) [OF world_inv_reach [OF assms]]] by blast

theorem tunnel_table_bounded_witness:
  "mcount (\<lambda>p. t_sessionID (theap (svc demo_w9) ! p) = ''6364'') (tunnels (svc demo_w9)) \<le> maxTunnelsPerSession
   \<and> t_id (theap (svc demo_w9) ! 0) = ''6768''"
  using tunnel_table_bounded [OF demo_reach9, of "''6364''" 0 "''6768''"] demo_w9_facts(1) by blast



text \<open>
  C3: a probe can only touch its own tunnels. Whatever message it sends, a tunnel of another probe keeps
  its state and its place in the table and receives no bytes, and the credentials do not change.
\<close>

theorem agent_isolation:
  assumes "svc_reach B H w" and "HandleAgent B a env (svc w) = (s', d)" and "t_agentID (theap (svc w) ! p) \<noteq> a"
  shows "theap s' ! p = theap (svc w) ! p
    \<and> (mget (tunnels (svc w)) tid = Some p \<longrightarrow> mget (tunnels s') tid = Some p)
    \<and> (\<forall>raw. d \<noteq> Some (p, raw)) \<and> sessions s' = sessions (svc w)"
proof -
  note inv = world_invD(1) [OF world_inv_reach [OF assms(1)]]
  show ?thesis
    using assms(2)
  proof (cases rule: HandleAgent_cases)
    case (result q tid' res)
    then have "q \<noteq> p" using assms(3) by (auto simp: owned_Some)
    with result show ?thesis by simp
  next
    case (fin q tid' r n)
    then have q: "mget (tunnels (svc w)) tid' = Some q" "q \<noteq> p" using assms(3) by (auto simp: owned_Some)
    then have tid': "t_id (theap (svc w) ! q) = tid'" using svc_invD(2) [OF inv] by blast
    have "mget (tunnels s') tid = Some p" if "mget (tunnels (svc w)) tid = Some p"
      using that q tid' by (auto simp: fin(2))
    then show ?thesis
      using q tid' by (simp add: fin(2,3) finish_nth [OF inv])
  qed (use assms(3) in \<open>auto simp: owned_Some\<close>)
qed

theorem agent_isolation_witness:
  "mget (tunnels (fst (HandleAgent demo_bridge ''intruder''
      \<lparr>Type = TypeProxyClose, Payload = enc_ProxyClose \<lparr>close_TunnelID = ''6768'', close_Reason = ''''\<rparr>\<rparr>
      (svc demo_w9)))) ''6768'' = Some 0"
proof -
  let ?env = "\<lparr>Type = TypeProxyClose, Payload = enc_ProxyClose \<lparr>close_TunnelID = ''6768'', close_Reason = ''''\<rparr>\<rparr>"
  have "t_agentID (theap (svc demo_w9) ! 0) \<noteq> ''intruder''" by (simp add: demo_w9_facts)
  from agent_isolation [OF demo_reach9 prod.collapse [symmetric] this]
  show ?thesis using demo_w9_facts(1) by blast
qed



text \<open>
  when a probe disconnects, exactly its tunnels leave the table and each of them is told to stop;
  tunnels of other probes keep their state.
\<close>

theorem disconnect_ends_tunnels:
  assumes "svc_reach B H w"
  shows "(mget (tunnels (DropAgent B a (svc w))) tid = Some p \<longleftrightarrow>
        mget (tunnels (svc w)) tid = Some p \<and> t_agentID (theap (svc w) ! p) \<noteq> a)
    \<and> (mget (tunnels (svc w)) tid = Some p \<and> t_agentID (theap (svc w) ! p) = a \<longrightarrow>
        t_done (theap (DropAgent B a (svc w)) ! p))
    \<and> (t_agentID (theap (svc w) ! p) \<noteq> a \<longrightarrow> theap (DropAgent B a (svc w)) ! p = theap (svc w) ! p)"
  using mget_drop_where [OF world_invD(1) [OF world_inv_reach [OF assms]]]
    drop_where_nth [OF world_invD(1) [OF world_inv_reach [OF assms]]]
  by (auto simp: DropAgent_drop_where tunnel_close_def split: option.splits)

theorem disconnect_ends_tunnels_witness:
  "t_done (theap (DropAgent demo_bridge ''agent'' (svc demo_w9)) ! 0)
   \<and> mget (tunnels (DropAgent demo_bridge ''other'' (svc demo_w9))) ''6768'' = Some 0"
  using disconnect_ends_tunnels [OF demo_reach9, of "''other''" "''6768''" 0]
    disconnect_ends_tunnels [OF demo_reach9, of "''agent''" "''6768''" 0] demo_w9_facts(1,3) by simp

text \<open>
  opening ends cleanly on every path. The relay starts only after the probe has reported a successful
  dial; in every other outcome (failed dial, timeout, closed tunnel, failed hijack or handshake) the
  tunnel is out of the table when the handler returns, so no failed attempt counts against the limit.
\<close>

theorem open_ends_cleanly:
  assumes "svc_reach B H w" and "(sess, p) \<in> set (awaiting w)" and "open_ready oc (theap (svc w) ! p)"
    and "HandleTunnel_end B oc wok sess p (svc w) = (s', r) \<or> HandleConnect_end B oc hj sess p (svc w) = (s', r)"
  shows "if r = Pumping p (ExpiresAt sess) then \<exists>res. opened (theap (svc w) ! p) = Some res \<and> res_OK res
         else mget (tunnels s') tid \<noteq> Some p"
proof -
  note inv = world_invD(1) [OF world_inv_reach [OF assms(1)]]
  obtain s1 r1 where o: "openTunnel_end B oc p (svc w) = (s1, r1)" by (cases "openTunnel_end B oc p (svc w)")
  have i1: "svc_inv s1" using good_openTunnel_end [OF o] inv by (simp add: good_def)
  have out: "mget (mdel (t_id (theap s ! p)) (tunnels s)) tid \<noteq> Some p" if "svc_inv s" for s :: "'a Service"
    using svc_invD(2) [OF that, of tid p] by auto
  have out1: "r1 = Inl e \<Longrightarrow> mget (tunnels s1) tid \<noteq> Some p" for e
    using o assms(3) out [OF inv] svc_invD(2) [OF inv, of tid p]
    by (cases oc) (auto simp: Let_def split: option.splits if_splits)
  have ok1: "r1 = Inr q \<Longrightarrow> q = p \<and> (\<exists>res. opened (theap (svc w) ! p) = Some res \<and> res_OK res)" for q
    using o assms(3) by (cases oc) (auto simp: Let_def split: option.splits if_splits)
  show ?thesis
  proof (cases r1)
    case (Inl e)
    then show ?thesis
      using assms(4) out1 [OF Inl] by (auto simp: HandleTunnel_end_def HandleConnect_end_def o)
  next
    case (Inr q)
    then show ?thesis
      using assms(4) ok1 [OF Inr] out [OF i1]
      by (auto simp: HandleTunnel_end_def HandleConnect_end_def o split: if_splits hijack.splits)
  qed
qed

theorem open_ends_cleanly_witness:
  "mget (tunnels (fst (HandleTunnel_end demo_bridge OpenTimer True demo_session 0 (demo_s (Some demo_result) [])))) ''6768''
     \<noteq> Some 0"
proof -
  let ?h = "HandleTunnel_end demo_bridge OpenTimer True demo_session 0 (demo_s (Some demo_result) [])"
  have r: "snd ?h \<noteq> Pumping 0 (ExpiresAt demo_session)" by code_simp
  from open_ends_cleanly [OF demo_reach5, of demo_session 0 OpenTimer True "fst ?h" "snd ?h" HijackOk "''6768''"] r
  show ?thesis by (simp add: demo_w_def)
qed

text \<open>
  C39: a revoked credential can still open a tunnel. \<^verbatim>\<open>HandleTunnel\<close> checks the credential, then waits up to ten
  seconds for the client to name its target and opens the tunnel without looking at the credential
  again. There is a run in which \<^verbatim>\<open>Revoke\<close> has reported success, the credential no longer authenticates,
  and afterwards a tunnel of that credential is put into the table.
\<close>

theorem revoked_credential_opens_tunnel:
  "\<exists>w sid tid p w' now s'. svc_reach demo_bridge demo_hash w \<and> Service_Revoke demo_bridge now sid (svc w) = (s', True)
     \<and> svc_step demo_bridge demo_hash (w\<lparr>svc := s'\<rparr>) w'
     \<and> mget (tunnels (svc w')) tid = Some p \<and> t_sessionID (theap (svc w') ! p) = sid
     \<and> (\<forall>t u pw. Authenticate demo_hash t u pw (sessions (svc w')) = Inl ErrUnauthorized)"
proof -
  let ?w = "(demo_w demo_s2)\<lparr>connected := [demo_session]\<rparr>"
  define s' :: "demo_log Service" where "s' = \<lparr>sessions = \<lparr>heap = [demo_session\<lparr>revoked := True\<rparr>], byID = [], byUser = []\<rparr>,
     bridge = Some [], theap = [], tunnels = []\<rparr>"
  define s'' where "s'' = (demo_s None [])\<lparr>sessions := sessions s'\<rparr>"
  have rv: "Service_Revoke demo_bridge 100 ''6364'' (svc ?w) = (s', True)" unfolding s'_def by code_simp
  have tg: "HandleTunnel_target demo_bridge (Inr ''gh'') (Some ''example.com:443'') demo_session s' = (s'', Inr 0)"
    unfolding s''_def s'_def by code_simp
  have st: "svc_step demo_bridge demo_hash (?w\<lparr>svc := s'\<rparr>)
      ((?w\<lparr>svc := s'\<rparr>)\<lparr>connected := [], svc := s'', awaiting := [(demo_session, 0)]\<rparr>)"
    using svc_step.target_tunnel [of demo_session "?w\<lparr>svc := s'\<rparr>" demo_bridge "Inr ''gh''"
        "Some ''example.com:443''" s'' "Inr 0"] tg
    by (simp add: demo_w_def)
  let ?w' = "(?w\<lparr>svc := s'\<rparr>)\<lparr>connected := [], svc := s'', awaiting := [(demo_session, 0)]\<rparr>"
  have "mget (tunnels (svc ?w')) ''6768'' = Some 0" "t_sessionID (theap (svc ?w') ! 0) = ''6364''"
    "\<forall>t u pw. Authenticate demo_hash t u pw (sessions (svc ?w')) = Inl ErrUnauthorized"
    by (simp_all add: s''_def s'_def demo_s_def demo_t_def mget_def Authenticate_def Let_def)
  note fin = this
  show ?thesis
    by (intro exI conjI, rule demo_reach3, rule rv, rule st, rule fin(1), rule fin(2), rule fin(3))
qed

end
