(* ===== verification/Database.thy ===== *)
theory Database
  imports Protocol
begin

text \<open>
  The Host's rows, \<^verbatim>\<open>host/internal/model/models.go\<close>, and the few queries the handlers make of them, on tables
  as lists of rows. The database engine itself is not modelled: a query that fails is an argument
  of the handler that makes it. Times are nanoseconds; the zero time is \<open>None\<close> where a row may have it.
\<close>

type_synonym nanosec = int

record Target =
  tg_ID :: string
  tg_Name :: string
  tg_Host :: string
  tg_PacketCount :: int
  tg_IntervalSec :: int
  tg_Tags :: string
  tg_Enabled :: bool
  tg_DisableRoute :: bool

record Agent =
  ag_ID :: string
  ag_Name :: string
  ag_Token :: string
  ag_PublicIP :: string
  ag_OS :: string
  ag_Arch :: string
  ag_Version :: string
  ag_Tags :: string
  ag_DisabledRouteTargets :: string
  ag_PausedTargets :: string
  ag_IsOnline :: bool
  ag_LastSeenAt :: nanosec

record AgentUpdateStatus =
  st_CurrentVersion :: string
  st_LatestVersion :: string
  st_Updating :: bool
  st_Error :: string
  st_CheckedAt :: nanosec

record PingMetric =
  pm_AgentID :: string
  pm_TargetID :: string
  pm_Timestamp :: nanosec
  pm_PacketsSent :: int
  pm_PacketsRecv :: int
  pm_LossPct :: float64
  pm_MinRTT :: float64
  pm_MaxRTT :: float64
  pm_AvgRTT :: float64
  pm_Jitter :: float64
  pm_StdDev :: float64
  pm_ErrorMsg :: string

record EnrichedHop =
  eh_TTL :: int
  eh_IP :: string
  eh_Hostname :: string
  eh_RTTs :: "float64 list"
  eh_AvgRTT :: float64
  eh_LossPct :: float64
  eh_ASNumber :: string
  eh_ASOrg :: string
  eh_ISP :: string
  eh_Country :: string
  eh_CountryCode :: string
  eh_City :: string

record ASNode =
  ASN :: string
  as_Name :: string

record TracerouteRecord =
  rec_AgentID :: string
  rec_TargetID :: string
  rec_TargetHost :: string
  rec_ResolvedIP :: string
  rec_Timestamp :: nanosec
  rec_DurationMs :: int
  rec_Reached :: bool
  rec_HopCount :: int
  rec_RoutePath :: string
  rec_ASPath :: string
  rec_ASNodes :: "ASNode list"
  rec_Hops :: "EnrichedHop list"

record DB =
  agent_rows :: "Agent list"
  target_rows :: "Target list"
  metric_rows :: "PingMetric list"
  trace_rows :: "TracerouteRecord list"

section \<open>Queries\<close>

text \<open>\<^verbatim>\<open>Where("id = ?", id).Updates(...)\<close> touches every row with that id, and none if there is none.\<close>

definition update_agent :: "string \<Rightarrow> (Agent \<Rightarrow> Agent) \<Rightarrow> DB \<Rightarrow> DB" where
  "update_agent aid f d = d\<lparr>agent_rows := map (\<lambda>a. if ag_ID a = aid then f a else a) (agent_rows d)\<rparr>"

definition find_agent :: "string \<Rightarrow> DB \<Rightarrow> Agent option" where
  "find_agent aid d = find (\<lambda>a. ag_ID a = aid) (agent_rows d)"

definition find_token :: "string \<Rightarrow> DB \<Rightarrow> Agent option" where
  "find_token tok d = find (\<lambda>a. ag_Token a = tok) (agent_rows d)"

definition enabled_targets :: "DB \<Rightarrow> Target list" where
  "enabled_targets d = filter tg_Enabled (target_rows d)"

definition set_online :: "string \<Rightarrow> bool \<Rightarrow> nanosec \<Rightarrow> DB \<Rightarrow> DB" where
  "set_online aid b now d = update_agent aid (\<lambda>a. a\<lparr>ag_IsOnline := b, ag_LastSeenAt := now\<rparr>) d"

lemma update_agent_other:
  "aid \<noteq> bid \<Longrightarrow> (\<And>a. ag_ID (f a) = ag_ID a) \<Longrightarrow> find_agent bid (update_agent aid f d) = find_agent bid d"
proof -
  assume ne: "aid \<noteq> bid" and f: "\<And>a. ag_ID (f a) = ag_ID a"
  have "find (\<lambda>a. ag_ID a = bid) (map (\<lambda>a. if ag_ID a = aid then f a else a) xs) = find (\<lambda>a. ag_ID a = bid) xs" for xs
    using ne by (induction xs) (auto simp: f)
  then show ?thesis by (simp add: find_agent_def update_agent_def)
qed

end
