(* ===== verification/Hub.thy ===== *)
theory Hub
  imports Database Feature Proxy_Service
begin

text \<open>
  The hub of live probe connections, \<^verbatim>\<open>host/internal/ws/hub.go\<close>, \<^verbatim>\<open>conn.go\<close>, \<^verbatim>\<open>proxy.go\<close>, \<^verbatim>\<open>update.go\<close> and
  \<^verbatim>\<open>restart.go\<close>. Connections are shared by pointer (a replaced connection's goroutines still hold it), so
  they live in a heap. A message is its type and payload; the envelope's clock is not kept.
\<close>

section \<open>Connections\<close>

definition sendBuffer :: nat where "sendBuffer = 256"

record AgentConn =
  ac_AgentID :: string
  ac_RemoteIP :: string
  ac_Version :: string
  ac_Arch :: string
  outbox :: "(MessageType \<times> json) list"
  ac_closed :: bool
  ac_gone :: bool

type_synonym conn_ptr = nat

record Hub =
  cheap :: "AgentConn list"
  agents :: "(string, conn_ptr) gomap"
  updates :: "(string, AgentUpdateStatus) gomap"

definition NewHub :: Hub where
  "NewHub = \<lparr>cheap = [], agents = [], updates = []\<rparr>"

definition conn_close :: "AgentConn \<Rightarrow> AgentConn" where
  "conn_close c = c\<lparr>ac_closed := True, ac_gone := True\<rparr>"

definition Close :: "conn_ptr \<Rightarrow> Hub \<Rightarrow> Hub" where
  "Close p h = h\<lparr>cheap := (cheap h)[p := conn_close (cheap h ! p)]\<rparr>"

definition SafeSend :: "conn_ptr \<Rightarrow> MessageType \<times> json \<Rightarrow> Hub \<Rightarrow> Hub \<times> string option" where
  "SafeSend p msg h =
     (let c = cheap h ! p in
      if ac_closed c then (h, Some ''connection closed'')
      else if length (outbox c) < sendBuffer
      then (h\<lparr>cheap := (cheap h)[p := c\<lparr>outbox := outbox c @ [msg]\<rparr>]\<rparr>, None)
      else (h, Some ''send buffer full''))"

text \<open>
  \<^verbatim>\<open>SendWait\<close> polls: \<open>obs i\<close> is what the i-th look at the connection finds, \<open>late i\<close> how much longer than asked
  the i-th sleep took. The back-off doubles from 2 ms to 32 ms. Times in microseconds.
\<close>

datatype send_obs = ObsClosed | ObsRoom | ObsFull
datatype wait_result = WaitSent | WaitClosed | WaitTimeout

definition maxBackoff :: int where "maxBackoff = 32000"

fun backoff_at :: "nat \<Rightarrow> int" where
  "backoff_at 0 = 2000"
| "backoff_at (Suc i) =
     (let b = backoff_at i in
      if b < maxBackoff then (if b * 2 > maxBackoff then maxBackoff else b * 2) else b)"

lemma backoff_at_pos: "2000 \<le> backoff_at i"
  by (induction i) (auto simp: Let_def maxBackoff_def)

lemma sleep_progress: "- backoff_at i < int n"
  using backoff_at_pos [of i] by linarith

function SendWait_loop :: "(nat \<Rightarrow> send_obs) \<Rightarrow> (nat \<Rightarrow> nat) \<Rightarrow> int \<Rightarrow> nat \<Rightarrow> wait_result \<times> nat" where
  "SendWait_loop obs late remaining i =
     (case obs i of
        ObsClosed \<Rightarrow> (WaitClosed, i + 1)
      | ObsRoom \<Rightarrow> (WaitSent, i + 1)
      | ObsFull \<Rightarrow>
          if remaining \<le> 0 then (WaitTimeout, i + 1)
          else SendWait_loop obs late (remaining - min (backoff_at i) remaining - int (late i)) (i + 1))"
  by pat_completeness auto

termination
  by (relation "measure (\<lambda>(obs, late, remaining, i). nat remaining)") (auto simp: min_def not_le sleep_progress)

declare SendWait_loop.simps [simp del]

definition SendWait :: "(nat \<Rightarrow> send_obs) \<Rightarrow> (nat \<Rightarrow> nat) \<Rightarrow> int \<Rightarrow> wait_result \<times> nat" where
  "SendWait obs late timeout = SendWait_loop obs late timeout 0"

section \<open>Hub operations\<close>

definition Register :: "string \<Rightarrow> conn_ptr \<Rightarrow> Hub \<Rightarrow> Hub" where
  "Register agentID p h =
     (let h1 = (case mget (agents h) agentID of None \<Rightarrow> h | Some old \<Rightarrow> Close old h)
      in h1\<lparr>agents := mput agentID p (agents h1)\<rparr>)"

text \<open>The hub's part of \<^verbatim>\<open>Unregister\<close>; the result says whether the rest (database, proxy) follows.\<close>

definition hub_Unregister :: "string \<Rightarrow> conn_ptr \<Rightarrow> Hub \<Rightarrow> Hub \<times> bool" where
  "hub_Unregister agentID p h =
     (if mget (agents h) agentID \<noteq> Some p then (h, False)
      else (Close p (h\<lparr>agents := mdel agentID (agents h)\<rparr>), True))"

definition hub_Disconnect :: "string \<Rightarrow> Hub \<Rightarrow> Hub" where
  "hub_Disconnect agentID h =
     (case mget (agents h) agentID of
        None \<Rightarrow> h
      | Some p \<Rightarrow> Close p (h\<lparr>agents := mdel agentID (agents h)\<rparr>))"

definition SendToAgent :: "string \<Rightarrow> MessageType \<Rightarrow> json \<Rightarrow> Hub \<Rightarrow> Hub \<times> string option" where
  "SendToAgent agentID ty payload h =
     (case mget (agents h) agentID of
        None \<Rightarrow> (h, None)
      | Some p \<Rightarrow> SafeSend p (ty, payload) h)"

definition Hub_Online :: "Hub \<Rightarrow> string \<Rightarrow> bool" where
  "Hub_Online h agentID \<longleftrightarrow> mget (agents h) agentID \<noteq> None"

text \<open>
  \<^verbatim>\<open>Send\<close>: the bridge of the proxy. \<open>drains\<close> says whether the write pump takes a message from a full queue
  before the five seconds of \<^verbatim>\<open>SendWait\<close> are over.
\<close>

definition Hub_Send :: "bool \<Rightarrow> string \<Rightarrow> MessageType \<Rightarrow> json \<Rightarrow> Hub \<Rightarrow> Hub \<times> string option" where
  "Hub_Send drains agentID ty payload h =
     (case mget (agents h) agentID of
        None \<Rightarrow> (h, Some ''agent offline'')
      | Some p \<Rightarrow>
          let c = cheap h ! p in
          if ac_closed c then (h, Some ''connection closed'')
          else if length (outbox c) < sendBuffer
          then (h\<lparr>cheap := (cheap h)[p := c\<lparr>outbox := outbox c @ [(ty, payload)]\<rparr>]\<rparr>, None)
          else if drains
          then (h\<lparr>cheap := (cheap h)[p := c\<lparr>outbox := tl (outbox c) @ [(ty, payload)]\<rparr>]\<rparr>, None)
          else (h, Some ''send timeout''))"

definition hub_bridge :: "bool \<Rightarrow> Hub Bridge" where
  "hub_bridge drains = \<lparr>Online = Hub_Online, Send = Hub_Send drains\<rparr>"

definition liveProbe :: "string \<Rightarrow> Hub \<Rightarrow> AgentConn option" where
  "liveProbe agentID h = map_option (\<lambda>p. cheap h ! p) (mget (agents h) agentID)"

text \<open>
  The write pump takes the oldest message of its connection, whether or not the connection has been
  closed meanwhile; when it ends for any reason it closes the connection.
\<close>

definition writePump_take :: "conn_ptr \<Rightarrow> Hub \<Rightarrow> Hub \<times> (MessageType \<times> json) option" where
  "writePump_take p h =
     (case outbox (cheap h ! p) of
        [] \<Rightarrow> (h, None)
      | msg # rest \<Rightarrow> (h\<lparr>cheap := (cheap h)[p := (cheap h ! p)\<lparr>outbox := rest\<rparr>]\<rparr>, Some msg))"

definition writePump_end :: "conn_ptr \<Rightarrow> Hub \<Rightarrow> Hub" where
  "writePump_end p h = Close p h"

section \<open>Target sync\<close>

definition splitIDList :: "string \<Rightarrow> string list" where
  "splitIDList raw = filter (\<lambda>i. i \<noteq> '''') (map TrimSpace (Split (CHR '','') raw))"

definition buildTargetConfigsWithOverrides :: "Target list \<Rightarrow> string \<Rightarrow> string \<Rightarrow> TargetConfig list" where
  "buildTargetConfigsWithOverrides ts disabledRoute paused =
     (let disabledMap = splitIDList disabledRoute; pausedMap = splitIDList paused in
      map (\<lambda>t. \<lparr>tc_ID = tg_ID t, tc_Name = tg_Name t, tc_Host = tg_Host t, tc_PacketCount = tg_PacketCount t,
             tc_IntervalSec = tg_IntervalSec t, tc_DisableRoute = tg_DisableRoute t \<or> tg_ID t \<in> set disabledMap\<rparr>)
        (filter (\<lambda>t. tg_ID t \<notin> set pausedMap) ts))"

definition buildTargetConfigs :: "string \<Rightarrow> Target list \<Rightarrow> DB \<Rightarrow> TargetConfig list" where
  "buildTargetConfigs agentID ts d =
     (case (if agentID = '''' then None else find_agent agentID d) of
        None \<Rightarrow> buildTargetConfigsWithOverrides ts '''' ''''
      | Some ag \<Rightarrow> buildTargetConfigsWithOverrides ts (ag_DisabledRouteTargets ag) (ag_PausedTargets ag))"

text \<open>Both return at once when the query for the enabled targets fails (\<open>dberr\<close>).\<close>

definition SyncSingleAgent :: "bool \<Rightarrow> string \<Rightarrow> DB \<Rightarrow> Hub \<Rightarrow> Hub" where
  "SyncSingleAgent dberr agentID d h =
     (if dberr then h
      else fst (SendToAgent agentID TypeTargetSync
        (enc_TargetSync (buildTargetConfigs agentID (enabled_targets d) d)) h))"

definition BroadcastTargetSync :: "bool \<Rightarrow> DB \<Rightarrow> Hub \<Rightarrow> Hub" where
  "BroadcastTargetSync dberr d h =
     (if dberr then h
      else foldl (\<lambda>h aid. fst (SendToAgent aid TypeTargetSync
             (enc_TargetSync (buildTargetConfigs aid (enabled_targets d) d)) h)) h (mkeys (agents h)))"

section \<open>Updates and restarts\<close>

datatype update_error = ErrAgentOffline | ErrNativeUnsupported | ErrRestartUnsupported | ErrSoftExitEscalated | ErrSend string

definition send_error :: "string option \<Rightarrow> update_error option" where
  "send_error e = map_option ErrSend e"

definition legacyCrashTargetSync :: json where
  "legacyCrashTargetSync = enc_TargetSync [\<lparr>tc_ID = ''justping-force-update'', tc_Name = ''Force update (legacy)'',
     tc_Host = ''127.0.0.1'', tc_PacketCount = LegacyCrashPacketCount, tc_IntervalSec = LegacyCrashIntervalSec,
     tc_DisableRoute = False\<rparr>]"

definition RequestUpdateCheck :: "string \<Rightarrow> Hub \<Rightarrow> Hub \<times> update_error option" where
  "RequestUpdateCheck agentID h =
     (case liveProbe agentID h of
        None \<Rightarrow> (h, Some ErrAgentOffline)
      | Some ac \<Rightarrow>
          if \<not> Supports (ac_Version ac) UpdateCheck then (h, Some ErrNativeUnsupported)
          else let (h1, e) = SendToAgent agentID TypeUpdateCheck JNull h in (h1, send_error e))"

record UpdateBroadcast =
  Triggered :: nat
  Skipped :: nat
  ub_Unreachable :: nat

fun broadcast_update :: "(string \<times> string) list \<Rightarrow> Hub \<Rightarrow> UpdateBroadcast \<Rightarrow> Hub \<times> UpdateBroadcast" where
  "broadcast_update [] h r = (h, r)"
| "broadcast_update ((aid, ver) # ps) h r =
     (if \<not> Supports ver UpdateCheck then broadcast_update ps h (r\<lparr>Skipped := Skipped r + 1\<rparr>)
      else case SendToAgent aid TypeUpdateCheck JNull h of
        (h1, Some _) \<Rightarrow> broadcast_update ps h1 (r\<lparr>ub_Unreachable := ub_Unreachable r + 1\<rparr>)
      | (h1, None) \<Rightarrow> broadcast_update ps h1 (r\<lparr>Triggered := Triggered r + 1\<rparr>))"

definition BroadcastUpdateCheck :: "Hub \<Rightarrow> Hub \<times> UpdateBroadcast" where
  "BroadcastUpdateCheck h =
     broadcast_update (map (\<lambda>e. (fst e, ac_Version (cheap h ! snd e))) (agents h)) h
       \<lparr>Triggered = 0, Skipped = 0, ub_Unreachable = 0\<rparr>"

definition RecordUpdateStatus :: "nanosec \<Rightarrow> string \<Rightarrow> UpdateResultPayload \<Rightarrow> Hub \<Rightarrow> Hub" where
  "RecordUpdateStatus now agentID res h =
     (if agentID = '''' then h
      else h\<lparr>updates := mput agentID \<lparr>st_CurrentVersion = CurrentVersion res, st_LatestVersion = LatestVersion res,
             st_Updating = Updating res, st_Error = upd_Error res, st_CheckedAt = now\<rparr> (updates h)\<rparr>)"

definition UpdateStatuses :: "Hub \<Rightarrow> (string, AgentUpdateStatus) gomap" where
  "UpdateStatuses h = updates h"

definition sendCrash :: "string \<Rightarrow> Hub \<Rightarrow> Hub \<times> string option" where
  "sendCrash agentID h = SendToAgent agentID TypeTargetSync legacyCrashTargetSync h"

text \<open>
  \<open>RequestRestart\<close>: \<open>gone\<close> says whether the probe's connection is torn down within the ten seconds, and
  \<open>after\<close> is what the hub has become when the wait is over.
\<close>

definition RequestRestart ::
  "bool \<Rightarrow> (Hub \<Rightarrow> Hub) \<Rightarrow> string \<Rightarrow> Hub \<Rightarrow> Hub \<times> ForceRestartMode option \<times> update_error option" where
  "RequestRestart gone after agentID h =
     (case liveProbe agentID h of
        None \<Rightarrow> (h, None, Some ErrAgentOffline)
      | Some ac \<Rightarrow>
          (case ForceRestartModeFor (ac_Version ac) (ac_Arch ac) of
             ForceRestartSoftExit \<Rightarrow>
               (case SendToAgent agentID TypeSoftExit (JObj []) h of
                  (h1, Some e) \<Rightarrow> (h1, Some ForceRestartSoftExit, Some (ErrSend e))
                | (h1, None) \<Rightarrow>
                    if gone then (after h1, Some ForceRestartSoftExit, None)
                    else let (h2, e) = sendCrash agentID (after h1)
                         in (h2, Some ForceRestartCrash, send_error e))
           | ForceRestartCrash \<Rightarrow>
               let (h1, e) = sendCrash agentID h in (h1, Some ForceRestartCrash, send_error e)
           | ForceRestartUnsupported \<Rightarrow> (h, Some ForceRestartUnsupported, Some ErrRestartUnsupported)))"

record RestartBroadcast =
  rb_SoftExit :: nat
  rb_Escalated :: nat
  rb_Crash :: nat
  rb_Unsupported :: nat
  rb_Unreachable :: nat

record restartProbe =
  rp_id :: string
  rp_version :: string
  rp_arch :: string
  rp_gone :: conn_ptr

fun restart_first ::
  "restartProbe list \<Rightarrow> Hub \<Rightarrow> RestartBroadcast \<Rightarrow> restartProbe list \<Rightarrow> Hub \<times> RestartBroadcast \<times> restartProbe list" where
  "restart_first [] h r waiting = (h, r, waiting)"
| "restart_first (p # ps) h r waiting =
     (case ForceRestartModeFor (rp_version p) (rp_arch p) of
        ForceRestartSoftExit \<Rightarrow>
          (case SendToAgent (rp_id p) TypeSoftExit (JObj []) h of
             (h1, Some _) \<Rightarrow> restart_first ps h1 (r\<lparr>rb_Unreachable := rb_Unreachable r + 1\<rparr>) waiting
           | (h1, None) \<Rightarrow> restart_first ps h1 r (waiting @ [p]))
      | ForceRestartCrash \<Rightarrow>
          (case sendCrash (rp_id p) h of
             (h1, Some _) \<Rightarrow> restart_first ps h1 (r\<lparr>rb_Unreachable := rb_Unreachable r + 1\<rparr>) waiting
           | (h1, None) \<Rightarrow> restart_first ps h1 (r\<lparr>rb_Crash := rb_Crash r + 1\<rparr>) waiting)
      | ForceRestartUnsupported \<Rightarrow> restart_first ps h (r\<lparr>rb_Unsupported := rb_Unsupported r + 1\<rparr>) waiting)"

fun crash_all :: "restartProbe list \<Rightarrow> Hub \<Rightarrow> RestartBroadcast \<Rightarrow> Hub \<times> RestartBroadcast" where
  "crash_all [] h r = (h, r)"
| "crash_all (p # ps) h r =
     (case sendCrash (rp_id p) h of
        (h1, Some _) \<Rightarrow> crash_all ps h1 (r\<lparr>rb_Unreachable := rb_Unreachable r + 1\<rparr>)
      | (h1, None) \<Rightarrow> crash_all ps h1 (r\<lparr>rb_Escalated := rb_Escalated r + 1\<rparr>))"

text \<open>
  The polling loop: one list element per round. A round gives the hub as it is then, and whether the
  deadline case of the \<^verbatim>\<open>select\<close> fires after it; after the last listed round it fires.
\<close>

fun awaitSoftExits :: "(Hub \<times> bool) list \<Rightarrow> restartProbe list \<Rightarrow> Hub \<Rightarrow> RestartBroadcast \<Rightarrow> Hub \<times> RestartBroadcast" where
  "awaitSoftExits [] pend h r = (if pend = [] then (h, r) else crash_all pend h r)"
| "awaitSoftExits ((h', fires) # rounds) pend h r =
     (if pend = [] then (h, r)
      else let left = filter (\<lambda>p. \<not> ac_gone (cheap h' ! rp_gone p)) pend;
               r1 = r\<lparr>rb_SoftExit := rb_SoftExit r + length (filter (\<lambda>p. ac_gone (cheap h' ! rp_gone p)) pend)\<rparr>
           in if left = [] then (h', r1)
              else if fires then crash_all left h' r1
              else awaitSoftExits rounds left h' r1)"

definition BroadcastRestart :: "(Hub \<times> bool) list \<Rightarrow> Hub \<Rightarrow> Hub \<times> RestartBroadcast" where
  "BroadcastRestart rounds h =
     (let probes = map (\<lambda>e. \<lparr>rp_id = fst e, rp_version = ac_Version (cheap h ! snd e),
                rp_arch = ac_Arch (cheap h ! snd e), rp_gone = snd e\<rparr>) (agents h);
          (h1, r, waiting) = restart_first probes h
             \<lparr>rb_SoftExit = 0, rb_Escalated = 0, rb_Crash = 0, rb_Unsupported = 0, rb_Unreachable = 0\<rparr> []
      in awaitSoftExits rounds waiting h1 r)"

end
