(* ===== verification/Hub_Properties.thy ===== *)
theory Hub_Properties
  imports Hub
begin

text \<open>
  Invariant of the hub, the contract the proxy's bridge relies on (as a locale, discharged for the hub),
  and what the hub's operations guarantee.
\<close>

section \<open>Invariant\<close>

text \<open>
  A probe is filed under its own id, a connection that is not the filed one is closed, a closed
  connection has signalled that it is gone, and no send buffer is over its capacity.
\<close>

definition hub_inv :: "Hub \<Rightarrow> bool" where
  "hub_inv h \<longleftrightarrow> mwf (agents h)
     \<and> (\<forall>a p. mget (agents h) a = Some p \<longrightarrow> p < length (cheap h) \<and> ac_AgentID (cheap h ! p) = a)
     \<and> (\<forall>p < length (cheap h). mget (agents h) (ac_AgentID (cheap h ! p)) = Some p \<or> ac_closed (cheap h ! p))
     \<and> (\<forall>p < length (cheap h). ac_gone (cheap h ! p) = ac_closed (cheap h ! p) \<and> length (outbox (cheap h ! p)) \<le> sendBuffer)"

lemma hub_invD:
  assumes "hub_inv h"
  shows "mwf (agents h)"
    and "mget (agents h) a = Some p \<Longrightarrow> p < length (cheap h) \<and> ac_AgentID (cheap h ! p) = a"
    and "p < length (cheap h) \<Longrightarrow> mget (agents h) (ac_AgentID (cheap h ! p)) = Some p \<or> ac_closed (cheap h ! p)"
    and "p < length (cheap h) \<Longrightarrow> ac_gone (cheap h ! p) = ac_closed (cheap h ! p) \<and> length (outbox (cheap h ! p)) \<le> sendBuffer"
  using assms unfolding hub_inv_def by blast+

lemma hub_invI:
  assumes "mwf (agents h)"
    and "\<And>a p. mget (agents h) a = Some p \<Longrightarrow> p < length (cheap h) \<and> ac_AgentID (cheap h ! p) = a"
    and "\<And>p. p < length (cheap h) \<Longrightarrow> mget (agents h) (ac_AgentID (cheap h ! p)) = Some p \<or> ac_closed (cheap h ! p)"
    and "\<And>p. p < length (cheap h) \<Longrightarrow> ac_gone (cheap h ! p) = ac_closed (cheap h ! p) \<and> length (outbox (cheap h ! p)) \<le> sendBuffer"
  shows "hub_inv h"
  using assms unfolding hub_inv_def by blast

lemma hub_inv_NewHub: "hub_inv NewHub"
  by (simp add: hub_inv_def NewHub_def)

lemma hub_inv_updates [simp]: "hub_inv (h\<lparr>updates := u\<rparr>) = hub_inv h"
  by (simp add: hub_inv_def)

text \<open>Changing a send buffer within its capacity.\<close>

lemma hub_inv_outbox:
  assumes "hub_inv h" and "length q \<le> sendBuffer"
  shows "hub_inv (h\<lparr>cheap := (cheap h)[p := (cheap h ! p)\<lparr>outbox := q\<rparr>]\<rparr>)"
proof -
  note d = hub_invD [OF assms(1)]
  have e: "ac_AgentID ((cheap h)[p := (cheap h ! p)\<lparr>outbox := q\<rparr>] ! r) = ac_AgentID (cheap h ! r)"
    "ac_closed ((cheap h)[p := (cheap h ! p)\<lparr>outbox := q\<rparr>] ! r) = ac_closed (cheap h ! r)"
    "ac_gone ((cheap h)[p := (cheap h ! p)\<lparr>outbox := q\<rparr>] ! r) = ac_gone (cheap h ! r)" for r
    by (simp_all add: nth_update_proj)
  have o: "length (outbox ((cheap h)[p := (cheap h ! p)\<lparr>outbox := q\<rparr>] ! r)) \<le> sendBuffer" if "r < length (cheap h)" for r
    using that d(4) [of r] assms(2) by (cases "r = p") simp_all
  show ?thesis by (rule hub_invI) (use d o in \<open>simp_all add: e\<close>)
qed

lemma SafeSend_inv [inv_intros]: "hub_inv h \<Longrightarrow> SafeSend p msg h = (h', e) \<Longrightarrow> hub_inv h'"
  by (auto simp: SafeSend_def Let_def intro!: hub_inv_outbox split: if_splits)

lemma SendToAgent_inv [inv_intros]: "hub_inv h \<Longrightarrow> SendToAgent a ty pl h = (h', e) \<Longrightarrow> hub_inv h'"
  by (auto simp: SendToAgent_def dest: SafeSend_inv split: option.splits)

lemma Hub_Send_inv [inv_intros]: "hub_inv h \<Longrightarrow> Hub_Send dr a ty pl h = (h', e) \<Longrightarrow> hub_inv h'"
proof -
  assume i: "hub_inv h" and s: "Hub_Send dr a ty pl h = (h', e)"
  have t: "length (tl (outbox (cheap h ! p)) @ [x]) \<le> sendBuffer" if "mget (agents h) a = Some p" for p x
    using hub_invD(4) [OF i, of p] hub_invD(2) [OF i that] by (cases "outbox (cheap h ! p)") (auto simp: sendBuffer_def)
  show ?thesis
  proof (cases "mget (agents h) a")
    case None
    then show ?thesis using i s by (simp add: Hub_Send_def)
  next
    case (Some p)
    then show ?thesis
      using s i hub_inv_outbox [OF i t [OF Some], of p "(ty, pl)"] hub_inv_outbox [OF i, of _ p]
      by (auto simp: Hub_Send_def Let_def split: if_splits)
  qed
qed

text \<open>Closing a connection that is not, or no longer, filed; taking one out of the file.\<close>

lemma Close_inv:
  assumes "hub_inv h"
  shows "hub_inv (Close p h)"
proof -
  note d = hub_invD [OF assms]
  have e: "ac_AgentID ((cheap h)[p := conn_close (cheap h ! p)] ! r) = ac_AgentID (cheap h ! r)"
    "outbox ((cheap h)[p := conn_close (cheap h ! p)] ! r) = outbox (cheap h ! r)" for r
    by (simp_all add: nth_update_proj conn_close_def)
  have c: "ac_closed (cheap h ! r) \<Longrightarrow> ac_closed ((cheap h)[p := conn_close (cheap h ! p)] ! r)" for r
    by (cases "r = p"; cases "p < length (cheap h)") (simp_all add: conn_close_def list_update_beyond)
  have g: "ac_gone ((cheap h)[p := conn_close (cheap h ! p)] ! r) = ac_closed ((cheap h)[p := conn_close (cheap h ! p)] ! r)"
    if "r < length (cheap h)" for r
    using that d(4) [of r] by (cases "r = p") (simp_all add: conn_close_def)
  have f: "mget (agents h) (ac_AgentID (cheap h ! r)) = Some r \<or> ac_closed ((cheap h)[p := conn_close (cheap h ! p)] ! r)"
    if "r < length (cheap h)" for r
    using d(3) [OF that] c by blast
  show ?thesis unfolding Close_def by (rule hub_invI) (use d f g in \<open>simp_all add: e\<close>)
qed

lemma Close_closed: "p < length (cheap h) \<Longrightarrow> ac_closed (cheap (Close p h) ! p) \<and> ac_gone (cheap (Close p h) ! p)"
  by (simp add: Close_def conn_close_def)

lemma remove_conn_inv:
  assumes "hub_inv h" and "mget (agents h) a = Some p"
  shows "hub_inv (Close p (h\<lparr>agents := mdel a (agents h)\<rparr>))"
proof -
  note d = hub_invD [OF Close_inv [OF assms(1), of p]] and p = hub_invD(2) [OF assms]
  have c: "Close p (h\<lparr>agents := mdel a (agents h)\<rparr>) = (Close p h)\<lparr>agents := mdel a (agents h)\<rparr>"
    by (simp add: Close_def)
  have ag: "agents (Close p h) = agents h" by (simp add: Close_def)
  have q: "mget (mdel a (agents h)) (ac_AgentID (cheap (Close p h) ! r)) = Some r \<or> ac_closed (cheap (Close p h) ! r)"
    if r: "r < length (cheap (Close p h))" for r
  proof (cases "ac_AgentID (cheap (Close p h) ! r) = a")
    case True
    then have "r = p \<or> ac_closed (cheap (Close p h) ! r)" using d(3) [OF r] assms(2) ag by auto
    then show ?thesis using Close_closed p by (auto simp: Close_def)
  next
    case False
    then show ?thesis using d(3) [OF r] ag by simp
  qed
  show ?thesis
    unfolding c by (rule hub_invI) (use d q in \<open>auto simp: ag split: if_splits\<close>)
qed

text \<open>A fresh connection object, filed by \<^verbatim>\<open>Register\<close>.\<close>

definition accept :: "AgentConn \<Rightarrow> Hub \<Rightarrow> Hub" where
  "accept c h = Register (ac_AgentID c) (length (cheap h)) (h\<lparr>cheap := cheap h @ [c]\<rparr>)"

lemma Register_inv:
  assumes "hub_inv h" and "\<not> ac_closed c" and "\<not> ac_gone c" and "outbox c = []"
  shows "hub_inv (accept c h)"
proof -
  define h1 where "h1 = (case mget (agents h) (ac_AgentID c) of None \<Rightarrow> h | Some old \<Rightarrow> Close old h)"
  have i1: "hub_inv h1" using assms(1) Close_inv by (simp add: h1_def split: option.splits)
  note d = hub_invD [OF i1]
  have ag: "agents h1 = agents h" and len: "length (cheap h1) = length (cheap h)"
    by (simp_all add: h1_def Close_def split: option.splits)
  have old: "ac_closed (cheap h1 ! p)" if "p < length (cheap h)" "ac_AgentID (cheap h1 ! p) = ac_AgentID c" for p
    using that d(3) [of p] len ag hub_invD(2) [OF assms(1), of "ac_AgentID c" p] Close_closed [of p h]
    by (auto simp: h1_def split: option.splits)
  have acc: "accept c h = h1\<lparr>cheap := cheap h1 @ [c], agents := mput (ac_AgentID c) (length (cheap h1)) (agents h1)\<rparr>"
    using hub_invD(2) [OF assms(1), of "ac_AgentID c"]
    by (auto simp: accept_def Register_def h1_def Close_def nth_append list_update_append1 Let_def split: option.splits)
  let ?h = "h1\<lparr>cheap := cheap h1 @ [c], agents := mput (ac_AgentID c) (length (cheap h1)) (agents h1)\<rparr>"
  have "hub_inv ?h"
  proof (rule hub_invI)
    show "mwf (agents ?h)" using d(1) by simp
    show "p < length (cheap ?h) \<and> ac_AgentID (cheap ?h ! p) = a" if "mget (agents ?h) a = Some p" for a p
      using that d(2) [of a p] by (auto simp: nth_append split: if_splits)
    show "mget (agents ?h) (ac_AgentID (cheap ?h ! p)) = Some p \<or> ac_closed (cheap ?h ! p)" if "p < length (cheap ?h)" for p
      using that d(3) [of p] old [of p] by (auto simp: nth_append len)
    show "ac_gone (cheap ?h ! p) = ac_closed (cheap ?h ! p) \<and> length (outbox (cheap ?h ! p)) \<le> sendBuffer"
      if "p < length (cheap ?h)" for p
      using that d(4) [of p] assms(2-4) by (auto simp: nth_append)
  qed
  then show ?thesis unfolding acc .
qed

lemma hub_Unregister_inv [inv_intros]: "hub_inv h \<Longrightarrow> hub_inv (fst (hub_Unregister a p h))"
  by (simp add: hub_Unregister_def remove_conn_inv)

lemma hub_Disconnect_inv [inv_intros]: "hub_inv h \<Longrightarrow> hub_inv (hub_Disconnect a h)"
  by (simp add: hub_Disconnect_def remove_conn_inv split: option.splits)

section \<open>The contract of a bridge\<close>

text \<open>
  What the proxy relies on when it sends: a successful send puts exactly that message at the end of
  that probe's queue, no other probe's queue changes, and who is online does not change.
\<close>

definition svc_out :: "('b \<Rightarrow> string \<Rightarrow> 'q list) \<Rightarrow> 'b Service \<Rightarrow> string \<Rightarrow> 'q list" where
  "svc_out outq s a = (case bridge s of None \<Rightarrow> [] | Some b \<Rightarrow> outq b a)"

definition svc_wf :: "('b \<Rightarrow> bool) \<Rightarrow> 'b Service \<Rightarrow> bool" where
  "svc_wf P s \<longleftrightarrow> (\<forall>b. bridge s = Some b \<longrightarrow> P b)"

locale bridge_contract =
  fixes B :: "'b Bridge"
    and outq :: "'b \<Rightarrow> string \<Rightarrow> (MessageType \<times> json) list"
    and wf :: "'b \<Rightarrow> bool"
  assumes send_last: "wf b \<Longrightarrow> Send B a ty pl b = (b', None) \<Longrightarrow> outq b' a \<noteq> [] \<and> last (outq b' a) = (ty, pl)"
    and send_other: "wf b \<Longrightarrow> Send B a ty pl b = (b', e) \<Longrightarrow> a' \<noteq> a \<Longrightarrow> outq b' a' = outq b a'"
    and send_online: "wf b \<Longrightarrow> Send B a ty pl b = (b', e) \<Longrightarrow> Online B b' a' = Online B b a'"
    and send_wf: "wf b \<Longrightarrow> Send B a ty pl b = (b', e) \<Longrightarrow> wf b'"
begin

lemma bridgeSend_other:
  "svc_wf wf s \<Longrightarrow> bridgeSend B a ty pl s = (s', e) \<Longrightarrow> a' \<noteq> a \<Longrightarrow> svc_out outq s' a' = svc_out outq s a'"
  by (auto simp: bridgeSend_def svc_out_def svc_wf_def Let_def dest: send_other split: option.splits if_splits prod.splits)

lemma bridgeSend_last:
  "svc_wf wf s \<Longrightarrow> bridgeSend B a ty pl s = (s', None) \<Longrightarrow> svc_out outq s' a \<noteq> [] \<and> last (svc_out outq s' a) = (ty, pl)"
  by (auto simp: bridgeSend_def svc_out_def svc_wf_def Let_def dest: send_last split: option.splits if_splits prod.splits)

lemma bridgeSend_wf: "svc_wf wf s \<Longrightarrow> bridgeSend B a ty pl s = (s', e) \<Longrightarrow> svc_wf wf s'"
  by (auto simp: bridgeSend_def svc_wf_def Let_def dest: send_wf split: option.splits if_splits prod.splits)

lemma finish_other:
  assumes "svc_wf wf s" and "mget (tunnels s) tid = Some p" and "a' \<noteq> t_agentID (theap s ! p)"
  shows "svc_out outq (finish B tid r n s) a' = svc_out outq s a'"
  using assms send_other [of _ "t_agentID (theap s ! p)" TypeProxyClose
      "enc_ProxyClose \<lparr>close_TunnelID = t_id (theap s ! p), close_Reason = r\<rparr>"]
  by (auto simp: finish_def svc_out_def svc_wf_def Let_def split: option.splits prod.splits) (metis prod.collapse)

lemma finish_absent: "mget (tunnels s) tid = None \<Longrightarrow> finish B tid r n s = s"
  by (simp add: finish_def)

text \<open>A client's bytes go to the probe of its tunnel and to no other.\<close>

lemma pump_read_other:
  assumes "svc_wf wf s" and "pump_read B p buf failed s = (s', True)" and "a' \<noteq> t_agentID (theap s ! p)"
  shows "svc_out outq s' a' = svc_out outq s a'"
  using assms(2) bridgeSend_other [OF assms(1) _ assms(3)]
  by (auto simp: pump_read_def Let_def split: prod.splits if_splits)

lemma pump_read_delivers:
  assumes "svc_wf wf s" and "pump_read B p buf False s = (s', True)" and "buf \<noteq> ''''"
  shows "svc_out outq s' (t_agentID (theap s ! p)) \<noteq> [] \<and> last (svc_out outq s' (t_agentID (theap s ! p))) =
    (TypeProxyData, enc_ProxyData \<lparr>data_TunnelID = t_id (theap s ! p), data_Data = EncodeToString buf\<rparr>)"
  using assms(2,3) bridgeSend_last [OF assms(1)]
  by (auto simp: pump_read_def Let_def split: prod.splits if_splits)

end

definition hub_out :: "Hub \<Rightarrow> string \<Rightarrow> (MessageType \<times> json) list" where
  "hub_out h a = (case mget (agents h) a of None \<Rightarrow> [] | Some p \<Rightarrow> outbox (cheap h ! p))"

lemma Hub_Send_cases:
  assumes "hub_inv h" and "Hub_Send dr a ty pl h = (h', e)"
  obtains (failed) x where "h' = h" "e = Some x"
  | (queued) p q where "mget (agents h) a = Some p" "e = None"
      "h' = h\<lparr>cheap := (cheap h)[p := (cheap h ! p)\<lparr>outbox := q @ [(ty, pl)]\<rparr>]\<rparr>"
  using assms(2) by (auto simp: Hub_Send_def Let_def split: option.splits if_splits)

interpretation hub_br: bridge_contract "hub_bridge dr" hub_out hub_inv
proof
  fix h h' :: Hub and a a' ty pl e
  assume i: "hub_inv h"
  { assume "Send (hub_bridge dr) a ty pl h = (h', None)"
    then have s: "Hub_Send dr a ty pl h = (h', None)" by (simp add: hub_bridge_def)
    from i s show "hub_out h' a \<noteq> [] \<and> last (hub_out h' a) = (ty, pl)"
      by (cases rule: Hub_Send_cases) (auto simp: hub_out_def hub_invD(2) [OF i]) }
  { assume "Send (hub_bridge dr) a ty pl h = (h', e)" "a' \<noteq> a"
    then have s: "Hub_Send dr a ty pl h = (h', e)" by (simp add: hub_bridge_def)
    from i s show "hub_out h' a' = hub_out h a'"
    proof (cases rule: Hub_Send_cases)
      case (queued p q)
      have "mget (agents h) a' \<noteq> Some p" using queued(1) \<open>a' \<noteq> a\<close> hub_invD(2) [OF i] by metis
      then show ?thesis by (auto simp: queued hub_out_def split: option.splits)
    qed simp }
  { assume "Send (hub_bridge dr) a ty pl h = (h', e)"
    then have s: "Hub_Send dr a ty pl h = (h', e)" by (simp add: hub_bridge_def)
    from i s show "Online (hub_bridge dr) h' a' = Online (hub_bridge dr) h a'"
      by (cases rule: Hub_Send_cases) (simp_all add: hub_bridge_def Hub_Online_def)
    from i s show "hub_inv h'" by (rule Hub_Send_inv) }
qed

section \<open>Restarts are counted once\<close>

definition rb_total :: "RestartBroadcast \<Rightarrow> nat" where
  "rb_total r = rb_SoftExit r + rb_Escalated r + rb_Crash r + rb_Unsupported r + rb_Unreachable r"

lemma restart_first_total:
  "restart_first ps h r w = (h', r', w') \<Longrightarrow> rb_total r' + length w' = rb_total r + length w + length ps"
proof (induction ps h r w rule: restart_first.induct)
  case (1 h r w)
  then show ?case by simp
next
  case (2 p ps h r w)
  show ?case
  proof (cases "ForceRestartModeFor (rp_version p) (rp_arch p)")
    case ForceRestartSoftExit
    obtain h1 e where s: "SendToAgent (rp_id p) TypeSoftExit (JObj []) h = (h1, e)" by fastforce
    show ?thesis
      using 2 ForceRestartSoftExit s by (cases e) (fastforce simp: rb_total_def)+
  next
    case ForceRestartCrash
    obtain h1 e where s: "sendCrash (rp_id p) h = (h1, e)" by fastforce
    show ?thesis
      using 2 ForceRestartCrash s by (cases e) (fastforce simp: rb_total_def)+
  next
    case ForceRestartUnsupported
    then show ?thesis using 2 by (fastforce simp: rb_total_def)
  qed
qed

lemma crash_all_total: "rb_total (snd (crash_all ps h r)) = rb_total r + length ps"
  by (induction ps h r rule: crash_all.induct) (auto simp: rb_total_def split: prod.splits option.splits)

lemma awaitSoftExits_total: "rb_total (snd (awaitSoftExits rounds ps h r)) = rb_total r + length ps"
proof (induction rounds ps h r rule: awaitSoftExits.induct)
  case (1 ps h r)
  then show ?case by (simp add: crash_all_total)
next
  case (2 h' fires rounds ps h r)
  have "length (filter (\<lambda>p. ac_gone (cheap h' ! rp_gone p)) ps) + length (filter (\<lambda>p. \<not> ac_gone (cheap h' ! rp_gone p)) ps) = length ps"
    by (rule sum_length_filter_compl)
  moreover have "rb_total (r\<lparr>rb_SoftExit := rb_SoftExit r + k\<rparr>) = rb_total r + k" for k by (simp add: rb_total_def)
  ultimately show ?case
    using 2 by (cases "filter (\<lambda>p. \<not> ac_gone (cheap h' ! rp_gone p)) ps = []") (simp_all add: crash_all_total Let_def)
qed

section \<open>Waiting to send\<close>

lemma backoff_at_cap: "4 \<le> i \<Longrightarrow> backoff_at i = 32000"
proof (induction i rule: dec_induct)
  case base
  show ?case by code_simp
next
  case (step i)
  then show ?case by (simp add: maxBackoff_def)
qed

text \<open>Once the back-off has reached its cap, every further look costs 32 ms of what remains.\<close>

lemma SendWait_loop_late:
  "4 \<le> i \<Longrightarrow> remaining \<le> 32000 * int k \<Longrightarrow> snd (SendWait_loop obs late remaining i) \<le> i + k + 1"
proof (induction obs late remaining i arbitrary: k rule: SendWait_loop.induct)
  case (1 obs late remaining i)
  show ?case
  proof (cases "obs i = ObsFull \<and> 0 < remaining")
    case True
    then obtain k' where k: "k = Suc k'" using 1(3) by (cases k) auto
    have "remaining - min (backoff_at i) remaining - int (late i) \<le> 32000 * int k'"
      using 1(3) backoff_at_cap [OF 1(2)] by (simp add: k)
    then have "snd (SendWait_loop obs late (remaining - min (backoff_at i) remaining - int (late i)) (i + 1)) \<le> (i + 1) + k' + 1"
      using 1 True by (intro "1.IH") auto
    then show ?thesis using True by (simp add: SendWait_loop.simps [of obs late remaining i] k)
  next
    case False
    then show ?thesis by (auto simp: SendWait_loop.simps [of obs late remaining i] split: send_obs.splits)
  qed
qed

lemma SendWait_loop_step:
  assumes "\<And>r'. r' \<le> remaining - backoff_at i \<Longrightarrow> snd (SendWait_loop obs late r' (i + 1)) \<le> N" and "i + 2 \<le> N"
    and "\<And>r'. r' \<le> 0 \<Longrightarrow> snd (SendWait_loop obs late r' (i + 1)) \<le> N"
  shows "snd (SendWait_loop obs late remaining i) \<le> N"
proof (cases "obs i = ObsFull \<and> 0 < remaining")
  case True
  have "snd (SendWait_loop obs late (remaining - min (backoff_at i) remaining - int (late i)) (i + 1)) \<le> N"
    using assms(1,3) by (cases "backoff_at i \<le> remaining") simp_all
  then show ?thesis using True by (simp add: SendWait_loop.simps [of obs late remaining i])
next
  case False
  then show ?thesis using assms(2) by (auto simp: SendWait_loop.simps [of obs late remaining i] split: send_obs.splits)
qed

lemma SendWait_loop_done: "remaining \<le> 0 \<Longrightarrow> snd (SendWait_loop obs late remaining i) = i + 1"
  by (auto simp: SendWait_loop.simps [of obs late remaining i] split: send_obs.splits)

lemma SendWait_bound: "snd (SendWait obs late 5000000) \<le> 161"
proof -
  note st = SendWait_loop_step and dn = SendWait_loop_done [of _ obs late]
  have b: "backoff_at 0 = 2000" "backoff_at 1 = 4000" "backoff_at 2 = 8000" "backoff_at 3 = 16000" by code_simp+
  have 4: "snd (SendWait_loop obs late r 4) \<le> 161" if "r \<le> 4970000" for r
    using SendWait_loop_late [of 4 r 156 obs late] that by simp
  have 3: "snd (SendWait_loop obs late r 3) \<le> 161" if "r \<le> 4986000" for r
    by (rule st) (use 4 that b dn [of _ 4] in auto)
  have 2: "snd (SendWait_loop obs late r 2) \<le> 161" if "r \<le> 4994000" for r
    by (rule st) (use 3 that b dn [of _ 3] in auto)
  have 1: "snd (SendWait_loop obs late r 1) \<le> 161" if "r \<le> 4998000" for r
    by (rule st) (use 2 that b dn [of _ 2] in \<open>auto simp: numeral_2_eq_2\<close>)
  show ?thesis
    unfolding SendWait_def by (rule st) (use 1 b dn [of _ 1] in auto)
qed

lemma SendWait_loop_result:
  "fst (SendWait_loop obs late remaining i) = WaitSent \<Longrightarrow>
     \<exists>j \<ge> i. obs j = ObsRoom \<and> (\<forall>k. i \<le> k \<and> k < j \<longrightarrow> obs k = ObsFull)"
proof (induction obs late remaining i rule: SendWait_loop.induct)
  case (1 obs late remaining i)
  show ?case
  proof (cases "obs i")
    case ObsFull
    with 1 have "\<exists>j \<ge> i + 1. obs j = ObsRoom \<and> (\<forall>k. i + 1 \<le> k \<and> k < j \<longrightarrow> obs k = ObsFull)"
      by (auto simp: SendWait_loop.simps [of obs late remaining i] split: if_splits)
    then show ?thesis using ObsFull by (metis Suc_eq_plus1 Suc_leD Suc_leI le_neq_implies_less)
  qed (use 1 in \<open>auto simp: SendWait_loop.simps [of obs late remaining i]\<close>)
qed


section \<open>Runs of the hub\<close>

text \<open>What goroutines do to the hub, in any order and any number of times.\<close>

inductive hub_step :: "Hub \<Rightarrow> Hub \<Rightarrow> bool" where
  connect: "\<not> ac_closed c \<Longrightarrow> \<not> ac_gone c \<Longrightarrow> outbox c = [] \<Longrightarrow> hub_step h (accept c h)"
| unregister: "hub_step h (fst (hub_Unregister a p h))"
| disconnect: "hub_step h (hub_Disconnect a h)"
| send: "hub_step h (fst (SendToAgent a ty pl h))"
| queue: "hub_step h (fst (SafeSend p msg h))"
| relay: "hub_step h (fst (Hub_Send dr a ty pl h))"
| pump: "hub_step h (fst (writePump_take p h))"
| pump_end: "hub_step h (writePump_end p h)"
| record_status: "hub_step h (RecordUpdateStatus now a res h)"

inductive hub_reach :: "Hub \<Rightarrow> bool" where
  start: "hub_reach NewHub"
| step: "hub_reach h \<Longrightarrow> hub_step h h' \<Longrightarrow> hub_reach h'"

lemma writePump_take_inv: 
  assumes "hub_inv h" shows "hub_inv (fst (writePump_take p h))"
proof (cases "p < length (cheap h)")
  case True
  then show ?thesis
    using assms hub_inv_outbox [OF assms] hub_invD(4) [OF assms True]
    by (auto simp: writePump_take_def split: list.splits)
next
  case False
  then have "hub_inv (h\<lparr>cheap := (cheap h)[p := c]\<rparr>)" for c using assms by (simp add: list_update_beyond)
  then show ?thesis using assms by (simp add: writePump_take_def split: list.splits)
qed

lemma hub_step_inv: "hub_step h h' \<Longrightarrow> hub_inv h \<Longrightarrow> hub_inv h'"
proof (induction rule: hub_step.induct)
  case (send h a ty pl)
  then show ?case by (metis SendToAgent_inv prod.collapse)
next
  case (queue h p msg)
  then show ?case by (metis SafeSend_inv prod.collapse)
next
  case (relay h dr a ty pl)
  then show ?case by (metis Hub_Send_inv prod.collapse)
qed (simp_all add: Register_inv hub_Unregister_inv hub_Disconnect_inv writePump_take_inv writePump_end_def
    Close_inv RecordUpdateStatus_def)

lemma hub_reach_inv: "hub_reach h \<Longrightarrow> hub_inv h"
  by (induction rule: hub_reach.induct) (simp_all add: hub_inv_NewHub hub_step_inv)

section \<open>Properties\<close>


definition demo_conn :: "string \<Rightarrow> AgentConn" where
  "demo_conn ip = \<lparr>ac_AgentID = ''a'', ac_RemoteIP = ip, ac_Version = ''v1.3.0'', ac_Arch = ''amd64'', outbox = [],
     ac_closed = False, ac_gone = False\<rparr>"

definition demo_hub :: Hub where
  "demo_hub = accept (demo_conn ''10.0.0.2'') (accept (demo_conn ''10.0.0.1'') NewHub)"

lemma demo_hub_reach: "hub_reach demo_hub"
  unfolding demo_hub_def
  by (rule hub_reach.step [OF hub_reach.step [OF hub_reach.start hub_step.connect] hub_step.connect])
    (simp_all add: demo_conn_def)

lemma demo_hub_eval:
  "demo_hub = \<lparr>cheap = [conn_close (demo_conn ''10.0.0.1''), demo_conn ''10.0.0.2''], agents = [(''a'', 1)], updates = []\<rparr>"
  by (simp add: demo_hub_def accept_def Register_def demo_conn_def NewHub_def Close_def mput_def mget_def)


lemma broadcast_update_total:
  "broadcast_update ps h r = (h', r') \<Longrightarrow>
     Triggered r' + Skipped r' + ub_Unreachable r' = Triggered r + Skipped r + ub_Unreachable r + length ps"
  by (induction ps h r rule: broadcast_update.induct) (auto split: if_splits prod.splits option.splits)

text \<open>
  a broadcast restart accounts for every connected probe exactly once, whatever happens to the
  connections while it waits; a broadcast update check likewise.
\<close>

theorem restart_counts_every_probe:
  "rb_total (snd (BroadcastRestart rounds h)) = length (agents h) \<and>
   (let r = snd (BroadcastUpdateCheck h) in Triggered r + Skipped r + ub_Unreachable r = length (agents h))"
proof
  let ?ps = "map (\<lambda>e. \<lparr>rp_id = fst e, rp_version = ac_Version (cheap h ! snd e),
    rp_arch = ac_Arch (cheap h ! snd e), rp_gone = snd e\<rparr>) (agents h)"
  let ?r = "\<lparr>rb_SoftExit = 0, rb_Escalated = 0, rb_Crash = 0, rb_Unsupported = 0, rb_Unreachable = 0\<rparr> :: RestartBroadcast"
  obtain h1 r w where f: "restart_first ?ps h ?r [] = (h1, r, w)" by (rule prod_cases3)
  have "rb_total r + length w = length (agents h)"
    using restart_first_total [OF f] by (simp add: rb_total_def)
  then show "rb_total (snd (BroadcastRestart rounds h)) = length (agents h)"
    by (simp add: BroadcastRestart_def f awaitSoftExits_total)
  show "let r = snd (BroadcastUpdateCheck h) in Triggered r + Skipped r + ub_Unreachable r = length (agents h)"
    unfolding Let_def BroadcastUpdateCheck_def by (subst broadcast_update_total [OF prod.collapse [symmetric]]) simp
qed

lemma SendWait_loop_last:
  "SendWait_loop obs late remaining i = (r, n) \<Longrightarrow>
     i < n \<and> (\<forall>k. i \<le> k \<and> k < n - 1 \<longrightarrow> obs k = ObsFull) \<and>
     r = (case obs (n - 1) of ObsClosed \<Rightarrow> WaitClosed | ObsRoom \<Rightarrow> WaitSent | ObsFull \<Rightarrow> WaitTimeout)"
proof (induction obs late remaining i rule: SendWait_loop.induct)
  case (1 obs late remaining i)
  show ?case
  proof (cases "obs i = ObsFull \<and> 0 < remaining")
    case True
    then have "SendWait_loop obs late (remaining - min (backoff_at i) remaining - int (late i)) (i + 1) = (r, n)"
      using 1(2) by (simp add: SendWait_loop.simps [of obs late remaining i])
    then have ih: "i + 1 < n \<and> (\<forall>k. i + 1 \<le> k \<and> k < n - 1 \<longrightarrow> obs k = ObsFull) \<and>
        r = (case obs (n - 1) of ObsClosed \<Rightarrow> WaitClosed | ObsRoom \<Rightarrow> WaitSent | ObsFull \<Rightarrow> WaitTimeout)"
      using True by (intro "1.IH") auto
    have "obs k = ObsFull" if "i \<le> k" "k < n - 1" for k
      using ih that True by (cases "k = i") simp_all
    then show ?thesis using ih by simp
  next
    case False
    then show ?thesis
      using 1(2) by (auto simp: SendWait_loop.simps [of obs late remaining i] split: send_obs.splits)
  qed
qed



text \<open>
  C16: what a client sends through its tunnel is queued, as one decodable data message with exactly these
  bytes, for the probe of that tunnel, and no other probe's queue changes.
\<close>

theorem client_bytes_reach_own_probe:
  assumes "bridge s = Some h" and "hub_reach h" and "buf \<noteq> ''''"
    and "pump_read (hub_bridge dr) p buf False s = (s', True)"
  shows "svc_out hub_out s' (t_agentID (theap s ! p)) \<noteq> [] \<and>
    (case last (svc_out hub_out s' (t_agentID (theap s ! p))) of (ty, payload) \<Rightarrow> ty = TypeProxyData \<and>
      (\<exists>msg. dec_ProxyData payload = Some msg \<and> data_TunnelID msg = t_id (theap s ! p) \<and>
         DecodeString (data_Data msg) = Some buf)) \<and>
    (\<forall>a'. a' \<noteq> t_agentID (theap s ! p) \<longrightarrow> svc_out hub_out s' a' = hub_out h a')"
proof -
  have wf: "svc_wf hub_inv s" using assms(1) hub_reach_inv [OF assms(2)] by (simp add: svc_wf_def)
  have "svc_out hub_out s' a' = hub_out h a'" if "a' \<noteq> t_agentID (theap s ! p)" for a'
    using hub_br.pump_read_other [OF wf assms(4) that] assms(1) by (simp add: svc_out_def)
  then show ?thesis
    using hub_br.pump_read_delivers [OF wf assms(4,3)] by (simp add: dec_enc_ProxyData DecodeString_EncodeToString)
qed

definition demo_svc :: "Hub Service" where
  "demo_svc = NewService\<lparr>bridge := Some demo_hub,
     theap := [\<lparr>t_id = ''t'', t_agentID = ''a'', t_sessionID = ''s'', opened = None, inbound = [], t_done = False\<rparr>],
     tunnels := [(''t'', 0)]\<rparr>"

theorem client_bytes_reach_own_probe_witness:
  "snd (pump_read (hub_bridge True) 0 ''hi'' False demo_svc) \<and>
   svc_out hub_out (fst (pump_read (hub_bridge True) 0 ''hi'' False demo_svc)) ''a'' \<noteq> []"
proof -
  have ok: "snd (pump_read (hub_bridge True) 0 ''hi'' False demo_svc)"
    by (simp add: pump_read_def demo_svc_def NewService_def bridgeSend_def hub_bridge_def Hub_Online_def Hub_Send_def
        demo_hub_eval mget_def demo_conn_def sendBuffer_def)
  have b: "bridge demo_svc = Some demo_hub" by (simp add: demo_svc_def)
  have a: "t_agentID (theap demo_svc ! 0) = ''a''" by (simp add: demo_svc_def)
  show ?thesis
    using client_bytes_reach_own_probe [OF b demo_hub_reach, of "''hi''" True 0
        "fst (pump_read (hub_bridge True) 0 ''hi'' False demo_svc)"] ok
    by (simp add: a prod_eq_iff)
qed

lemma buildTargetConfigsWithOverrides_bounds:
  assumes "\<And>t. t \<in> set ts \<Longrightarrow> \<bar>tg_PacketCount t\<bar> \<le> 2 ^ 53 \<and> \<bar>tg_IntervalSec t\<bar> \<le> 2 ^ 53"
    and "c \<in> set (buildTargetConfigsWithOverrides ts dis pau)"
  shows "\<bar>tc_PacketCount c\<bar> \<le> 2 ^ 53 \<and> \<bar>tc_IntervalSec c\<bar> \<le> 2 ^ 53"
  using assms by (auto simp: buildTargetConfigsWithOverrides_def Let_def)

lemma buildTargetConfigs_row:
  "find_agent a d = Some row \<Longrightarrow> a \<noteq> '''' \<Longrightarrow>
     buildTargetConfigs a ts d = buildTargetConfigsWithOverrides ts (ag_DisabledRouteTargets row) (ag_PausedTargets row)"
  by (simp add: buildTargetConfigs_def)

lemma SafeSend_hub_out:
  assumes "hub_inv h" and "mget (agents h) a = Some p" and "\<not> ac_closed (cheap h ! p)" and "length (outbox (cheap h ! p)) < sendBuffer"
  shows "hub_out (fst (SendToAgent a ty pl h)) a = hub_out h a @ [(ty, pl)]"
  using assms hub_invD(2) [OF assms(1,2)] by (simp add: SendToAgent_def SafeSend_def hub_out_def Let_def)

text \<open>
  C17: a connected probe whose queue has room is sent, decodable, exactly the enabled targets that are not
  paused for it, in table order and with their parameters, and route tracing is off for a target just
  when the target or the probe's own list says so.
\<close>

theorem target_sync_exact:
  assumes "hub_reach h" and "mget (agents h) a = Some p" and "\<not> ac_closed (cheap h ! p)"
    and "length (outbox (cheap h ! p)) < sendBuffer" and "find_agent a d = Some row" and "a \<noteq> ''''"
    and "list_all (\<lambda>t. \<bar>tg_PacketCount t\<bar> \<le> 2 ^ 53 \<and> \<bar>tg_IntervalSec t\<bar> \<le> 2 ^ 53) (target_rows d)"
  shows "\<exists>payload. hub_out (SyncSingleAgent False a d h) a = hub_out h a @ [(TypeTargetSync, payload)] \<and>
    dec_TargetSync payload = Some (map (\<lambda>t. \<lparr>tc_ID = tg_ID t, tc_Name = tg_Name t, tc_Host = tg_Host t,
         tc_PacketCount = tg_PacketCount t, tc_IntervalSec = tg_IntervalSec t,
         tc_DisableRoute = (tg_DisableRoute t \<or> tg_ID t \<in> set (splitIDList (ag_DisabledRouteTargets row)))\<rparr>)
       [t \<leftarrow> target_rows d. tg_Enabled t \<and> tg_ID t \<notin> set (splitIDList (ag_PausedTargets row))])"
proof -
  let ?ts = "buildTargetConfigsWithOverrides (enabled_targets d) (ag_DisabledRouteTargets row) (ag_PausedTargets row)"
  have "dec_TargetSync (enc_TargetSync ?ts) = Some ?ts"
    using assms(7) by (intro dec_enc_TargetSync buildTargetConfigsWithOverrides_bounds)
      (auto simp: enabled_targets_def list_all_iff)
  then show ?thesis
    using SafeSend_hub_out [OF hub_reach_inv [OF assms(1)] assms(2-4)]
    by (simp add: SyncSingleAgent_def buildTargetConfigs_row [OF assms(5,6)])
      (simp add: buildTargetConfigsWithOverrides_def enabled_targets_def Let_def conj_commute)
qed

definition demo_db :: DB where
  "demo_db = \<lparr>agent_rows = [\<lparr>ag_ID = ''a'', ag_Name = ''n'', ag_Token = ''k'', ag_PublicIP = '''', ag_OS = ''linux'',
      ag_Arch = ''amd64'', ag_Version = ''v1.2.0'', ag_Tags = '''', ag_DisabledRouteTargets = ''t1'', ag_PausedTargets = ''t2, '',
      ag_IsOnline = True, ag_LastSeenAt = 0\<rparr>],
    target_rows = map (\<lambda>(i, e). \<lparr>tg_ID = i, tg_Name = i, tg_Host = ''h'', tg_PacketCount = 10, tg_IntervalSec = 60, tg_Tags = '''',
      tg_Enabled = e, tg_DisableRoute = False\<rparr>) [(''t1'', True), (''t2'', True), (''t3'', False)],
    metric_rows = [], trace_rows = []\<rparr>"

theorem target_sync_exact_witness:
  "\<exists>payload. hub_out (SyncSingleAgent False ''a'' demo_db demo_hub) ''a'' = [(TypeTargetSync, payload)] \<and>
     map_option (map tc_ID) (dec_TargetSync payload) = Some [''t1'']"
proof -
  have f: "find_agent ''a'' demo_db = Some (agent_rows demo_db ! 0)" by (simp add: find_agent_def demo_db_def)
  have o: "hub_out demo_hub ''a'' = []" "mget (agents demo_hub) ''a'' = Some 1" "\<not> ac_closed (cheap demo_hub ! 1)"
    "length (outbox (cheap demo_hub ! 1)) < sendBuffer"
    by (simp_all add: demo_hub_eval hub_out_def mget_def demo_conn_def sendBuffer_def)
  have l: "list_all (\<lambda>t. \<bar>tg_PacketCount t\<bar> \<le> 2 ^ 53 \<and> \<bar>tg_IntervalSec t\<bar> \<le> 2 ^ 53) (target_rows demo_db)"
    by (simp add: demo_db_def)
  have s: "splitIDList ''t2, '' = [''t2'']" by code_simp
  show ?thesis
    using target_sync_exact [OF demo_hub_reach o(2-4) f _ l]
    by (auto simp: o(1) s demo_db_def)
qed


text \<open>
  a probe that understands the soft exit but ignores it is reported as crashed, never with the
  error announced for that case; and a probe that has left the hub by then is reported as crashed
  without an error although nothing was sent.
\<close>

theorem restart_escalation:
  assumes "liveProbe a h = Some ac" and "ForceRestartModeFor (ac_Version ac) (ac_Arch ac) = ForceRestartSoftExit"
    and "SendToAgent a TypeSoftExit (JObj []) h = (h1, None)"
  shows "\<exists>h2 e. RequestRestart False after a h = (h2, Some ForceRestartCrash, e) \<and> e \<noteq> Some ErrSoftExitEscalated \<and>
    (mget (agents (after h1)) a = None \<longrightarrow> h2 = after h1 \<and> e = None)"
  using assms
  by (auto simp: RequestRestart_def sendCrash_def SendToAgent_def [of a TypeTargetSync] send_error_def
      split: prod.splits option.splits)

theorem restart_escalation_witness:
  "RequestRestart False (hub_Disconnect ''a'') ''a'' demo_hub =
     (hub_Disconnect ''a'' (fst (SendToAgent ''a'' TypeSoftExit (JObj []) demo_hub)), Some ForceRestartCrash, None)"
proof -
  have l: "liveProbe ''a'' demo_hub = Some (demo_conn ''10.0.0.2'')"
    by (simp add: liveProbe_def demo_hub_eval mget_def)
  have m: "ForceRestartModeFor (ac_Version (demo_conn ''10.0.0.2'')) (ac_Arch (demo_conn ''10.0.0.2'')) = ForceRestartSoftExit"
    unfolding demo_conn_def by code_simp
  have s: "SendToAgent ''a'' TypeSoftExit (JObj []) demo_hub = (fst (SendToAgent ''a'' TypeSoftExit (JObj []) demo_hub), None)"
    by (simp add: SendToAgent_def SafeSend_def demo_hub_eval mget_def demo_conn_def sendBuffer_def)
  have g: "mget (agents (hub_Disconnect ''a'' x)) ''a'' = None" for x
    by (simp add: hub_Disconnect_def Close_def split: option.splits)
  show ?thesis using restart_escalation [OF l m s, of "hub_Disconnect ''a''"] g by auto
qed

end
