(* ===== verification/Classifier.thy ===== *)
theory Classifier
  imports Database
begin

text \<open>
  Route classification, \<^verbatim>\<open>host/internal/ipgeo/classifier.go\<close>. The loops that gather flags and hop indices
  are folds over the visible hops; the lemmas show that the label they lead to is the one of a
  declarative reading: which networks the route touches, and in which order. Labels are byte strings,
  so the Chinese operator names are written as their UTF-8 bytes.
\<close>

section \<open>Address ranges\<close>

record HopMeta =
  hm_IP :: string
  hm_ASNumber :: string
  hm_ASOrg :: string
  hm_ISP :: string

definition any_prefix :: "string \<Rightarrow> string list \<Rightarrow> bool" where
  "any_prefix ip ps \<longleftrightarrow> list_ex (HasPrefix ip) ps"

definition isCN2IP :: "string \<Rightarrow> bool" where
  "isCN2IP ip = any_prefix ip [''59.43.'', ''2605:9d80:'']"

definition isCTGNetIP :: "string \<Rightarrow> bool" where
  "isCTGNetIP ip = any_prefix ip
     [''203.22.182.'', ''203.22.178.'', ''203.22.179.'', ''203.128.224.'', ''69.194.'', ''2400:9380:'']"

definition is163IP :: "string \<Rightarrow> bool" where
  "is163IP ip = any_prefix ip [''202.97.'', ''202.96.'', ''219.141.'', ''219.142.'', ''106.37.'', ''240e:'']"

definition is9929IP :: "string \<Rightarrow> bool" where
  "is9929IP ip = any_prefix ip [''210.14.'', ''210.51.'', ''210.78.'', ''218.105.'']"

text \<open>The alternatives of the anchored regular expression, with the character class and the groups multiplied out.\<close>

definition re10099 :: "string list" where
  "re10099 = [''103.214.'', ''103.228.68.'', ''103.239.176.'', ''118.26.151.'',
     ''162.219.32.'', ''162.219.33.'', ''162.219.34.'', ''162.219.35.'', ''162.219.36.'', ''162.219.37.'', ''162.219.38.'',
     ''162.219.39.'', ''162.219.85.'', ''162.245.124.'', ''202.77.23.'', ''203.160.66.'', ''203.160.75.'', ''2401:8a00:'']"

definition is10099IP :: "string \<Rightarrow> bool" where
  "is10099IP ip = any_prefix ip re10099"

definition is4837IP :: "string \<Rightarrow> bool" where
  "is4837IP ip = any_prefix ip [''219.158.'', ''2408:'']"

definition isCMIN2IP :: "string \<Rightarrow> bool" where
  "isCMIN2IP ip = any_prefix ip [''2402:4f00:f000:'']"

definition isCMIIP :: "string \<Rightarrow> bool" where
  "isCMIIP ip = any_prefix ip [''223.120.'', ''223.119.'']"

definition isCMNETIP :: "string \<Rightarrow> bool" where
  "isCMNETIP ip = any_prefix ip [''221.183.'', ''111.24.'', ''111.13.'', ''2409:8080:'']"

definition cleanASN :: "string \<Rightarrow> string" where
  "cleanASN raw = TrimPrefix (TrimPrefix (TrimSpace raw) ''AS'') ''as''"

definition inferASNFromIP :: "string \<Rightarrow> string" where
  "inferASNFromIP ip =
     (if HasPrefix ip ''59.43.'' then ''4809''
      else if any_prefix ip [''203.22.182.'', ''203.22.178.'', ''203.128.224.''] then ''23764''
      else if any_prefix ip [''202.97.'', ''202.96.'', ''219.141.'', ''240e:''] then ''4134''
      else if any_prefix ip [''219.158.'', ''2408:''] then ''4837''
      else if any_prefix ip [''223.120.'', ''223.119.''] then ''58453''
      else if any_prefix ip [''221.183.'', ''111.24.'', ''2409:8080:''] then ''9808''
      else if HasPrefix ip ''2402:4f00:f000:'' then ''58807''
      else if is10099IP ip then ''10099''
      else if is9929IP ip then ''9929''
      else if any_prefix ip [''101.4.'', ''202.112.''] then ''4538''
      else '''')"

section \<open>Labels\<close>

definition telecom_prefix :: string where
  "telecom_prefix = [CHR 0xE7, CHR 0x94, CHR 0xB5, CHR 0xE4, CHR 0xBF, CHR 0xA1, CHR '' '']"

definition unicom_prefix :: string where
  "unicom_prefix = [CHR 0xE8, CHR 0x81, CHR 0x94, CHR 0xE9, CHR 0x80, CHR 0x9A, CHR '' '']"

definition mobile_prefix :: string where
  "mobile_prefix = [CHR 0xE7, CHR 0xA7, CHR 0xBB, CHR 0xE5, CHR 0x8A, CHR 0xA8, CHR '' '']"

definition cernet_prefix :: string where
  "cernet_prefix = [CHR 0xE6, CHR 0x95, CHR 0x99, CHR 0xE8, CHR 0x82, CHR 0xB2, CHR 0xE7, CHR 0xBD, CHR 0x91, CHR '' '']"

definition a_net :: string where
  "a_net = ''9929 (A'' @ [CHR 0xE7, CHR 0xBD, CHR 0x91] @ '')''"

section \<open>The visible hops\<close>

text \<open>A visible hop is its address and its AS number, reported or inferred.\<close>

type_synonym vhop = "string \<times> string"

definition hop_asn :: "HopMeta \<Rightarrow> string" where
  "hop_asn h = (let asn = cleanASN (hm_ASNumber h) in
     if asn = '''' then inferASNFromIP (TrimSpace (hm_IP h)) else asn)"

definition hop_visible :: "HopMeta \<Rightarrow> bool" where
  "hop_visible h \<longleftrightarrow> TrimSpace (hm_IP h) \<noteq> '''' \<and> TrimSpace (hm_IP h) \<noteq> ''*''"

definition visible_hops :: "HopMeta list \<Rightarrow> vhop list" where
  "visible_hops hops = map (\<lambda>h. (TrimSpace (hm_IP h), hop_asn h)) (filter hop_visible hops)"

section \<open>Telecom\<close>

record telecom =
  hasCN2 :: bool
  hasCN2Core :: bool
  has163 :: bool
  hasCTGNet :: bool
  cn2HopIndex :: int
  last163Index :: int

definition hop_cn2 :: "vhop \<Rightarrow> bool" where
  "hop_cn2 v \<longleftrightarrow> isCN2IP (fst v) \<or> snd v = ''4809''"

definition hop_ctg :: "vhop \<Rightarrow> bool" where
  "hop_ctg v \<longleftrightarrow> isCTGNetIP (fst v) \<or> snd v = ''23764''"

definition hop_163 :: "vhop \<Rightarrow> bool" where
  "hop_163 v \<longleftrightarrow> is163IP (fst v) \<or> snd v = ''4134'' \<or> snd v = ''4847''"

definition telecom_hop :: "int \<Rightarrow> vhop \<Rightarrow> telecom \<Rightarrow> telecom" where
  "telecom_hop i v st =
     (let st1 = (if hop_cn2 v then
                   st\<lparr>hasCN2 := True, hasCN2Core := hasCN2Core st \<or> HasPrefix (fst v) ''59.43.'',
                      cn2HopIndex := (if cn2HopIndex st = -1 then i else cn2HopIndex st)\<rparr>
                 else st);
          st2 = (if hop_ctg v then st1\<lparr>hasCTGNet := True\<rparr> else st1)
      in if hop_163 v then st2\<lparr>has163 := True, last163Index := i\<rparr> else st2)"

fun telecom_scan :: "int \<Rightarrow> vhop list \<Rightarrow> telecom \<Rightarrow> telecom" where
  "telecom_scan i [] st = st"
| "telecom_scan i (v # vs) st = telecom_scan (i + 1) vs (telecom_hop i v st)"

definition telecom_label :: "vhop list \<Rightarrow> string option" where
  "telecom_label vs =
     (let st = telecom_scan 0 vs \<lparr>hasCN2 = False, hasCN2Core = False, has163 = False, hasCTGNet = False,
                 cn2HopIndex = -1, last163Index = -1\<rparr>
      in if hasCN2 st then
           Some (if has163 st \<and> last163Index st > cn2HopIndex st then telecom_prefix @ ''CN2 GT''
                 else if hasCN2Core st then telecom_prefix @ ''CN2 GIA''
                 else telecom_prefix @ ''CN2'')
         else if hasCTGNet st then
           Some (if has163 st then telecom_prefix @ ''CTGNet->163'' else telecom_prefix @ ''CTGNet'')
         else if has163 st then Some (telecom_prefix @ ''163'')
         else None)"

section \<open>Unicom\<close>

record unicom =
  has9929 :: bool
  has10099 :: bool
  has4837 :: bool
  first10099 :: int
  first9929 :: int
  first4837 :: int

definition hop_9929 :: "vhop \<Rightarrow> bool" where
  "hop_9929 v \<longleftrightarrow> is9929IP (fst v) \<or> snd v = ''9929''"

definition hop_10099 :: "vhop \<Rightarrow> bool" where
  "hop_10099 v \<longleftrightarrow> is10099IP (fst v) \<or> snd v = ''10099''"

definition hop_4837 :: "vhop \<Rightarrow> bool" where
  "hop_4837 v \<longleftrightarrow> is4837IP (fst v) \<or> snd v = ''4837'' \<or> snd v = ''4808''"

definition unicom_hop :: "int \<Rightarrow> vhop \<Rightarrow> unicom \<Rightarrow> unicom" where
  "unicom_hop i v st =
     (let st1 = (if hop_9929 v then
                   st\<lparr>has9929 := True, first9929 := (if first9929 st = -1 then i else first9929 st)\<rparr> else st);
          st2 = (if hop_10099 v then
                   st1\<lparr>has10099 := True, first10099 := (if first10099 st1 = -1 then i else first10099 st1)\<rparr> else st1)
      in if hop_4837 v then
           st2\<lparr>has4837 := True, first4837 := (if first4837 st2 = -1 then i else first4837 st2)\<rparr> else st2)"

fun unicom_scan :: "int \<Rightarrow> vhop list \<Rightarrow> unicom \<Rightarrow> unicom" where
  "unicom_scan i [] st = st"
| "unicom_scan i (v # vs) st = unicom_scan (i + 1) vs (unicom_hop i v st)"

definition unicom_label :: "vhop list \<Rightarrow> string option" where
  "unicom_label vs =
     (let st = unicom_scan 0 vs \<lparr>has9929 = False, has10099 = False, has4837 = False,
                 first10099 = -1, first9929 = -1, first4837 = -1\<rparr>
      in if has10099 st then
           Some (if has9929 st \<and> first9929 st > first10099 st then unicom_prefix @ ''10099->9929''
                 else if has4837 st \<and> first4837 st > first10099 st then unicom_prefix @ ''10099->4837''
                 else unicom_prefix @ ''10099'')
         else if has9929 st then Some (unicom_prefix @ a_net)
         else if has4837 st then Some (unicom_prefix @ ''4837 (169)'')
         else None)"

section \<open>Mobile\<close>

record mobile =
  hasCMIN2 :: bool
  hasCMI :: bool
  hasCMNET :: bool
  firstCMIN2 :: int
  firstCMI :: int

definition hop_cmin2 :: "vhop \<Rightarrow> bool" where
  "hop_cmin2 v \<longleftrightarrow> isCMIN2IP (fst v) \<or> snd v = ''58807''"

definition hop_cmi :: "vhop \<Rightarrow> bool" where
  "hop_cmi v \<longleftrightarrow> isCMIIP (fst v) \<or> snd v = ''58453''"

definition hop_cmnet :: "vhop \<Rightarrow> bool" where
  "hop_cmnet v \<longleftrightarrow> isCMNETIP (fst v) \<or> snd v = ''9808''"

definition mobile_hop :: "int \<Rightarrow> vhop \<Rightarrow> mobile \<Rightarrow> mobile" where
  "mobile_hop i v st =
     (let st1 = (if hop_cmin2 v then
                   st\<lparr>hasCMIN2 := True, firstCMIN2 := (if firstCMIN2 st = -1 then i else firstCMIN2 st)\<rparr> else st);
          st2 = (if hop_cmi v then
                   st1\<lparr>hasCMI := True, firstCMI := (if firstCMI st1 = -1 then i else firstCMI st1)\<rparr> else st1)
      in if hop_cmnet v then st2\<lparr>hasCMNET := True\<rparr> else st2)"

fun mobile_scan :: "int \<Rightarrow> vhop list \<Rightarrow> mobile \<Rightarrow> mobile" where
  "mobile_scan i [] st = st"
| "mobile_scan i (v # vs) st = mobile_scan (i + 1) vs (mobile_hop i v st)"

definition mobile_label :: "vhop list \<Rightarrow> string option" where
  "mobile_label vs =
     (let st = mobile_scan 0 vs \<lparr>hasCMIN2 = False, hasCMI = False, hasCMNET = False, firstCMIN2 = -1, firstCMI = -1\<rparr>
      in if hasCMIN2 st then
           Some (if hasCMI st \<and> firstCMI st > firstCMIN2 st then mobile_prefix @ ''CMIN2->CMI''
                 else if hasCMNET st then mobile_prefix @ ''CMIN2->CMNET''
                 else mobile_prefix @ ''CMIN2'')
         else if hasCMI st then
           Some (if hasCMNET st then mobile_prefix @ ''CMI->CMNET'' else mobile_prefix @ ''CMI'')
         else if hasCMNET st then Some (mobile_prefix @ ''CMNET'')
         else None)"

section \<open>Education network and carriers\<close>

fun cernet_label :: "vhop list \<Rightarrow> string option" where
  "cernet_label [] = None"
| "cernet_label ((ip, asn) # vs) =
     (if asn = ''4538'' \<or> HasPrefix ip ''202.112.'' \<or> HasPrefix ip ''101.4.'' then Some (cernet_prefix @ ''CERNET'')
      else if asn = ''23910'' \<or> asn = ''23911'' \<or> HasPrefix ip ''2001:da8:'' \<or> HasPrefix ip ''2001:250:''
      then Some (cernet_prefix @ ''CERNET2'')
      else cernet_label vs)"

definition carriers :: "(string \<times> string) list" where
  "carriers = [(''1299'', ''Arelion (Telia)''), (''2914'', ''NTT''), (''174'', ''Cogent''), (''3257'', ''GTT''),
     (''6453'', ''Tata Communications''), (''3356'', ''Lumen (Level3)''), (''6939'', ''Hurricane Electric (HE)''),
     (''13335'', ''Cloudflare'')]"

fun carrier_label :: "string list \<Rightarrow> string option" where
  "carrier_label [] = None"
| "carrier_label (asn # asns) = (case map_of carriers asn of Some l \<Rightarrow> Some l | None \<Rightarrow> carrier_label asns)"

definition ClassifyRoute :: "HopMeta list \<Rightarrow> string" where
  "ClassifyRoute hops =
     (if hops = [] then ''Unknown''
      else let vs = visible_hops hops in
        if vs = [] then ''Timeout / Hidden''
        else case telecom_label vs of Some l \<Rightarrow> l | None \<Rightarrow>
             (case unicom_label vs of Some l \<Rightarrow> l | None \<Rightarrow>
             (case mobile_label vs of Some l \<Rightarrow> l | None \<Rightarrow>
             (case cernet_label vs of Some l \<Rightarrow> l | None \<Rightarrow>
             (case carrier_label (map snd vs) of Some l \<Rightarrow> l | None \<Rightarrow> ''Standard IP Transit'')))))"

section \<open>The path of autonomous systems\<close>

definition as_names :: "(string \<times> string) list" where
  "as_names = [(''4809'', ''CN2''), (''4134'', ''Chinanet 163''), (''23764'', ''CTGNet''), (''9929'', ''China Unicom 9929''),
     (''10099'', ''CUG 10099''), (''4837'', ''China Unicom 4837''), (''58807'', ''CMIN2''), (''58453'', ''CMI''),
     (''9808'', ''China Mobile''), (''4538'', ''CERNET''), (''23910'', ''CERNET2''), (''23911'', ''CERNET2''),
     (''13335'', ''Cloudflare''), (''15169'', ''Google''), (''8075'', ''Microsoft''), (''16509'', ''Amazon AWS''),
     (''20940'', ''Akamai''), (''54113'', ''Fastly''), (''1299'', ''Arelion''), (''2914'', ''NTT''), (''174'', ''Cogent''),
     (''3257'', ''GTT''), (''6453'', ''Tata''), (''3356'', ''Lumen''), (''6939'', ''HE'')]"

definition simplifyASName :: "string \<Rightarrow> string \<Rightarrow> string \<Rightarrow> string" where
  "simplifyASName asn org isp =
     (case map_of as_names asn of
        Some n \<Rightarrow> n
      | None \<Rightarrow>
          let raw = TrimSpace (if org = '''' then isp else org)
          in if length raw > 20 then (case Fields raw of [] \<Rightarrow> raw | f # _ \<Rightarrow> f) else raw)"

fun as_nodes :: "string \<Rightarrow> HopMeta list \<Rightarrow> ASNode list" where
  "as_nodes lastASN [] = []"
| "as_nodes lastASN (h # hs) =
     (if \<not> hop_visible h then as_nodes lastASN hs
      else let asn = hop_asn h in
        if asn = '''' \<or> asn = ''*'' \<or> asn = ''0'' then as_nodes lastASN hs
        else if ''AS'' @ asn = lastASN then as_nodes lastASN hs
        else \<lparr>ASN = ''AS'' @ asn, as_Name = simplifyASName asn (hm_ASOrg h) (hm_ISP h)\<rparr> # as_nodes (''AS'' @ asn) hs)"

definition node_text :: "ASNode \<Rightarrow> string" where
  "node_text n = (if as_Name n \<noteq> '''' then ASN n @ '' ('' @ as_Name n @ '')'' else ASN n)"

definition GenerateASPath :: "HopMeta list \<Rightarrow> string \<times> ASNode list" where
  "GenerateASPath hops =
     (let nodes = as_nodes '''' hops in
      if nodes = [] then ('''', []) else (Join '' -> '' (map node_text nodes), nodes))"


section \<open>What the scans find\<close>

fun first_at :: "int \<Rightarrow> ('v \<Rightarrow> bool) \<Rightarrow> 'v list \<Rightarrow> int" where
  "first_at i P [] = -1"
| "first_at i P (v # vs) = (if P v then i else first_at (i + 1) P vs)"

fun last_at :: "int \<Rightarrow> ('v \<Rightarrow> bool) \<Rightarrow> 'v list \<Rightarrow> int \<Rightarrow> int" where
  "last_at i P [] d = d"
| "last_at i P (v # vs) d = last_at (i + 1) P vs (if P v then i else d)"

text \<open>Some \<open>Q\<close> hop comes after some \<open>P\<close> hop; the first \<open>Q\<close> hop comes after the first \<open>P\<close> hop.\<close>

fun later :: "('v \<Rightarrow> bool) \<Rightarrow> ('v \<Rightarrow> bool) \<Rightarrow> 'v list \<Rightarrow> bool" where
  "later P Q [] = False"
| "later P Q (v # vs) = (P v \<and> list_ex Q vs \<or> later P Q vs)"

fun precedes :: "('v \<Rightarrow> bool) \<Rightarrow> ('v \<Rightarrow> bool) \<Rightarrow> 'v list \<Rightarrow> bool" where
  "precedes P Q [] = False"
| "precedes P Q (v # vs) = (\<not> Q v \<and> (if P v then list_ex Q vs else precedes P Q vs))"

lemma first_at_ge: "list_ex P vs \<Longrightarrow> i \<le> first_at i P vs"
proof (induction vs arbitrary: i)
  case (Cons v vs)
  show ?case using Cons.prems order_trans [OF _ Cons.IH, of i "i + 1"] by auto
qed simp

lemma last_at_none: "\<not> list_ex P vs \<Longrightarrow> last_at i P vs d = d"
  by (induction vs arbitrary: i d) auto

lemma last_at_ge: "list_ex P vs \<Longrightarrow> i \<le> last_at i P vs d"
proof (induction vs arbitrary: i d)
  case (Cons v vs)
  show ?case
    using Cons.prems order_trans [OF _ Cons.IH, of i "i + 1"] by (cases "list_ex P vs") (simp_all add: last_at_none)
qed simp

lemma later_index:
  "list_ex P vs \<Longrightarrow> list_ex Q vs \<Longrightarrow> first_at i P vs < last_at i Q vs d \<longleftrightarrow> later P Q vs"
proof (induction vs arbitrary: i d)
  case (Cons v vs)
  show ?case
  proof (cases "list_ex Q vs")
    case True
    then have "i < last_at (i + 1) Q vs d'" for d' using last_at_ge [of Q vs "i + 1" d'] by simp
    then show ?thesis using Cons True by auto
  next
    case False
    have "i \<le> first_at i P (v # vs)" using Cons.prems(1) by (rule first_at_ge)
    moreover have "\<not> later P Q vs" using False by (induction vs) auto
    ultimately show ?thesis using Cons.prems False by (simp add: last_at_none)
  qed
qed simp

lemma precedes_index:
  "list_ex P vs \<Longrightarrow> list_ex Q vs \<Longrightarrow> first_at i P vs < first_at i Q vs \<longleftrightarrow> precedes P Q vs"
proof (induction vs arbitrary: i)
  case (Cons v vs)
  have "i < first_at (i + 1) R vs" if "list_ex R vs" for R using first_at_ge [OF that, of "i + 1"] by simp
  moreover have "\<not> precedes P Q vs" if "\<not> list_ex Q vs" using that by (induction vs) auto
  ultimately show ?case using Cons by (auto simp: not_less intro: order.strict_implies_order)
qed simp

lemma telecom_scan_fields:
  assumes "0 \<le> i"
  shows "hasCN2 (telecom_scan i vs st) = (hasCN2 st \<or> list_ex hop_cn2 vs)"
    and "hasCN2Core (telecom_scan i vs st) = (hasCN2Core st \<or> list_ex (\<lambda>v. hop_cn2 v \<and> HasPrefix (fst v) ''59.43.'') vs)"
    and "has163 (telecom_scan i vs st) = (has163 st \<or> list_ex hop_163 vs)"
    and "hasCTGNet (telecom_scan i vs st) = (hasCTGNet st \<or> list_ex hop_ctg vs)"
    and "cn2HopIndex (telecom_scan i vs st) = (if cn2HopIndex st = -1 then first_at i hop_cn2 vs else cn2HopIndex st)"
    and "last163Index (telecom_scan i vs st) = last_at i hop_163 vs (last163Index st)"
  using assms by (induction i vs st rule: telecom_scan.induct) (auto simp: telecom_hop_def Let_def)

lemma unicom_scan_fields:
  assumes "0 \<le> i"
  shows "has9929 (unicom_scan i vs st) = (has9929 st \<or> list_ex hop_9929 vs)"
    and "has10099 (unicom_scan i vs st) = (has10099 st \<or> list_ex hop_10099 vs)"
    and "has4837 (unicom_scan i vs st) = (has4837 st \<or> list_ex hop_4837 vs)"
    and "first9929 (unicom_scan i vs st) = (if first9929 st = -1 then first_at i hop_9929 vs else first9929 st)"
    and "first10099 (unicom_scan i vs st) = (if first10099 st = -1 then first_at i hop_10099 vs else first10099 st)"
    and "first4837 (unicom_scan i vs st) = (if first4837 st = -1 then first_at i hop_4837 vs else first4837 st)"
  using assms by (induction i vs st rule: unicom_scan.induct) (auto simp: unicom_hop_def Let_def)

lemma mobile_scan_fields:
  assumes "0 \<le> i"
  shows "hasCMIN2 (mobile_scan i vs st) = (hasCMIN2 st \<or> list_ex hop_cmin2 vs)"
    and "hasCMI (mobile_scan i vs st) = (hasCMI st \<or> list_ex hop_cmi vs)"
    and "hasCMNET (mobile_scan i vs st) = (hasCMNET st \<or> list_ex hop_cmnet vs)"
    and "firstCMIN2 (mobile_scan i vs st) = (if firstCMIN2 st = -1 then first_at i hop_cmin2 vs else firstCMIN2 st)"
    and "firstCMI (mobile_scan i vs st) = (if firstCMI st = -1 then first_at i hop_cmi vs else firstCMI st)"
  using assms by (induction i vs st rule: mobile_scan.induct) (auto simp: mobile_hop_def Let_def)


section \<open>Properties\<close>

text \<open>The label, read off the order in which the route touches the networks.\<close>

definition telecom_spec :: "vhop list \<Rightarrow> string option" where
  "telecom_spec vs =
     (if list_ex hop_cn2 vs then
        Some (telecom_prefix @
          (if later hop_cn2 hop_163 vs then ''CN2 GT''
           else if list_ex (\<lambda>v. HasPrefix (fst v) ''59.43.'') vs then ''CN2 GIA'' else ''CN2''))
      else if list_ex hop_ctg vs then Some (telecom_prefix @ (if list_ex hop_163 vs then ''CTGNet->163'' else ''CTGNet''))
      else if list_ex hop_163 vs then Some (telecom_prefix @ ''163'') else None)"

definition unicom_spec :: "vhop list \<Rightarrow> string option" where
  "unicom_spec vs =
     (if list_ex hop_10099 vs then
        Some (unicom_prefix @
          (if precedes hop_10099 hop_9929 vs then ''10099->9929''
           else if precedes hop_10099 hop_4837 vs then ''10099->4837'' else ''10099''))
      else if list_ex hop_9929 vs then Some (unicom_prefix @ a_net)
      else if list_ex hop_4837 vs then Some (unicom_prefix @ ''4837 (169)'') else None)"

definition mobile_spec :: "vhop list \<Rightarrow> string option" where
  "mobile_spec vs =
     (if list_ex hop_cmin2 vs then
        Some (mobile_prefix @
          (if precedes hop_cmin2 hop_cmi vs then ''CMIN2->CMI''
           else if list_ex hop_cmnet vs then ''CMIN2->CMNET'' else ''CMIN2''))
      else if list_ex hop_cmi vs then Some (mobile_prefix @ (if list_ex hop_cmnet vs then ''CMI->CMNET'' else ''CMI''))
      else if list_ex hop_cmnet vs then Some (mobile_prefix @ ''CMNET'') else None)"

lemma later_ex: "later P Q vs \<Longrightarrow> list_ex P vs \<and> list_ex Q vs"
  by (induction vs) auto

lemma precedes_ex: "precedes P Q vs \<Longrightarrow> list_ex P vs \<and> list_ex Q vs"
  by (induction vs) (auto split: if_splits)

lemma core_is_cn2: "list_ex (\<lambda>v. hop_cn2 v \<and> HasPrefix (fst v) ''59.43.'') vs = list_ex (\<lambda>v. HasPrefix (fst v) ''59.43.'') vs"
  by (simp add: list_ex_iff hop_cn2_def isCN2IP_def any_prefix_def) blast

lemma telecom_label_spec: "telecom_label vs = telecom_spec vs"
  using later_index [of hop_cn2 vs hop_163 0 "-1"] later_ex [of hop_cn2 hop_163 vs]
  by (auto simp: telecom_label_def telecom_spec_def telecom_scan_fields Let_def core_is_cn2)

lemma unicom_label_spec: "unicom_label vs = unicom_spec vs"
  using precedes_index [of hop_10099 vs hop_9929 0] precedes_ex [of hop_10099 hop_9929 vs]
    precedes_index [of hop_10099 vs hop_4837 0] precedes_ex [of hop_10099 hop_4837 vs]
  by (auto simp: unicom_label_def unicom_spec_def unicom_scan_fields Let_def)

lemma mobile_label_spec: "mobile_label vs = mobile_spec vs"
  using precedes_index [of hop_cmin2 vs hop_cmi 0] precedes_ex [of hop_cmin2 hop_cmi vs]
  by (auto simp: mobile_label_def mobile_spec_def mobile_scan_fields Let_def)

definition route_spec :: "vhop list \<Rightarrow> string" where
  "route_spec vs =
     (case List.find (\<lambda>l. l \<noteq> None) [telecom_spec vs, unicom_spec vs, mobile_spec vs, cernet_label vs, carrier_label (map snd vs)] of
        Some (Some l) \<Rightarrow> l
      | _ \<Rightarrow> ''Standard IP Transit'')"

text \<open>
  C26: the label of a route depends only on the visible hops, their networks and the order in which the
  route touches them: the flags and first and last indices the loops keep give the label of the
  declarative reading, operator by operator in the code's order.
\<close>

theorem classify_route_spec:
  "ClassifyRoute hops =
     (if hops = [] then ''Unknown''
      else if visible_hops hops = [] then ''Timeout / Hidden'' else route_spec (visible_hops hops))"
  by (simp add: ClassifyRoute_def route_spec_def telecom_label_spec unicom_label_spec mobile_label_spec Let_def
      split: option.splits)

lemma as_nodes_ASN:
  "map ASN (as_nodes l hs) =
     (case remdups_adj (l # map (\<lambda>h. ''AS'' @ hop_asn h) (filter (\<lambda>h. hop_visible h \<and> hop_asn h \<notin> {'''', ''*'', ''0''}) hs)) of
        [] \<Rightarrow> [] | _ # rest \<Rightarrow> rest)"
proof (induction l hs rule: as_nodes.induct)
  case (2 l h hs)
  have c: "remdups_adj (l # x # xs) = (if l = x then remdups_adj (x # xs) else l # remdups_adj (x # xs))" for x xs
    by simp
  have n: "\<exists>rest. remdups_adj (x # xs) = x # rest" for x :: string and xs
    by (metis list.exhaust list.sel(1) remdups_adj_Nil_iff hd_remdups_adj list.distinct(1))
  show ?case
    using 2 n [of "''AS'' @ hop_asn h" "map (\<lambda>h. ''AS'' @ hop_asn h) (filter (\<lambda>h. hop_visible h \<and> hop_asn h \<notin> {'''', ''*'', ''0''}) hs)"]
    by (auto simp: Let_def split: if_splits)
qed simp

text \<open>
  the nodes of an AS path are the AS numbers of the visible hops that have one, in order, with
  adjacent repetitions merged and nothing else; so no two neighbours are equal, and the text is the
  nodes joined by arrows.
\<close>

theorem as_path_exact:
  "map ASN (snd (GenerateASPath hops)) =
     remdups_adj (map (\<lambda>h. ''AS'' @ hop_asn h) (filter (\<lambda>h. hop_visible h \<and> hop_asn h \<notin> {'''', ''*'', ''0''}) hops)) \<and>
   fst (GenerateASPath hops) = Join '' -> '' (map node_text (snd (GenerateASPath hops))) \<and>
   distinct_adj (map ASN (snd (GenerateASPath hops)))"
proof -
  let ?l = "map (\<lambda>h. ''AS'' @ hop_asn h) (filter (\<lambda>h. hop_visible h \<and> hop_asn h \<notin> {'''', ''*'', ''0''}) hops)"
  have "map ASN (snd (GenerateASPath hops)) = map ASN (as_nodes '''' hops)"
    by (simp add: GenerateASPath_def Let_def)
  also have "\<dots> = remdups_adj ?l"
    unfolding as_nodes_ASN by (cases ?l) auto
  finally show ?thesis
    by (simp add: distinct_adj_remdups_adj) (simp add: GenerateASPath_def Let_def)
qed

end
