(* ===== verification/Reports.thy ===== *)
theory Reports
  imports Protocol
begin

text \<open>
  The reports a probe sends and the answer to its registration, \<^verbatim>\<open>shared/protocol/message.go\<close>. The RFC 3339
  text of a \<^verbatim>\<open>time.Time\<close> is left abstract: \<open>fmt\<close> prints a time, \<open>parse\<close> reads one (\<open>None\<close> for an error).
\<close>

record RegisterResponse =
  Success :: bool
  rr_AgentID :: string
  rr_Message :: string

definition enc_RegisterResponse :: "RegisterResponse \<Rightarrow> json" where
  "enc_RegisterResponse r = JObj ((''success'', JBool (Success r)) # omit_str ''agent_id'' (rr_AgentID r)
     @ omit_str ''message'' (rr_Message r))"

definition dec_RegisterResponse :: "json \<Rightarrow> RegisterResponse option" where
  "dec_RegisterResponse = dec_struct (\<lambda>k v r.
       if k = ''success'' then map_option (\<lambda>b. r\<lparr>Success := b\<rparr>) (dec_bool (Success r) v)
       else if k = ''agent_id'' then map_option (\<lambda>s. r\<lparr>rr_AgentID := s\<rparr>) (dec_string (rr_AgentID r) v)
       else if k = ''message'' then map_option (\<lambda>s. r\<lparr>rr_Message := s\<rparr>) (dec_string (rr_Message r) v)
       else Some r)
     \<lparr>Success = False, rr_AgentID = '''', rr_Message = ''''\<rparr>"

fun dec_time :: "(string \<Rightarrow> int option option) \<Rightarrow> int option \<Rightarrow> json \<Rightarrow> int option option" where
  "dec_time parse old (JStr s) = parse s"
| "dec_time parse old JNull = Some old"
| "dec_time parse old _ = None"

definition zero_SinglePingResult :: SinglePingResult where
  "zero_SinglePingResult = \<lparr>TargetID = '''', TargetHost = '''', Timestamp = None, PacketsSent = 0, PacketsRecv = 0,
     LossPct = 0, MinRTT = 0, MaxRTT = 0, AvgRTT = 0, Jitter = 0, StdDev = 0, ErrorMsg = ''''\<rparr>"

definition enc_SinglePingResult :: "(int option \<Rightarrow> string) \<Rightarrow> SinglePingResult \<Rightarrow> json" where
  "enc_SinglePingResult fmt r = JObj ([(''target_id'', JStr (TargetID r)), (''target_host'', JStr (TargetHost r)),
     (''timestamp'', JStr (fmt (Timestamp r))), (''packets_sent'', JNum (of_int (PacketsSent r))),
     (''packets_recv'', JNum (of_int (PacketsRecv r))), (''loss_pct'', JNum (LossPct r)), (''min_rtt_ms'', JNum (MinRTT r)),
     (''max_rtt_ms'', JNum (MaxRTT r)), (''avg_rtt_ms'', JNum (AvgRTT r)), (''jitter_ms'', JNum (Jitter r)),
     (''std_dev_ms'', JNum (StdDev r))] @ omit_str ''error_msg'' (ErrorMsg r))"

definition dec_SinglePingResult :: "(string \<Rightarrow> int option option) \<Rightarrow> json \<Rightarrow> SinglePingResult option" where
  "dec_SinglePingResult parse = dec_struct (\<lambda>k v r.
       if k = ''target_id'' then map_option (\<lambda>s. r\<lparr>TargetID := s\<rparr>) (dec_string (TargetID r) v)
       else if k = ''target_host'' then map_option (\<lambda>s. r\<lparr>TargetHost := s\<rparr>) (dec_string (TargetHost r) v)
       else if k = ''timestamp'' then map_option (\<lambda>t. r\<lparr>Timestamp := t\<rparr>) (dec_time parse (Timestamp r) v)
       else if k = ''packets_sent'' then map_option (\<lambda>n. r\<lparr>PacketsSent := n\<rparr>) (dec_int 64 (PacketsSent r) v)
       else if k = ''packets_recv'' then map_option (\<lambda>n. r\<lparr>PacketsRecv := n\<rparr>) (dec_int 64 (PacketsRecv r) v)
       else if k = ''loss_pct'' then map_option (\<lambda>f. r\<lparr>LossPct := f\<rparr>) (dec_float (LossPct r) v)
       else if k = ''min_rtt_ms'' then map_option (\<lambda>f. r\<lparr>MinRTT := f\<rparr>) (dec_float (MinRTT r) v)
       else if k = ''max_rtt_ms'' then map_option (\<lambda>f. r\<lparr>MaxRTT := f\<rparr>) (dec_float (MaxRTT r) v)
       else if k = ''avg_rtt_ms'' then map_option (\<lambda>f. r\<lparr>AvgRTT := f\<rparr>) (dec_float (AvgRTT r) v)
       else if k = ''jitter_ms'' then map_option (\<lambda>f. r\<lparr>Jitter := f\<rparr>) (dec_float (Jitter r) v)
       else if k = ''std_dev_ms'' then map_option (\<lambda>f. r\<lparr>StdDev := f\<rparr>) (dec_float (StdDev r) v)
       else if k = ''error_msg'' then map_option (\<lambda>s. r\<lparr>ErrorMsg := s\<rparr>) (dec_string (ErrorMsg r) v)
       else Some r)
     zero_SinglePingResult"

definition enc_PingReport :: "(int option \<Rightarrow> string) \<Rightarrow> PingReportPayload \<Rightarrow> json" where
  "enc_PingReport fmt p = JObj [(''agent_id'', JStr (rep_AgentID p)),
     (''results'', JArr (map (enc_SinglePingResult fmt) (Results p)))]"

definition dec_PingReport :: "(string \<Rightarrow> int option option) \<Rightarrow> json \<Rightarrow> PingReportPayload option" where
  "dec_PingReport parse = dec_struct (\<lambda>k v p.
       if k = ''agent_id'' then map_option (\<lambda>s. p\<lparr>rep_AgentID := s\<rparr>) (dec_string (rep_AgentID p) v)
       else if k = ''results'' then map_option (\<lambda>rs. p\<lparr>Results := rs\<rparr>) (dec_array (dec_SinglePingResult parse) v)
       else Some p)
     \<lparr>rep_AgentID = '''', Results = []\<rparr>"

definition enc_TracerouteHop :: "TracerouteHop \<Rightarrow> json" where
  "enc_TracerouteHop h = JObj ((''ttl'', JNum (of_int (TTL h))) # omit_str ''ip'' (hop_IP h) @ omit_str ''hostname'' (hop_Hostname h)
     @ [(''rtts_ms'', JArr (map JNum (RTTs h))), (''avg_rtt_ms'', JNum (hop_AvgRTT h)), (''loss_pct'', JNum (hop_LossPct h))])"

definition dec_TracerouteHop :: "json \<Rightarrow> TracerouteHop option" where
  "dec_TracerouteHop = dec_struct (\<lambda>k v h.
       if k = ''ttl'' then map_option (\<lambda>n. h\<lparr>TTL := n\<rparr>) (dec_int 64 (TTL h) v)
       else if k = ''ip'' then map_option (\<lambda>s. h\<lparr>hop_IP := s\<rparr>) (dec_string (hop_IP h) v)
       else if k = ''hostname'' then map_option (\<lambda>s. h\<lparr>hop_Hostname := s\<rparr>) (dec_string (hop_Hostname h) v)
       else if k = ''rtts_ms'' then map_option (\<lambda>fs. h\<lparr>RTTs := fs\<rparr>) (dec_array (dec_float 0) v)
       else if k = ''avg_rtt_ms'' then map_option (\<lambda>f. h\<lparr>hop_AvgRTT := f\<rparr>) (dec_float (hop_AvgRTT h) v)
       else if k = ''loss_pct'' then map_option (\<lambda>f. h\<lparr>hop_LossPct := f\<rparr>) (dec_float (hop_LossPct h) v)
       else Some h)
     \<lparr>TTL = 0, hop_IP = '''', hop_Hostname = '''', RTTs = [], hop_AvgRTT = 0, hop_LossPct = 0\<rparr>"

definition dec_TracerouteReport :: "(string \<Rightarrow> int option option) \<Rightarrow> json \<Rightarrow> TracerouteReportPayload option" where
  "dec_TracerouteReport parse = dec_struct (\<lambda>k v p.
       if k = ''agent_id'' then map_option (\<lambda>s. p\<lparr>tr_AgentID := s\<rparr>) (dec_string (tr_AgentID p) v)
       else if k = ''target_id'' then map_option (\<lambda>s. p\<lparr>tr_TargetID := s\<rparr>) (dec_string (tr_TargetID p) v)
       else if k = ''target_host'' then map_option (\<lambda>s. p\<lparr>tr_TargetHost := s\<rparr>) (dec_string (tr_TargetHost p) v)
       else if k = ''resolved_ip'' then map_option (\<lambda>s. p\<lparr>ResolvedIP := s\<rparr>) (dec_string (ResolvedIP p) v)
       else if k = ''timestamp'' then map_option (\<lambda>t. p\<lparr>tr_Timestamp := t\<rparr>) (dec_time parse (tr_Timestamp p) v)
       else if k = ''duration_ms'' then map_option (\<lambda>n. p\<lparr>DurationMs := n\<rparr>) (dec_int 64 (DurationMs p) v)
       else if k = ''reached'' then map_option (\<lambda>b. p\<lparr>Reached := b\<rparr>) (dec_bool (Reached p) v)
       else if k = ''hops'' then map_option (\<lambda>hs. p\<lparr>Hops := hs\<rparr>) (dec_array dec_TracerouteHop v)
       else Some p)
     \<lparr>tr_AgentID = '''', tr_TargetID = '''', tr_TargetHost = '''', ResolvedIP = '''', tr_Timestamp = None, DurationMs = 0,
      Reached = False, Hops = []\<rparr>"

definition enc_TracerouteReport :: "(int option \<Rightarrow> string) \<Rightarrow> TracerouteReportPayload \<Rightarrow> json" where
  "enc_TracerouteReport fmt p = JObj ([(''agent_id'', JStr (tr_AgentID p))] @ omit_str ''target_id'' (tr_TargetID p) @
     [(''target_host'', JStr (tr_TargetHost p)), (''resolved_ip'', JStr (ResolvedIP p)),
      (''timestamp'', JStr (fmt (tr_Timestamp p))), (''duration_ms'', JNum (of_int (DurationMs p))),
      (''reached'', JBool (Reached p)), (''hops'', JArr (map enc_TracerouteHop (Hops p)))])"

section \<open>Round trips\<close>

lemma fold_key_report_names [simp]:
  "fold_key ''success'' = ''success''" "fold_key ''message'' = ''message''" "fold_key ''target_id'' = ''target_id''"
  "fold_key ''target_host'' = ''target_host''" "fold_key ''timestamp'' = ''timestamp''"
  "fold_key ''packets_sent'' = ''packets_sent''" "fold_key ''packets_recv'' = ''packets_recv''"
  "fold_key ''loss_pct'' = ''loss_pct''" "fold_key ''min_rtt_ms'' = ''min_rtt_ms''" "fold_key ''max_rtt_ms'' = ''max_rtt_ms''"
  "fold_key ''avg_rtt_ms'' = ''avg_rtt_ms''" "fold_key ''jitter_ms'' = ''jitter_ms''" "fold_key ''std_dev_ms'' = ''std_dev_ms''"
  "fold_key ''error_msg'' = ''error_msg''" "fold_key ''results'' = ''results''" "fold_key ''ttl'' = ''ttl''"
  "fold_key ''ip'' = ''ip''" "fold_key ''rtts_ms'' = ''rtts_ms''"
  "fold_key ''resolved_ip'' = ''resolved_ip''" "fold_key ''duration_ms'' = ''duration_ms''"
  "fold_key ''reached'' = ''reached''" "fold_key ''hops'' = ''hops''"
  by code_simp+

lemma dec_enc_RegisterResponse: "dec_RegisterResponse (enc_RegisterResponse r) = Some r"
  by (simp add: dec_RegisterResponse_def enc_RegisterResponse_def any_obj_def omit_str_def)

text \<open>A value a probe can hold: counts within 53 bits and numbers that are \<^verbatim>\<open>float64\<close> values.\<close>

definition is_float :: "rat \<Rightarrow> bool" where
  "is_float f \<longleftrightarrow> rnd f = f"

definition ping_ok :: "SinglePingResult \<Rightarrow> bool" where
  "ping_ok r \<longleftrightarrow> \<bar>PacketsSent r\<bar> \<le> 2 ^ 53 \<and> \<bar>PacketsRecv r\<bar> \<le> 2 ^ 53 \<and> is_float (LossPct r) \<and> is_float (MinRTT r)
     \<and> is_float (MaxRTT r) \<and> is_float (AvgRTT r) \<and> is_float (Jitter r) \<and> is_float (StdDev r)"

lemma dec_enc_SinglePingResult:
  assumes "\<And>t. parse (fmt t) = Some t" and "ping_ok r"
  shows "dec_SinglePingResult parse (enc_SinglePingResult fmt r) = Some r"
proof -
  have i: "dec_int 64 0 (JNum (of_int (PacketsSent r))) = Some (PacketsSent r)"
    "dec_int 64 0 (JNum (of_int (PacketsRecv r))) = Some (PacketsRecv r)"
    using assms(2) by (auto simp: ping_ok_def intro!: dec_int_exact simp del: dec_int.simps)
  have f: "rnd (LossPct r) = LossPct r" "rnd (MinRTT r) = MinRTT r" "rnd (MaxRTT r) = MaxRTT r"
    "rnd (AvgRTT r) = AvgRTT r" "rnd (Jitter r) = Jitter r" "rnd (StdDev r) = StdDev r"
    using assms(2) by (simp_all add: ping_ok_def is_float_def)
  show ?thesis
    by (simp add: dec_SinglePingResult_def enc_SinglePingResult_def zero_SinglePingResult_def any_obj_def omit_str_def
        assms(1) i f del: dec_int.simps)
qed

lemma dec_enc_PingReport:
  assumes "\<And>t. parse (fmt t) = Some t" and "list_all ping_ok (Results p)"
  shows "dec_PingReport parse (enc_PingReport fmt p) = Some p"
  using assms
  by (simp add: dec_PingReport_def enc_PingReport_def any_obj_def dec_each_map dec_enc_SinglePingResult list_all_iff)

definition hop_floats :: "TracerouteHop \<Rightarrow> bool" where
  "hop_floats h \<longleftrightarrow> \<bar>TTL h\<bar> \<le> 2 ^ 53 \<and> list_all is_float (RTTs h) \<and> is_float (hop_AvgRTT h) \<and> is_float (hop_LossPct h)"

lemma dec_enc_TracerouteHop:
  assumes "hop_floats h" shows "dec_TracerouteHop (enc_TracerouteHop h) = Some h"
proof -
  have i: "dec_int 64 0 (JNum (of_int (TTL h))) = Some (TTL h)"
    using assms by (auto simp: hop_floats_def intro!: dec_int_exact simp del: dec_int.simps)
  have f: "rnd (hop_AvgRTT h) = hop_AvgRTT h" "rnd (hop_LossPct h) = hop_LossPct h"
    using assms by (simp_all add: hop_floats_def is_float_def)
  have r: "dec_each (dec_float 0) (map JNum (RTTs h)) = Some (RTTs h)"
    using assms by (intro dec_each_map) (auto simp: hop_floats_def is_float_def list_all_iff)
  show ?thesis
    by (simp add: dec_TracerouteHop_def enc_TracerouteHop_def any_obj_def omit_str_def i f r del: dec_int.simps)
qed

lemma dec_enc_TracerouteReport:
  assumes "\<And>t. parse (fmt t) = Some t" and "list_all hop_floats (Hops p)" and "\<bar>DurationMs p\<bar> \<le> 2 ^ 53"
  shows "dec_TracerouteReport parse (enc_TracerouteReport fmt p) = Some p"
proof -
  have i: "dec_int 64 0 (JNum (of_int (DurationMs p))) = Some (DurationMs p)"
    using assms(3) by (auto intro!: dec_int_exact simp del: dec_int.simps)
  have h: "dec_each dec_TracerouteHop (map enc_TracerouteHop (Hops p)) = Some (Hops p)"
    using assms(2) by (intro dec_each_map) (simp add: dec_enc_TracerouteHop list_all_iff)
  show ?thesis
    by (simp add: dec_TracerouteReport_def enc_TracerouteReport_def any_obj_def omit_str_def i h assms(1) del: dec_int.simps)
qed

end
