(* ===== verification/Go_Net.thy ===== *)
theory Go_Net
  imports Go_Encoding
begin

text \<open>
  IP addresses as Go's \<^verbatim>\<open>net\<close> package has them: sixteen bytes, an IPv4 address in its IPv4-mapped form. Parsing
  (\<^verbatim>\<open>net.ParseIP\<close>), printing (\<^verbatim>\<open>IP.String\<close>) and the classes of addresses the program asks about, with the round trip.
\<close>

type_synonym ip = "int list"

section \<open>Classes\<close>

definition v4_mapped :: "int list \<Rightarrow> ip" where
  "v4_mapped b = replicate 10 0 @ [255, 255] @ b"

definition To4 :: "ip \<Rightarrow> int list option" where
  "To4 p = (if take 12 p = replicate 10 0 @ [255, 255] then Some (drop 12 p) else None)"

definition IsUnspecified :: "ip \<Rightarrow> bool" where
  "IsUnspecified p \<longleftrightarrow> p = v4_mapped [0, 0, 0, 0] \<or> p = replicate 16 0"

definition IsLoopback :: "ip \<Rightarrow> bool" where
  "IsLoopback p = (case To4 p of Some b \<Rightarrow> b ! 0 = 127 | None \<Rightarrow> p = replicate 15 0 @ [1])"

definition IsPrivate :: "ip \<Rightarrow> bool" where
  "IsPrivate p = (case To4 p of
     Some b \<Rightarrow> b ! 0 = 10 \<or> b ! 0 = 172 \<and> b ! 1 div 16 = 1 \<or> b ! 0 = 192 \<and> b ! 1 = 168
   | None \<Rightarrow> p ! 0 div 2 = 126)"

definition IsMulticast :: "ip \<Rightarrow> bool" where
  "IsMulticast p = (case To4 p of Some b \<Rightarrow> b ! 0 div 16 = 14 | None \<Rightarrow> p ! 0 = 255)"

definition IsLinkLocalMulticast :: "ip \<Rightarrow> bool" where
  "IsLinkLocalMulticast p = (case To4 p of
     Some b \<Rightarrow> b ! 0 = 224 \<and> b ! 1 = 0 \<and> b ! 2 = 0 | None \<Rightarrow> p ! 0 = 255 \<and> p ! 1 mod 16 = 2)"

definition IsLinkLocalUnicast :: "ip \<Rightarrow> bool" where
  "IsLinkLocalUnicast p = (case To4 p of
     Some b \<Rightarrow> b ! 0 = 169 \<and> b ! 1 = 254 | None \<Rightarrow> p ! 0 = 254 \<and> p ! 1 div 64 = 2)"

section \<open>Parsing\<close>

text \<open>One decimal field: digits without a leading zero, at most 255.\<close>

definition v4_field :: "string \<Rightarrow> int option" where
  "v4_field f =
     (if f = [] \<or> \<not> list_all is_digit f \<or> (1 < length f \<and> hd f = CHR ''0'') then None
      else case parse_uint 0 f of Inr n \<Rightarrow> if n \<le> 255 then Some n else None | Inl e \<Rightarrow> None)"

definition parseIPv4Fields :: "string \<Rightarrow> int list option" where
  "parseIPv4Fields s =
     (case map v4_field (Split (CHR ''.'') s) of
        [Some a, Some b, Some c, Some d] \<Rightarrow> Some [a, b, c, d]
      | _ \<Rightarrow> None)"

definition hex_val :: "char \<Rightarrow> int option" where
  "hex_val c =
     (let n = of_char c :: int
      in if 48 \<le> n \<and> n \<le> 57 then Some (n - 48) else if 97 \<le> n \<and> n \<le> 102 then Some (n - 87)
         else if 65 \<le> n \<and> n \<le> 70 then Some (n - 55) else None)"

definition is_hex :: "char \<Rightarrow> bool" where
  "is_hex c \<longleftrightarrow> hex_val c \<noteq> None"

definition hex_num :: "string \<Rightarrow> int" where
  "hex_num ds = foldl (\<lambda>a c. a * 16 + (case hex_val c of Some v \<Rightarrow> v | None \<Rightarrow> 0)) 0 ds"

text \<open>
  The loop of the IPv6 parser: the bytes so far, where the ellipsis was, and the rest of the text. An address may
  end in four decimal fields.
\<close>

function parse6 :: "int list \<Rightarrow> nat option \<Rightarrow> string \<Rightarrow> (int list \<times> nat option) option" where
  "parse6 bs ell s =
     (if length bs \<ge> 16 then (if s = [] then Some (bs, ell) else None)
      else let ds = takeWhile is_hex s; t = dropWhile is_hex s
           in if ds = [] \<or> length ds > 4 then None
              else if t \<noteq> [] \<and> hd t = CHR ''.'' then
                (if ell = None \<and> length bs \<noteq> 12 \<or> length bs + 4 > 16 then None
                 else case parseIPv4Fields s of None \<Rightarrow> None | Some f \<Rightarrow> Some (bs @ f, ell))
              else let bs' = bs @ [hex_num ds div 256, hex_num ds mod 256]
                   in if t = [] then Some (bs', ell)
                      else if hd t \<noteq> CHR '':'' \<or> tl t = [] then None
                      else if hd (tl t) = CHR '':'' then
                        (if ell \<noteq> None then None
                         else if tl (tl t) = [] then Some (bs', Some (length bs'))
                         else parse6 bs' (Some (length bs')) (tl (tl t)))
                      else parse6 bs' ell (tl t))"
  by pat_completeness auto

termination
proof (relation "measure (\<lambda>(bs, ell, s). length s)", goal_cases)
  case (2 bs ell s ds t bs')
  then have "length t \<le> length s" "t \<noteq> []" by (auto simp: length_dropWhile_le)
  then show ?case by (cases t) auto
next
  case (3 bs ell s ds t bs')
  then have "length t \<le> length s" "t \<noteq> []" by (auto simp: length_dropWhile_le)
  then show ?case by (cases t) auto
qed simp

declare parse6.simps [simp del]

definition expand6 :: "int list \<times> nat option \<Rightarrow> ip option" where
  "expand6 r =
     (case r of (bs, ell) \<Rightarrow>
        if length bs < 16 then
          (case ell of None \<Rightarrow> None | Some e \<Rightarrow> Some (take e bs @ replicate (16 - length bs) 0 @ drop e bs))
        else if ell \<noteq> None then None else Some bs)"

definition parseIPv6 :: "string \<Rightarrow> ip option" where
  "parseIPv6 s =
     (if CHR ''%'' \<in> set s then None
      else if HasPrefix s ''::'' then
        (if drop 2 s = [] then Some (replicate 16 0) else Option.bind (parse6 [] (Some 0) (drop 2 s)) expand6)
      else Option.bind (parse6 [] None s) expand6)"

definition ParseIP :: "string \<Rightarrow> ip option" where
  "ParseIP s =
     (case List.find (\<lambda>c. c \<in> set ''.:%'') s of
        None \<Rightarrow> None
      | Some c \<Rightarrow>
          if c = CHR ''.'' then map_option v4_mapped (parseIPv4Fields s)
          else if c = CHR '':'' then parseIPv6 s else None)"

section \<open>Printing\<close>

definition hex16 :: "int \<Rightarrow> string" where
  "hex16 n =
     (if n \<ge> 4096 then [hex_char (n div 4096)] else []) @ (if n \<ge> 256 then [hex_char (n div 256 mod 16)] else []) @
     (if n \<ge> 16 then [hex_char (n div 16 mod 16)] else []) @ [hex_char (n mod 16)]"

fun groups :: "int list \<Rightarrow> int list" where
  "groups (a # b # r) = (a * 256 + b) # groups r"
| "groups r = []"

definition zero_run :: "int list \<Rightarrow> nat \<Rightarrow> nat" where
  "zero_run gs i = length (takeWhile (\<lambda>g. g = 0) (drop i gs))"

text \<open>The first of the longest runs of at least two zero groups: where it starts and how long it is.\<close>

definition longest_run :: "int list \<Rightarrow> (nat \<times> nat) option" where
  "longest_run gs =
     foldl (\<lambda>best i. if zero_run gs i \<ge> 2 \<and> zero_run gs i > (case best of None \<Rightarrow> 0 | Some (s, l) \<Rightarrow> l)
        then Some (i, zero_run gs i) else best) None [0..<length gs]"

definition string6 :: "ip \<Rightarrow> string" where
  "string6 p =
     (let gs = groups p
      in case longest_run gs of
           None \<Rightarrow> Join '':'' (map hex16 gs)
         | Some (s, l) \<Rightarrow> Join '':'' (map hex16 (take s gs)) @ ''::'' @ Join '':'' (map hex16 (drop (s + l) gs)))"

definition IP_String :: "ip \<Rightarrow> string" where
  "IP_String p = (case To4 p of Some b \<Rightarrow> Join ''.'' (map Itoa b) | None \<Rightarrow> string6 p)"

definition ip_wf :: "ip \<Rightarrow> bool" where
  "ip_wf p \<longleftrightarrow> length p = 16 \<and> list_all (\<lambda>b. 0 \<le> b \<and> b < 256) p"

section \<open>Reading back what was printed\<close>

lemma hex_char_val:
  assumes "0 \<le> k" "k < 16" shows "hex_val (hex_char k) = Some k"
proof (cases "k < 10")
  case True
  then show ?thesis using assms by (simp add: hex_char_def hex_val_def Let_def)
next
  case False
  then show ?thesis using assms by (simp add: hex_char_def hex_val_def Let_def)
qed

lemma hex_char_is_hex: "0 \<le> k \<Longrightarrow> k < 16 \<Longrightarrow> is_hex (hex_char k)"
  by (simp add: is_hex_def hex_char_val)

lemma hex16_digits: "0 \<le> n \<Longrightarrow> n < 65536 \<Longrightarrow> list_all is_hex (hex16 n)"
  by (auto simp: hex16_def hex_char_is_hex)

lemma hex16_length: "hex16 n \<noteq> [] \<and> length (hex16 n) \<le> 4"
  by (simp add: hex16_def)

lemma hex16_num:
  assumes "0 \<le> n" "n < 65536" shows "hex_num (hex16 n) = n"
proof -
  have e: "16 * (n div 16) + n mod 16 = n" "16 * (n div 256) + n div 16 mod 16 = n div 16"
    "16 * (n div 4096) + n div 256 mod 16 = n div 256"
    using zdiv_zmult2_eq [of 16 n 16] zdiv_zmult2_eq [of 16 n 256] mult_div_mod_eq [of 16 n]
      mult_div_mod_eq [of 16 "n div 16"] mult_div_mod_eq [of 16 "n div 256"] zdiv_zmult2_eq [of 16 n 256]
    by (simp_all add: zdiv_zmult2_eq [of 256 n 16, simplified, symmetric] zdiv_zmult2_eq [of 16 n 16, simplified, symmetric])
  show ?thesis using assms by (auto simp: hex16_def hex_num_def hex_char_val) (use e in linarith)+
qed

lemma not_hex: "\<not> is_hex (CHR '':'')" "\<not> is_hex (CHR ''.'')" "\<not> is_hex (CHR ''%'')"
  by (simp_all add: is_hex_def hex_val_def)

lemma takeWhile_hex16:
  "0 \<le> n \<Longrightarrow> n < 65536 \<Longrightarrow> takeWhile is_hex (hex16 n @ CHR '':'' # s) = hex16 n \<and> dropWhile is_hex (hex16 n @ CHR '':'' # s) = CHR '':'' # s"
  "0 \<le> n \<Longrightarrow> n < 65536 \<Longrightarrow> takeWhile is_hex (hex16 n) = hex16 n \<and> dropWhile is_hex (hex16 n) = []"
  using hex16_digits [of n] not_hex by (auto simp: list_all_iff takeWhile_append dropWhile_append3)

fun bytes6 :: "int list \<Rightarrow> int list" where
  "bytes6 [] = []"
| "bytes6 (g # gs) = g div 256 # g mod 256 # bytes6 gs"

lemma length_bytes6 [simp]: "length (bytes6 gs) = 2 * length gs"
  by (induction gs) simp_all

definition group_list :: "int list \<Rightarrow> bool" where
  "group_list gs \<longleftrightarrow> list_all (\<lambda>g. 0 \<le> g \<and> g < 65536) gs"

lemma group_list_simps [simp]: "group_list []" "group_list (g # gs) \<longleftrightarrow> 0 \<le> g \<and> g < 65536 \<and> group_list gs"
  by (auto simp: group_list_def)

lemma hex16_not_colon: "0 \<le> n \<Longrightarrow> n < 65536 \<Longrightarrow> hd (hex16 n @ s) \<noteq> CHR '':''"
  using hex16_digits [of n] hex16_length [of n] not_hex by (cases "hex16 n") auto

text \<open>The loop over the last groups, and over groups followed by the ellipsis.\<close>

lemma parse6_last:
  "0 \<le> g \<Longrightarrow> g < 65536 \<Longrightarrow> length bs < 16 \<Longrightarrow> parse6 bs ell (hex16 g) = Some (bs @ [g div 256, g mod 256], ell)"
  using hex16_length [of g] by (simp add: parse6.simps [of bs ell "hex16 g"] takeWhile_hex16 hex16_num Let_def)

lemma parse6_step:
  assumes "0 \<le> g" "g < 65536" "length bs < 16" "s \<noteq> []" "hd s \<noteq> CHR '':''"
  shows "parse6 bs ell (hex16 g @ CHR '':'' # s) = parse6 (bs @ [g div 256, g mod 256]) ell s"
  using assms hex16_length [of g]
  by (simp add: parse6.simps [of bs ell "hex16 g @ CHR '':'' # s"] takeWhile_hex16 hex16_num Let_def)

lemma parse6_ellipsis:
  assumes "0 \<le> g" "g < 65536" "length bs < 16"
  shows "parse6 bs None (hex16 g @ ''::'' @ s) =
    (if s = [] then Some (bs @ [g div 256, g mod 256], Some (length bs + 2)) else parse6 (bs @ [g div 256, g mod 256]) (Some (length bs + 2)) s)"
  using assms hex16_length [of g]
  by (simp add: parse6.simps [of bs None "hex16 g @ CHR '':'' # CHR '':'' # s"] takeWhile_hex16 hex16_num Let_def)

lemma Join_hex_nonempty: "gs \<noteq> [] \<Longrightarrow> Join '':'' (map hex16 gs) \<noteq> []"
  using hex16_length by (cases gs rule: list.exhaust; cases "tl gs") auto

lemma Join_hex_hd: "gs \<noteq> [] \<Longrightarrow> group_list gs \<Longrightarrow> hd (Join '':'' (map hex16 gs) @ s) \<noteq> CHR '':''"
proof (cases gs)
  case (Cons g r)
  assume "group_list gs"
  then have "hd (hex16 g @ t) \<noteq> CHR '':''" for t using hex16_not_colon [of g] Cons by simp
  then show ?thesis using Cons by (cases r) (auto simp: append_assoc)
qed simp

lemma parse6_groups:
  "gs \<noteq> [] \<Longrightarrow> group_list gs \<Longrightarrow> length bs + 2 * length gs \<le> 16 \<Longrightarrow>
   parse6 bs ell (Join '':'' (map hex16 gs)) = Some (bs @ bytes6 gs, ell)"
proof (induction gs arbitrary: bs)
  case (Cons g gs)
  show ?case
  proof (cases gs)
    case Nil
    then show ?thesis using Cons.prems by (simp add: parse6_last)
  next
    case (Cons h r)
    have "parse6 bs ell (hex16 g @ CHR '':'' # Join '':'' (map hex16 gs)) = parse6 (bs @ [g div 256, g mod 256]) ell (Join '':'' (map hex16 gs))"
      using Cons.prems Cons Join_hex_nonempty [of gs] Join_hex_hd [of gs "[]"] by (intro parse6_step) simp_all
    then show ?thesis using Cons Cons.IH [of "bs @ [g div 256, g mod 256]"] Cons.prems by simp
  qed
qed simp

lemma parse6_groups_ellipsis:
  "gs \<noteq> [] \<Longrightarrow> group_list gs \<Longrightarrow> length bs + 2 * length gs \<le> 16 \<Longrightarrow>
   parse6 bs None (Join '':'' (map hex16 gs) @ ''::'' @ s) =
     (if s = [] then Some (bs @ bytes6 gs, Some (length bs + 2 * length gs))
      else parse6 (bs @ bytes6 gs) (Some (length bs + 2 * length gs)) s)"
proof (induction gs arbitrary: bs)
  case (Cons g gs)
  show ?case
  proof (cases gs)
    case Nil
    then show ?thesis using Cons.prems parse6_ellipsis [of g bs s] by simp
  next
    case (Cons h r)
    have "parse6 bs None (hex16 g @ CHR '':'' # (Join '':'' (map hex16 gs) @ ''::'' @ s)) =
        parse6 (bs @ [g div 256, g mod 256]) None (Join '':'' (map hex16 gs) @ ''::'' @ s)"
      using Cons.prems Cons Join_hex_nonempty [of gs] Join_hex_hd [of gs "''::'' @ s"] by (intro parse6_step) simp_all
    then show ?thesis using Cons Cons.IH [of "bs @ [g div 256, g mod 256]"] Cons.prems by simp
  qed
qed simp

lemma groups_bytes:
  "even (length p) \<Longrightarrow> list_all (\<lambda>b. 0 \<le> b \<and> b < 256) p \<Longrightarrow> bytes6 (groups p) = p \<and> group_list (groups p) \<and> 2 * length (groups p) = length p"
  by (induction p rule: groups.induct) auto

lemma zero_run_zeros: "take (zero_run gs i) (drop i gs) = replicate (zero_run gs i) 0" "i \<le> length gs \<Longrightarrow> i + zero_run gs i \<le> length gs"
proof -
  have "take (length (takeWhile (\<lambda>g. g = 0) xs)) xs = replicate (length (takeWhile (\<lambda>g. g = 0) xs)) 0" for xs :: "int list"
    by (induction xs) simp_all
  then show "take (zero_run gs i) (drop i gs) = replicate (zero_run gs i) 0" by (simp add: zero_run_def)
  show "i \<le> length gs \<Longrightarrow> i + zero_run gs i \<le> length gs"
    using length_takeWhile_le [of "\<lambda>g. g = 0" "drop i gs"] by (simp add: zero_run_def)
qed

definition is_run :: "int list \<Rightarrow> (nat \<times> nat) option \<Rightarrow> bool" where
  "is_run gs r = (case r of None \<Rightarrow> True
     | Some (s, l) \<Rightarrow> 2 \<le> l \<and> s + l \<le> length gs \<and> take l (drop s gs) = replicate l 0)"

lemma longest_run_is_run: "is_run gs (longest_run gs)"
proof -
  let ?f = "\<lambda>best i. if zero_run gs i \<ge> 2 \<and> zero_run gs i > (case best of None \<Rightarrow> 0 | Some (s, l) \<Rightarrow> l) then Some (i, zero_run gs i) else best"
  have "list_all (\<lambda>i. i \<le> length gs) js \<Longrightarrow> is_run gs best \<Longrightarrow> is_run gs (foldl ?f best js)" for js best
    by (induction js arbitrary: best) (auto simp: is_run_def zero_run_zeros split: option.splits)
  then show ?thesis unfolding longest_run_def by (simp add: list_all_iff is_run_def)
qed

lemma bytes6_append: "bytes6 (a @ b) = bytes6 a @ bytes6 b"
  by (induction a) simp_all

lemma bytes6_zeros: "bytes6 (replicate l 0) = replicate (2 * l) 0"
  by (induction l) simp_all

lemma group_list_take: "group_list gs \<Longrightarrow> group_list (take s gs) \<and> group_list (drop s gs)"
  using set_take_subset [of s gs] set_drop_subset [of s gs] by (auto simp: group_list_def list_all_iff)

lemma Join_hex_chars: "group_list gs \<Longrightarrow> c \<in> set (Join '':'' (map hex16 gs)) \<Longrightarrow> is_hex c \<or> c = CHR '':''"
proof (induction "'':''" "map hex16 gs" arbitrary: gs rule: Join.induct)
  case (2 p)
  then obtain g where "gs = [g]" by (cases gs rule: list.exhaust) auto
  then show ?case using 2 hex16_digits [of g] by (auto simp: list_all_iff)
next
  case (3 p q ps)
  then obtain g h r where g: "gs = g # h # r" by (cases gs; cases "tl gs") auto
  then have "c \<in> set (hex16 g) \<or> c = CHR '':'' \<or> c \<in> set (Join '':'' (map hex16 (h # r)))" using 3 by auto
  then show ?case using 3(1) [of "h # r"] 3(2,3) g hex16_digits [of g] by (auto simp: list_all_iff)
qed simp

lemma string6_chars: "group_list (groups p) \<Longrightarrow> c \<in> set (string6 p) \<Longrightarrow> is_hex c \<or> c = CHR '':''"
  using Join_hex_chars [of "groups p" c] group_list_take [of "groups p"]
    Join_hex_chars [of "take _ (groups p)" c] Join_hex_chars [of "drop _ (groups p)" c]
  by (auto simp: string6_def Let_def split: option.splits)

lemma Join_two_sep: "2 \<le> length ps \<Longrightarrow> d \<in> set (Join [d] ps)"
  by (cases ps; cases "tl ps") auto

lemma string6_colon: "length (groups p) = 8 \<Longrightarrow> CHR '':'' \<in> set (string6 p)"
  using Join_two_sep [of "map hex16 (groups p)" "CHR '':''"] by (auto simp: string6_def Let_def split: option.splits)

lemma expand_run:
  assumes "length gs = 8" "2 \<le> l" "s + l \<le> 8" "take l (drop s gs) = replicate l 0"
  shows "expand6 (bytes6 (take s gs) @ bytes6 (drop (s + l) gs), Some (2 * s)) = Some (bytes6 gs)"
proof -
  have "gs = take s gs @ take l (drop s gs) @ drop (s + l) gs"
    by (metis append_take_drop_id drop_drop add.commute)
  then have gs: "bytes6 gs = bytes6 (take s gs) @ replicate (2 * l) 0 @ bytes6 (drop (s + l) gs)"
    using assms(4) by (metis bytes6_append bytes6_zeros)
  have "length (bytes6 (take s gs)) = 2 * s" "length (bytes6 (drop (s + l) gs)) = 16 - 2 * s - 2 * l" using assms by auto
  then show ?thesis using assms(2,3) by (simp add: expand6_def gs)
qed

lemma parseIPv6_string6:
  assumes "length gs = 8" "group_list gs"
  shows "Option.bind (parse6 [] None (Join '':'' (map hex16 gs))) expand6 = Some (bytes6 gs)"
    "2 \<le> l \<Longrightarrow> 0 < s \<Longrightarrow> s + l \<le> 8 \<Longrightarrow> take l (drop s gs) = replicate l 0 \<Longrightarrow>
       Option.bind (parse6 [] None (Join '':'' (map hex16 (take s gs)) @ ''::'' @ Join '':'' (map hex16 (drop (s + l) gs)))) expand6 = Some (bytes6 gs)"
    "2 \<le> l \<Longrightarrow> l < 8 \<Longrightarrow> take l gs = replicate l 0 \<Longrightarrow>
       Option.bind (parse6 [] (Some 0) (Join '':'' (map hex16 (drop l gs)))) expand6 = Some (bytes6 gs)"
proof -
  show "Option.bind (parse6 [] None (Join '':'' (map hex16 gs))) expand6 = Some (bytes6 gs)"
    using parse6_groups [of gs "[]" None] assms by (cases "gs = []") (auto simp: expand6_def)
  show "Option.bind (parse6 [] None (Join '':'' (map hex16 (take s gs)) @ ''::'' @ Join '':'' (map hex16 (drop (s + l) gs)))) expand6 = Some (bytes6 gs)"
    if r: "2 \<le> l" "0 < s" "s + l \<le> 8" "take l (drop s gs) = replicate l 0"
  proof -
    let ?rest = "Join '':'' (map hex16 (drop (s + l) gs))"
    have t: "take s gs \<noteq> []" "group_list (take s gs)" "length (take s gs) = s" "group_list (drop (s + l) gs)"
      using r assms group_list_take by auto
    have "parse6 [] None (Join '':'' (map hex16 (take s gs)) @ ''::'' @ ?rest) =
        Some (bytes6 (take s gs) @ bytes6 (drop (s + l) gs), Some (2 * s))"
    proof (cases "drop (s + l) gs = []")
      case True
      then show ?thesis using parse6_groups_ellipsis [of "take s gs" "[]" "[]"] t r by simp
    next
      case False
      then have "?rest \<noteq> []" using Join_hex_nonempty by blast
      then have "parse6 [] None (Join '':'' (map hex16 (take s gs)) @ ''::'' @ ?rest) =
          parse6 (bytes6 (take s gs)) (Some (2 * s)) ?rest"
        using parse6_groups_ellipsis [of "take s gs" "[]" ?rest] t r by simp
      then show ?thesis using parse6_groups [of "drop (s + l) gs" "bytes6 (take s gs)" "Some (2 * s)"] False t r assms by simp
    qed
    then show ?thesis using expand_run [of gs l s] r assms by simp
  qed
  show "Option.bind (parse6 [] (Some 0) (Join '':'' (map hex16 (drop l gs)))) expand6 = Some (bytes6 gs)"
    if r: "2 \<le> l" "l < 8" "take l gs = replicate l 0"
  proof -
    have "parse6 [] (Some 0) (Join '':'' (map hex16 (drop l gs))) = Some (bytes6 (drop l gs), Some 0)"
      using parse6_groups [of "drop l gs" "[]" "Some 0"] r assms group_list_take [of gs l] by simp
    then show ?thesis using expand_run [of gs l 0] r assms by simp
  qed
qed

lemma ParseIP_colon:
  assumes "\<And>c. c \<in> set s \<Longrightarrow> is_hex c \<or> c = CHR '':''" "CHR '':'' \<in> set s"
  shows "ParseIP s = parseIPv6 s"
proof -
  have nh: "c \<noteq> CHR ''.'' \<and> c \<noteq> CHR ''%''" if "c \<in> set s" for c using assms(1) [OF that] not_hex by auto
  then have "List.find (\<lambda>c. c \<in> set ''.:%'') s \<noteq> None" using assms(2) by (auto simp: find_None_iff)
  then obtain c where c: "List.find (\<lambda>c. c \<in> set ''.:%'') s = Some c" by blast
  with nh find_SomeD [OF c] have "c = CHR '':''" by auto
  then show ?thesis using c by (simp add: ParseIP_def)
qed

lemma ParseIP_v6:
  assumes "ip_wf p" shows "ParseIP (string6 p) = Some p"
proof -
  let ?gs = "groups p"
  have b: "bytes6 ?gs = p" "group_list ?gs" "length ?gs = 8" using groups_bytes [of p] assms by (auto simp: ip_wf_def)
  then have ne: "?gs \<noteq> []" by auto
  have pct: "CHR ''%'' \<notin> set (string6 p)" using string6_chars [OF b(2)] not_hex by fastforce
  have eq: "ParseIP (string6 p) = parseIPv6 (string6 p)"
    using string6_chars [OF b(2)] string6_colon [OF b(3)] by (rule ParseIP_colon)
  show ?thesis
  proof (cases "longest_run ?gs")
    case None
    then have s: "string6 p = Join '':'' (map hex16 ?gs)" by (simp add: string6_def)
    have "\<not> HasPrefix (string6 p) ''::''"
      using Join_hex_hd [of ?gs "[]"] b ne unfolding s by (cases "Join '':'' (map hex16 ?gs)") (auto simp: HasPrefix_def)
    then show ?thesis unfolding eq parseIPv6_def using pct parseIPv6_string6(1) [of ?gs] b s by simp
  next
    case (Some r)
    obtain st l where r: "r = (st, l)" by (cases r)
    have run: "2 \<le> l" "st + l \<le> 8" "take l (drop st ?gs) = replicate l 0"
      using longest_run_is_run [of ?gs] Some b r by (auto simp: is_run_def)
    have s: "string6 p = Join '':'' (map hex16 (take st ?gs)) @ ''::'' @ Join '':'' (map hex16 (drop (st + l) ?gs))"
      using Some r by (simp add: string6_def Let_def)
    show ?thesis
    proof (cases "st = 0")
      case True
      then have s0: "string6 p = ''::'' @ Join '':'' (map hex16 (drop l ?gs))" using s by simp
      show ?thesis
      proof (cases "l = 8")
        case l8: True
        then have "?gs = replicate 8 0" using run b True by simp
        then have "p = replicate 16 0" using bytes6_zeros [of 8] b(1) by simp
        then show ?thesis unfolding eq parseIPv6_def using pct s0 l8 b by (simp add: HasPrefix_def)
      next
        case False
        then have "Join '':'' (map hex16 (drop l ?gs)) \<noteq> []" using Join_hex_nonempty [of "drop l ?gs"] run b True by simp
        then show ?thesis unfolding eq parseIPv6_def
          using pct s0 parseIPv6_string6(3) [of ?gs l] run b True False by (simp add: HasPrefix_def)
      qed
    next
      case False
      have "hd (string6 p) \<noteq> CHR '':''"
        using Join_hex_hd [of "take st ?gs"] group_list_take [OF b(2)] False b ne unfolding s by simp
      then have "\<not> HasPrefix (string6 p) ''::''" by (cases "string6 p") (auto simp: HasPrefix_def)
      then show ?thesis unfolding eq parseIPv6_def using pct parseIPv6_string6(2) [of ?gs l st] run False b s by simp
    qed
  qed
qed

lemma int_digits_lead: "0 < n \<Longrightarrow> hd (int_digits n) \<noteq> CHR ''0''"
proof (induction n rule: int_digits.induct)
  case (1 n)
  show ?case
  proof (cases "n < 10")
    case True
    then have "digit_val (digit_char n) = n" using "1.prems" digit_char_val [of n] by simp
    then have "digit_char n \<noteq> CHR ''0''" using "1.prems" by (auto simp: digit_val_def)
    then show ?thesis using True by (simp add: int_digits.simps [of n])
  next
    case False
    then show ?thesis using 1 by (simp add: int_digits.simps [of n])
  qed
qed

lemma v4_field_Itoa: "0 \<le> n \<Longrightarrow> n < 256 \<Longrightarrow> v4_field (Itoa n) = Some n"
proof -
  assume n: "0 \<le> n" "n < 256"
  have "\<not> (1 < length (int_digits n) \<and> hd (int_digits n) = CHR ''0'')"
    using int_digits_lead [of n] n by (cases "n = 0") (auto simp: int_digits.simps [of 0])
  moreover have "list_all is_digit (int_digits n)" using int_digits_digits [of n] n by (auto simp: list_all_iff)
  ultimately show ?thesis using n parse_uint_int_digits [of n] by (simp add: v4_field_def Itoa_def)
qed

lemma Itoa_no_dot: "0 \<le> n \<Longrightarrow> CHR ''.'' \<notin> set (Itoa n) \<and> CHR '':'' \<notin> set (Itoa n) \<and> CHR ''%'' \<notin> set (Itoa n)"
  using int_digits_digits [of n] by (fastforce simp: Itoa_def is_digit_def)

lemma ParseIP_v4:
  assumes "0 \<le> a" "a < 256" "0 \<le> b" "b < 256" "0 \<le> c" "c < 256" "0 \<le> d" "d < 256"
  shows "ParseIP (Join ''.'' (map Itoa [a, b, c, d])) = Some (v4_mapped [a, b, c, d])"
proof -
  let ?s = "Join ''.'' (map Itoa [a, b, c, d])"
  have sp: "Split (CHR ''.'') ?s = map Itoa [a, b, c, d]"
    using assms Itoa_no_dot by (intro Split_Join) auto
  then have p: "parseIPv4Fields ?s = Some [a, b, c, d]" using assms unfolding parseIPv4Fields_def sp by (simp add: v4_field_Itoa)
  have nc: "CHR '':'' \<notin> set ?s" "CHR ''%'' \<notin> set ?s" "CHR ''.'' \<in> set ?s" using assms Itoa_no_dot by auto
  then have "List.find (\<lambda>c. c \<in> set ''.:%'') ?s \<noteq> None" by (auto simp: find_None_iff simp del: Join.simps)
  then obtain ch where ch: "List.find (\<lambda>c. c \<in> set ''.:%'') ?s = Some ch" by blast
  with nc find_SomeD [OF ch] have "ch = CHR ''.''" by (auto simp del: Join.simps)
  then show ?thesis using ch p by (simp add: ParseIP_def del: Join.simps)
qed

text \<open>Printing an address and parsing the text gives the address back, for IPv4 and IPv6 alike.\<close>

lemma ParseIP_String:
  assumes "ip_wf p" shows "ParseIP (IP_String p) = Some p"
proof (cases "To4 p")
  case None
  then show ?thesis using ParseIP_v6 [OF assms] by (simp add: IP_String_def)
next
  case (Some q)
  then have q: "p = v4_mapped q" unfolding To4_def v4_mapped_def by (metis append_take_drop_id append_assoc option.distinct(1) option.inject)
  then have "length q = 4" using assms by (simp add: ip_wf_def v4_mapped_def)
  then obtain a b c d where abcd: "q = [a, b, c, d]" by (auto simp: numeral_eq_Suc length_Suc_conv)
  have "list_all (\<lambda>b. 0 \<le> b \<and> b < 256) q" using assms q by (simp add: ip_wf_def v4_mapped_def)
  then have "ParseIP (Join ''.'' (map Itoa q)) = Some (v4_mapped q)" using ParseIP_v4 [of a b c d] abcd by simp
  then show ?thesis using q Some by (simp add: IP_String_def)
qed

section \<open>Parsed addresses are well formed\<close>

lemma v4_field_range: "v4_field f = Some n \<Longrightarrow> 0 \<le> n \<and> n < 256"
  using parse_uint_nonneg [of 0 f n] by (auto simp: v4_field_def split: if_splits sum.splits)

lemma parseIPv4Fields_range:
  assumes "parseIPv4Fields s = Some q" shows "length q = 4 \<and> list_all (\<lambda>b. 0 \<le> b \<and> b < 256) q"
  using assms v4_field_range by (auto simp: parseIPv4Fields_def split: list.splits option.splits)

lemma hex_val_range: "hex_val c = Some v \<Longrightarrow> 0 \<le> v \<and> v < 16"
  by (auto simp: hex_val_def Let_def split: if_splits)

lemma hex_num_bound: "list_all is_hex ds \<Longrightarrow> 0 \<le> hex_num ds \<and> hex_num ds < 16 ^ length ds"
proof (induction ds rule: rev_induct)
  case (snoc c ds)
  then obtain v where v: "hex_val c = Some v" "0 \<le> v" "v < 16" using hex_val_range by (auto simp: is_hex_def)
  have "hex_num (ds @ [c]) = hex_num ds * 16 + v" by (simp add: hex_num_def v)
  then show ?case using snoc v by simp
qed (simp add: hex_num_def)

lemma hex_group_bytes:
  assumes "list_all is_hex ds" "length ds \<le> 4"
  shows "0 \<le> hex_num ds div 256 \<and> hex_num ds div 256 < 256"
proof -
  have "(16 :: int) ^ length ds \<le> 16 ^ 4" using assms(2) by (intro power_increasing) simp_all
  then have "0 \<le> hex_num ds" "hex_num ds < 256 * 256" using hex_num_bound [OF assms(1)] by simp_all
  then show ?thesis by (intro conjI) presburger+
qed

definition p6_ok :: "int list \<Rightarrow> nat option \<Rightarrow> bool" where
  "p6_ok bs ell \<longleftrightarrow> list_all (\<lambda>b. 0 \<le> b \<and> b < 256) bs \<and> length bs \<le> 16 \<and> even (length bs) \<and> (case ell of None \<Rightarrow> True | Some e \<Rightarrow> e \<le> length bs)"

lemma parse6_ok: "p6_ok bs ell \<Longrightarrow> parse6 bs ell s = Some (bs', ell') \<Longrightarrow> p6_ok bs' ell'"
proof (induction bs ell s rule: parse6.induct)
  case (1 bs ell s)
  define ds where "ds = takeWhile is_hex s"
  define t where "t = dropWhile is_hex s"
  define cs where "cs = bs @ [hex_num ds div 256, hex_num ds mod 256]"
  note eq = "1.prems"(2) [unfolded parse6.simps [of bs ell s] Let_def, folded ds_def t_def, folded cs_def]
  show ?case
  proof (cases "length bs \<ge> 16")
    case True
    then show ?thesis using eq "1.prems"(1) by (auto split: if_splits)
  next
    case False
    have hx: "list_all is_hex ds" unfolding ds_def by (auto simp: list_all_iff dest: set_takeWhileD)
    have ds: "ds \<noteq> []" "length ds \<le> 4" using eq False by (auto split: if_splits)
    have len: "length bs + 2 \<le> 16" using False "1.prems"(1) by (auto simp: p6_ok_def elim!: evenE)
    have cs: "p6_ok cs ell" "p6_ok cs (Some (length cs))"
      using "1.prems"(1) hex_group_bytes [OF hx ds(2)] len by (auto simp: p6_ok_def cs_def split: option.splits)
    show ?thesis
    proof (cases "t \<noteq> [] \<and> hd t = CHR ''.''")
      case True
      then show ?thesis using eq False ds "1.prems"(1) parseIPv4Fields_range [of s]
        by (auto simp: p6_ok_def split: if_splits option.splits)
    next
      case nd: False
      note IH = "1.IH" [OF False ds_def t_def _ nd, folded cs_def]
      show ?thesis
        using eq False ds nd cs IH(1) [OF _ refl] IH(2) [OF _ refl]
        by (auto split: if_splits)
    qed
  qed
qed

lemma expand6_wf:
  assumes "expand6 (bs, ell) = Some p" "p6_ok bs ell" shows "ip_wf p"
proof (cases "length bs < 16")
  case True
  then obtain e where e: "ell = Some e" "p = take e bs @ replicate (16 - length bs) 0 @ drop e bs"
    using assms(1) by (auto simp: expand6_def split: option.splits)
  then have "set p \<subseteq> set bs \<union> {0}" using set_take_subset [of e bs] set_drop_subset [of e bs] by auto
  moreover have "length p = 16" using e assms(2) True by (simp add: p6_ok_def)
  ultimately show ?thesis using assms(2) by (fastforce simp: ip_wf_def p6_ok_def list_all_iff)
next
  case False
  then show ?thesis using assms by (auto simp: expand6_def p6_ok_def ip_wf_def split: if_splits)
qed

lemma bind_expand_wf: "p6_ok [] ell \<Longrightarrow> Option.bind (parse6 [] ell s) expand6 = Some p \<Longrightarrow> ip_wf p"
  by (auto simp: Option.bind_eq_Some_conv intro: expand6_wf parse6_ok)

lemma ParseIP_wf: "ParseIP s = Some p \<Longrightarrow> ip_wf p"
proof -
  assume p: "ParseIP s = Some p"
  consider q where "parseIPv4Fields s = Some q" "p = v4_mapped q" | "parseIPv6 s = Some p"
    using p by (auto simp: ParseIP_def split: option.splits if_splits)
  then show ?thesis
  proof cases
    case 1
    then show ?thesis using parseIPv4Fields_range [of s q] by (auto simp: ip_wf_def v4_mapped_def list_all_iff)
  next
    case 2
    then show ?thesis
      using bind_expand_wf [of "Some 0" "drop 2 s" p] bind_expand_wf [of None s p]
      by (auto simp: parseIPv6_def p6_ok_def ip_wf_def list_all_iff split: if_splits)
  qed
qed

end
