(* ===== verification/Client_IP.thy ===== *)
theory Client_IP
  imports Go_Net Classifier
begin

text \<open>
  The address of a client behind reverse proxies, \<^verbatim>\<open>host/internal/iputil/ip.go\<close>, and the lookup of an address's
  network, \<^verbatim>\<open>host/internal/ipgeo/ipgeo.go\<close>, with its cache. The HTTP services are arguments.
\<close>

section \<open>Cleaning an address\<close>

definition trim_quotes :: "string \<Rightarrow> string" where
  "trim_quotes s = (let q = (\<lambda>c. c = CHR 0x22 \<or> c = CHR 0x27) in rev (dropWhile q (rev (dropWhile q s))))"

definition port_bad :: "string \<Rightarrow> bool" where
  "port_bad port \<longleftrightarrow> port \<noteq> [] \<and> (case Atoi port of (p, err) \<Rightarrow> err \<noteq> None \<or> p < 1 \<or> p > 65535)"

definition CleanIP :: "string \<Rightarrow> string" where
  "CleanIP raw0 =
     (let raw = TrimSpace raw0
      in if raw = [] then []
         else let q = trim_quotes raw
              in case (case SplitHostPort q of Some (host, port) \<Rightarrow> if port_bad port then None else Some host | None \<Rightarrow> Some q) of
                   None \<Rightarrow> []
                 | Some h \<Rightarrow>
                     (case ParseIP (TrimSpace (TrimSuffix (TrimPrefix (TrimSpace h) ''['') '']'')) of
                        None \<Rightarrow> []
                      | Some p \<Rightarrow> IP_String p))"

definition IsPublicIP :: "ip option \<Rightarrow> bool" where
  "IsPublicIP ip =
     (case ip of
        None \<Rightarrow> False
      | Some p \<Rightarrow> \<not> (IsLoopback p \<or> IsPrivate p \<or> IsUnspecified p \<or> IsLinkLocalUnicast p \<or> IsLinkLocalMulticast p \<or> IsMulticast p))"

fun xff_loop :: "string list \<Rightarrow> string \<Rightarrow> string \<times> bool" where
  "xff_loop [] firstValid = (firstValid, False)"
| "xff_loop (part # parts) firstValid =
     (let cleaned = CleanIP part
      in if cleaned = [] then xff_loop parts firstValid
         else case ParseIP cleaned of
                None \<Rightarrow> xff_loop parts firstValid
              | Some p \<Rightarrow> if IsPublicIP (Some p) then (cleaned, True)
                          else xff_loop parts (if firstValid = [] then cleaned else firstValid))"

definition extractFromXFFWithStatus :: "string \<Rightarrow> string \<times> bool" where
  "extractFromXFFWithStatus headerVal = xff_loop (Split (CHR '','') headerVal) []"

definition ExtractXForwardedFor :: "string \<Rightarrow> string" where
  "ExtractXForwardedFor headerVal = fst (extractFromXFFWithStatus headerVal)"

text \<open>A request: its headers by name (empty when absent) and the peer's address.\<close>

record http_request =
  hdr :: "string \<Rightarrow> string"
  RemoteAddr :: string

definition GetClientIP :: "http_request option \<Rightarrow> string" where
  "GetClientIP req =
     (case req of
        None \<Rightarrow> []
      | Some r \<Rightarrow>
          (let cfIP = CleanIP (hdr r ''CF-Connecting-IP'')
           in if cfIP \<noteq> [] then cfIP
              else let (xip, xpub) = (if hdr r ''X-Forwarded-For'' \<noteq> [] then extractFromXFFWithStatus (hdr r ''X-Forwarded-For'') else ([], False))
                   in if xip \<noteq> [] \<and> xpub then xip
                      else let realIP = CleanIP (hdr r ''X-Real-IP'')
                           in if realIP \<noteq> [] \<and> ParseIP realIP \<noteq> None \<and> IsPublicIP (ParseIP realIP) then realIP
                              else let fallback = (if xip = [] then realIP else xip)
                                   in if fallback \<noteq> [] then fallback
                                      else if RemoteAddr r \<noteq> [] then
                                        (let addr = CleanIP (RemoteAddr r) in if addr \<noteq> [] then addr else RemoteAddr r)
                                      else []))"

section \<open>Networks of addresses\<close>

definition isPrivateOrReserved :: "ip \<Rightarrow> bool" where
  "isPrivateOrReserved p \<longleftrightarrow>
     IsLoopback p \<or> IsUnspecified p \<or> IsMulticast p \<or> IsLinkLocalUnicast p \<or>
     (case To4 p of
        None \<Rightarrow> False
      | Some b \<Rightarrow> b ! 0 = 10 \<or> b ! 0 = 172 \<and> b ! 1 \<ge> 16 \<and> b ! 1 \<le> 31 \<or> b ! 0 = 192 \<and> b ! 1 = 168 \<or>
                  b ! 0 = 100 \<and> b ! 1 \<ge> 64 \<and> b ! 1 \<le> 127)"

record GeoInfo =
  geo_IP :: string
  ASNumber :: string
  ASOrg :: string
  ISP :: string
  Country :: string
  CountryCode :: string
  City :: string

definition no_geo :: GeoInfo where
  "no_geo = \<lparr>geo_IP = [], ASNumber = [], ASOrg = [], ISP = [], Country = [], CountryCode = [], City = []\<rparr>"

record nextTraceResponse =
  Asnumber :: string
  Owner :: string
  nxt_Isp :: string
  nxt_Country :: string
  nxt_CountryCode :: string
  nxt_City :: string

record ipApiResponse =
  ia_Status :: string
  ia_Country :: string
  ia_CountryCode :: string
  ia_City :: string
  ia_ISP :: string
  ia_Org :: string
  ia_AS :: string

definition geo_of :: "nextTraceResponse \<Rightarrow> GeoInfo" where
  "geo_of nxt = \<lparr>geo_IP = [], ASNumber = Asnumber nxt, ASOrg = Owner nxt, ISP = nxt_Isp nxt,
     Country = nxt_Country nxt, CountryCode = nxt_CountryCode nxt, City = nxt_City nxt\<rparr>"

text \<open>
  The services: for a URL the HTTP status with the decoded body (\<open>None\<close> when the body does not decode), or \<open>None\<close> when
  the request fails. Each query also gives the URLs it asked.
\<close>

type_synonym nxt_service = "string \<Rightarrow> (int \<times> nextTraceResponse option) option"
type_synonym api_service = "string \<Rightarrow> (int \<times> ipApiResponse option) option"

definition body_if_ok :: "(int \<times> 'a option) option \<Rightarrow> 'a option" where
  "body_if_ok resp = (case resp of Some (status, body) \<Rightarrow> if status = 200 then body else None | None \<Rightarrow> None)"

definition queryNextTrace :: "nxt_service \<Rightarrow> string \<Rightarrow> GeoInfo \<times> string list" where
  "queryNextTrace nxt ipStr =
     (let url = ''https://api.nxtrace.org/v1/ip/'' @ ipStr; urlLeo = ''https://api.leo.moe/ip?ip='' @ ipStr
      in if (case nxt url of Some (status, body) \<Rightarrow> status = 200 | None \<Rightarrow> False)
         then ((case body_if_ok (nxt url) of Some d \<Rightarrow> geo_of d | None \<Rightarrow> no_geo), [url])
         else ((case body_if_ok (nxt urlLeo) of
                  Some d \<Rightarrow> if Asnumber d \<noteq> [] \<or> Owner d \<noteq> [] then geo_of d else no_geo
                | None \<Rightarrow> no_geo), [url, urlLeo]))"

definition queryIPApi :: "api_service \<Rightarrow> string \<Rightarrow> GeoInfo \<times> string list" where
  "queryIPApi api ipStr =
     (let url = ''http://ip-api.com/json/'' @ ipStr @ ''?fields=status,country,countryCode,city,isp,org,as''
      in ((case body_if_ok (api url) of
             Some r \<Rightarrow>
               (if ia_Status r \<noteq> ''success'' then no_geo
                else let parts = Fields (ia_AS r);
                         asNum = (if parts \<noteq> [] \<and> HasPrefix (hd parts) ''AS'' then hd parts else [])
                     in \<lparr>geo_IP = [], ASNumber = asNum, ASOrg = ia_Org r, ISP = ia_ISP r, Country = ia_Country r,
                         CountryCode = ia_CountryCode r, City = ia_City r\<rparr>)
           | None \<Rightarrow> no_geo), [url]))"

definition local_geo :: "string \<Rightarrow> GeoInfo" where
  "local_geo ipStr = \<lparr>geo_IP = ipStr, ASNumber = ''*'', ASOrg = ''Private / LAN'', ISP = ''Local Network'',
     Country = ''Local'', CountryCode = [], City = []\<rparr>"

text \<open>The information, the cache afterwards, and the URLs asked.\<close>

definition Lookup :: "nxt_service \<Rightarrow> api_service \<Rightarrow> string \<Rightarrow> (string, GeoInfo) gomap \<Rightarrow> GeoInfo \<times> (string, GeoInfo) gomap \<times> string list" where
  "Lookup nxt api raw cache =
     (let ipStr = TrimSpace raw
      in if ipStr = [] \<or> ipStr = ''*'' then (no_geo\<lparr>geo_IP := ipStr\<rparr>, cache, [])
         else case mget cache ipStr of
                Some info \<Rightarrow> (info, cache, [])
              | None \<Rightarrow>
                  (case ParseIP ipStr of
                     None \<Rightarrow> (no_geo\<lparr>geo_IP := ipStr\<rparr>, cache, [])
                   | Some p \<Rightarrow>
                       if isPrivateOrReserved p then (local_geo ipStr, mput ipStr (local_geo ipStr) cache, [])
                       else let (i1, u1) = queryNextTrace nxt ipStr;
                                (i2, u2) = (if ASNumber i1 = [] \<and> ISP i1 = [] then queryIPApi api ipStr else (i1, []));
                                info = i2\<lparr>geo_IP := ipStr\<rparr>
                            in (info, mput ipStr info cache, u1 @ u2)))"

section \<open>Which address counts\<close>

text \<open>A canonical address: the printed form of a well-formed address, which parses back to it.\<close>

definition canonical :: "string \<Rightarrow> bool" where
  "canonical s \<longleftrightarrow> (\<exists>p. ip_wf p \<and> s = IP_String p)"

lemma canonical_parse: "canonical s \<Longrightarrow> \<exists>p. ParseIP s = Some p \<and> IP_String p = s"
  by (auto simp: canonical_def ParseIP_String)

lemma CleanIP_canonical: "CleanIP s \<noteq> [] \<Longrightarrow> canonical (CleanIP s)"
  using ParseIP_wf by (auto simp: CleanIP_def canonical_def Let_def split: option.splits if_splits)

lemma CleanIP_parses: "CleanIP s \<noteq> [] \<Longrightarrow> ParseIP (CleanIP s) \<noteq> None"
  using CleanIP_canonical canonical_parse by fastforce

text \<open>What the loop over the header should find: the first public address, or else the first valid one.\<close>

definition xff_choice :: "string list \<Rightarrow> string \<times> bool" where
  "xff_choice valid =
     (case List.find (\<lambda>a. IsPublicIP (ParseIP a)) valid of
        Some a \<Rightarrow> (a, True)
      | None \<Rightarrow> ((case valid of [] \<Rightarrow> [] | a # _ \<Rightarrow> a), False))"

lemma xff_loop_spec:
  "xff_loop parts first =
     (let valid = filter (\<lambda>a. a \<noteq> []) (map CleanIP parts)
      in case List.find (\<lambda>a. IsPublicIP (ParseIP a)) valid of
           Some a \<Rightarrow> (a, True)
         | None \<Rightarrow> (if first \<noteq> [] then first else case valid of [] \<Rightarrow> [] | a # _ \<Rightarrow> a, False))"
proof (induction parts arbitrary: first)
  case (Cons part parts)
  show ?case
  proof (cases "CleanIP part = []")
    case True
    then show ?thesis using Cons.IH by simp
  next
    case False
    then obtain p where "ParseIP (CleanIP part) = Some p" using CleanIP_parses by blast
    then show ?thesis using Cons.IH False by (simp add: Let_def split: option.splits)
  qed
qed simp

lemma extract_spec:
  "extractFromXFFWithStatus h = xff_choice (filter (\<lambda>a. a \<noteq> []) (map CleanIP (Split (CHR '','') h)))"
  unfolding extractFromXFFWithStatus_def xff_loop_spec xff_choice_def Let_def by simp

text \<open>Candidates in the order of priority, and how one of them is chosen.\<close>

definition xff_addrs :: "http_request \<Rightarrow> string list" where
  "xff_addrs r = filter (\<lambda>a. a \<noteq> []) (map CleanIP (Split (CHR '','') (hdr r ''X-Forwarded-For'')))"

definition candidate_addrs :: "http_request \<Rightarrow> string list" where
  "candidate_addrs r = xff_addrs r @ filter (\<lambda>a. a \<noteq> []) [CleanIP (hdr r ''X-Real-IP'')]"

definition pick_addr :: "http_request \<Rightarrow> string" where
  "pick_addr r =
     (if CleanIP (hdr r ''CF-Connecting-IP'') \<noteq> [] then CleanIP (hdr r ''CF-Connecting-IP'')
      else case List.find (\<lambda>a. IsPublicIP (ParseIP a)) (candidate_addrs r) of
             Some a \<Rightarrow> a
           | None \<Rightarrow>
               (case candidate_addrs r of
                  a # _ \<Rightarrow> a
                | [] \<Rightarrow> if CleanIP (RemoteAddr r) \<noteq> [] then CleanIP (RemoteAddr r) else RemoteAddr r))"

lemma find_append: "List.find P (xs @ ys) = (case List.find P xs of Some x \<Rightarrow> Some x | None \<Rightarrow> List.find P ys)"
  by (induction xs) simp_all

lemma CleanIP_Nil [simp]: "CleanIP [] = []"
  by (simp add: CleanIP_def)

lemma xff_read: "(if hdr r ''X-Forwarded-For'' \<noteq> [] then extractFromXFFWithStatus (hdr r ''X-Forwarded-For'') else ([], False)) = xff_choice (xff_addrs r)"
  by (simp add: extract_spec xff_addrs_def xff_choice_def)

lemma xff_choice_cases:
  obtains (pub) a where "xff_choice xs = (a, True)" "List.find (\<lambda>a. IsPublicIP (ParseIP a)) xs = Some a" "a \<in> set xs"
  | (empty) "xff_choice xs = ([], False)" "xs = []"
  | (fallback) a ys where "xff_choice xs = (a, False)" "xs = a # ys" "List.find (\<lambda>a. IsPublicIP (ParseIP a)) xs = None"
proof (cases "List.find (\<lambda>a. IsPublicIP (ParseIP a)) xs")
  case (Some a)
  then show ?thesis using pub [of a] find_SomeD [OF Some] by (simp add: xff_choice_def)
next
  case None
  then show ?thesis using empty fallback by (cases xs) (auto simp: xff_choice_def simp del: find.simps)
qed

lemma GetClientIP_pick: "GetClientIP (Some r) = pick_addr r"
proof -
  define q where "q = xff_choice (xff_addrs r)"
  define real where "real = CleanIP (hdr r ''X-Real-IP'')"
  have g: "GetClientIP (Some r) =
      (if CleanIP (hdr r ''CF-Connecting-IP'') \<noteq> [] then CleanIP (hdr r ''CF-Connecting-IP'')
       else if fst q \<noteq> [] \<and> snd q then fst q
       else if real \<noteq> [] \<and> IsPublicIP (ParseIP real) then real
       else let fallback = (if fst q = [] then real else fst q)
            in if fallback \<noteq> [] then fallback
               else if CleanIP (RemoteAddr r) \<noteq> [] then CleanIP (RemoteAddr r) else RemoteAddr r)"
    unfolding GetClientIP_def q_def real_def xff_read
    by (auto simp: case_prod_beta Let_def IsPublicIP_def split: option.splits)
  have ne: "a \<in> set (xff_addrs r) \<Longrightarrow> a \<noteq> []" for a by (auto simp: xff_addrs_def)
  show ?thesis
    by (rule xff_choice_cases [of "xff_addrs r"])
      (use ne in \<open>auto simp: g pick_addr_def candidate_addrs_def find_append q_def real_def [symmetric] Let_def split: option.splits\<close>)
qed

text \<open>
  the address of a client is Cloudflare's if that is valid; otherwise the first public address, or else the first
  valid one, of the forwarding chain followed by the real-IP header; otherwise the peer's. Whatever the headers
  hold, an address taken from them is canonical: it parses, and printing what it parses to gives it back.
\<close>

theorem client_ip_spec:
  "GetClientIP (Some r) = pick_addr r \<and>
   (canonical (GetClientIP (Some r)) \<or> GetClientIP (Some r) = RemoteAddr r)"
proof -
  have c: "a \<in> set (candidate_addrs r) \<Longrightarrow> canonical a" for a
    using CleanIP_canonical by (auto simp: candidate_addrs_def xff_addrs_def split: if_splits)
  have "canonical (pick_addr r) \<or> pick_addr r = RemoteAddr r"
    using c CleanIP_canonical by (auto simp: pick_addr_def split: option.splits list.splits dest: find_SomeD)
  then show ?thesis by (simp add: GetClientIP_pick)
qed

section \<open>Lookups\<close>

text \<open>
  loopback, link-local, multicast, private IPv4 and carrier-grade NAT addresses and texts that are not addresses are
  never sent to a lookup service; an address that has been looked up once is answered from the cache without
  asking again, with the same information.
\<close>

theorem lookup_private_and_cached:
  assumes "Lookup nxt api raw cache = (info, cache', urls)"
  shows "(case ParseIP (TrimSpace raw) of None \<Rightarrow> urls = [] | Some p \<Rightarrow> \<not> isPrivateOrReserved p \<or> urls = []) \<and>
     (cache' = cache \<or> Lookup nxt' api' raw cache' = (info, cache', []))"
proof -
  have two: "ipStr \<noteq> [] \<Longrightarrow> ipStr \<noteq> ''*'' \<Longrightarrow> TrimSpace raw = ipStr \<Longrightarrow> Lookup nxt' api' raw (mput ipStr i cache) = (i, mput ipStr i cache, [])" for ipStr i
    by (simp add: Lookup_def)
  show ?thesis
    using assms two
    by (auto simp: Lookup_def Let_def case_prod_beta split: if_splits option.splits)
qed

theorem lookup_private_and_cached_witness:
  "Lookup (\<lambda>_. None) (\<lambda>_. None) ''10.0.0.1'' [(''10.0.0.1'', local_geo ''10.0.0.1'')] =
     (local_geo ''10.0.0.1'', [(''10.0.0.1'', local_geo ''10.0.0.1'')], [])"
proof -
  have "Lookup (\<lambda>_. None) (\<lambda>_. None) ''10.0.0.1'' [] = (local_geo ''10.0.0.1'', [(''10.0.0.1'', local_geo ''10.0.0.1'')], [])"
    by code_simp
  from lookup_private_and_cached [OF this, of "\<lambda>_. None" "\<lambda>_. None"] show ?thesis by auto
qed

text \<open>A unique-local IPv6 address is private, yet it is sent to the services.\<close>

theorem ula_is_looked_up:
  "IsPrivate [253, 0, 0, 0, 0, 0, 0, 0, 0, 0, 0, 0, 0, 0, 0, 1] \<and> ParseIP ''fd00::1'' = Some [253, 0, 0, 0, 0, 0, 0, 0, 0, 0, 0, 0, 0, 0, 0, 1] \<and>
   snd (snd (Lookup (\<lambda>_. None) (\<lambda>_. None) ''fd00::1'' [])) \<noteq> []"
  by code_simp

text \<open>A lookup that fails while the services are down is kept for good.\<close>

theorem failed_lookup_sticks:
  "(let (info, cache, urls) = Lookup (\<lambda>_. None) (\<lambda>_. None) ''8.8.8.8'' [] in
      info = no_geo\<lparr>geo_IP := ''8.8.8.8''\<rparr> \<and> Lookup nxt api ''8.8.8.8'' cache = (info, cache, []))"
proof -
  obtain info cache urls where l: "Lookup (\<lambda>_. None) (\<lambda>_. None) ''8.8.8.8'' [] = (info, cache, urls)" by (rule prod_cases3)
  have "fst (Lookup (\<lambda>_. None) (\<lambda>_. None) ''8.8.8.8'' []) = no_geo\<lparr>geo_IP := ''8.8.8.8''\<rparr>"
    "fst (snd (Lookup (\<lambda>_. None) (\<lambda>_. None) ''8.8.8.8'' [])) = [(''8.8.8.8'', no_geo\<lparr>geo_IP := ''8.8.8.8''\<rparr>)]"
    by code_simp+
  then have i: "info = no_geo\<lparr>geo_IP := ''8.8.8.8''\<rparr>" "cache = [(''8.8.8.8'', info)]" using l by simp_all
  have "TrimSpace ''8.8.8.8'' = ''8.8.8.8''" by code_simp
  then have "Lookup nxt api ''8.8.8.8'' cache = (info, cache, [])" using i(2) by (simp add: Lookup_def mget_def Let_def)
  then show ?thesis using l i(1) by simp
qed

end
