(* ===== verification/Host.thy ===== *)
theory Host
  imports Hub_Properties Classifier Reports Client_IP
begin

text \<open>
  The Host put together: the proxy service, whose bridge is the hub, and the database.
  \<^verbatim>\<open>ws/handler.go\<close> (a probe connects), the message handler and the two persistence routines of
  \<^verbatim>\<open>ws/conn.go\<close>, and \<^verbatim>\<open>Unregister\<close> and \<^verbatim>\<open>Disconnect\<close> of \<^verbatim>\<open>ws/hub.go\<close> with all they do.
\<close>

record Host =
  hsvc :: "Hub Service"
  hdb :: DB

text \<open>The operations of the hub that also reach the database and the proxy.\<close>

definition Unregister :: "bool \<Rightarrow> nanosec \<Rightarrow> string \<Rightarrow> conn_ptr \<Rightarrow> Host \<Rightarrow> Host" where
  "Unregister dr now agentID p w =
     (case bridge (hsvc w) of
        None \<Rightarrow> w
      | Some h \<Rightarrow>
          (case hub_Unregister agentID p h of
             (h1, False) \<Rightarrow> w
           | (h1, True) \<Rightarrow> w\<lparr>hsvc := DropAgent (hub_bridge dr) agentID ((hsvc w)\<lparr>bridge := Some h1\<rparr>),
                            hdb := set_online agentID False now (hdb w)\<rparr>))"

definition Disconnect :: "bool \<Rightarrow> nanosec \<Rightarrow> string \<Rightarrow> Host \<Rightarrow> Host" where
  "Disconnect dr now agentID w =
     (case bridge (hsvc w) of
        None \<Rightarrow> w
      | Some h \<Rightarrow> w\<lparr>hsvc := DropAgent (hub_bridge dr) agentID ((hsvc w)\<lparr>bridge := Some (hub_Disconnect agentID h)\<rparr>),
                     hdb := set_online agentID False now (hdb w)\<rparr>)"

section \<open>A probe connects\<close>

datatype ws_outcome = WsRefused string | WsAccepted conn_ptr

definition register_row :: "nanosec \<Rightarrow> string \<Rightarrow> RegisterRequest \<Rightarrow> Agent \<Rightarrow> Agent" where
  "register_row now remoteIP req a =
     a\<lparr>ag_IsOnline := True, ag_LastSeenAt := now, ag_PublicIP := remoteIP, ag_OS := reg_OS req, ag_Arch := reg_Arch req,
       ag_Version := reg_Version req,
       ag_Name := (if (ag_Name a = '''' \<or> ag_Name a = ''New Agent'') \<and> Hostname req \<noteq> '''' then Hostname req else ag_Name a)\<rparr>"

text \<open>
  \<open>HandleWebSocket\<close> after the upgrade: \<open>first\<close> is the first envelope (\<open>None\<close> when reading it failed),
  \<open>remoteIP\<close> the client address, \<open>dberr\<close> whether the query for the targets fails. The row read is saved
  back as a whole.
\<close>

definition HandleWebSocket ::
  "bool \<Rightarrow> nanosec \<Rightarrow> string \<Rightarrow> Envelope option \<Rightarrow> Host \<Rightarrow> Host \<times> ws_outcome" where
  "HandleWebSocket dberr now remoteIP first w =
     (case (first, bridge (hsvc w)) of
        (Some env, Some h) \<Rightarrow>
          if Type env \<noteq> TypeRegisterRequest then (w, WsRefused ''First message must be register_request'')
          else (case dec_RegisterRequest (Payload env) of
              None \<Rightarrow> (w, WsRefused ''Invalid register payload'')
            | Some req \<Rightarrow>
                if Token req = '''' then (w, WsRefused ''Invalid register payload'')
                else (case find_token (Token req) (hdb w) of
                    None \<Rightarrow> (w, WsRefused ''Invalid or revoked agent token'')
                  | Some row \<Rightarrow>
                      let row' = register_row now remoteIP req row;
                          d1 = update_agent (ag_ID row) (\<lambda>_. row') (hdb w);
                          p = length (cheap h);
                          ac = \<lparr>ac_AgentID = ag_ID row, ac_RemoteIP = remoteIP, ac_Version = reg_Version req,
                                ac_Arch = reg_Arch req, outbox = [], ac_closed = False, ac_gone = False\<rparr>;
                          h1 = Register (ag_ID row) p (h\<lparr>cheap := cheap h @ [ac]\<rparr>);
                          h2 = fst (SafeSend p (TypeRegisterResponse, enc_RegisterResponse
                                 \<lparr>Success = True, rr_AgentID = ag_ID row, rr_Message = ''Authentication successful''\<rparr>) h1);
                          h3 = SyncSingleAgent dberr (ag_ID row) d1 h2
                      in (w\<lparr>hsvc := (hsvc w)\<lparr>bridge := Some h3\<rparr>, hdb := d1\<rparr>, WsAccepted p)))
      | _ \<Rightarrow> (w, WsRefused ''First message must be register_request''))"

section \<open>Storing reports\<close>

definition minutes :: "int \<Rightarrow> nanosec" where "minutes n = n * 60 * 1000000000"

definition clamp_time :: "nanosec \<Rightarrow> nanosec option \<Rightarrow> nanosec" where
  "clamp_time now ts =
     (case ts of
        None \<Rightarrow> now
      | Some t \<Rightarrow> if t > now + minutes 5 \<or> t < now - minutes (48 * 60) then now else t)"

definition ping_metric :: "string \<Rightarrow> nanosec \<Rightarrow> SinglePingResult \<Rightarrow> PingMetric" where
  "ping_metric agentID now r =
     \<lparr>pm_AgentID = agentID, pm_TargetID = TargetID r, pm_Timestamp = clamp_time now (Timestamp r),
      pm_PacketsSent = PacketsSent r, pm_PacketsRecv = PacketsRecv r, pm_LossPct = LossPct r, pm_MinRTT = MinRTT r,
      pm_MaxRTT = MaxRTT r, pm_AvgRTT = AvgRTT r, pm_Jitter = Jitter r, pm_StdDev = StdDev r, pm_ErrorMsg = ErrorMsg r\<rparr>"

definition persistPingReport :: "nanosec \<Rightarrow> string \<Rightarrow> PingReportPayload \<Rightarrow> DB \<Rightarrow> DB" where
  "persistPingReport now agentID report d =
     (if Results report = [] then d
      else let targetMap = map tg_ID (enabled_targets d);
               metrics = map (ping_metric agentID now) (filter (\<lambda>r. TargetID r \<in> set targetMap) (Results report))
           in set_online agentID True now (d\<lparr>metric_rows := metric_rows d @ metrics\<rparr>))"

text \<open>The hops get the network of their address one after the other, through the shared lookup cache.\<close>

definition plain_hop :: "TracerouteHop \<Rightarrow> EnrichedHop" where
  "plain_hop h = \<lparr>eh_TTL = TTL h, eh_IP = hop_IP h, eh_Hostname = hop_Hostname h, eh_RTTs = RTTs h, eh_AvgRTT = hop_AvgRTT h,
     eh_LossPct = hop_LossPct h, eh_ASNumber = '''', eh_ASOrg = '''', eh_ISP = '''', eh_Country = '''',
     eh_CountryCode = '''', eh_City = ''''\<rparr>"

fun enrich :: "nxt_service \<Rightarrow> api_service \<Rightarrow> TracerouteHop list \<Rightarrow> (string, GeoInfo) gomap \<Rightarrow> EnrichedHop list \<times> (string, GeoInfo) gomap" where
  "enrich nxt api [] cache = ([], cache)"
| "enrich nxt api (h # hs) cache =
     (let eh = plain_hop h;
          (eh1, cache1) =
            (if hop_IP h \<noteq> '''' \<and> hop_IP h \<noteq> ''*'' then
               (case Lookup nxt api (hop_IP h) cache of (geo, c, urls) \<Rightarrow>
                  (eh\<lparr>eh_ASNumber := ASNumber geo, eh_ASOrg := ASOrg geo, eh_ISP := ISP geo,
                     eh_Country := Country geo, eh_CountryCode := CountryCode geo, eh_City := City geo\<rparr>, c))
             else (eh, cache));
          (ehs, cache2) = enrich nxt api hs cache1
      in (eh1 # ehs, cache2))"

definition hop_meta :: "EnrichedHop \<Rightarrow> HopMeta" where
  "hop_meta h = \<lparr>hm_IP = eh_IP h, hm_ASNumber = eh_ASNumber h, hm_ASOrg = eh_ASOrg h, hm_ISP = eh_ISP h\<rparr>"

definition persistTracerouteReport ::
  "nxt_service \<Rightarrow> api_service \<Rightarrow> nanosec \<Rightarrow> string \<Rightarrow> TracerouteReportPayload \<Rightarrow> DB \<times> (string, GeoInfo) gomap \<Rightarrow> DB \<times> (string, GeoInfo) gomap" where
  "persistTracerouteReport nxt api now agentID report = (\<lambda>(d, cache).
     if Hops report = [] \<and> tr_TargetHost report = '''' then (d, cache)
     else let (enriched, cache1) = enrich nxt api (Hops report) cache;
              metas = map hop_meta enriched;
              (asPath, asNodes) = GenerateASPath metas;
              r = \<lparr>rec_AgentID = agentID, rec_TargetID = tr_TargetID report, rec_TargetHost = tr_TargetHost report,
                   rec_ResolvedIP = ResolvedIP report, rec_Timestamp = clamp_time now (tr_Timestamp report),
                   rec_DurationMs = DurationMs report, rec_Reached = Reached report, rec_HopCount = int (length enriched),
                   rec_RoutePath = ClassifyRoute metas, rec_ASPath = asPath, rec_ASNodes = asNodes, rec_Hops = enriched\<rparr>
          in (set_online agentID True now (d\<lparr>trace_rows := trace_rows d @ [r]\<rparr>), cache1))"

section \<open>Messages\<close>

text \<open>
  \<open>handleIncomingMessage\<close> for the connection \<open>p\<close> of probe \<open>agentID\<close>; \<open>parse\<close> reads a time. A trace report is
  stored by a goroutine of its own, a data message may go on to wait for room in a tunnel's queue:
  both are left to the caller as what remains to be done.
\<close>

datatype remaining = NothingLeft | StoreTrace TracerouteReportPayload | PutChunk tunnel_ptr string

definition upd_hub :: "(Hub \<Rightarrow> Hub) \<Rightarrow> Host \<Rightarrow> Host" where
  "upd_hub f w = w\<lparr>hsvc := (hsvc w)\<lparr>bridge := map_option f (bridge (hsvc w))\<rparr>\<rparr>"

definition handleIncomingMessage ::
  "bool \<Rightarrow> (string \<Rightarrow> nanosec option option) \<Rightarrow> bool \<Rightarrow> nanosec \<Rightarrow> string \<Rightarrow> conn_ptr \<Rightarrow> Envelope \<Rightarrow> Host \<Rightarrow> Host \<times> remaining" where
  "handleIncomingMessage dr parse dberr now agentID p env w =
     (case Type env of
        TypeHeartbeat \<Rightarrow>
          (upd_hub (\<lambda>h. fst (SafeSend p (TypeHeartbeatAck, JObj [(''status'', JStr ''ok'')]) h))
             (w\<lparr>hdb := set_online agentID True now (hdb w)\<rparr>), NothingLeft)
      | TypePingReport \<Rightarrow>
          (case dec_PingReport parse (Payload env) of
             None \<Rightarrow> (w, NothingLeft)
           | Some report \<Rightarrow>
               if dberr \<or> find_agent agentID (hdb w) = None then (upd_hub (Close p) w, NothingLeft)
               else (w\<lparr>hdb := persistPingReport now agentID report (hdb w)\<rparr>, NothingLeft))
      | TypeTracerouteReport \<Rightarrow>
          (case dec_TracerouteReport parse (Payload env) of
             None \<Rightarrow> (w, NothingLeft) | Some report \<Rightarrow> (w, StoreTrace report))
      | TypeUpdateResult \<Rightarrow>
          (case dec_UpdateResult (Payload env) of
             None \<Rightarrow> (w, NothingLeft)
           | Some res \<Rightarrow> (upd_hub (RecordUpdateStatus now agentID res) w, NothingLeft))
      | _ \<Rightarrow>
          if Type env \<in> {TypeProxyOpenResult, TypeProxyData, TypeProxyClose} then
            (case HandleAgent (hub_bridge dr) agentID env (hsvc w) of
               (s1, None) \<Rightarrow> (w\<lparr>hsvc := s1\<rparr>, NothingLeft)
             | (s1, Some (t, raw)) \<Rightarrow> (w\<lparr>hsvc := s1\<rparr>, PutChunk t raw))
          else (w, NothingLeft))"


section \<open>Properties\<close>

lemma hub_out_self:
  "hub_inv h \<Longrightarrow> mget (agents h) a = Some p \<Longrightarrow> hub_out h a = outbox (cheap h ! p)"
  by (simp add: hub_out_def)

lemma find_token_Some: "find_token tok d = Some row \<Longrightarrow> row \<in> set (agent_rows d) \<and> ag_Token row = tok"
  by (auto simp: find_token_def find_Some_iff)

lemma accept_filed:
  assumes "hub_inv h"
  shows "mget (agents (accept c h)) (ac_AgentID c) = Some (length (cheap h))"
    and "cheap (accept c h) ! length (cheap h) = c" and "length (cheap (accept c h)) = Suc (length (cheap h))"
    and "a \<noteq> ac_AgentID c \<Longrightarrow> mget (agents (accept c h)) a = mget (agents h) a"
    and "mget (agents h) (ac_AgentID c) = Some q \<Longrightarrow> ac_closed (cheap (accept c h) ! q)"
  using hub_invD(2) [OF assms, of "ac_AgentID c"]
  by (auto simp: accept_def Register_def Close_def conn_close_def Let_def nth_append split: option.splits)

definition fresh_conn :: "string \<Rightarrow> RegisterRequest \<Rightarrow> string \<Rightarrow> AgentConn" where
  "fresh_conn aid req ip = \<lparr>ac_AgentID = aid, ac_RemoteIP = ip, ac_Version = reg_Version req, ac_Arch = reg_Arch req,
     outbox = [], ac_closed = False, ac_gone = False\<rparr>"

definition auth_row :: "Envelope option \<Rightarrow> DB \<Rightarrow> (RegisterRequest \<times> Agent) option" where
  "auth_row first d =
     (case first of
        None \<Rightarrow> None
      | Some env \<Rightarrow>
          if Type env \<noteq> TypeRegisterRequest then None
          else case dec_RegisterRequest (Payload env) of
            None \<Rightarrow> None
          | Some req \<Rightarrow> if Token req = '''' then None else map_option (Pair req) (find_token (Token req) d))"

lemma HandleWebSocket_cases:
  assumes "bridge (hsvc w) = Some h"
  shows "HandleWebSocket dberr now ip first w =
    (case auth_row first (hdb w) of
       None \<Rightarrow> (w, snd (HandleWebSocket dberr now ip first w))
     | Some (req, row) \<Rightarrow>
         let d1 = update_agent (ag_ID row) (\<lambda>_. register_row now ip req row) (hdb w);
             h2 = fst (SafeSend (length (cheap h)) (TypeRegisterResponse, enc_RegisterResponse
                 \<lparr>Success = True, rr_AgentID = ag_ID row, rr_Message = ''Authentication successful''\<rparr>)
                 (accept (fresh_conn (ag_ID row) req ip) h))
         in (w\<lparr>hsvc := (hsvc w)\<lparr>bridge := Some (SyncSingleAgent dberr (ag_ID row) d1 h2)\<rparr>, hdb := d1\<rparr>,
             WsAccepted (length (cheap h))))"
  using assms
  by (auto simp: HandleWebSocket_def auth_row_def accept_def fresh_conn_def Let_def split: option.splits)

lemma refused_iff:
  assumes "bridge (hsvc w) = Some h"
  shows "auth_row first (hdb w) = None \<longleftrightarrow> (\<exists>msg. snd (HandleWebSocket dberr now ip first w) = WsRefused msg)"
  using assms by (auto simp: HandleWebSocket_def auth_row_def Let_def split: option.splits if_splits)


text \<open>Queueing a message changes nothing but the end of one send buffer.\<close>

definition only_queued :: "Hub \<Rightarrow> Hub \<Rightarrow> bool" where
  "only_queued h h' \<longleftrightarrow> agents h' = agents h \<and> length (cheap h') = length (cheap h) \<and>
     (\<forall>q. ac_closed (cheap h' ! q) = ac_closed (cheap h ! q) \<and> prefix (outbox (cheap h ! q)) (outbox (cheap h' ! q)))"

lemma only_queued_refl: "only_queued h h"
  by (simp add: only_queued_def)

lemma only_queued_trans: "only_queued h h' \<Longrightarrow> only_queued h' h'' \<Longrightarrow> only_queued h h''"
  unfolding only_queued_def by (metis prefix_order.trans)

lemma only_queued_SafeSend: "only_queued h (fst (SafeSend p msg h))"
proof -
  have "prefix (outbox (cheap h ! q)) (outbox ((cheap h)[p := (cheap h ! p)\<lparr>outbox := outbox (cheap h ! p) @ [msg]\<rparr>] ! q))" for q
    by (cases "q = p"; cases "p < length (cheap h)") (simp_all add: list_update_beyond)
  then show ?thesis
    by (auto simp: only_queued_def SafeSend_def Let_def nth_update_proj [where f = ac_closed])
qed

lemma only_queued_Sync: "only_queued h (SyncSingleAgent dberr a d h)"
  by (simp add: SyncSingleAgent_def SendToAgent_def only_queued_refl only_queued_SafeSend split: option.splits)



definition demo_host :: Host where
  "demo_host = \<lparr>hsvc = demo_svc, hdb = demo_db\<rparr>"

definition demo_request :: Envelope where
  "demo_request = \<lparr>Type = TypeRegisterRequest, Payload = enc_RegisterRequest
     \<lparr>Token = ''k'', Hostname = ''host'', reg_OS = ''linux'', reg_Arch = ''amd64'', reg_Version = ''v1.3.0''\<rparr>\<rparr>"

lemma demo_accepts: "snd (HandleWebSocket False 7 ''10.0.0.3'' (Some demo_request) demo_host) = WsAccepted 2"
  by (simp add: HandleWebSocket_def demo_host_def demo_svc_def demo_request_def dec_enc_RegisterRequest find_token_def
      demo_db_def demo_hub_eval Let_def)


lemma clamp_time_bounds: "now - minutes 2880 \<le> clamp_time now ts \<and> clamp_time now ts \<le> now + minutes 5"
  by (auto simp: clamp_time_def minutes_def split: option.splits)

lemma persistPingReport_rows:
  "\<exists>new. metric_rows (persistPingReport now a rep d) = metric_rows d @ new \<and>
     list_all (\<lambda>m. pm_AgentID m = a \<and> pm_TargetID m \<in> set (map tg_ID (enabled_targets d)) \<and>
       now - minutes 2880 \<le> pm_Timestamp m \<and> pm_Timestamp m \<le> now + minutes 5) new"
  using clamp_time_bounds
  by (auto simp: persistPingReport_def set_online_def update_agent_def Let_def ping_metric_def list_all_iff
      intro!: exI [of _ "map (ping_metric a now) (filter (\<lambda>r. TargetID r \<in> tg_ID ` set (enabled_targets d)) (Results rep))"])

text \<open>
  C10: whatever message a probe sends, the measurements it adds are filed under its own authenticated id
  (not under the id it names in the report), belong to an enabled target and lie between 48 hours ago
  and five minutes ahead; stored measurements are never changed.
\<close>

theorem reports_filed_under_sender:
  "\<exists>new. metric_rows (hdb (fst (handleIncomingMessage dr parse dberr now a p env w))) = metric_rows (hdb w) @ new \<and>
     list_all (\<lambda>m. pm_AgentID m = a \<and> pm_TargetID m \<in> set (map tg_ID (enabled_targets (hdb w))) \<and>
       now - minutes 2880 \<le> pm_Timestamp m \<and> pm_Timestamp m \<le> now + minutes 5) new"
proof (cases "Type env = TypePingReport")
  case True
  then show ?thesis
    using persistPingReport_rows [of now a _ "hdb w"]
    by (auto simp: handleIncomingMessage_def upd_hub_def split: option.splits intro!: exI [of _ "[]"])
next
  case False
  then have "metric_rows (hdb (fst (handleIncomingMessage dr parse dberr now a p env w))) = metric_rows (hdb w)"
    by (simp add: handleIncomingMessage_def upd_hub_def set_online_def update_agent_def
        split: MessageType.splits option.splits prod.splits)
  then show ?thesis by (intro exI [of _ "[]"]) simp
qed


text \<open>
  C11: a probe's report survives the wire: every result for an enabled target becomes one row, in the order of the report, with the reported
  counts, loss, round trip times, jitter, deviation and error text, under the id of the probe; its time is the reported one, or the time of
  arrival when none was reported or when the reported one is more than five minutes ahead or more than 48 hours back. The probe is
  marked as seen now. (Hypotheses: the times written are read back, the numbers of the report fit their types, the report is not empty, the
  probe has a row and the database does not fail.)
\<close>

theorem ping_report_stored:
  assumes "\<And>t. parse (fmt t) = Some t" and "list_all ping_ok (Results rep)" and "Results rep \<noteq> []"
    and "find_agent a (hdb w) = Some row"
    and "env = \<lparr>Type = TypePingReport, Payload = enc_PingReport fmt rep\<rparr>"
  shows "metric_rows (hdb (fst (handleIncomingMessage dr parse False now a p env w))) = metric_rows (hdb w) @
      [\<lparr>pm_AgentID = a, pm_TargetID = TargetID r,
        pm_Timestamp = (case Timestamp r of
          None \<Rightarrow> now
        | Some t \<Rightarrow> if now - 48 * 3600 * 1000000000 \<le> t \<and> t \<le> now + 300 * 1000000000 then t else now),
        pm_PacketsSent = PacketsSent r, pm_PacketsRecv = PacketsRecv r, pm_LossPct = LossPct r,
        pm_MinRTT = MinRTT r, pm_MaxRTT = MaxRTT r, pm_AvgRTT = AvgRTT r,
        pm_Jitter = Jitter r, pm_StdDev = StdDev r, pm_ErrorMsg = ErrorMsg r\<rparr>.
       r \<leftarrow> Results rep, TargetID r \<in> tg_ID ` set [t \<leftarrow> target_rows (hdb w). tg_Enabled t]] \<and>
    map_option ag_LastSeenAt (find_agent a (hdb (fst (handleIncomingMessage dr parse False now a p env w)))) = Some now"
proof -
  have f: "map_option ag_LastSeenAt (find (\<lambda>x. ag_ID x = a) (map (\<lambda>x. if ag_ID x = a then x\<lparr>ag_IsOnline := True, ag_LastSeenAt := now\<rparr> else x) xs))
      = Some now" if "find (\<lambda>x. ag_ID x = a) xs = Some r" for xs r
    using that by (induction xs) (auto split: if_splits)
  have m: "ping_metric a now = (\<lambda>r. \<lparr>pm_AgentID = a, pm_TargetID = TargetID r,
        pm_Timestamp = (case Timestamp r of
          None \<Rightarrow> now
        | Some t \<Rightarrow> if now - 48 * 3600 * 1000000000 \<le> t \<and> t \<le> now + 300 * 1000000000 then t else now),
        pm_PacketsSent = PacketsSent r, pm_PacketsRecv = PacketsRecv r, pm_LossPct = LossPct r,
        pm_MinRTT = MinRTT r, pm_MaxRTT = MaxRTT r, pm_AvgRTT = AvgRTT r,
        pm_Jitter = Jitter r, pm_StdDev = StdDev r, pm_ErrorMsg = ErrorMsg r\<rparr>)"
    by (rule ext) (simp add: ping_metric_def clamp_time_def minutes_def split: option.splits)
  have c: "concat (map (\<lambda>r. if P r then [g r] else []) xs) = map g (filter P xs)" for P and g :: "SinglePingResult \<Rightarrow> PingMetric" and xs
    by (induction xs) simp_all
  show ?thesis
    unfolding c m [symmetric]
    using assms(3,4) f [OF assms(4) [unfolded find_agent_def]]
    by (simp add: handleIncomingMessage_def assms(5) dec_enc_PingReport [OF assms(1,2)] persistPingReport_def
        set_online_def update_agent_def find_agent_def Let_def enabled_targets_def)
qed

definition unary :: "int option \<Rightarrow> string" where
  "unary t = (case t of None \<Rightarrow> '''' | Some n \<Rightarrow> (if n < 0 then CHR ''-'' else CHR ''+'') # replicate (nat \<bar>n\<bar>) (CHR ''1''))"

definition read_unary :: "string \<Rightarrow> int option option" where
  "read_unary s = (case s of [] \<Rightarrow> Some None
     | c # r \<Rightarrow> Some (Some (if c = CHR ''-'' then - int (length r) else int (length r))))"

lemma read_unary: "read_unary (unary t) = Some t"
  by (cases t) (auto simp: unary_def read_unary_def)

definition demo_report :: PingReportPayload where
  "demo_report = \<lparr>rep_AgentID = ''somebody else'', Results = map (\<lambda>i. \<lparr>TargetID = i, TargetHost = ''h'', Timestamp = Some 5,
     PacketsSent = 10, PacketsRecv = 10, LossPct = 0, MinRTT = 1, MaxRTT = 1, AvgRTT = 1, Jitter = 0, StdDev = 0,
     ErrorMsg = ''''\<rparr>) [''t1'', ''t3'', ''t9'']\<rparr>"

theorem ping_report_stored_witness:
  "map (\<lambda>m. (pm_AgentID m, pm_TargetID m)) (metric_rows (hdb (fst (handleIncomingMessage True read_unary False 7 ''a'' 1
     \<lparr>Type = TypePingReport, Payload = enc_PingReport unary demo_report\<rparr> demo_host)))) = [(''a'', ''t1'')]"
proof -
  have ok: "list_all ping_ok (Results demo_report)"
    by (simp add: demo_report_def ping_ok_def is_float_def rnd_of_int [of 0, simplified] rnd_of_int [of 1, simplified])
  have f: "find_agent ''a'' (hdb demo_host) = Some (agent_rows demo_db ! 0)"
    by (simp add: demo_host_def find_agent_def demo_db_def)
  show ?thesis
    using ping_report_stored [OF read_unary ok _ f refl, of True 7 1]
    by (simp add: demo_host_def demo_db_def demo_report_def enabled_targets_def ping_metric_def)
qed

text \<open>
  when the current connection of a probe ends, the probe is no longer online, all its tunnels are out
  of the table and closed, and other probes' tunnels and connections are as before; the end of a connection that
  has been replaced changes nothing.
\<close>

theorem unregister_effect:
  assumes "bridge (hsvc w) = Some h" and "hub_reach h" and "svc_inv (hsvc w)"
  shows "if mget (agents h) a = Some p then
      (case Unregister dr now a p w of w' \<Rightarrow>
         bridge (hsvc w') = Some (fst (hub_Unregister a p h)) \<and> \<not> Hub_Online (fst (hub_Unregister a p h)) a \<and>
         (\<forall>b. b \<noteq> a \<longrightarrow> mget (agents (fst (hub_Unregister a p h))) b = mget (agents h) b) \<and>
         (\<forall>tid q. mget (tunnels (hsvc w')) tid = Some q \<longleftrightarrow>
            mget (tunnels (hsvc w)) tid = Some q \<and> t_agentID (theap (hsvc w) ! q) \<noteq> a) \<and>
         (\<forall>tid q. mget (tunnels (hsvc w)) tid = Some q \<and> t_agentID (theap (hsvc w) ! q) = a \<longrightarrow> t_done (theap (hsvc w') ! q)))
    else Unregister dr now a p w = w"
proof (cases "mget (agents h) a = Some p")
  case True
  let ?s = "(hsvc w)\<lparr>bridge := Some (fst (hub_Unregister a p h))\<rparr>"
  have i: "svc_inv ?s" using assms(3) by simp
  have u: "Unregister dr now a p w =
      w\<lparr>hsvc := drop_where (hub_bridge dr) ''agent disconnected'' False (\<lambda>t. t_agentID t = a) ?s,
        hdb := set_online a False now (hdb w)\<rparr>"
    by (simp add: Unregister_def assms(1) hub_Unregister_def True DropAgent_drop_where)
  have "bridge (finish_all B r False ids s) = bridge s" for B r ids and s :: "Hub Service"
    by (induction ids arbitrary: s) (auto simp: finish_def Let_def split: option.splits)
  then have b: "bridge (drop_where (hub_bridge dr) ''agent disconnected'' False P ?s) = bridge ?s" for P
    by (simp add: drop_where_def)
  have g: "agents (fst (hub_Unregister a p h)) = mdel a (agents h)" by (simp add: hub_Unregister_def True Close_def)
  show ?thesis
    using True mget_drop_where [OF i] drop_where_nth [OF i]
    by (auto simp: u b g Hub_Online_def tunnel_close_def split: option.splits)
next
  case False
  then show ?thesis by (simp add: Unregister_def assms(1) hub_Unregister_def)
qed


lemma demo_svc_inv: "svc_inv (hsvc demo_host)"
  by (simp add: demo_host_def demo_svc_def svc_inv_def NewService_def mget_def mwf_def mcount_def maxTunnelsPerSession_def
      inboundQueue_def)

theorem unregister_effect_witness:
  "mget (tunnels (hsvc (Unregister True 9 ''a'' 1 demo_host))) ''t'' = None \<and> Unregister True 9 ''a'' 0 demo_host = demo_host"
proof -
  have b: "bridge (hsvc demo_host) = Some demo_hub" by (simp add: demo_host_def demo_svc_def)
  have m: "mget (agents demo_hub) ''a'' = Some 1" by (simp add: demo_hub_eval mget_def)
  have t: "mget (tunnels (hsvc demo_host)) ''t'' = Some 0" "t_agentID (theap (hsvc demo_host) ! 0) = ''a''"
    by (simp_all add: demo_host_def demo_svc_def mget_def)
  note u = unregister_effect [OF b demo_hub_reach demo_svc_inv, of "''a''" _ True 9, unfolded m]
  have "mget (tunnels (hsvc (Unregister True 9 ''a'' 1 demo_host))) ''t'' \<noteq> Some q" for q
    using u [of 1] t by auto
  then show ?thesis using u [of 0] by (metis One_nat_def option.inject option.exhaust zero_neq_one)
qed

text \<open>
  when a probe reconnects before its old connection has ended, the old connection is replaced and its
  end is then ignored, so the tunnels opened over it stay in the table although the probe that comes
  back knows none of them.
\<close>

theorem reconnect_keeps_tunnels:
  assumes "bridge (hsvc w) = Some h" and "hub_reach h" and "mget (agents h) a = Some q"
    and "auth_row first (hdb w) = Some (req, row)" and "ag_ID row = a"
    and "HandleWebSocket dberr now ip first w = (w', out)"
  shows "out = WsAccepted (length (cheap h)) \<and> Unregister dr now2 a q w' = w' \<and>
    tunnels (hsvc w') = tunnels (hsvc w) \<and> theap (hsvc w') = theap (hsvc w)"
proof -
  note inv = hub_reach_inv [OF assms(2)]
  let ?h1 = "accept (fresh_conn a req ip) h"
  let ?h2 = "fst (SafeSend (length (cheap h)) (TypeRegisterResponse, enc_RegisterResponse
    \<lparr>Success = True, rr_AgentID = a, rr_Message = ''Authentication successful''\<rparr>) ?h1)"
  let ?d = "update_agent a (\<lambda>_. register_row now ip req row) (hdb w)"
  have eq: "w' = w\<lparr>hsvc := (hsvc w)\<lparr>bridge := Some (SyncSingleAgent dberr a ?d ?h2)\<rparr>, hdb := ?d\<rparr>"
    and o: "out = WsAccepted (length (cheap h))"
    using HandleWebSocket_cases [OF assms(1), of dberr now ip first] assms(5,6) by (simp_all add: assms(4) Let_def)
  have ag: "agents (SyncSingleAgent dberr a ?d ?h2) = agents ?h1"
    using only_queued_trans [OF only_queued_SafeSend only_queued_Sync] unfolding only_queued_def by blast
  have m: "mget (agents (SyncSingleAgent dberr a ?d ?h2)) a = Some (length (cheap h))"
    unfolding ag using accept_filed(1) [OF inv, of "fresh_conn a req ip"] by (simp add: fresh_conn_def)
  have ne: "length (cheap h) \<noteq> q" using hub_invD(2) [OF inv assms(3)] by auto
  have "Unregister dr now2 a q w' = w'" unfolding eq Unregister_def hub_Unregister_def by (simp add: m ne)
  then show ?thesis unfolding o by (simp add: eq)
qed

theorem reconnect_keeps_tunnels_witness:
  "mget (tunnels (hsvc (Unregister True 9 ''a'' 1 (fst (HandleWebSocket False 7 ''10.0.0.3'' (Some demo_request) demo_host))))) ''t''
     = Some 0"
proof -
  have b: "bridge (hsvc demo_host) = Some demo_hub" by (simp add: demo_host_def demo_svc_def)
  have m: "mget (agents demo_hub) ''a'' = Some 1" by (simp add: demo_hub_eval mget_def)
  have au: "auth_row (Some demo_request) (hdb demo_host) = Some (\<lparr>Token = ''k'', Hostname = ''host'', reg_OS = ''linux'',
      reg_Arch = ''amd64'', reg_Version = ''v1.3.0''\<rparr>, agent_rows demo_db ! 0)"
    by (simp add: auth_row_def demo_request_def dec_enc_RegisterRequest demo_host_def demo_db_def find_token_def)
  have i: "ag_ID (agent_rows demo_db ! 0) = ''a''" by (simp add: demo_db_def)
  have t: "mget (tunnels (hsvc demo_host)) ''t'' = Some 0" by (simp add: demo_host_def demo_svc_def mget_def)
  show ?thesis
    using reconnect_keeps_tunnels [OF b demo_hub_reach m au i, of False 7 "''10.0.0.3''", OF prod.collapse [symmetric], of True 9] t
    by simp
qed

section \<open>Traces\<close>

lemma enrich_shape:
  "length (fst (enrich nxt api hs cache)) = length hs \<and> map eh_TTL (fst (enrich nxt api hs cache)) = map TTL hs \<and>
   map eh_IP (fst (enrich nxt api hs cache)) = map hop_IP hs \<and> map eh_RTTs (fst (enrich nxt api hs cache)) = map RTTs hs \<and>
   map eh_LossPct (fst (enrich nxt api hs cache)) = map hop_LossPct hs"
proof (induction hs arbitrary: cache)
  case (Cons h hs)
  show ?case
  proof (cases "hop_IP h \<noteq> '''' \<and> hop_IP h \<noteq> ''*''")
    case True
    obtain geo c urls where l: "Lookup nxt api (hop_IP h) cache = (geo, c, urls)" by (rule prod_cases3)
    obtain ehs c2 where e: "enrich nxt api hs c = (ehs, c2)" by (rule prod.exhaust)
    show ?thesis using True l e Cons.IH [of c] by (simp add: plain_hop_def)
  next
    case False
    obtain ehs c2 where e: "enrich nxt api hs cache = (ehs, c2)" by (rule prod.exhaust)
    have "enrich nxt api (h # hs) cache = (plain_hop h # ehs, c2)" using False e by (simp only: enrich.simps Let_def if_False split)
    then show ?thesis using Cons.IH [of cache] e by (simp add: plain_hop_def)
  qed
qed simp

lemma set_online_rows [simp]: "trace_rows (set_online a b t d) = trace_rows d" "metric_rows (set_online a b t d) = metric_rows d"
  by (simp_all add: set_online_def update_agent_def)

lemma clamp_time_range: "now - minutes 2880 \<le> clamp_time now t \<and> clamp_time now t \<le> now + minutes 5"
  by (auto simp: clamp_time_def minutes_def split: option.splits)

lemma persistTracerouteReport_row:
  assumes "Hops report \<noteq> []"
  shows "\<exists>r. trace_rows (fst (persistTracerouteReport nxt api now a report (d, cache))) = trace_rows d @ [r] \<and>
    metric_rows (fst (persistTracerouteReport nxt api now a report (d, cache))) = metric_rows d \<and>
    rec_AgentID r = a \<and> rec_TargetID r = tr_TargetID report \<and> rec_Reached r = Reached report \<and>
    rec_HopCount r = int (length (Hops report)) \<and> map eh_TTL (rec_Hops r) = map TTL (Hops report) \<and>
    map eh_IP (rec_Hops r) = map hop_IP (Hops report) \<and> map eh_RTTs (rec_Hops r) = map RTTs (Hops report) \<and>
    rec_RoutePath r = ClassifyRoute (map hop_meta (rec_Hops r)) \<and>
    now - minutes 2880 \<le> rec_Timestamp r \<and> rec_Timestamp r \<le> now + minutes 5"
proof -
  obtain ehs c2 where e: "enrich nxt api (Hops report) cache = (ehs, c2)" by (rule prod.exhaust)
  obtain asPath asNodes where g: "GenerateASPath (map hop_meta ehs) = (asPath, asNodes)" by (rule prod.exhaust)
  show ?thesis
    using enrich_shape [of nxt api "Hops report" cache] clamp_time_range [of now] assms
    by (simp add: persistTracerouteReport_def e g Let_def)
qed

end
