(* ===== verification/Accounts.thy ===== *)
theory Accounts
  imports Client_IP Database
begin

text \<open>
  Settings, administrators and the email whitelist: \<^verbatim>\<open>host/internal/db/db.go\<close> (settings),
  \<^verbatim>\<open>host/internal/auth\<close> (tokens, cookies, identity providers, middleware) and the handlers of
  \<^verbatim>\<open>host/internal/api\<close> that work on them (\<^verbatim>\<open>setup.go\<close>, \<^verbatim>\<open>auth.go\<close>, \<^verbatim>\<open>oauth_shared.go\<close>,
  \<^verbatim>\<open>admin_settings.go\<close>, \<^verbatim>\<open>admin_whitelist.go\<close>).

  \<open>env\<close> is the process environment, \<open>rand\<close> bytes of the random source, \<open>sha\<close> SHA-256; the JWT library is
  \<open>sign\<close> and \<open>verify\<close>. What an identity provider answers is an argument. Time is nanoseconds; rows keep only the
  columns that are read.
\<close>

section \<open>Rows\<close>

record EmailWhitelist =
  wl_ID :: int
  wl_Email :: string
  wl_Remark :: string
  wl_CreatedBy :: string

record User =
  us_ID :: int
  us_Provider :: string
  us_ProviderID :: string
  us_GitHubID :: int
  us_Username :: string
  us_Email :: string
  us_AvatarURL :: string
  us_Role :: string
  us_LastLoginAt :: nanosec

record Accounts =
  settings :: "(string, string) gomap"
  whitelist :: "EmailWhitelist list"
  users :: "User list"

text \<open>The answer to a request: a JSON reply with its status and its error or message, or a redirect.\<close>

datatype reply = Reply int string | Redirect string

datatype cookie = SetCookie string string int string bool

record http_request =
  rq_Host :: string
  rq_TLS :: bool
  rq_Header :: "string \<Rightarrow> string"
  rq_Cookie :: "string \<Rightarrow> string option"

section \<open>Settings\<close>

definition GetSetting :: "Accounts \<Rightarrow> string \<Rightarrow> string" where
  "GetSetting a k = (case mget (settings a) k of None \<Rightarrow> [] | Some v \<Rightarrow> v)"

definition SetSetting :: "string \<Rightarrow> string \<Rightarrow> Accounts \<Rightarrow> Accounts" where
  "SetSetting k v a = a\<lparr>settings := mput k v (settings a)\<rparr>"

definition create_setting :: "string \<Rightarrow> string \<Rightarrow> Accounts \<Rightarrow> Accounts" where
  "create_setting k v a = (if mget (settings a) k = None then SetSetting k v a else a)"

definition seedBaselineSettings :: "(string \<Rightarrow> string) \<Rightarrow> string \<Rightarrow> Accounts \<Rightarrow> Accounts" where
  "seedBaselineSettings env rand a =
     (let a1 = create_setting ''is_initialized'' ''false'' a
      in if env ''JWT_SECRET'' \<noteq> [] then SetSetting ''jwt_secret'' (env ''JWT_SECRET'') a1
         else if mget (settings a1) ''jwt_secret'' = None then create_setting ''jwt_secret'' (hex_encode rand) a1 else a1)"

definition getEnv :: "(string \<Rightarrow> string) \<Rightarrow> string \<Rightarrow> string \<Rightarrow> string" where
  "getEnv env k dflt = (let v = TrimSpace (env k) in if v = [] then dflt else v)"

text \<open>A setting, or the environment's value when it is empty.\<close>

definition setting_or_env :: "(string \<Rightarrow> string) \<Rightarrow> Accounts \<Rightarrow> string \<Rightarrow> string \<Rightarrow> string" where
  "setting_or_env env a k e = (if GetSetting a k = [] then env e else GetSetting a k)"

definition allowedSettingsKeys :: "string list" where
  "allowedSettingsKeys = [''app_url'', ''retention_days'', ''github_client_id'', ''github_client_secret'', ''google_client_id'',
     ''google_client_secret'', ''oidc_client_id'', ''oidc_client_secret'', ''oidc_auth_url'', ''oidc_token_url'',
     ''oidc_userinfo_url'', ''oidc_name'']"

definition mask8 :: string where
  "mask8 = replicate 8 (CHR ''*'')"

definition shown_setting :: "string \<Rightarrow> string \<Rightarrow> string" where
  "shown_setting k v =
     (if Contains k ''secret'' \<and> length v > 4 then take 2 v @ mask8 @ drop (length v - 2) v else v)"

definition adminGetSettings :: "Accounts \<Rightarrow> (string, string) gomap" where
  "adminGetSettings a =
     foldl (\<lambda>res (k, v). if k \<notin> set allowedSettingsKeys then res else mput k (shown_setting k v) res) [] (settings a)"

definition save_setting :: "Accounts \<Rightarrow> string \<times> string \<Rightarrow> Accounts" where
  "save_setting a = (\<lambda>(k, v).
     if k \<notin> set allowedSettingsKeys then a
     else if Contains k ''secret'' \<and> Contains v mask8 then a
     else SetSetting k (TrimSpace v) a)"

text \<open>\<open>req\<close> is the decoded body, a map in the order the loop visits it; \<open>None\<close> when it does not decode.\<close>

definition adminSaveSettings :: "(string, string) gomap option \<Rightarrow> Accounts \<Rightarrow> Accounts \<times> reply" where
  "adminSaveSettings req a =
     (case req of None \<Rightarrow> (a, Reply 400 ''bad request'') | Some m \<Rightarrow> (foldl save_setting a m, Reply 200 ''Settings updated''))"

section \<open>Setup\<close>

record SetupConfigRequest =
  PrimaryProvider :: string
  GitHubClientID :: string
  GitHubClientSecret :: string
  GoogleClientID :: string
  GoogleClientSecret :: string
  OIDCClientID :: string
  OIDCClientSecret :: string
  OIDCAuthURL :: string
  OIDCTokenURL :: string
  OIDCUserInfoURL :: string
  OIDCName :: string
  AppURL :: string

definition joinErrors :: "string option \<Rightarrow> string option \<Rightarrow> string option" where
  "joinErrors e1 e2 = (case e1 of None \<Rightarrow> e2 | Some a \<Rightarrow> (case e2 of None \<Rightarrow> e1 | Some b \<Rightarrow> Some (a @ ''; '' @ b)))"

text \<open>The settings of one provider are saved one after the other; \<open>err\<close> is the database's error for a key.\<close>

definition save_all :: "(string \<Rightarrow> string option) \<Rightarrow> (string \<times> string) list \<Rightarrow> Accounts \<times> string option \<Rightarrow> Accounts \<times> string option" where
  "save_all err kvs st =
     foldl (\<lambda>(a, e) (k, v). (if err k = None then SetSetting k (TrimSpace v) a else a, joinErrors e (err k))) st kvs"

definition saveSetupConfig :: "(string \<Rightarrow> string option) \<Rightarrow> http_request \<Rightarrow> SetupConfigRequest option \<Rightarrow> Accounts \<Rightarrow> Accounts \<times> reply" where
  "saveSetupConfig err c body a =
     (if GetSetting a ''is_initialized'' = ''true'' then (a, Reply 403 ''Platform is already initialized'')
      else case body of
        None \<Rightarrow> (a, Reply 400 ''Invalid input'')
      | Some req \<Rightarrow>
          (let trimmed = TrimRight (AppURL req) (CHR ''/'');
               appURL = (if trimmed = [] then ''http://'' @ rq_Host c else trimmed)
           in if err ''app_url'' \<noteq> None then (a, Reply 500 ''Failed to persist app_url'')
              else let a1 = SetSetting ''app_url'' appURL a;
                       st1 = (if GitHubClientID req \<noteq> [] \<and> GitHubClientSecret req \<noteq> [] then
                                save_all err [(''github_client_id'', GitHubClientID req), (''github_client_secret'', GitHubClientSecret req)] (a1, None)
                              else (a1, None));
                       st2 = (if GoogleClientID req \<noteq> [] \<and> GoogleClientSecret req \<noteq> [] then
                                save_all err [(''google_client_id'', GoogleClientID req), (''google_client_secret'', GoogleClientSecret req)] st1
                              else st1);
                       st3 = (if OIDCClientID req \<noteq> [] \<and> OIDCClientSecret req \<noteq> [] then
                                save_all err [(''oidc_client_id'', OIDCClientID req), (''oidc_client_secret'', OIDCClientSecret req),
                                  (''oidc_auth_url'', OIDCAuthURL req), (''oidc_token_url'', OIDCTokenURL req),
                                  (''oidc_userinfo_url'', OIDCUserInfoURL req), (''oidc_name'', OIDCName req)] st2
                              else st2)
                   in case snd st3 of
                        Some e \<Rightarrow> (fst st3, Reply 500 (''Failed to save OAuth settings: '' @ e))
                      | None \<Rightarrow> (fst st3, Reply 200
                          (if PrimaryProvider req = ''google'' then ''/api/auth/google/login''
                           else if PrimaryProvider req = ''oidc'' then ''/api/auth/oidc/login'' else ''/api/auth/github/login''))))"

record setup_status =
  ss_initialized :: bool
  ss_github :: bool
  ss_google :: bool
  ss_oidc :: bool
  ss_app_url :: string

definition getSetupStatus :: "(string \<Rightarrow> string) \<Rightarrow> http_request \<Rightarrow> Accounts \<Rightarrow> setup_status" where
  "getSetupStatus env c a =
     (let appURL = setting_or_env env a ''app_url'' ''APP_URL''
      in \<lparr>ss_initialized = (GetSetting a ''is_initialized'' = ''true''),
          ss_github = (setting_or_env env a ''github_client_id'' ''GITHUB_CLIENT_ID'' \<noteq> []),
          ss_google = (setting_or_env env a ''google_client_id'' ''GOOGLE_CLIENT_ID'' \<noteq> []),
          ss_oidc = (setting_or_env env a ''oidc_client_id'' ''OIDC_CLIENT_ID'' \<noteq> []),
          ss_app_url = TrimRight (if appURL = [] then ''http://'' @ rq_Host c else appURL) (CHR ''/'')\<rparr>)"


section \<open>Tokens and cookies\<close>

record JWTClaims =
  cl_UserID :: int
  cl_GitHubID :: int
  cl_Username :: string
  cl_Email :: string
  cl_Role :: string
  cl_ExpiresAt :: nanosec
  cl_IssuedAt :: nanosec

text \<open>
  The JWT library: \<open>jwt_sign\<close> signs claims with a key, \<open>jwt_hmac\<close> reads whether a token's header names an HMAC method
  (\<open>None\<close> for a malformed token), \<open>jwt_check\<close> verifies a token with a key at a time.
\<close>

record jwt_lib =
  jwt_sign :: "string \<Rightarrow> JWTClaims \<Rightarrow> string option"
  jwt_hmac :: "string \<Rightarrow> bool option"
  jwt_check :: "string \<Rightarrow> nanosec \<Rightarrow> string \<Rightarrow> JWTClaims option"

definition CookieSessionName :: string where "CookieSessionName = ''justping_token''"

definition GetJWTSecret :: "(string \<Rightarrow> string) \<Rightarrow> string \<Rightarrow> Accounts \<Rightarrow> string \<times> Accounts" where
  "GetJWTSecret env rand a =
     (if GetSetting a ''jwt_secret'' \<noteq> [] then (GetSetting a ''jwt_secret'', a)
      else if env ''JWT_SECRET'' \<noteq> [] then (env ''JWT_SECRET'', a)
      else (hex_encode rand, SetSetting ''jwt_secret'' (hex_encode rand) a))"

definition token_life :: nanosec where
  "token_life = 7 * 24 * 60 * 60 * 1000000000"

definition user_claims :: "nanosec \<Rightarrow> User \<Rightarrow> JWTClaims" where
  "user_claims now u = \<lparr>cl_UserID = us_ID u, cl_GitHubID = us_GitHubID u, cl_Username = us_Username u, cl_Email = us_Email u,
     cl_Role = us_Role u, cl_ExpiresAt = now + token_life, cl_IssuedAt = now\<rparr>"

definition GenerateToken :: "jwt_lib \<Rightarrow> (string \<Rightarrow> string) \<Rightarrow> string \<Rightarrow> nanosec \<Rightarrow> User \<Rightarrow> Accounts \<Rightarrow> string option \<times> Accounts" where
  "GenerateToken lib env rand now u a =
     (let (key, a1) = GetJWTSecret env rand a in (jwt_sign lib key (user_claims now u), a1))"

definition ParseToken :: "jwt_lib \<Rightarrow> (string \<Rightarrow> string) \<Rightarrow> string \<Rightarrow> nanosec \<Rightarrow> string \<Rightarrow> Accounts \<Rightarrow> JWTClaims option \<times> Accounts" where
  "ParseToken lib env rand now tok a =
     (case jwt_hmac lib tok of
        Some True \<Rightarrow> (let (key, a1) = GetJWTSecret env rand a in (jwt_check lib key now tok, a1))
      | _ \<Rightarrow> (None, a))"

definition isHTTPSRequest :: "(string \<Rightarrow> string) \<Rightarrow> http_request \<Rightarrow> Accounts \<Rightarrow> bool" where
  "isHTTPSRequest env c a \<longleftrightarrow>
     rq_TLS c \<or> EqualFold (rq_Header c ''X-Forwarded-Proto'') ''https'' \<or>
     HasPrefix (ToLower (setting_or_env env a ''app_url'' ''APP_URL'')) ''https://''"

definition OAuthStateCookie :: string where "OAuthStateCookie = ''justping_oauth_state''"

definition GenerateOAuthState :: "(string \<Rightarrow> string) \<Rightarrow> string \<Rightarrow> http_request \<Rightarrow> Accounts \<Rightarrow> string \<times> cookie" where
  "GenerateOAuthState env rand c a =
     (hex_encode rand, SetCookie OAuthStateCookie (hex_encode rand) 600 ''/api/auth'' (isHTTPSRequest env c a))"

definition ValidateOAuthState :: "(string \<Rightarrow> string) \<Rightarrow> http_request \<Rightarrow> Accounts \<Rightarrow> string \<Rightarrow> bool \<times> cookie list" where
  "ValidateOAuthState env c a state =
     (if state = [] then (False, [])
      else case rq_Cookie c OAuthStateCookie of
             None \<Rightarrow> (False, [])
           | Some ck \<Rightarrow> if ck = [] then (False, [])
                        else (ck = state, [SetCookie OAuthStateCookie [] (- 1) ''/api/auth'' (isHTTPSRequest env c a)]))"

definition SetSessionCookie :: "(string \<Rightarrow> string) \<Rightarrow> http_request \<Rightarrow> Accounts \<Rightarrow> string \<Rightarrow> cookie" where
  "SetSessionCookie env c a tok = SetCookie CookieSessionName tok (7 * 86400) ''/'' (isHTTPSRequest env c a)"

definition ClearSessionCookie :: "(string \<Rightarrow> string) \<Rightarrow> http_request \<Rightarrow> Accounts \<Rightarrow> cookie" where
  "ClearSessionCookie env c a = SetCookie CookieSessionName [] (- 1) ''/'' (isHTTPSRequest env c a)"

section \<open>Who is asking\<close>

definition auth_token :: "http_request \<Rightarrow> string" where
  "auth_token c =
     (let t = (case rq_Cookie c CookieSessionName of Some ck \<Rightarrow> ck | None \<Rightarrow> [])
      in if t \<noteq> [] then t
         else if HasPrefix (rq_Header c ''Authorization'') ''Bearer '' then TrimPrefix (rq_Header c ''Authorization'') ''Bearer ''
         else [])"

definition find_user :: "int \<Rightarrow> Accounts \<Rightarrow> User option" where
  "find_user i a = find (\<lambda>u. us_ID u = i) (users a)"

definition extractUser :: "jwt_lib \<Rightarrow> (string \<Rightarrow> string) \<Rightarrow> string \<Rightarrow> nanosec \<Rightarrow> http_request \<Rightarrow> Accounts \<Rightarrow> User option \<times> Accounts" where
  "extractUser lib env rand now c a =
     (if auth_token c = [] then (None, a)
      else case ParseToken lib env rand now (auth_token c) a of
             (None, a1) \<Rightarrow> (None, a1)
           | (Some cl, a1) \<Rightarrow> (find_user (cl_UserID cl) a1, a1))"

text \<open>The three middlewares: the user a handler runs with, or the refusal. \<open>OptionalAuth\<close> never refuses.\<close>

definition AuthRequired :: "User option \<Rightarrow> reply + User" where
  "AuthRequired u = (case u of None \<Rightarrow> Inl (Reply 401 ''Unauthorized'') | Some x \<Rightarrow> Inr x)"

definition SuperadminRequired :: "User option \<Rightarrow> reply + User" where
  "SuperadminRequired u =
     (case u of None \<Rightarrow> Inl (Reply 401 ''Unauthorized'')
      | Some x \<Rightarrow> if us_Role x \<noteq> ''superadmin'' then Inl (Reply 403 ''Superadmin permission required'') else Inr x)"

definition OptionalAuth :: "User option \<Rightarrow> User option" where
  "OptionalAuth u = u"

section \<open>Identity providers\<close>

record OAuthConfig =
  cfg_ClientID :: string
  cfg_ClientSecret :: string
  cfg_Scopes :: "string list"
  cfg_AuthURL :: string
  cfg_TokenURL :: string
  cfg_RedirectURL :: string

definition config_app_url :: "(string \<Rightarrow> string) \<Rightarrow> Accounts \<Rightarrow> string" where
  "config_app_url env a =
     (let u = setting_or_env env a ''app_url'' ''APP_URL''
      in TrimRight (if u = [] then ''http://localhost:8080'' else u) (CHR ''/''))"

text \<open>\<open>endpoint\<close> is the pair of URLs the OAuth library knows for a provider.\<close>

definition GetOAuthConfig :: "string \<times> string \<Rightarrow> (string \<Rightarrow> string) \<Rightarrow> Accounts \<Rightarrow> OAuthConfig option" where
  "GetOAuthConfig endpoint env a =
     (let cid = setting_or_env env a ''github_client_id'' ''GITHUB_CLIENT_ID'';
          sec = setting_or_env env a ''github_client_secret'' ''GITHUB_CLIENT_SECRET''
      in if cid = [] \<or> sec = [] then None
         else Some \<lparr>cfg_ClientID = cid, cfg_ClientSecret = sec, cfg_Scopes = [''read:user'', ''user:email''],
                cfg_AuthURL = fst endpoint, cfg_TokenURL = snd endpoint,
                cfg_RedirectURL = config_app_url env a @ ''/api/auth/github/callback''\<rparr>)"

definition GetGoogleOAuthConfig :: "string \<times> string \<Rightarrow> (string \<Rightarrow> string) \<Rightarrow> Accounts \<Rightarrow> OAuthConfig option" where
  "GetGoogleOAuthConfig endpoint env a =
     (let cid = setting_or_env env a ''google_client_id'' ''GOOGLE_CLIENT_ID'';
          sec = setting_or_env env a ''google_client_secret'' ''GOOGLE_CLIENT_SECRET''
      in if cid = [] \<or> sec = [] then None
         else Some \<lparr>cfg_ClientID = cid, cfg_ClientSecret = sec, cfg_Scopes = [''openid'', ''profile'', ''email''],
                cfg_AuthURL = fst endpoint, cfg_TokenURL = snd endpoint,
                cfg_RedirectURL = config_app_url env a @ ''/api/auth/google/callback''\<rparr>)"

definition GetGenericOAuthConfig :: "(string \<Rightarrow> string) \<Rightarrow> Accounts \<Rightarrow> OAuthConfig option" where
  "GetGenericOAuthConfig env a =
     (let cid = setting_or_env env a ''oidc_client_id'' ''OIDC_CLIENT_ID'';
          sec = setting_or_env env a ''oidc_client_secret'' ''OIDC_CLIENT_SECRET'';
          au = setting_or_env env a ''oidc_auth_url'' ''OIDC_AUTH_URL'';
          tu = setting_or_env env a ''oidc_token_url'' ''OIDC_TOKEN_URL''
      in if cid = [] \<or> sec = [] \<or> au = [] \<or> tu = [] then None
         else Some \<lparr>cfg_ClientID = cid, cfg_ClientSecret = sec, cfg_Scopes = [''openid'', ''profile'', ''email''],
                cfg_AuthURL = au, cfg_TokenURL = tu,
                cfg_RedirectURL = config_app_url env a @ ''/api/auth/oidc/callback''\<rparr>)"

record AuthUser =
  au_Provider :: string
  au_ProviderUserID :: string
  au_Username :: string
  au_Email :: string
  au_AvatarURL :: string
  au_VerifiedEmails :: "string list"

definition GetGravatarURL :: "(string \<Rightarrow> string) \<Rightarrow> string \<Rightarrow> string" where
  "GetGravatarURL sha email =
     (let e = TrimSpace (ToLower email)
      in if e = [] then [] else ''https://www.gravatar.com/avatar/'' @ hex_encode (sha e) @ ''?d=identicon'')"

record GitHubUser =
  gh_ID :: int
  gh_Login :: string
  gh_Email :: string
  gh_AvatarURL :: string

record GitHubEmail =
  ge_Email :: string
  ge_Primary :: bool
  ge_Verified :: bool

text \<open>The two answers of the GitHub API, decoded: the user, and the emails. \<open>None\<close> stands for a request that failed.\<close>

definition github_emails :: "GitHubUser \<Rightarrow> GitHubEmail list \<Rightarrow> GitHubUser \<times> string list" where
  "github_emails u es =
     foldl (\<lambda>(g, vs) e.
        if ge_Verified e then
          (let clean = ToLower (TrimSpace (ge_Email e))
           in if clean \<noteq> [] then (if ge_Primary e then g\<lparr>gh_Email := clean\<rparr> else g, vs @ [clean]) else (g, vs))
        else (g, vs)) (u, []) es"

definition FetchGitHubUserInfo :: "GitHubUser option \<Rightarrow> GitHubEmail list option \<Rightarrow> (GitHubUser \<times> string list) option" where
  "FetchGitHubUserInfo user emails =
     (case user of None \<Rightarrow> None
      | Some u \<Rightarrow> (case emails of None \<Rightarrow> None
                   | Some es \<Rightarrow> (case github_emails u es of (g, vs) \<Rightarrow>
                       Some (if gh_Email g = [] \<and> vs \<noteq> [] then g\<lparr>gh_Email := hd vs\<rparr> else g, vs))))"

record googleUserInfo =
  go_ID :: string
  go_Email :: string
  go_VerifiedEmail :: bool
  go_Name :: string
  go_Picture :: string

definition FetchGoogleUserInfo :: "googleUserInfo option \<Rightarrow> AuthUser option" where
  "FetchGoogleUserInfo answer =
     (case answer of None \<Rightarrow> None
      | Some i \<Rightarrow>
          if \<not> go_VerifiedEmail i then None
          else Some \<lparr>au_Provider = ''google'', au_ProviderUserID = go_ID i, au_Username = go_Name i, au_Email = ToLower (go_Email i),
                      au_AvatarURL = go_Picture i, au_VerifiedEmails = [ToLower (go_Email i)]\<rparr>)"

text \<open>\<open>oi_ID\<close> is the printed form of the optional field of any type.\<close>

record oidcUserInfo =
  oi_Sub :: string
  oi_ID :: "string option"
  oi_Email :: string
  oi_EmailVerified :: "bool option"
  oi_Name :: string
  oi_PreferredUsername :: string
  oi_Picture :: string
  oi_AvatarURL :: string

definition FetchGenericOIDCUserInfo :: "(string \<Rightarrow> string) \<Rightarrow> Accounts \<Rightarrow> (string \<Rightarrow> oidcUserInfo option) \<Rightarrow> AuthUser option" where
  "FetchGenericOIDCUserInfo env a fetch =
     (let url = setting_or_env env a ''oidc_userinfo_url'' ''OIDC_USERINFO_URL''
      in if url = [] then None
         else case fetch url of None \<Rightarrow> None
         | Some i \<Rightarrow>
             if oi_EmailVerified i \<noteq> Some True then None
             else let email = ToLower (TrimSpace (oi_Email i))
                  in if email = [] then None
                     else let name1 = (if oi_PreferredUsername i = [] then oi_Name i else oi_PreferredUsername i);
                              sub = (if oi_Sub i = [] then (case oi_ID i of Some t \<Rightarrow> t | None \<Rightarrow> []) else oi_Sub i);
                              prov = GetSetting a ''oidc_name''
                          in Some \<lparr>au_Provider = (if prov = [] then ''oidc'' else prov), au_ProviderUserID = sub,
                               au_Username = (if name1 = [] then email else name1), au_Email = email,
                               au_AvatarURL = (if oi_Picture i = [] then oi_AvatarURL i else oi_Picture i),
                               au_VerifiedEmails = [email]\<rparr>)"

section \<open>Logging in\<close>

definition find_account :: "string \<Rightarrow> string \<Rightarrow> Accounts \<Rightarrow> User option" where
  "find_account prov pid a = find (\<lambda>u. us_Provider u = prov \<and> us_ProviderID u = pid) (users a)"

definition find_email :: "string \<Rightarrow> Accounts \<Rightarrow> EmailWhitelist option" where
  "find_email e a = find (\<lambda>w. wl_Email w = e) (whitelist a)"

definition save_user :: "User \<Rightarrow> Accounts \<Rightarrow> Accounts" where
  "save_user u a = a\<lparr>users := map (\<lambda>x. if us_ID x = us_ID u then u else x) (users a)\<rparr>"

definition new_user :: "int \<Rightarrow> nanosec \<Rightarrow> AuthUser \<Rightarrow> string \<Rightarrow> string \<Rightarrow> User" where
  "new_user uid now u email role = \<lparr>us_ID = uid, us_Provider = au_Provider u, us_ProviderID = au_ProviderUserID u, us_GitHubID = 0,
     us_Username = au_Username u, us_Email = email, us_AvatarURL = au_AvatarURL u, us_Role = role, us_LastLoginAt = now\<rparr>"

definition seen_user :: "nanosec \<Rightarrow> AuthUser \<Rightarrow> User \<Rightarrow> User" where
  "seen_user now u x = x\<lparr>us_LastLoginAt := now, us_Username := au_Username u, us_AvatarURL := au_AvatarURL u\<rparr>"

text \<open>\<open>uid\<close> and \<open>wid\<close> are the keys the database assigns to new rows.\<close>

definition bootstrapSuperadminTx :: "int \<Rightarrow> int \<Rightarrow> nanosec \<Rightarrow> AuthUser \<Rightarrow> Accounts \<Rightarrow> Accounts \<times> User" where
  "bootstrapSuperadminTx uid wid now u a =
     (let (user, a1) =
            (case find_account (au_Provider u) (au_ProviderUserID u) a of
               None \<Rightarrow> (let x = new_user uid now u (au_Email u) ''superadmin'' in (x, a\<lparr>users := users a @ [x]\<rparr>))
             | Some x0 \<Rightarrow> (let x = (seen_user now u x0)\<lparr>us_Role := ''superadmin''\<rparr> in (x, save_user x a)));
          a2 = (if find_email (ToLower (au_Email u)) a1 = None then
                  a1\<lparr>whitelist := whitelist a1 @ [\<lparr>wl_ID = wid, wl_Email = ToLower (au_Email u), wl_Remark = ''Initial Superadmin'',
                    wl_CreatedBy = ''system''\<rparr>]\<rparr> else a1)
      in (SetSetting ''is_initialized'' ''true'' a2, user))"

definition upsertAdminUser :: "int \<Rightarrow> nanosec \<Rightarrow> AuthUser \<Rightarrow> string \<Rightarrow> Accounts \<Rightarrow> Accounts \<times> User" where
  "upsertAdminUser uid now u matchedEmail a =
     (case find_account (au_Provider u) (au_ProviderUserID u) a of
        None \<Rightarrow> (let x = new_user uid now u matchedEmail ''admin'' in (a\<lparr>users := users a @ [x]\<rparr>, x))
      | Some x0 \<Rightarrow> (let x = seen_user now u x0 in (save_user x a, x)))"

definition matched_email :: "AuthUser \<Rightarrow> Accounts \<Rightarrow> string" where
  "matched_email u a =
     (case find (\<lambda>e. find_email (ToLower e) a \<noteq> None) (au_VerifiedEmails u) of None \<Rightarrow> [] | Some e \<Rightarrow> e)"

text \<open>The surroundings of a login: library, environment, random bytes, SHA-256, time, keys of new rows, and the transaction's error.\<close>

record login_env =
  le_jwt :: jwt_lib
  le_env :: "string \<Rightarrow> string"
  le_rand :: string
  le_sha :: "string \<Rightarrow> string"
  le_now :: nanosec
  le_uid :: int
  le_wid :: int
  le_txerr :: "string option"

definition finish_login :: "login_env \<Rightarrow> http_request \<Rightarrow> Accounts \<times> User \<Rightarrow> Accounts \<times> reply \<times> cookie list" where
  "finish_login le c = (\<lambda>(a, user).
     case GenerateToken (le_jwt le) (le_env le) (le_rand le) (le_now le) user a of
       (None, a1) \<Rightarrow> (a1, Redirect ''/login?error=token_generation_failed'', [])
     | (Some tok, a1) \<Rightarrow> (a1, Redirect ''/admin'', [SetSessionCookie (le_env le) c a1 tok]))"

definition handleOAuthLoginSuccess :: "login_env \<Rightarrow> http_request \<Rightarrow> AuthUser \<Rightarrow> Accounts \<Rightarrow> Accounts \<times> reply \<times> cookie list" where
  "handleOAuthLoginSuccess le c u0 a =
     (let u = (if au_Provider u0 \<noteq> ''github'' \<and> au_Email u0 \<noteq> [] then u0\<lparr>au_AvatarURL := GetGravatarURL (le_sha le) (au_Email u0)\<rparr> else u0)
      in case le_txerr le of
           Some e \<Rightarrow> (a, Redirect (''/login?error=auth_failed&details='' @ e), [])
         | None \<Rightarrow>
             if mget (settings a) ''is_initialized'' \<noteq> Some ''true'' then
               finish_login le c (bootstrapSuperadminTx (le_uid le) (le_wid le) (le_now le) u a)
             else if matched_email u a = [] then (a, Redirect (''/login?error=email_not_whitelisted&email='' @ au_Email u), [])
             else finish_login le c (upsertAdminUser (le_uid le) (le_now le) u (matched_email u a) a))"

text \<open>
  The three callbacks. \<open>code\<close> and \<open>state\<close> are query parameters; \<open>exchange\<close> says whether the code was exchanged for a token,
  the rest is what the provider's API answered.
\<close>

definition githubCallback ::
  "login_env \<Rightarrow> string \<times> string \<Rightarrow> bool \<Rightarrow> GitHubUser option \<Rightarrow> GitHubEmail list option \<Rightarrow> string \<Rightarrow> string \<Rightarrow> http_request \<Rightarrow> Accounts \<Rightarrow> Accounts \<times> reply \<times> cookie list" where
  "githubCallback le endpoint exchange user emails code state c a =
     (case ValidateOAuthState (le_env le) c a state of
        (False, cs) \<Rightarrow> (a, Redirect ''/login?error=invalid_oauth_state'', cs)
      | (True, cs) \<Rightarrow>
          if code = [] then (a, Redirect ''/login?error=missing_code'', cs)
          else if GetOAuthConfig endpoint (le_env le) a = None then (a, Redirect ''/setup?error=oauth_not_configured'', cs)
          else if \<not> exchange then (a, Redirect ''/login?error=token_exchange_failed'', cs)
          else (case FetchGitHubUserInfo user emails of
                  None \<Rightarrow> (a, Redirect ''/login?error=fetch_user_failed'', cs)
                | Some (g, vs) \<Rightarrow>
                    let primaryEmail = (if gh_Email g = [] \<and> vs \<noteq> [] then hd vs else gh_Email g)
                    in if primaryEmail = [] then (a, Redirect ''/login?error=no_verified_github_email'', cs)
                       else case handleOAuthLoginSuccess le c \<lparr>au_Provider = ''github'', au_ProviderUserID = Itoa (gh_ID g),
                                au_Username = gh_Login g, au_Email = primaryEmail, au_AvatarURL = gh_AvatarURL g, au_VerifiedEmails = vs\<rparr> a of
                              (a1, r, cs1) \<Rightarrow> (a1, r, cs @ cs1)))"

definition googleCallback ::
  "login_env \<Rightarrow> string \<times> string \<Rightarrow> bool \<Rightarrow> googleUserInfo option \<Rightarrow> string \<Rightarrow> http_request \<Rightarrow> Accounts \<Rightarrow> Accounts \<times> reply \<times> cookie list" where
  "googleCallback le endpoint exchange answer state c a =
     (case ValidateOAuthState (le_env le) c a state of
        (False, cs) \<Rightarrow> (a, Redirect ''/login?error=invalid_oauth_state'', cs)
      | (True, cs) \<Rightarrow>
          if GetGoogleOAuthConfig endpoint (le_env le) a = None then (a, Redirect ''/setup?error=google_oauth_not_configured'', cs)
          else if \<not> exchange then (a, Redirect ''/login?error=google_exchange_failed'', cs)
          else (case FetchGoogleUserInfo answer of
                  None \<Rightarrow> (a, Redirect ''/login?error=google_userinfo_failed'', cs)
                | Some u \<Rightarrow> (case handleOAuthLoginSuccess le c u a of (a1, r, cs1) \<Rightarrow> (a1, r, cs @ cs1))))"

definition oidcCallback ::
  "login_env \<Rightarrow> bool \<Rightarrow> (string \<Rightarrow> oidcUserInfo option) \<Rightarrow> string \<Rightarrow> http_request \<Rightarrow> Accounts \<Rightarrow> Accounts \<times> reply \<times> cookie list" where
  "oidcCallback le exchange fetch state c a =
     (case ValidateOAuthState (le_env le) c a state of
        (False, cs) \<Rightarrow> (a, Redirect ''/login?error=invalid_oauth_state'', cs)
      | (True, cs) \<Rightarrow>
          if GetGenericOAuthConfig (le_env le) a = None then (a, Redirect ''/setup?error=oidc_not_configured'', cs)
          else if \<not> exchange then (a, Redirect ''/login?error=oidc_exchange_failed'', cs)
          else (case FetchGenericOIDCUserInfo (le_env le) a fetch of
                  None \<Rightarrow> (a, Redirect ''/login?error=oidc_userinfo_failed'', cs)
                | Some u \<Rightarrow> (case handleOAuthLoginSuccess le c u a of (a1, r, cs1) \<Rightarrow> (a1, r, cs @ cs1))))"

section \<open>The whitelist\<close>

text \<open>Creating a row fails when its email (a unique index) or its key is taken.\<close>

definition adminCreateWhitelist :: "int \<Rightarrow> User \<Rightarrow> (string \<times> string) option \<Rightarrow> Accounts \<Rightarrow> Accounts \<times> reply" where
  "adminCreateWhitelist wid adminUser req a =
     (case req of None \<Rightarrow> (a, Reply 400 ''bad request'')
      | Some (em, remark) \<Rightarrow>
          if em = [] then (a, Reply 400 ''bad request'')
          else let email = ToLower (TrimSpace em)
               in if \<not> Contains email ''@'' then (a, Reply 400 ''Invalid email format'')
                  else if find_email email a \<noteq> None \<or> wid \<in> wl_ID ` set (whitelist a) then (a, Reply 409 ''Email already whitelisted'')
                  else (a\<lparr>whitelist := whitelist a @ [\<lparr>wl_ID = wid, wl_Email = email, wl_Remark = TrimSpace remark,
                           wl_CreatedBy = us_Username adminUser\<rparr>]\<rparr>, Reply 201 email))"

text \<open>Deleting is a check followed by the deletion, two statements that other requests can come between.\<close>

definition delete_whitelist_check :: "int \<Rightarrow> Accounts \<Rightarrow> reply option" where
  "delete_whitelist_check wid a =
     (if find (\<lambda>w. wl_ID w = wid) (whitelist a) = None then Some (Reply 404 ''Not found'')
      else if length (whitelist a) \<le> 1 then Some (Reply 400 ''Cannot delete the last whitelisted email'')
      else None)"

definition delete_whitelist_row :: "int \<Rightarrow> Accounts \<Rightarrow> Accounts" where
  "delete_whitelist_row wid a = a\<lparr>whitelist := filter (\<lambda>w. wl_ID w \<noteq> wid) (whitelist a)\<rparr>"

definition adminDeleteWhitelist :: "int \<Rightarrow> Accounts \<Rightarrow> Accounts \<times> reply" where
  "adminDeleteWhitelist wid a =
     (case delete_whitelist_check wid a of
        Some r \<Rightarrow> (a, r)
      | None \<Rightarrow> (delete_whitelist_row wid a, Reply 200 ''Email removed from whitelist''))"


section \<open>Runs\<close>

text \<open>The requests that change accounts, in any order. A request with a token may create the signing secret.\<close>

datatype acc_op =
  OpSetup "string \<Rightarrow> string option" http_request "SetupConfigRequest option"
| OpSaveSettings "(string, string) gomap option"
| OpLogin login_env http_request AuthUser
| OpAuth jwt_lib "string \<Rightarrow> string" string nanosec http_request
| OpAllow int User "(string \<times> string) option"
| OpDisallow int

fun acc_apply :: "Accounts \<Rightarrow> acc_op \<Rightarrow> Accounts" where
  "acc_apply a (OpSetup err c body) = fst (saveSetupConfig err c body a)"
| "acc_apply a (OpSaveSettings req) = fst (adminSaveSettings req a)"
| "acc_apply a (OpLogin le c u) = fst (handleOAuthLoginSuccess le c u a)"
| "acc_apply a (OpAuth lib env rand now c) = snd (extractUser lib env rand now c a)"
| "acc_apply a (OpAllow wid adm req) = fst (adminCreateWhitelist wid adm req a)"
| "acc_apply a (OpDisallow wid) = fst (adminDeleteWhitelist wid a)"

definition acc_run :: "acc_op list \<Rightarrow> Accounts \<Rightarrow> Accounts" where
  "acc_run ops a = foldl acc_apply a ops"

definition initialized :: "Accounts \<Rightarrow> bool" where
  "initialized a \<longleftrightarrow> mget (settings a) ''is_initialized'' = Some ''true''"

definition superadmins :: "Accounts \<Rightarrow> int set" where
  "superadmins a = us_ID ` {u \<in> set (users a). us_Role u = ''superadmin''}"

definition user_ids :: "Accounts \<Rightarrow> int set" where
  "user_ids a = us_ID ` set (users a)"

text \<open>What a run keeps, as a relation between two states.\<close>

definition keeps :: "Accounts \<Rightarrow> Accounts \<Rightarrow> bool" where
  "keeps a b \<longleftrightarrow> initialized b \<and> superadmins b \<subseteq> superadmins a \<and> user_ids a \<subseteq> user_ids b \<and>
     (GetSetting a ''jwt_secret'' \<noteq> [] \<longrightarrow> GetSetting b ''jwt_secret'' = GetSetting a ''jwt_secret'') \<and>
     (distinct (map wl_ID (whitelist a)) \<longrightarrow>
        distinct (map wl_ID (whitelist b)) \<and> (whitelist a \<noteq> [] \<longrightarrow> whitelist b \<noteq> []))"

lemma keeps_refl: "initialized a \<Longrightarrow> keeps a a"
  by (simp add: keeps_def)

lemma keeps_trans: "keeps a b \<Longrightarrow> keeps b c \<Longrightarrow> keeps a c"
  by (auto simp: keeps_def)

lemma Get_Set: "GetSetting (SetSetting k v a) k' = (if k' = k then v else GetSetting a k')"
  by (simp add: GetSetting_def SetSetting_def)

lemma Set_fields [simp]: "users (SetSetting k v a) = users a" "whitelist (SetSetting k v a) = whitelist a"
  "mget (settings (SetSetting k v a)) k' = (if k' = k then Some v else mget (settings a) k')"
  by (simp_all add: SetSetting_def)

lemma initialized_Set: "k \<noteq> ''is_initialized'' \<Longrightarrow> initialized (SetSetting k v a) = initialized a"
  by (simp add: initialized_def)

lemma keeps_Set: "initialized a \<Longrightarrow> k \<noteq> ''is_initialized'' \<Longrightarrow> k \<noteq> ''jwt_secret'' \<or> GetSetting a k = [] \<Longrightarrow> keeps a (SetSetting k v a)"
  by (auto simp: keeps_def initialized_Set superadmins_def user_ids_def Get_Set)

lemma keeps_GetJWTSecret: "initialized a \<Longrightarrow> keeps a (snd (GetJWTSecret env rand a))"
  by (simp add: GetJWTSecret_def keeps_refl keeps_Set)

lemma internal_keys: "''is_initialized'' \<notin> set allowedSettingsKeys" "''jwt_secret'' \<notin> set allowedSettingsKeys"
  by (simp_all add: allowedSettingsKeys_def)

lemma keeps_save_setting: "initialized a \<Longrightarrow> keeps a (save_setting a kv)"
proof (cases kv)
  case (Pair k v)
  assume "initialized a"
  then show ?thesis using internal_keys Pair
    by (auto simp: save_setting_def keeps_refl intro: keeps_Set)
qed

lemma keeps_foldl:
  assumes "\<And>b x. initialized b \<Longrightarrow> keeps b (f b x)" "initialized a"
  shows "keeps a (foldl f a xs)"
  using assms(2)
proof (induction xs arbitrary: a)
  case (Cons x xs)
  have "keeps a (f a x)" using assms(1) Cons.prems by simp
  then show ?case using Cons.IH [of "f a x"] by (auto intro: keeps_trans simp: keeps_def)
qed (simp add: keeps_refl)

lemma initialized_Get: "initialized a \<Longrightarrow> GetSetting a ''is_initialized'' = ''true''"
  by (simp add: initialized_def GetSetting_def)

lemma save_user_fields [simp]: "settings (save_user x a) = settings a" "whitelist (save_user x a) = whitelist a"
  by (simp_all add: save_user_def)

lemma save_user_ids: "user_ids (save_user x a) = user_ids a"
  proof -
  have "us_ID ` set (map (\<lambda>z. if us_ID z = us_ID x then x else z) xs) = us_ID ` set xs" for xs
    by (induction xs) auto
  then show ?thesis by (simp add: user_ids_def save_user_def)
qed

lemma save_user_superadmins:
  "x \<in> set (users a) \<Longrightarrow> us_ID y = us_ID x \<Longrightarrow> us_Role y = us_Role x \<Longrightarrow> superadmins (save_user y a) \<subseteq> superadmins a"
  by (auto simp: superadmins_def save_user_def image_iff split: if_splits)

lemma keeps_upsert:
  assumes "initialized a"
  shows "keeps a (fst (upsertAdminUser uid now u em a))"
proof (cases "find_account (au_Provider u) (au_ProviderUserID u) a")
  case None
  then show ?thesis using assms
    by (auto simp: upsertAdminUser_def Let_def keeps_def initialized_def superadmins_def user_ids_def new_user_def GetSetting_def)
next
  case (Some x)
  then have "x \<in> set (users a)" by (auto simp: find_account_def dest: find_SomeD)
  then have "superadmins (save_user (seen_user now u x) a) \<subseteq> superadmins a"
    by (rule save_user_superadmins) (simp_all add: seen_user_def)
  then show ?thesis using assms Some
    by (simp add: upsertAdminUser_def Let_def keeps_def initialized_def GetSetting_def save_user_ids)
qed

lemma keeps_finish:
  "initialized a \<Longrightarrow> keeps a (fst (finish_login le c (a, user)))"
  using keeps_GetJWTSecret [of a "le_env le" "le_rand le"]
  by (auto simp: finish_login_def GenerateToken_def Let_def split: prod.splits option.splits)

lemma keeps_login:
  assumes "initialized a"
  shows "keeps a (fst (handleOAuthLoginSuccess le c u a))"
proof -
  have "keeps a (fst (finish_login le c (upsertAdminUser uid now v em a)))" for uid now v em
    using keeps_upsert [OF assms, of uid now v em] keeps_finish [of "fst (upsertAdminUser uid now v em a)"]
    by (metis keeps_def keeps_trans prod.collapse)
  then show ?thesis using assms
    by (auto simp: handleOAuthLoginSuccess_def Let_def initialized_def keeps_refl split: option.split)
qed

lemma keeps_extract: "initialized a \<Longrightarrow> keeps a (snd (extractUser lib env rand now c a))"
  using keeps_GetJWTSecret [of a env rand]
  by (auto simp: extractUser_def ParseToken_def keeps_refl Let_def split: prod.splits option.splits bool.splits)

lemma keeps_allow: "initialized a \<Longrightarrow> keeps a (fst (adminCreateWhitelist wid adm req a))"
  by (auto simp: adminCreateWhitelist_def keeps_def Let_def initialized_def superadmins_def user_ids_def GetSetting_def
      split: option.split)

lemma filter_key_nonempty:
  "distinct (map f xs) \<Longrightarrow> 1 < length xs \<Longrightarrow> filter (\<lambda>x. f x \<noteq> k) xs \<noteq> []"
  by (cases xs; cases "tl xs") auto

lemma distinct_map_filter_key: "distinct (map f xs) \<Longrightarrow> distinct (map f (filter P xs))"
  by (induction xs) auto

lemma keeps_disallow: "initialized a \<Longrightarrow> keeps a (fst (adminDeleteWhitelist wid a))"
  using filter_key_nonempty [of wl_ID "whitelist a" wid] distinct_map_filter_key [of wl_ID "whitelist a"]
  by (auto simp: adminDeleteWhitelist_def delete_whitelist_check_def delete_whitelist_row_def keeps_def initialized_def
      superadmins_def user_ids_def GetSetting_def split: option.split if_splits)

lemma keeps_op: "initialized a \<Longrightarrow> keeps a (acc_apply a op)"
proof (cases op)
  case (OpSaveSettings req)
  assume "initialized a"
  then show ?thesis using keeps_foldl [of save_setting a] keeps_save_setting OpSaveSettings
    by (auto simp: adminSaveSettings_def keeps_refl split: option.split)
qed (auto simp: saveSetupConfig_def initialized_Get keeps_refl intro: keeps_login keeps_extract keeps_allow keeps_disallow)

lemma keeps_run: "initialized a \<Longrightarrow> keeps a (acc_run ops a)"
  unfolding acc_run_def by (rule keeps_foldl) (auto intro: keeps_op)


section \<open>Properties\<close>

lemma find_key: "find (\<lambda>x. f x = k) xs \<noteq> None \<longleftrightarrow> k \<in> f ` set xs"
  by (induction xs) auto

lemma find_email_Some: "find_email e a \<noteq> None \<longleftrightarrow> e \<in> wl_Email ` set (whitelist a)"
  unfolding find_email_def by (rule find_key)

lemma matched_email_whitelisted:
  assumes "matched_email u a \<noteq> []"
  shows "\<exists>e. e \<in> set (au_VerifiedEmails u) \<and> ToLower e \<in> wl_Email ` set (whitelist a)"
proof -
  obtain e where "find (\<lambda>e. find_email (ToLower e) a \<noteq> None) (au_VerifiedEmails u) = Some e"
    using assms by (auto simp: matched_email_def split: option.splits)
  from find_SomeD [OF this] have "e \<in> set (au_VerifiedEmails u)" "ToLower e \<in> wl_Email ` set (whitelist a)"
    unfolding find_email_Some by blast+
  then show ?thesis by blast
qed

definition session_cookie :: "cookie \<Rightarrow> bool" where
  "session_cookie ck = (case ck of SetCookie name tok age path sec \<Rightarrow> name = CookieSessionName \<and> age > 0)"

lemma login_matched:
  assumes "initialized a" "handleOAuthLoginSuccess le c u a = (b, r, cs)" "cs \<noteq> []"
  shows "\<exists>e. e \<in> set (au_VerifiedEmails u) \<and> ToLower e \<in> wl_Email ` set (whitelist a)"
proof -
  have "matched_email u a \<noteq> []"
  proof
    assume m: "matched_email u a = []"
    have "matched_email (u\<lparr>au_AvatarURL := x\<rparr>) a = matched_email u a" for x by (simp add: matched_email_def)
    then show False using assms m by (auto simp: handleOAuthLoginSuccess_def initialized_def Let_def split: option.splits if_splits)
  qed
  then show ?thesis by (rule matched_email_whitelisted)
qed

lemma state_cookie_not_session: "ValidateOAuthState env c a st = (ok, cs) \<Longrightarrow> filter session_cookie cs = []"
  by (auto simp: ValidateOAuthState_def session_cookie_def CookieSessionName_def OAuthStateCookie_def split: if_splits option.splits)

lemma state_checked: "ValidateOAuthState env c a st = (True, cs) \<Longrightarrow> st \<noteq> [] \<and> rq_Cookie c OAuthStateCookie = Some st"
  by (auto simp: ValidateOAuthState_def split: if_splits option.splits)

lemma github_verified:
  "github_emails u es = (g, vs) \<Longrightarrow> v \<in> set vs \<Longrightarrow> \<exists>e. e \<in> set es \<and> ge_Verified e \<and> v = ToLower (TrimSpace (ge_Email e))"
proof (induction es arbitrary: g vs rule: rev_induct)
  case (snoc e es)
  obtain g1 vs1 where "github_emails u es = (g1, vs1)" by (rule prod.exhaust)
  note ih = snoc.IH [OF this]
  have "vs = (if ge_Verified e \<and> ToLower (TrimSpace (ge_Email e)) \<noteq> [] then vs1 @ [ToLower (TrimSpace (ge_Email e))] else vs1)"
    using snoc.prems(1) \<open>github_emails u es = (g1, vs1)\<close> by (auto simp: github_emails_def Let_def split: if_splits)
  then have "v \<in> set vs1 \<or> ge_Verified e \<and> v = ToLower (TrimSpace (ge_Email e))"
    using snoc.prems(2) by (auto split: if_splits)
  then show ?case using ih by auto
qed (simp add: github_emails_def)

lemma Fetch_verified:
  "FetchGitHubUserInfo user emails = Some (g, vs) \<Longrightarrow>
   \<exists>u es g1. user = Some u \<and> emails = Some es \<and> github_emails u es = (g1, vs)"
  by (auto simp: FetchGitHubUserInfo_def split: option.splits prod.splits)

text \<open>
  C6: on an initialised platform a GitHub login is answered with a session cookie only when the request carries the
  state cookie that belongs to its state parameter, and one of the account's emails that GitHub reports as verified is,
  cleaned and in lower case, on the whitelist.
\<close>

theorem github_login_needs_whitelist:
  assumes "initialized a"
    and "githubCallback le endpoint exchange user emails code state c a = (b, r, cs)"
    and "filter session_cookie cs \<noteq> []"
  shows "state \<noteq> [] \<and> rq_Cookie c OAuthStateCookie = Some state \<and>
    (\<exists>es e. emails = Some es \<and> e \<in> set es \<and> ge_Verified e \<and>
       ToLower (ToLower (TrimSpace (ge_Email e))) \<in> wl_Email ` set (whitelist a))"
proof -
  obtain ok cs0 where v: "ValidateOAuthState (le_env le) c a state = (ok, cs0)" by (rule prod.exhaust)
  note no = state_cookie_not_session [OF v]
  have ok: "ok" using assms(2,3) v no by (cases ok) (auto simp: githubCallback_def)
  obtain g vs where f: "FetchGitHubUserInfo user emails = Some (g, vs)"
    using assms(2,3) v no ok by (auto simp: githubCallback_def split: if_splits option.splits)
  define u where "u = \<lparr>au_Provider = ''github'', au_ProviderUserID = Itoa (gh_ID g), au_Username = gh_Login g,
    au_Email = (if gh_Email g = [] \<and> vs \<noteq> [] then hd vs else gh_Email g), au_AvatarURL = gh_AvatarURL g, au_VerifiedEmails = vs\<rparr>"
  obtain b1 r1 cs1 where h: "handleOAuthLoginSuccess le c u a = (b1, r1, cs1)" by (rule prod_cases3)
  have "cs1 \<noteq> []"
  proof
    assume "cs1 = []"
    then show False using assms(2,3) v no ok f h
      by (auto simp: githubCallback_def Let_def u_def split: if_splits)
  qed
  then obtain e where e: "e \<in> set (au_VerifiedEmails u)" "ToLower e \<in> wl_Email ` set (whitelist a)"
    using login_matched [OF assms(1) h] by blast
  moreover obtain gu es g1 where "emails = Some es" "github_emails gu es = (g1, vs)" using Fetch_verified [OF f] by blast
  moreover have "e \<in> set vs" using e(1) by (simp add: u_def)
  ultimately show ?thesis using state_checked v ok github_verified by metis
qed


text \<open>
  the check that the last whitelisted email is never deleted is not atomic with the deletion: two requests that
  delete the two remaining emails can both pass it, the whitelist is empty afterwards, and from then on every login on
  the initialised platform is refused.
\<close>

theorem whitelist_race_locks_out:
  assumes "whitelist a = [w1, w2]" "wl_ID w1 \<noteq> wl_ID w2" "initialized a"
  shows "delete_whitelist_check (wl_ID w1) a = None \<and> delete_whitelist_check (wl_ID w2) a = None \<and>
    whitelist (delete_whitelist_row (wl_ID w2) (delete_whitelist_row (wl_ID w1) a)) = [] \<and>
    snd (snd (handleOAuthLoginSuccess le c u (delete_whitelist_row (wl_ID w2) (delete_whitelist_row (wl_ID w1) a)))) = []"
proof -
  let ?b = "delete_whitelist_row (wl_ID w2) (delete_whitelist_row (wl_ID w1) a)"
  have e: "whitelist ?b = []" using assms by (simp add: delete_whitelist_row_def)
  moreover have "initialized ?b" using assms(3) by (simp add: delete_whitelist_row_def initialized_def)
  ultimately have "snd (snd (handleOAuthLoginSuccess le c u ?b)) = []"
    using login_matched [of ?b le c u] by (metis empty_iff empty_set image_empty prod.collapse)
  then show ?thesis using assms e by (simp add: delete_whitelist_check_def)
qed


definition demo_accounts :: Accounts where
  "demo_accounts = \<lparr>settings = [(''is_initialized'', ''true''), (''jwt_secret'', ''k''), (''github_client_id'', ''i''), (''github_client_secret'', ''s'')],
     whitelist = [\<lparr>wl_ID = 1, wl_Email = ''a@x'', wl_Remark = [], wl_CreatedBy = ''system''\<rparr>,
                  \<lparr>wl_ID = 2, wl_Email = ''b@x'', wl_Remark = [], wl_CreatedBy = ''root''\<rparr>],
     users = [\<lparr>us_ID = 1, us_Provider = ''github'', us_ProviderID = ''7'', us_GitHubID = 0, us_Username = ''ann'', us_Email = ''a@x'',
               us_AvatarURL = [], us_Role = ''superadmin'', us_LastLoginAt = 0\<rparr>]\<rparr>"

definition demo_claims :: JWTClaims where
  "demo_claims = \<lparr>cl_UserID = 1, cl_GitHubID = 0, cl_Username = ''ann'', cl_Email = ''a@x'', cl_Role = ''superadmin'',
     cl_ExpiresAt = token_life, cl_IssuedAt = 0\<rparr>"

definition demo_jwt :: jwt_lib where
  "demo_jwt = \<lparr>jwt_sign = (\<lambda>k c. if c = demo_claims then Some (''jwt:'' @ k) else None), jwt_hmac = (\<lambda>t. Some (HasPrefix t ''jwt:'')),
     jwt_check = (\<lambda>k now t. if t = ''jwt:'' @ k \<and> now < token_life then Some demo_claims else None)\<rparr>"

definition demo_login :: login_env where
  "demo_login = \<lparr>le_jwt = demo_jwt, le_env = (\<lambda>_. []), le_rand = [], le_sha = (\<lambda>s. s), le_now = 0, le_uid = 9, le_wid = 9, le_txerr = None\<rparr>"

definition demo_http :: http_request where
  "demo_http = \<lparr>rq_Host = ''h'', rq_TLS = True, rq_Header = (\<lambda>_. []), rq_Cookie = (\<lambda>n. if n = OAuthStateCookie then Some ''st'' else
     if n = CookieSessionName then Some ''jwt:k'' else None)\<rparr>"

definition demo_gh :: "AuthUser" where
  "demo_gh = \<lparr>au_Provider = ''github'', au_ProviderUserID = ''7'', au_Username = ''ann'', au_Email = ''a@x'', au_AvatarURL = [], au_VerifiedEmails = [''a@x'']\<rparr>"

lemma demo_initialized: "initialized demo_accounts"
  by (simp add: demo_accounts_def initialized_def mget_def)

lemma demo_github:
  "githubCallback demo_login ([], []) True (Some \<lparr>gh_ID = 7, gh_Login = ''ann'', gh_Email = [], gh_AvatarURL = []\<rparr>)
     (Some [\<lparr>ge_Email = '' A@x'', ge_Primary = True, ge_Verified = True\<rparr>]) ''code'' ''st'' demo_http demo_accounts =
   (demo_accounts, Redirect ''/admin'',
    [SetCookie OAuthStateCookie [] (- 1) ''/api/auth'' True, SetCookie CookieSessionName ''jwt:k'' (7 * 86400) ''/'' True])"
  by code_simp

theorem github_login_needs_whitelist_witness:
  "rq_Cookie demo_http OAuthStateCookie = Some ''st''"
  using github_login_needs_whitelist [OF demo_initialized demo_github]
  by (simp add: session_cookie_def)


theorem whitelist_race_locks_out_witness:
  "whitelist (delete_whitelist_row 2 (delete_whitelist_row 1 demo_accounts)) = []"
  using whitelist_race_locks_out [of demo_accounts "whitelist demo_accounts ! 0" "whitelist demo_accounts ! 1"] demo_initialized
  by (simp add: demo_accounts_def)

text \<open>The account a login on an initialised platform ends in.\<close>

definition login_account :: "login_env \<Rightarrow> AuthUser \<Rightarrow> Accounts \<Rightarrow> User" where
  "login_account le u0 a =
     (let u = (if au_Provider u0 \<noteq> ''github'' \<and> au_Email u0 \<noteq> [] then u0\<lparr>au_AvatarURL := GetGravatarURL (le_sha le) (au_Email u0)\<rparr> else u0)
      in snd (upsertAdminUser (le_uid le) (le_now le) u (matched_email u a) a))"

lemma upsert_user_in: "us_ID (snd (upsertAdminUser uid now u em a)) \<in> user_ids (fst (upsertAdminUser uid now u em a))"
proof (cases "find_account (au_Provider u) (au_ProviderUserID u) a")
  case (Some x)
  then have "us_ID x \<in> user_ids a" by (auto simp: find_account_def user_ids_def dest: find_SomeD)
  then show ?thesis using Some by (simp add: upsertAdminUser_def Let_def save_user_ids) (simp add: seen_user_def)
qed (simp add: upsertAdminUser_def Let_def user_ids_def)

lemma login_session:
  assumes "initialized a" "GetSetting a ''jwt_secret'' \<noteq> []"
    "handleOAuthLoginSuccess le c u a = (b, r, [SetCookie nm tok age path sec])"
  shows "jwt_sign (le_jwt le) (GetSetting a ''jwt_secret'') (user_claims (le_now le) (login_account le u a)) = Some tok \<and>
     us_ID (login_account le u a) \<in> user_ids b"
proof -
  define v where "v = (if au_Provider u \<noteq> ''github'' \<and> au_Email u \<noteq> [] then u\<lparr>au_AvatarURL := GetGravatarURL (le_sha le) (au_Email u)\<rparr> else u)"
  obtain a1 x where up: "upsertAdminUser (le_uid le) (le_now le) v (matched_email v a) a = (a1, x)" by (rule prod.exhaust)
  have x: "login_account le u a = x" using up by (simp add: login_account_def v_def [symmetric])
  have s: "GetSetting a1 ''jwt_secret'' = GetSetting a ''jwt_secret''"
    using keeps_upsert [OF assms(1), of "le_uid le" "le_now le" v "matched_email v a"] assms(2) up by (simp add: keeps_def)
  have f: "finish_login le c (a1, x) = (b, r, [SetCookie nm tok age path sec])"
    using assms(1,3) up by (auto simp: handleOAuthLoginSuccess_def v_def [symmetric] initialized_def split: option.splits if_splits)
  have g: "GetJWTSecret (le_env le) (le_rand le) a1 = (GetSetting a ''jwt_secret'', a1)"
    using s assms(2) by (simp add: GetJWTSecret_def)
  have "b = a1 \<and> jwt_sign (le_jwt le) (GetSetting a ''jwt_secret'') (user_claims (le_now le) x) = Some tok"
    using f by (auto simp: finish_login_def GenerateToken_def g SetSessionCookie_def split: option.splits)
  then show ?thesis using upsert_user_in [of "le_uid le" "le_now le" v "matched_email v a" a] up x by simp
qed

text \<open>
  on an initialised platform the session cookie a login sets authenticates its user in every later request until one
  second before seven days have passed, whatever setup, settings, login and whitelist requests come between: in particular
  taking the user's email off the whitelist does not end the session. The assumption on the JWT library is that a token it
  signed names an HMAC method and verifies with the same key until a second before its expiry.
\<close>

theorem session_lasts:
  assumes "initialized a" "GetSetting a ''jwt_secret'' \<noteq> []"
    and "handleOAuthLoginSuccess le c u a = (b, r, [SetCookie nm tok age path sec])"
    and lib: "\<And>k tk t. jwt_sign (le_jwt le) k (user_claims (le_now le) (login_account le u a)) = Some tk \<Longrightarrow>
       tk \<noteq> [] \<and> jwt_hmac (le_jwt le) tk = Some True \<and>
       (t + 1000000000 < le_now le + token_life \<longrightarrow> jwt_check (le_jwt le) k t tk = Some (user_claims (le_now le) (login_account le u a)))"
    and "rq_Cookie c' CookieSessionName = Some tok" "t + 1000000000 < le_now le + token_life"
  shows "\<exists>x. AuthRequired (fst (extractUser (le_jwt le) env rand t c' (acc_run ops b))) = Inr x \<and> us_ID x = us_ID (login_account le u a)"
proof -
  let ?b = "acc_run ops b" and ?cl = "user_claims (le_now le) (login_account le u a)"
  note sess = login_session [OF assms(1-3)]
  have ab: "keeps a b" using keeps_login [OF assms(1), of le c u] assms(3) by simp
  have bb: "keeps b ?b" by (rule keeps_run) (use ab in \<open>simp add: keeps_def\<close>)
  note k = keeps_trans [OF ab bb] bb
  have key: "GetSetting ?b ''jwt_secret'' = GetSetting a ''jwt_secret''" using k(1) assms(2) by (simp add: keeps_def)
  have "us_ID (login_account le u a) \<in> user_ids ?b" using k(2) sess by (auto simp: keeps_def)
  then have "find_user (us_ID (login_account le u a)) ?b \<noteq> None"
    unfolding user_ids_def find_user_def find_key .
  then obtain x where x: "find_user (us_ID (login_account le u a)) ?b = Some x" by blast
  then have "us_ID x = us_ID (login_account le u a)" unfolding find_user_def using find_SomeD by fast
  moreover have "tok \<noteq> []" "jwt_hmac (le_jwt le) tok = Some True" "jwt_check (le_jwt le) (GetSetting a ''jwt_secret'') t tok = Some ?cl"
    using lib [of "GetSetting a ''jwt_secret''" tok t] sess assms(6) by auto
  moreover have "GetJWTSecret env rand ?b = (GetSetting a ''jwt_secret'', ?b)" using key assms(2) by (simp add: GetJWTSecret_def)
  moreover have "auth_token c' = tok" using assms(5) calculation(2) by (simp add: auth_token_def)
  ultimately show ?thesis using x by (simp add: extractUser_def ParseToken_def AuthRequired_def user_claims_def)
qed

theorem session_lasts_witness:
  "\<exists>x. AuthRequired (fst (extractUser demo_jwt (\<lambda>_. []) [] 5 demo_http (acc_run [OpDisallow 1] demo_accounts))) = Inr x \<and> us_ID x = 1"
proof -
  have l: "login_account demo_login demo_gh demo_accounts = users demo_accounts ! 0" by code_simp
  then have cl: "user_claims (le_now demo_login) (login_account demo_login demo_gh demo_accounts) = demo_claims"
    by (simp add: demo_accounts_def demo_login_def user_claims_def demo_claims_def)
  have h: "handleOAuthLoginSuccess demo_login demo_http demo_gh demo_accounts =
      (demo_accounts, Redirect ''/admin'', [SetCookie CookieSessionName ''jwt:k'' (7 * 86400) ''/'' True])" by code_simp
  have lib: "tk \<noteq> [] \<and> jwt_hmac (le_jwt demo_login) tk = Some True \<and>
      (t + 1000000000 < le_now demo_login + token_life \<longrightarrow>
       jwt_check (le_jwt demo_login) k t tk = Some (user_claims (le_now demo_login) (login_account demo_login demo_gh demo_accounts)))"
    if "jwt_sign (le_jwt demo_login) k (user_claims (le_now demo_login) (login_account demo_login demo_gh demo_accounts)) = Some tk" for k tk t
    using that unfolding cl by (auto simp: demo_login_def demo_jwt_def HasPrefix_def)
  have sec: "GetSetting demo_accounts ''jwt_secret'' \<noteq> []" by code_simp
  have ck: "rq_Cookie demo_http CookieSessionName = Some ''jwt:k''" by code_simp
  have lt: "5 + 1000000000 < le_now demo_login + token_life" by (simp add: demo_login_def token_life_def)
  have "us_ID (login_account demo_login demo_gh demo_accounts) = 1" using l by (simp add: demo_accounts_def)
  moreover have "le_jwt demo_login = demo_jwt" by (simp add: demo_login_def)
  ultimately show ?thesis
    using session_lasts [OF demo_initialized sec h lib ck lt, of "\<lambda>_. []" "[]" "[OpDisallow 1]"] by simp
qed

end
