(* ===== verification/Admin_Api.thy ===== *)
theory Admin_Api
  imports Host Accounts
begin

text \<open>
  The administrators' handlers for targets, probes and proxy credentials: \<^verbatim>\<open>host/internal/api/admin_targets.go\<close>,
  \<^verbatim>\<open>admin_agents.go\<close> and \<^verbatim>\<open>admin_proxy.go\<close>. A handler works on the Host's state and answers with a status and a text;
  settings are read from the accounts. \<open>body\<close> is the decoded request, \<open>None\<close> when it does not decode. Whether a statement of
  the database or the query behind a target sync fails is an argument, as are new ids and random bytes. A handler that reads a
  row and saves it later is split where another request can come between.
\<close>

section \<open>Targets\<close>

record CreateTargetReq =
  ct_Name :: string
  ct_Host :: string
  ct_PacketCount :: int
  ct_IntervalSec :: int
  ct_Tags :: string
  ct_Enabled :: "bool option"
  ct_DisableRoute :: "bool option"

record UpdateTargetReq =
  ut_Name :: "string option"
  ut_Host :: "string option"
  ut_PacketCount :: "int option"
  ut_IntervalSec :: "int option"
  ut_Tags :: "string option"
  ut_Enabled :: "bool option"
  ut_DisableRoute :: "bool option"

text \<open>
  The numbers of a new target: zero and negative ones stand for the default. \<open>stored\<close> is the row the database library writes
  for a new target: it may put a column's default for a zero value.
\<close>

definition create_packets :: "int \<Rightarrow> int option" where
  "create_packets n = (if n > 0 then (if n > 100 then None else Some n) else Some 20)"

definition create_interval :: "int \<Rightarrow> int option" where
  "create_interval n = (if n > 0 then (if n < 5 \<or> n > 3600 then None else Some n) else Some 30)"

definition adminCreateTarget ::
  "(Target \<Rightarrow> Target) \<Rightarrow> string option \<Rightarrow> bool \<Rightarrow> string \<Rightarrow> CreateTargetReq option \<Rightarrow> Host \<Rightarrow> Host \<times> reply" where
  "adminCreateTarget stored dberr syncerr uid body w =
     (case body of None \<Rightarrow> (w, Reply 400 ''Name and Host are required'')
      | Some req \<Rightarrow>
          if ct_Name req = [] \<or> ct_Host req = [] then (w, Reply 400 ''Name and Host are required'')
          else case create_packets (ct_PacketCount req) of None \<Rightarrow> (w, Reply 400 ''Packet count cannot exceed 100'')
          | Some pktCount \<Rightarrow>
              (case create_interval (ct_IntervalSec req) of None \<Rightarrow> (w, Reply 400 ''Interval must be between 5 and 3600 seconds'')
               | Some interval \<Rightarrow>
                   let t = \<lparr>tg_ID = uid, tg_Name = TrimSpace (ct_Name req), tg_Host = TrimSpace (ct_Host req),
                            tg_PacketCount = pktCount, tg_IntervalSec = interval, tg_Tags = TrimSpace (ct_Tags req),
                            tg_Enabled = (case ct_Enabled req of None \<Rightarrow> True | Some b \<Rightarrow> b),
                            tg_DisableRoute = (case ct_DisableRoute req of None \<Rightarrow> False | Some b \<Rightarrow> b)\<rparr>
                   in case dberr of Some e \<Rightarrow> (w, Reply 500 e)
                      | None \<Rightarrow>
                          let d1 = (hdb w)\<lparr>target_rows := target_rows (hdb w) @ [stored t]\<rparr>
                          in (upd_hub (BroadcastTargetSync syncerr d1) (w\<lparr>hdb := d1\<rparr>), Reply 201 uid)))"

definition find_target :: "string \<Rightarrow> DB \<Rightarrow> Target option" where
  "find_target tid d = find (\<lambda>t. tg_ID t = tid) (target_rows d)"

definition save_target :: "Target \<Rightarrow> DB \<Rightarrow> DB" where
  "save_target t d = d\<lparr>target_rows := map (\<lambda>x. if tg_ID x = tg_ID t then t else x) (target_rows d)\<rparr>"

definition patch :: "('a \<Rightarrow> 'r \<Rightarrow> 'r) \<Rightarrow> 'a option \<Rightarrow> 'r \<Rightarrow> 'r" where
  "patch set_field v r = (case v of None \<Rightarrow> r | Some x \<Rightarrow> set_field x r)"

definition nonblank :: "string option \<Rightarrow> string option" where
  "nonblank v = (case v of None \<Rightarrow> None | Some s \<Rightarrow> if TrimSpace s = [] then None else Some (TrimSpace s))"

text \<open>The edited row, or the refusal; the interval and the last fields come after the packet count.\<close>

definition edit_rest :: "UpdateTargetReq \<Rightarrow> Target \<Rightarrow> reply + Target" where
  "edit_rest req t =
     (let rest = (\<lambda>t. patch (\<lambda>x t. t\<lparr>tg_DisableRoute := x\<rparr>) (ut_DisableRoute req)
                   (patch (\<lambda>x t. t\<lparr>tg_Enabled := x\<rparr>) (ut_Enabled req)
                     (patch (\<lambda>x t. t\<lparr>tg_Tags := TrimSpace x\<rparr>) (ut_Tags req) t)))
      in case ut_IntervalSec req of
           Some n \<Rightarrow> if n < 10 \<or> n > 3600 then Inl (Reply 400 ''Interval must be between 10 and 3600 seconds'')
                     else Inr (rest (t\<lparr>tg_IntervalSec := n\<rparr>))
         | None \<Rightarrow> Inr (rest t))"

definition edit_target :: "UpdateTargetReq \<Rightarrow> Target \<Rightarrow> reply + Target" where
  "edit_target req t =
     (let t1 = patch (\<lambda>x t. t\<lparr>tg_Name := x\<rparr>) (nonblank (ut_Name req)) t;
          t2 = patch (\<lambda>x t. t\<lparr>tg_Host := x\<rparr>) (nonblank (ut_Host req)) t1
      in case ut_PacketCount req of
           Some n \<Rightarrow> if n < 1 \<or> n > 100 then Inl (Reply 400 ''Packet count must be between 1 and 100'')
                     else edit_rest req (t2\<lparr>tg_PacketCount := n\<rparr>)
         | None \<Rightarrow> edit_rest req t2)"

definition adminUpdateTarget ::
  "string option \<Rightarrow> bool \<Rightarrow> string \<Rightarrow> UpdateTargetReq option \<Rightarrow> Host \<Rightarrow> Host \<times> reply" where
  "adminUpdateTarget dberr syncerr tid body w =
     (case find_target tid (hdb w) of None \<Rightarrow> (w, Reply 404 ''Target not found'')
      | Some t \<Rightarrow>
          (case body of None \<Rightarrow> (w, Reply 400 ''Invalid payload format'')
           | Some req \<Rightarrow>
               (case edit_target req t of Inl r \<Rightarrow> (w, r)
                | Inr t' \<Rightarrow>
                    (case dberr of Some e \<Rightarrow> (w, Reply 500 e)
                     | None \<Rightarrow> let d1 = save_target t' (hdb w)
                               in (upd_hub (BroadcastTargetSync syncerr d1) (w\<lparr>hdb := d1\<rparr>), Reply 200 tid)))))"

definition adminDeleteTarget :: "string option \<Rightarrow> bool \<Rightarrow> string \<Rightarrow> Host \<Rightarrow> Host \<times> reply" where
  "adminDeleteTarget dberr syncerr tid w =
     (case dberr of Some e \<Rightarrow> (w, Reply 500 e)
      | None \<Rightarrow>
          let d1 = (hdb w)\<lparr>target_rows := filter (\<lambda>t. tg_ID t \<noteq> tid) (target_rows (hdb w)),
                     metric_rows := filter (\<lambda>m. pm_TargetID m \<noteq> tid) (metric_rows (hdb w))\<rparr>
          in (upd_hub (BroadcastTargetSync syncerr d1) (w\<lparr>hdb := d1\<rparr>), Reply 200 ''Target deleted''))"

section \<open>Probes\<close>

record agent_view =
  av_row :: Agent
  av_unsupported :: "feature_key list"
  av_restart :: ForceRestartMode
  av_status :: "AgentUpdateStatus option"

text \<open>\<open>rows\<close> are the probes in the order the query returns them.\<close>

definition adminListAgents :: "Agent list \<Rightarrow> Hub \<Rightarrow> agent_view list" where
  "adminListAgents rows h =
     map (\<lambda>a. \<lparr>av_row = a, av_unsupported = Unsupported (ag_Version a), av_restart = ForceRestartModeFor (ag_Version a) (ag_Arch a),
                av_status = mget (UpdateStatuses h) (ag_ID a)\<rparr>) rows"

definition agent_app_url :: "http_request \<Rightarrow> Accounts \<Rightarrow> string" where
  "agent_app_url c a = (if GetSetting a ''app_url'' = [] then ''http://'' @ rq_Host c else GetSetting a ''app_url'')"

definition install_command :: "string \<Rightarrow> string \<Rightarrow> string" where
  "install_command url tok = ''curl -fsSL '' @ url @ ''/install.sh | sudo bash -s -- --server '' @ url @ '' --token '' @ tok"

definition new_agent :: "string \<Rightarrow> string \<Rightarrow> string \<Rightarrow> string \<Rightarrow> Agent" where
  "new_agent uid name tok tags = \<lparr>ag_ID = uid, ag_Name = TrimSpace name, ag_Token = tok, ag_PublicIP = [], ag_OS = [], ag_Arch = [],
     ag_Version = [], ag_Tags = TrimSpace tags, ag_DisabledRouteTargets = [], ag_PausedTargets = [], ag_IsOnline = False, ag_LastSeenAt = 0\<rparr>"

text \<open>The reply's text is the install command, which holds the new token.\<close>

definition adminCreateAgent ::
  "string option \<Rightarrow> string \<Rightarrow> string \<Rightarrow> (string \<times> string) option \<Rightarrow> http_request \<Rightarrow> Accounts \<Rightarrow> Host \<Rightarrow> Host \<times> reply" where
  "adminCreateAgent dberr uid rand body c acc w =
     (case body of None \<Rightarrow> (w, Reply 400 ''bad request'')
      | Some (name, tags) \<Rightarrow>
          if name = [] then (w, Reply 400 ''bad request'')
          else let tok = hex_encode rand
               in case dberr of Some e \<Rightarrow> (w, Reply 500 e)
                  | None \<Rightarrow> (w\<lparr>hdb := (hdb w)\<lparr>agent_rows := agent_rows (hdb w) @ [new_agent uid name tok tags]\<rparr>\<rparr>,
                             Reply 201 (install_command (agent_app_url c acc) tok)))"

text \<open>Saving a probe's row writes every column as it was read.\<close>

definition save_agent :: "Agent \<Rightarrow> DB \<Rightarrow> DB" where
  "save_agent row d = update_agent (ag_ID row) (\<lambda>_. row) d"

definition rotate_save :: "bool \<Rightarrow> nanosec \<Rightarrow> string option \<Rightarrow> string \<Rightarrow> http_request \<Rightarrow> Accounts \<Rightarrow> Agent \<Rightarrow> Host \<Rightarrow> Host \<times> reply" where
  "rotate_save dr now dberr rand c acc row w =
     (case dberr of Some e \<Rightarrow> (w, Reply 500 ''Failed to rotate token'')
      | None \<Rightarrow>
          (Disconnect dr now (ag_ID row) (w\<lparr>hdb := save_agent (row\<lparr>ag_Token := hex_encode rand\<rparr>) (hdb w)\<rparr>),
           Reply 200 (install_command (agent_app_url c acc) (hex_encode rand))))"

definition adminRotateAgentToken ::
  "bool \<Rightarrow> nanosec \<Rightarrow> string option \<Rightarrow> string \<Rightarrow> http_request \<Rightarrow> Accounts \<Rightarrow> string \<Rightarrow> Host \<Rightarrow> Host \<times> reply" where
  "adminRotateAgentToken dr now dberr rand c acc aid w =
     (case find_agent aid (hdb w) of None \<Rightarrow> (w, Reply 404 ''Agent not found'')
      | Some row \<Rightarrow> rotate_save dr now dberr rand c acc row w)"

fun normalize_loop :: "string list \<Rightarrow> string list \<Rightarrow> string list" where
  "normalize_loop [] ids = ids"
| "normalize_loop (raw # rest) ids =
     (let i = TrimSpace raw in if i = [] \<or> i \<in> set ids then normalize_loop rest ids else normalize_loop rest (ids @ [i]))"

definition normalizeTargetIDList :: "string \<Rightarrow> string" where
  "normalizeTargetIDList raw = Join '','' (normalize_loop (Split (CHR '','') raw) [])"

record UpdateAgentReq =
  ua_Name :: "string option"
  ua_Tags :: "string option"
  ua_DisabledRouteTargets :: "string option"
  ua_PausedTargets :: "string option"

definition edit_agent :: "UpdateAgentReq \<Rightarrow> Agent \<Rightarrow> Agent" where
  "edit_agent req a =
     patch (\<lambda>x a. a\<lparr>ag_PausedTargets := normalizeTargetIDList x\<rparr>) (ua_PausedTargets req)
       (patch (\<lambda>x a. a\<lparr>ag_DisabledRouteTargets := normalizeTargetIDList x\<rparr>) (ua_DisabledRouteTargets req)
         (patch (\<lambda>x a. a\<lparr>ag_Tags := TrimSpace x\<rparr>) (ua_Tags req)
           (patch (\<lambda>x a. a\<lparr>ag_Name := x\<rparr>) (nonblank (ua_Name req)) a)))"

definition update_agent_save :: "string option \<Rightarrow> bool \<Rightarrow> UpdateAgentReq \<Rightarrow> Agent \<Rightarrow> Host \<Rightarrow> Host \<times> reply" where
  "update_agent_save dberr syncerr req row w =
     (case dberr of Some e \<Rightarrow> (w, Reply 500 ''Failed to save probe overrides'')
      | None \<Rightarrow>
          let d1 = save_agent (edit_agent req row) (hdb w)
          in (upd_hub (SyncSingleAgent syncerr (ag_ID row) d1) (w\<lparr>hdb := d1\<rparr>), Reply 200 (ag_ID row)))"

definition adminUpdateAgent :: "string option \<Rightarrow> bool \<Rightarrow> string \<Rightarrow> UpdateAgentReq option \<Rightarrow> Host \<Rightarrow> Host \<times> reply" where
  "adminUpdateAgent dberr syncerr aid body w =
     (case find_agent aid (hdb w) of None \<Rightarrow> (w, Reply 404 ''Agent not found'')
      | Some row \<Rightarrow> (case body of None \<Rightarrow> (w, Reply 400 ''bad request'') | Some req \<Rightarrow> update_agent_save dberr syncerr req row w))"

text \<open>Deleting disconnects first and deletes the rows afterwards.\<close>

definition delete_agent_rows :: "string \<Rightarrow> DB \<Rightarrow> DB" where
  "delete_agent_rows aid d = d\<lparr>agent_rows := filter (\<lambda>a. ag_ID a \<noteq> aid) (agent_rows d),
     metric_rows := filter (\<lambda>m. pm_AgentID m \<noteq> aid) (metric_rows d)\<rparr>"

definition adminDeleteAgent :: "bool \<Rightarrow> nanosec \<Rightarrow> string \<Rightarrow> Host \<Rightarrow> Host \<times> reply" where
  "adminDeleteAgent dr now aid w =
     (let w1 = Disconnect dr now aid w in (w1\<lparr>hdb := delete_agent_rows aid (hdb w1)\<rparr>, Reply 200 ''Agent removed''))"

definition adminAgentUpdateCheck :: "string \<Rightarrow> DB \<Rightarrow> Hub \<Rightarrow> Hub \<times> int" where
  "adminAgentUpdateCheck aid d h =
     (case find_agent aid d of None \<Rightarrow> (h, 404)
      | Some row \<Rightarrow> (case RequestUpdateCheck (ag_ID row) h of (h1, Some e) \<Rightarrow> (h1, 409) | (h1, None) \<Rightarrow> (h1, 200)))"

definition adminAgentCrashUpdate :: "bool \<Rightarrow> (Hub \<Rightarrow> Hub) \<Rightarrow> string \<Rightarrow> DB \<Rightarrow> Hub \<Rightarrow> Hub \<times> int \<times> ForceRestartMode option" where
  "adminAgentCrashUpdate gone after aid d h =
     (case find_agent aid d of None \<Rightarrow> (h, 404, None)
      | Some row \<Rightarrow>
          (case RequestRestart gone after (ag_ID row) h of
             (h1, mode, Some ErrAgentOffline) \<Rightarrow> (h1, 409, None)
           | (h1, mode, Some ErrRestartUnsupported) \<Rightarrow> (h1, 409, mode)
           | (h1, mode, Some ErrSoftExitEscalated) \<Rightarrow> (h1, 200, mode)
           | (h1, mode, Some e) \<Rightarrow> (h1, 500, None)
           | (h1, mode, None) \<Rightarrow> (h1, 200, mode)))"

section \<open>Proxy credentials\<close>

record proxySessionView =
  sv_ID :: string
  sv_AgentID :: string
  sv_AgentName :: string
  sv_Username :: string
  sv_ExpiresAt :: nanos
  sv_TTLSec :: int

text \<open>The expiry is kept as a time; its text is not modelled.\<close>

definition viewSession :: "Session \<Rightarrow> proxySessionView" where
  "viewSession x = \<lparr>sv_ID = ID x, sv_AgentID = AgentID x, sv_AgentName = AgentName x, sv_Username = Username x,
     sv_ExpiresAt = ExpiresAt x, sv_TTLSec = SessionTTL div 1000000000\<rparr>"

text \<open>The URL of a credential; user name and password are hexadecimal, which the URL library leaves as they are.\<close>

definition proxyURL :: "string \<Rightarrow> string \<Rightarrow> string \<Rightarrow> string" where
  "proxyURL host username password =
     ''http://'' @ username @ '':'' @ password @ ''@'' @ (if host = [] then ''127.0.0.1:8080'' else host)"

definition publicURL :: "http_request \<Rightarrow> Accounts \<Rightarrow> string" where
  "publicURL c acc = (if GetSetting acc ''app_url'' \<noteq> [] then TrimRight (GetSetting acc ''app_url'') (CHR ''/'') else ''http://'' @ rq_Host c)"

definition tunnelDownloadBase :: "string \<Rightarrow> string" where
  "tunnelDownloadBase v =
     ''https://github.com/guimc233/JustPing/releases'' @
     (if HasPrefix v ''v'' \<and> \<not> Contains v ''-'' then ''/download/'' @ v else ''/latest/download'')"

record issuedProxySessionView =
  iv_view :: proxySessionView
  iv_Password :: string
  iv_ProxyURL :: string
  iv_TunnelDownloadBase :: string
  iv_ServerURL :: string

text \<open>\<open>H\<close>, \<open>passRaw\<close>, \<open>idRaw\<close> and \<open>reads\<close> are the store's hash and random bytes; \<open>version\<close> is the build's version string.\<close>

definition adminCreateProxySession ::
  "(string \<Rightarrow> string) \<Rightarrow> nanos \<Rightarrow> string option \<Rightarrow> string option \<Rightarrow> (nat \<Rightarrow> string option) \<Rightarrow> string \<Rightarrow>
   User \<Rightarrow> string option \<Rightarrow> http_request \<Rightarrow> Accounts \<Rightarrow> Host \<Rightarrow> Host \<times> (reply + issuedProxySessionView)" where
  "adminCreateProxySession H now passRaw idRaw reads version user body c acc w =
     (case body of None \<Rightarrow> (w, Inl (Reply 400 ''agent_id is required''))
      | Some aid \<Rightarrow>
          if aid = [] then (w, Inl (Reply 400 ''agent_id is required''))
          else case find_agent aid (hdb w) of None \<Rightarrow> (w, Inl (Reply 404 ''probe not found''))
          | Some row \<Rightarrow>
              if (case bridge (hsvc w) of None \<Rightarrow> True | Some h \<Rightarrow> \<not> Hub_Online h aid) then (w, Inl (Reply 409 ''probe is offline''))
              else (case Issue H now passRaw idRaw reads (ag_ID row) (ag_Name row) (nat (us_ID user)) (sessions (hsvc w)) of
                      (st, Inl e) \<Rightarrow> (w\<lparr>hsvc := (hsvc w)\<lparr>sessions := st\<rparr>\<rparr>, Inl (Reply 500 ''failed to issue proxy credential''))
                    | (st, Inr (x, password)) \<Rightarrow>
                        (w\<lparr>hsvc := (hsvc w)\<lparr>sessions := st\<rparr>\<rparr>,
                         Inr \<lparr>iv_view = viewSession x, iv_Password = password, iv_ProxyURL = proxyURL (rq_Host c) (Username x) password,
                              iv_TunnelDownloadBase = tunnelDownloadBase version, iv_ServerURL = publicURL c acc\<rparr>)))"

definition adminListProxySessions :: "nanos \<Rightarrow> Host \<Rightarrow> Host \<times> proxySessionView list" where
  "adminListProxySessions now w =
     (case List_sessions now (sessions (hsvc w)) of (st, xs) \<Rightarrow> (w\<lparr>hsvc := (hsvc w)\<lparr>sessions := st\<rparr>\<rparr>, map viewSession xs))"

definition adminRevokeProxySession :: "bool \<Rightarrow> nanos \<Rightarrow> string \<Rightarrow> Host \<Rightarrow> Host \<times> reply" where
  "adminRevokeProxySession dr now sid w =
     (case Service_Revoke (hub_bridge dr) now sid (hsvc w) of
        (s, False) \<Rightarrow> (w\<lparr>hsvc := s\<rparr>, Reply 404 ''proxy session not found'')
      | (s, True) \<Rightarrow> (w\<lparr>hsvc := s\<rparr>, Reply 200 ''revoked''))"

section \<open>Runs\<close>

datatype admin_op =
  CreateT "string option" bool string "CreateTargetReq option"
| UpdateT "string option" bool string "UpdateTargetReq option"
| DeleteT "string option" bool string
| CreateA "string option" string string "(string \<times> string) option" http_request
| RotateA bool nanosec "string option" string http_request string
| UpdateA "string option" bool string "UpdateAgentReq option"
| DeleteA bool nanosec string

fun admin_apply :: "(Target \<Rightarrow> Target) \<Rightarrow> Accounts \<Rightarrow> Host \<Rightarrow> admin_op \<Rightarrow> Host" where
  "admin_apply stored acc w (CreateT dberr syncerr uid body) = fst (adminCreateTarget stored dberr syncerr uid body w)"
| "admin_apply stored acc w (UpdateT dberr syncerr tid body) = fst (adminUpdateTarget dberr syncerr tid body w)"
| "admin_apply stored acc w (DeleteT dberr syncerr tid) = fst (adminDeleteTarget dberr syncerr tid w)"
| "admin_apply stored acc w (CreateA dberr uid rand body c) = fst (adminCreateAgent dberr uid rand body c acc w)"
| "admin_apply stored acc w (RotateA dr now dberr rand c aid) = fst (adminRotateAgentToken dr now dberr rand c acc aid w)"
| "admin_apply stored acc w (UpdateA dberr syncerr aid body) = fst (adminUpdateAgent dberr syncerr aid body w)"
| "admin_apply stored acc w (DeleteA dr now aid) = fst (adminDeleteAgent dr now aid w)"

definition admin_run :: "(Target \<Rightarrow> Target) \<Rightarrow> Accounts \<Rightarrow> admin_op list \<Rightarrow> Host \<Rightarrow> Host" where
  "admin_run stored acc ops w = foldl (admin_apply stored acc) w ops"

section \<open>Properties\<close>

definition target_ok :: "Target \<Rightarrow> bool" where
  "target_ok t \<longleftrightarrow> 1 \<le> tg_PacketCount t \<and> tg_PacketCount t \<le> 100 \<and> 5 \<le> tg_IntervalSec t \<and> tg_IntervalSec t \<le> 3600"

abbreviation targets_ok :: "Host \<Rightarrow> bool" where
  "targets_ok w \<equiv> list_all target_ok (target_rows (hdb w))"

lemma upd_hub_db [simp]: "hdb (upd_hub f w) = hdb w"
  by (simp add: upd_hub_def)

lemma set_online_target_rows [simp]: "target_rows (set_online a b t d) = target_rows d"
  by (simp add: set_online_def update_agent_def)

lemma Disconnect_target_rows [simp]: "target_rows (hdb (Disconnect dr now a w)) = target_rows (hdb w)"
  by (simp add: Disconnect_def split: option.split)

lemma save_agent_target_rows [simp]: "target_rows (save_agent r d) = target_rows d"
  by (simp add: save_agent_def update_agent_def)

lemma patch_target_fields [simp]:
  "tg_ID (patch (\<lambda>x t. t\<lparr>tg_Name := x\<rparr>) v t) = tg_ID t"
  "tg_PacketCount (patch (\<lambda>x t. t\<lparr>tg_Name := x\<rparr>) v t) = tg_PacketCount t"
  "tg_IntervalSec (patch (\<lambda>x t. t\<lparr>tg_Name := x\<rparr>) v t) = tg_IntervalSec t"
  "tg_ID (patch (\<lambda>x t. t\<lparr>tg_Host := x\<rparr>) v t) = tg_ID t"
  "tg_PacketCount (patch (\<lambda>x t. t\<lparr>tg_Host := x\<rparr>) v t) = tg_PacketCount t"
  "tg_IntervalSec (patch (\<lambda>x t. t\<lparr>tg_Host := x\<rparr>) v t) = tg_IntervalSec t"
  "tg_ID (patch (\<lambda>x t. t\<lparr>tg_Tags := TrimSpace x\<rparr>) v t) = tg_ID t"
  "tg_PacketCount (patch (\<lambda>x t. t\<lparr>tg_Tags := TrimSpace x\<rparr>) v t) = tg_PacketCount t"
  "tg_IntervalSec (patch (\<lambda>x t. t\<lparr>tg_Tags := TrimSpace x\<rparr>) v t) = tg_IntervalSec t"
  "tg_ID (patch (\<lambda>x t. t\<lparr>tg_Enabled := x\<rparr>) b t) = tg_ID t"
  "tg_PacketCount (patch (\<lambda>x t. t\<lparr>tg_Enabled := x\<rparr>) b t) = tg_PacketCount t"
  "tg_IntervalSec (patch (\<lambda>x t. t\<lparr>tg_Enabled := x\<rparr>) b t) = tg_IntervalSec t"
  "tg_ID (patch (\<lambda>x t. t\<lparr>tg_DisableRoute := x\<rparr>) b t) = tg_ID t"
  "tg_PacketCount (patch (\<lambda>x t. t\<lparr>tg_DisableRoute := x\<rparr>) b t) = tg_PacketCount t"
  "tg_IntervalSec (patch (\<lambda>x t. t\<lparr>tg_DisableRoute := x\<rparr>) b t) = tg_IntervalSec t"
  by (simp_all add: patch_def split: option.split)

lemma edit_rest_ok:
  "target_ok t \<Longrightarrow> edit_rest req t = Inr t' \<Longrightarrow> target_ok t' \<and> tg_ID t' = tg_ID t"
  by (auto simp: edit_rest_def target_ok_def Let_def split: option.splits if_splits)

lemma edit_target_ok: "target_ok t \<Longrightarrow> edit_target req t = Inr t' \<Longrightarrow> target_ok t' \<and> tg_ID t' = tg_ID t"
  unfolding edit_target_def Let_def
  by (auto simp: target_ok_def split: option.splits if_splits dest!: edit_rest_ok [rotated])

lemma find_target_in: "find_target tid d = Some t \<Longrightarrow> t \<in> set (target_rows d)"
  unfolding find_target_def using find_SomeD by fast

lemma create_target_ok:
  assumes "\<And>t. tg_PacketCount t \<noteq> 0 \<Longrightarrow> tg_PacketCount (stored t) = tg_PacketCount t"
    and "\<And>t. tg_IntervalSec t \<noteq> 0 \<Longrightarrow> tg_IntervalSec (stored t) = tg_IntervalSec t" and "targets_ok w"
  shows "targets_ok (fst (adminCreateTarget stored dberr syncerr uid body w))"
  using assms
  by (auto simp: adminCreateTarget_def create_packets_def create_interval_def target_ok_def Let_def split: option.splits if_splits)

lemma update_target_ok:
  assumes "targets_ok w"
  shows "targets_ok (fst (adminUpdateTarget dberr syncerr tid body w))"
proof -
  have "target_ok t'" if "find_target tid (hdb w) = Some t" "edit_target req t = Inr t'" for t req t'
    using find_target_in [OF that(1)] assms edit_target_ok [OF _ that(2)] by (simp add: list_all_iff)
  then show ?thesis using assms
    by (auto simp: adminUpdateTarget_def save_target_def list_all_iff Let_def split: option.splits sum.splits)
qed

lemma admin_apply_ok:
  assumes "\<And>t. tg_PacketCount t \<noteq> 0 \<Longrightarrow> tg_PacketCount (stored t) = tg_PacketCount t"
    and "\<And>t. tg_IntervalSec t \<noteq> 0 \<Longrightarrow> tg_IntervalSec (stored t) = tg_IntervalSec t" and "targets_ok w"
  shows "targets_ok (admin_apply stored acc w op)"
proof (cases op)
  case (CreateT e s u b)
  then show ?thesis using create_target_ok [OF assms] by simp
next
  case (UpdateT e s u b)
  then show ?thesis using update_target_ok [OF assms(3)] by simp
next
  case (DeleteT e s u)
  then show ?thesis using assms(3) by (auto simp: adminDeleteTarget_def list_all_iff Let_def split: option.splits)
qed (use assms(3) in \<open>auto simp: adminCreateAgent_def adminRotateAgentToken_def rotate_save_def adminUpdateAgent_def update_agent_save_def
      adminDeleteAgent_def delete_agent_rows_def Let_def split: option.splits\<close>)

lemma configs_from_targets:
  assumes "list_all target_ok ts" "c \<in> set (buildTargetConfigs aid ts d)"
  shows "1 \<le> tc_PacketCount c \<and> tc_PacketCount c \<le> 100 \<and> 5 \<le> tc_IntervalSec c \<and> tc_IntervalSec c \<le> 3600"
  using assms
  by (auto simp: buildTargetConfigs_def buildTargetConfigsWithOverrides_def Let_def list_all_iff target_ok_def split: option.splits)

text \<open>
  C19: whatever administrators do with targets and probes, every stored target keeps a packet count between 1 and 100 and an
  interval between 5 and 3600 seconds, and so does every target configuration the Host sends to a probe: no target made
  through the API makes a probe divide by zero, start a ticker with a non-positive period or allocate an unbounded window.
  The assumption on the database library is that a new row keeps the non-zero numbers it is given.
\<close>

theorem targets_stay_valid:
  assumes "\<And>t. tg_PacketCount t \<noteq> 0 \<Longrightarrow> tg_PacketCount (stored t) = tg_PacketCount t"
    and "\<And>t. tg_IntervalSec t \<noteq> 0 \<Longrightarrow> tg_IntervalSec (stored t) = tg_IntervalSec t"
    and "list_all target_ok (target_rows (hdb w))"
  shows "list_all target_ok (target_rows (hdb (admin_run stored acc ops w))) \<and>
    list_all (\<lambda>c. 1 \<le> tc_PacketCount c \<and> tc_PacketCount c \<le> 100 \<and> 5 \<le> tc_IntervalSec c \<and> tc_IntervalSec c \<le> 3600)
      (buildTargetConfigs aid (enabled_targets (hdb (admin_run stored acc ops w))) (hdb (admin_run stored acc ops w)))"
proof -
  have ok: "targets_ok (foldl (admin_apply stored acc) w ops)"
    using assms(3)
  proof (induction ops arbitrary: w)
    case (Cons op ops)
    then show ?case using admin_apply_ok [OF assms(1,2) Cons.prems] by simp
  qed simp
  then have "list_all target_ok (enabled_targets (hdb (foldl (admin_apply stored acc) w ops)))"
    by (auto simp: enabled_targets_def list_all_iff)
  then show ?thesis unfolding admin_run_def using ok configs_from_targets by (simp add: list_all_iff)
qed

definition demo_target_op :: admin_op where
  "demo_target_op = CreateT None False ''new'' (Some \<lparr>ct_Name = ''n'', ct_Host = ''h'', ct_PacketCount = 0, ct_IntervalSec = 5, ct_Tags = [],
     ct_Enabled = None, ct_DisableRoute = None\<rparr>)"

theorem targets_stay_valid_witness:
  "list_all target_ok (target_rows (hdb (admin_run (\<lambda>t. t) demo_accounts [demo_target_op] \<lparr>hsvc = NewService, hdb = \<lparr>agent_rows = [], target_rows = [],
     metric_rows = [], trace_rows = []\<rparr>\<rparr>)))"
  using targets_stay_valid [of "\<lambda>t. t" "\<lparr>hsvc = NewService, hdb = \<lparr>agent_rows = [], target_rows = [], metric_rows = [], trace_rows = []\<rparr>\<rparr>"
      demo_accounts "[demo_target_op]"] by simp


section \<open>Target lists\<close>

text \<open>First occurrences in order: what the list means to the code that reads it.\<close>

fun firsts :: "'a list \<Rightarrow> 'a list \<Rightarrow> 'a list" where
  "firsts seen [] = []"
| "firsts seen (x # xs) = (if x \<in> set seen then firsts seen xs else x # firsts (seen @ [x]) xs)"

lemma set_firsts: "set (firsts seen xs) = set xs - set seen"
  by (induction seen xs rule: firsts.induct) auto

lemma distinct_firsts: "distinct (firsts seen xs)"
  by (induction seen xs rule: firsts.induct) (auto simp: set_firsts)

lemma firsts_id: "distinct xs \<Longrightarrow> set xs \<inter> set seen = {} \<Longrightarrow> firsts seen xs = xs"
  by (induction seen xs rule: firsts.induct) auto

lemma normalize_loop_firsts:
  "normalize_loop fs ids = ids @ firsts ids (filter (\<lambda>i. i \<noteq> []) (map TrimSpace fs))"
  by (induction fs ids rule: normalize_loop.induct) (auto simp: Let_def)

lemma splitIDList_entry: "i \<in> set (splitIDList raw) \<Longrightarrow> i \<noteq> [] \<and> TrimSpace i = i \<and> CHR '','' \<notin> set i"
proof -
  assume "i \<in> set (splitIDList raw)"
  then obtain f where "f \<in> set (Split (CHR '','') raw)" "i = TrimSpace f" "i \<noteq> []" by (auto simp: splitIDList_def)
  then show ?thesis using Split_no_sep set_TrimSpace by fastforce
qed

lemma splitIDList_Join:
  assumes "\<And>i. i \<in> set xs \<Longrightarrow> i \<noteq> [] \<and> TrimSpace i = i \<and> CHR '','' \<notin> set i"
  shows "splitIDList (Join '','' xs) = xs"
proof (cases "xs = []")
  case True
  then show ?thesis by (simp add: splitIDList_def)
next
  case False
  then have "Split (CHR '','') (Join '','' xs) = xs" using assms by (intro Split_Join) auto
  moreover have "map TrimSpace xs = xs" "filter (\<lambda>i. i \<noteq> []) xs = xs"
    using assms by (auto intro: map_idI filter_True)
  ultimately show ?thesis by (simp add: splitIDList_def)
qed

lemma normalize_firsts: "splitIDList (normalizeTargetIDList raw) = firsts [] (splitIDList raw)"
proof -
  have "normalizeTargetIDList raw = Join '','' (firsts [] (splitIDList raw))"
    by (simp add: normalizeTargetIDList_def normalize_loop_firsts splitIDList_def)
  moreover have "i \<in> set (firsts [] (splitIDList raw)) \<Longrightarrow> i \<in> set (splitIDList raw)" for i by (simp add: set_firsts)
  ultimately show ?thesis using splitIDList_Join [of "firsts [] (splitIDList raw)"] splitIDList_entry by metis
qed

text \<open>
  the list of target ids an administrator saves for a probe reads back, the way the target sync reads it, as the trimmed
  non-empty entries in their first order without repetitions: no entry is lost or invented, and cleaning a clean list changes
  nothing.
\<close>

theorem target_list_reads_back:
  "distinct (splitIDList (normalizeTargetIDList raw)) \<and> set (splitIDList (normalizeTargetIDList raw)) = set (splitIDList raw) \<and>
   splitIDList (normalizeTargetIDList raw) = firsts [] (splitIDList raw) \<and>
   normalizeTargetIDList (normalizeTargetIDList raw) = normalizeTargetIDList raw"
proof -
  have n: "normalizeTargetIDList r = Join '','' (firsts [] (splitIDList r))" for r
    by (simp add: normalizeTargetIDList_def normalize_loop_firsts splitIDList_def)
  have "normalizeTargetIDList (normalizeTargetIDList raw) = Join '','' (firsts [] (firsts [] (splitIDList raw)))"
    by (subst n) (simp add: normalize_firsts)
  also have "\<dots> = normalizeTargetIDList raw" by (simp add: n firsts_id distinct_firsts)
  finally show ?thesis by (simp add: normalize_firsts distinct_firsts set_firsts)
qed

section \<open>Tokens\<close>

lemma find_map_same: "(\<And>x. P (f x) = P x) \<Longrightarrow> find P (map f xs) = map_option f (find P xs)"
  by (induction xs) auto

lemma find_token_online: "find_token t (set_online a b now d) = map_option (\<lambda>x. if ag_ID x = a then x\<lparr>ag_IsOnline := b, ag_LastSeenAt := now\<rparr> else x) (find_token t d)"
  by (simp add: find_token_def set_online_def update_agent_def find_map_same)

lemma find_token_unique:
  assumes "r \<in> set (agent_rows d)" "ag_Token r = t" "\<And>x. x \<in> set (agent_rows d) \<Longrightarrow> ag_Token x = t \<Longrightarrow> x = r"
  shows "find_token t d = Some r"
proof -
  have "find_token t d \<noteq> None" unfolding find_token_def find_key using assms(1,2) by blast
  then show ?thesis using find_token_Some assms(3) by blast
qed

lemma find_token_none: "(\<And>x. x \<in> set (agent_rows d) \<Longrightarrow> ag_Token x \<noteq> t) \<Longrightarrow> find_token t d = None"
  using find_token_Some by (cases "find_token t d") blast+

lemma save_agent_rows:
  "distinct (map ag_ID (agent_rows d)) \<Longrightarrow> row \<in> set (agent_rows d) \<Longrightarrow> ag_ID r = ag_ID row \<Longrightarrow>
   x \<in> set (agent_rows (save_agent r d)) \<longleftrightarrow> x = r \<or> x \<in> set (agent_rows d) \<and> x \<noteq> row"
  by (auto simp: save_agent_def update_agent_def image_iff dest: eq_key_imp_eq_value) (metis distinct_map inj_on_eq_iff)+

lemma find_agent_in: "find_agent aid d = Some row \<Longrightarrow> row \<in> set (agent_rows d) \<and> ag_ID row = aid"
  unfolding find_agent_def using find_SomeD by fast

lemma finish_all_bridge: "bridge (finish_all B r False ids s) = bridge s" for s :: "Hub Service"
  by (induction ids arbitrary: s) (auto simp: finish_def Let_def split: option.splits)

lemma Disconnect_bridge:
  "bridge (hsvc w) = Some h \<Longrightarrow> bridge (hsvc (Disconnect dr now a w)) = Some (hub_Disconnect a h)"
  by (simp add: Disconnect_def DropAgent_def finish_all_bridge)

lemma Disconnect_db: "bridge (hsvc w) = Some h \<Longrightarrow> hdb (Disconnect dr now a w) = set_online a False now (hdb w)"
  by (simp add: Disconnect_def)

lemma hub_Disconnect_offline: "\<not> Hub_Online (hub_Disconnect a h) a"
  by (auto simp: hub_Disconnect_def Hub_Online_def Close_def split: option.splits)

text \<open>Tokens are unique and so are ids, as the schema demands.\<close>

definition agents_unique :: "DB \<Rightarrow> bool" where
  "agents_unique d \<longleftrightarrow> distinct (map ag_ID (agent_rows d)) \<and> distinct (map ag_Token (agent_rows d))"

lemma agents_uniqueD:
  "agents_unique d \<Longrightarrow> x \<in> set (agent_rows d) \<Longrightarrow> y \<in> set (agent_rows d) \<Longrightarrow> ag_Token x = ag_Token y \<Longrightarrow> x = y"
  by (auto simp: agents_unique_def distinct_map inj_on_def)

lemma token_after_save:
  assumes "agents_unique d" "row \<in> set (agent_rows d)" "ag_ID r = ag_ID row"
    and "ag_Token r = ag_Token row \<or> ag_Token r \<notin> ag_Token ` set (agent_rows d)"
  shows "find_token (ag_Token r) (save_agent r d) = Some r"
    and "ag_Token r \<noteq> ag_Token row \<Longrightarrow> find_token (ag_Token row) (save_agent r d) = None"
proof -
  note rows = save_agent_rows [OF _ assms(2,3)]
  have d: "distinct (map ag_ID (agent_rows d))" using assms(1) by (simp add: agents_unique_def)
  have "x = r" if "x \<in> set (agent_rows (save_agent r d))" "ag_Token x = ag_Token r" for x
    using that rows [OF d, of x] agents_uniqueD [OF assms(1) _ assms(2)] assms(4) by (auto simp: image_iff)
  then show "find_token (ag_Token r) (save_agent r d) = Some r"
    using rows [OF d, of r] by (intro find_token_unique) auto
  assume "ag_Token r \<noteq> ag_Token row"
  then show "find_token (ag_Token row) (save_agent r d) = None"
    using rows [OF d] agents_uniqueD [OF assms(1) _ assms(2)] by (intro find_token_none) auto
qed


lemma auth_row_token: "auth_row (Some env) d = Some (req, row) \<Longrightarrow> dec_RegisterRequest (Payload env) = Some req \<and> find_token (Token req) d = Some row"
  by (auto simp: auth_row_def split: option.splits if_splits)

lemma rotate_result:
  assumes "bridge (hsvc w) = Some h" "find_agent aid (hdb w) = Some row"
  shows "fst (adminRotateAgentToken dr now None rand c acc aid w) =
     Disconnect dr now aid (w\<lparr>hdb := save_agent (row\<lparr>ag_Token := hex_encode rand\<rparr>) (hdb w)\<rparr>)"
  using find_agent_in [OF assms(2)] by (simp add: adminRotateAgentToken_def rotate_save_def assms(2))


text \<open>
  C40: editing a probe saves the whole row as it was read: when the token is rotated between the read and the save, the save
  brings the old token back, so that a client with the old token is the probe again and the rotated token is refused.
\<close>

theorem stale_edit_restores_token:
  assumes "bridge (hsvc w) = Some h" "find_agent aid (hdb w) = Some row" "agents_unique (hdb w)"
    and "hex_encode rand \<notin> ag_Token ` set (agent_rows (hdb w))"
    and "w1 = fst (adminRotateAgentToken dr now None rand c acc aid w)"
    and "w2 = fst (update_agent_save None syncerr req row w1)"
  shows "map_option ag_ID (find_token (ag_Token row) (hdb w2)) = Some aid \<and> find_token (hex_encode rand) (hdb w2) = None"
proof -
  let ?r = "row\<lparr>ag_Token := hex_encode rand\<rparr>"
  let ?d = "save_agent ?r (hdb w)"
  note row = find_agent_in [OF assms(2)]
  have "w1 = Disconnect dr now aid (w\<lparr>hdb := ?d\<rparr>)" using assms(5) rotate_result [OF assms(1,2)] by simp
  then have d1: "hdb w1 = set_online aid False now ?d" using Disconnect_db [of "w\<lparr>hdb := ?d\<rparr>"] assms(1) by simp
  have e: "ag_ID (edit_agent req row) = ag_ID row" "ag_Token (edit_agent req row) = ag_Token row"
    by (simp_all add: edit_agent_def patch_def split: option.split)
  have d2: "agent_rows (hdb w2) = map (\<lambda>x. if ag_ID x = aid then edit_agent req row else x) (agent_rows (hdb w))"
    using row by (auto simp: assms(6) update_agent_save_def d1 save_agent_def set_online_def update_agent_def e Let_def)
  have dist: "distinct (map ag_ID (agent_rows (hdb w)))" using assms(3) by (simp add: agents_unique_def)
  have save: "agent_rows (hdb w2) = agent_rows (save_agent (edit_agent req row) (hdb w))"
    unfolding d2 using row by (simp add: save_agent_def update_agent_def e)
  have "find_token t (hdb w2) = find_token t (save_agent (edit_agent req row) (hdb w))" for t
    by (simp add: find_token_def save)
  moreover have "find_token (ag_Token row) (save_agent (edit_agent req row) (hdb w)) = Some (edit_agent req row)"
    using token_after_save(1) [OF assms(3), of row "edit_agent req row"] row e by simp
  moreover have "find_token (hex_encode rand) (save_agent (edit_agent req row) (hdb w)) = None"
    using save_agent_rows [OF dist, of row "edit_agent req row"] row e assms(4) by (intro find_token_none) (auto simp: image_iff)
  ultimately show ?thesis using e row by simp
qed

text \<open>
  deleting a probe disconnects it before its row is deleted: a probe that reconnects in between keeps its connection and is
  online although the Host no longer has a row for it.
\<close>

theorem deleted_probe_stays_online:
  assumes "bridge (hsvc w) = Some h" "hub_reach h" "auth_row first (hdb w) = Some (req, row)"
    and "w1 = Disconnect dr now (ag_ID row) w"
    and "w2 = fst (HandleWebSocket dberr now2 ip first w1)"
    and "w3 = w2\<lparr>hdb := delete_agent_rows (ag_ID row) (hdb w2)\<rparr>"
  shows "(\<exists>h3. bridge (hsvc w3) = Some h3 \<and> Hub_Online h3 (ag_ID row)) \<and> find_agent (ag_ID row) (hdb w3) = None"
proof -
  let ?a = "ag_ID row" and ?h1 = "hub_Disconnect (ag_ID row) h"
  have b: "bridge (hsvc w1) = Some ?h1" using Disconnect_bridge [OF assms(1)] assms(4) by simp
  have inv: "hub_inv ?h1" using hub_Disconnect_inv hub_reach_inv [OF assms(2)] by blast
  have r: "auth_row first (hdb w1) = Some (req, row\<lparr>ag_IsOnline := False, ag_LastSeenAt := now\<rparr>)"
    using assms(3) unfolding assms(4) Disconnect_db [OF assms(1)]
    by (auto simp: auth_row_def find_token_online split: option.splits if_splits)
  obtain d2 h2 where w2: "w2 = w1\<lparr>hsvc := (hsvc w1)\<lparr>bridge := Some (SyncSingleAgent dberr ?a d2
      (fst (SafeSend (length (cheap ?h1)) h2 (accept (fresh_conn ?a req ip) ?h1))))\<rparr>, hdb := d2\<rparr>"
    using HandleWebSocket_cases [OF b, of dberr now2 ip first] r assms(5) by (simp add: Let_def)
  have "agents (SyncSingleAgent dberr ?a d2 (fst (SafeSend (length (cheap ?h1)) h2 (accept (fresh_conn ?a req ip) ?h1)))) =
      agents (accept (fresh_conn ?a req ip) ?h1)"
    using only_queued_trans [OF only_queued_SafeSend only_queued_Sync] unfolding only_queued_def by blast
  moreover have "mget (agents (accept (fresh_conn ?a req ip) ?h1)) ?a = Some (length (cheap ?h1))"
    using accept_filed(1) [OF inv, of "fresh_conn ?a req ip"] by (simp add: fresh_conn_def)
  ultimately have "Hub_Online (SyncSingleAgent dberr ?a d2 (fst (SafeSend (length (cheap ?h1)) h2 (accept (fresh_conn ?a req ip) ?h1)))) ?a"
    by (simp add: Hub_Online_def)
  moreover have "find (\<lambda>x. ag_ID x = k) (filter (\<lambda>x. ag_ID x \<noteq> k) xs) = None" for k and xs :: "Agent list" by (induction xs) auto
  ultimately show ?thesis unfolding assms(6) w2 by (simp add: find_agent_def delete_agent_rows_def)
qed

lemma demo_bridge: "bridge (hsvc demo_host) = Some demo_hub"
  by (simp add: demo_host_def demo_svc_def)

lemma demo_agents: "agents_unique (hdb demo_host)" "find_agent ''a'' (hdb demo_host) = Some (agent_rows demo_db ! 0)"
  "hex_encode ''!'' \<notin> ag_Token ` set (agent_rows (hdb demo_host))"
  by (simp_all add: agents_unique_def demo_host_def demo_db_def find_agent_def) (code_simp)


theorem stale_edit_restores_token_witness:
  "map_option ag_ID (find_token ''k'' (hdb (fst (update_agent_save None False
      \<lparr>ua_Name = None, ua_Tags = Some ''x'', ua_DisabledRouteTargets = None, ua_PausedTargets = None\<rparr> (agent_rows demo_db ! 0)
      (fst (adminRotateAgentToken True 5 None ''!'' demo_http demo_accounts ''a'' demo_host)))))) = Some ''a''"
proof -
  have "ag_Token (agent_rows demo_db ! 0) = ''k''" by (simp add: demo_db_def)
  then show ?thesis using stale_edit_restores_token [OF demo_bridge demo_agents(2,1,3) refl refl] by metis
qed

theorem deleted_probe_stays_online_witness:
  "\<exists>h3. bridge (hsvc (fst (HandleWebSocket False 7 ''10.0.0.3'' (Some demo_request) (Disconnect True 5 ''a'' demo_host)))) = Some h3 \<and>
     Hub_Online h3 ''a''"
proof -
  have au: "auth_row (Some demo_request) (hdb demo_host) = Some (\<lparr>Token = ''k'', Hostname = ''host'', reg_OS = ''linux'',
      reg_Arch = ''amd64'', reg_Version = ''v1.3.0''\<rparr>, agent_rows demo_db ! 0)"
    by (simp add: auth_row_def demo_request_def dec_enc_RegisterRequest demo_host_def demo_db_def find_token_def)
  have i: "ag_ID (agent_rows demo_db ! 0) = ''a''" by (simp add: demo_db_def)
  show ?thesis
    using deleted_probe_stays_online [OF demo_bridge demo_hub_reach au refl refl refl, of False 7 "''10.0.0.3''" True 5, unfolded i] by auto
qed

end
