(* ===== verification/Public_Api.thy ===== *)
theory Public_Api
  imports Host Accounts
begin

text \<open>
  What visitors see: masking (\<^verbatim>\<open>host/internal/auth/mask.go\<close>) and the public handlers of \<^verbatim>\<open>host/internal/api\<close>
  (\<^verbatim>\<open>public.go\<close>, \<^verbatim>\<open>public_metrics.go\<close>, \<^verbatim>\<open>public_traceroute.go\<close>, \<^verbatim>\<open>agent_quality.go\<close>).

  A handler is a function of the rows and of whether the visitor is logged in. Averages the database computes are arguments.
  Rows with equal times come in table order, one of the orders the database may choose.
\<close>

section \<open>Masking\<close>

definition MaskIP :: "string \<Rightarrow> string" where
  "MaskIP raw =
     (let s = TrimSpace raw
      in if s = [] then []
         else case ParseIP s of None \<Rightarrow> ''***''
         | Some p \<Rightarrow>
             (case To4 p of
                Some b \<Rightarrow> Itoa (b ! 0) @ ''.'' @ Itoa (b ! 1) @ ''.***.***''
              | None \<Rightarrow>
                  let parts = Split (CHR '':'') s
                  in if length parts \<ge> 4 then parts ! 0 @ '':'' @ parts ! 1 @ '':****:****'' else ''2001:db8:****:****''))"

definition MaskHost :: "string \<Rightarrow> string" where
  "MaskHost raw =
     (let host = TrimSpace raw
      in if host = [] then []
         else if ParseIP host \<noteq> None then MaskIP host
         else let parts = Split (CHR ''.'') host; n = length parts
              in if n = 1 then ''***''
                 else if n = 2 then ''***.'' @ parts ! 1
                 else ''***.'' @ parts ! (n - 2) @ ''.'' @ parts ! (n - 1))"

section \<open>Quality of a probe\<close>

record AgentQuality =
  q_AvgRTT :: float64
  q_Jitter :: float64
  q_LossPct :: float64
  q_Score :: int
  q_Grade :: string
  q_Status :: string

definition round100 :: "float64 \<Rightarrow> float64" where
  "round100 v = rnd (math_Round (rnd (v * 100)) / 100)"

definition quality_score :: "float64 \<Rightarrow> float64 \<Rightarrow> float64 \<Rightarrow> float64" where
  "quality_score rtt jitter loss =
     (let s0 = rnd (100 - rnd (loss * 3));
          s1 = (if jitter > 5 then rnd (s0 - rnd (rnd (jitter - 5) * (1 / 2))) else s0);
          s2 = (if rtt > 100 then rnd (s1 - rnd (rnd (rtt - 100) * rnd (1 / 10))) else s1)
      in if s2 < 0 then 0 else s2)"

definition quality_grade :: "float64 \<Rightarrow> float64 \<Rightarrow> int \<Rightarrow> string \<times> string" where
  "quality_grade jitter loss score =
     (if loss \<ge> 20 \<or> score < 40 then (''F'', ''critical'')
      else if loss \<ge> 5 \<or> score < 60 then (''C'', ''degraded'')
      else if jitter \<ge> 15 \<or> score < 75 then (''B'', ''fair'')
      else if score < 90 then (''A'', ''good'')
      else (''A+'', ''excellent''))"

definition calculateAgentQuality :: "float64 \<Rightarrow> float64 \<Rightarrow> float64 \<Rightarrow> bool \<Rightarrow> AgentQuality" where
  "calculateAgentQuality rtt jitter loss isOnline =
     (if \<not> isOnline then \<lparr>q_AvgRTT = 0, q_Jitter = 0, q_LossPct = 0, q_Score = 0, q_Grade = ''Offline'', q_Status = ''offline''\<rparr>
      else let finalScore = \<lfloor>math_Round (quality_score rtt jitter loss)\<rfloor>;
               (grade, status) = quality_grade jitter loss finalScore
           in \<lparr>q_AvgRTT = round100 rtt, q_Jitter = round100 jitter, q_LossPct = round100 loss, q_Score = finalScore,
               q_Grade = grade, q_Status = status\<rparr>)"

section \<open>Probes, targets and metrics\<close>

record agent_item =
  ai_ID :: string
  ai_Name :: string
  ai_PublicIP :: string
  ai_OS :: string
  ai_Arch :: string
  ai_Version :: string
  ai_Tags :: string
  ai_IsOnline :: bool
  ai_LastSeenAt :: nanosec
  ai_Quality :: AgentQuality

text \<open>\<open>recent\<close> gives the averages of a probe's last quarter of an hour: round trip, jitter and loss.\<close>

definition getPublicAgents :: "bool \<Rightarrow> (string \<Rightarrow> float64 \<times> float64 \<times> float64) \<Rightarrow> Agent list \<Rightarrow> agent_item list" where
  "getPublicAgents isAdmin recent rows =
     map (\<lambda>a. case recent (ag_ID a) of (rtt, jitter, loss) \<Rightarrow>
        \<lparr>ai_ID = ag_ID a, ai_Name = ag_Name a, ai_PublicIP = (if isAdmin then ag_PublicIP a else MaskIP (ag_PublicIP a)),
          ai_OS = ag_OS a, ai_Arch = ag_Arch a, ai_Version = ag_Version a, ai_Tags = ag_Tags a, ai_IsOnline = ag_IsOnline a,
          ai_LastSeenAt = ag_LastSeenAt a, ai_Quality = calculateAgentQuality rtt jitter loss (ag_IsOnline a)\<rparr>) rows"

record target_item =
  ti_ID :: string
  ti_Name :: string
  ti_Host :: string
  ti_PacketCount :: int
  ti_IntervalSec :: int
  ti_Tags :: string

text \<open>\<open>rows\<close> are the enabled targets in the order of their names.\<close>

definition getPublicTargets :: "bool \<Rightarrow> Target list \<Rightarrow> target_item list" where
  "getPublicTargets isAdmin rows =
     map (\<lambda>t. \<lparr>ti_ID = tg_ID t, ti_Name = tg_Name t, ti_Host = (if isAdmin then tg_Host t else MaskHost (tg_Host t)),
        ti_PacketCount = tg_PacketCount t, ti_IntervalSec = tg_IntervalSec t, ti_Tags = tg_Tags t\<rparr>) rows"

record public_summary =
  ps_total_agents :: nat
  ps_online_agents :: nat
  ps_total_targets :: nat
  ps_avg_rtt :: float64
  ps_avg_loss :: float64

text \<open>\<open>avgs\<close> are the averages the database computes over the given metrics.\<close>

definition getPublicSummary :: "nanosec \<Rightarrow> (PingMetric list \<Rightarrow> float64 \<times> float64) \<Rightarrow> DB \<Rightarrow> public_summary" where
  "getPublicSummary now avgs d =
     (case avgs (filter (\<lambda>m. pm_Timestamp m \<ge> now - minutes 60) (metric_rows d)) of (rtt, loss) \<Rightarrow>
        \<lparr>ps_total_agents = length (agent_rows d), ps_online_agents = length (filter ag_IsOnline (agent_rows d)),
          ps_total_targets = length (enabled_targets d), ps_avg_rtt = rtt, ps_avg_loss = loss\<rparr>)"

definition cell_status :: "PingMetric \<Rightarrow> string" where
  "cell_status m =
     (if pm_LossPct m \<ge> 50 \<or> pm_AvgRTT m \<ge> 300 then ''critical''
      else if pm_LossPct m > 5 \<or> pm_Jitter m > 30 \<or> pm_AvgRTT m > 150 then ''warning''
      else ''healthy'')"

record MatrixCell =
  mc_AgentID :: string
  mc_TargetID :: string
  mc_Timestamp :: nanosec
  mc_AvgRTT :: float64
  mc_MinRTT :: float64
  mc_MaxRTT :: float64
  mc_Jitter :: float64
  mc_LossPct :: float64
  mc_Status :: string

definition matrix_cell :: "PingMetric \<Rightarrow> MatrixCell" where
  "matrix_cell m = \<lparr>mc_AgentID = pm_AgentID m, mc_TargetID = pm_TargetID m, mc_Timestamp = pm_Timestamp m, mc_AvgRTT = pm_AvgRTT m,
     mc_MinRTT = pm_MinRTT m, mc_MaxRTT = pm_MaxRTT m, mc_Jitter = pm_Jitter m, mc_LossPct = pm_LossPct m, mc_Status = cell_status m\<rparr>"

text \<open>The query keeps the first row of each probe and target, newest first; the order of the cells by ids, which depends on the database, is left out.\<close>

fun distinct_on :: "('a \<Rightarrow> 'k) \<Rightarrow> 'a list \<Rightarrow> 'a list" where
  "distinct_on key [] = []"
| "distinct_on key (x # xs) = x # distinct_on key (filter (\<lambda>y. key y \<noteq> key x) xs)"

definition metric_key :: "PingMetric \<Rightarrow> string \<times> string" where
  "metric_key m = (pm_AgentID m, pm_TargetID m)"

definition newest_first :: "('a \<Rightarrow> nanosec) \<Rightarrow> 'a list \<Rightarrow> 'a list" where
  "newest_first time xs = sort_key (\<lambda>x. - time x) xs"

definition getPublicMatrix :: "nanosec \<Rightarrow> PingMetric list \<Rightarrow> MatrixCell list" where
  "getPublicMatrix now rows =
     map matrix_cell (distinct_on metric_key (newest_first pm_Timestamp (filter (\<lambda>m. pm_Timestamp m \<ge> now - minutes 10) rows)))"

definition range_duration :: "string \<Rightarrow> nanosec" where
  "range_duration r =
     (if r = ''6h'' then minutes 360 else if r = ''24h'' then minutes 1440 else if r = ''7d'' then minutes 10080 else minutes 60)"

record PublicMetricPoint =
  pp_Timestamp :: nanosec
  pp_AvgRTT :: float64
  pp_MinRTT :: float64
  pp_MaxRTT :: float64
  pp_Jitter :: float64
  pp_LossPct :: float64
  pp_PacketsSent :: int
  pp_PacketsRecv :: int
  pp_ErrorMsg :: string

definition metric_point :: "bool \<Rightarrow> PingMetric \<Rightarrow> PublicMetricPoint" where
  "metric_point isAdmin m = \<lparr>pp_Timestamp = pm_Timestamp m, pp_AvgRTT = pm_AvgRTT m, pp_MinRTT = pm_MinRTT m, pp_MaxRTT = pm_MaxRTT m,
     pp_Jitter = pm_Jitter m, pp_LossPct = pm_LossPct m, pp_PacketsSent = pm_PacketsSent m, pp_PacketsRecv = pm_PacketsRecv m,
     pp_ErrorMsg = (if isAdmin then pm_ErrorMsg m else if pm_ErrorMsg m \<noteq> [] then ''Ping failed'' else [])\<rparr>"

definition getPublicMetrics :: "bool \<Rightarrow> nanosec \<Rightarrow> string \<Rightarrow> string \<Rightarrow> string \<Rightarrow> PingMetric list \<Rightarrow> PublicMetricPoint list" where
  "getPublicMetrics isAdmin now targetID agentID timeRange rows =
     map (metric_point isAdmin)
       (take 10000 (sort_key pm_Timestamp (filter (\<lambda>m. pm_Timestamp m \<ge> now - range_duration timeRange \<and>
          (targetID = [] \<or> pm_TargetID m = targetID) \<and> (agentID = [] \<or> pm_AgentID m = agentID)) rows)))"

section \<open>Route traces\<close>

text \<open>A stored trace with its id.\<close>

type_synonym trace_row = "string \<times> TracerouteRecord"

definition diffDuration :: "nanosec \<Rightarrow> nanosec \<Rightarrow> nanosec" where
  "diffDuration a b = (let d = a - b in if d < 0 then - d else d)"

text \<open>The corrected row, and whether it has to be written back.\<close>

definition fixMissingRoutePath :: "trace_row \<Rightarrow> trace_row \<times> bool" where
  "fixMissingRoutePath row = (case row of (i, r) \<Rightarrow>
     if rec_Hops r = [] then (row, False)
     else let metas = map hop_meta (rec_Hops r);
              path_missing = (rec_RoutePath r = [] \<or> rec_RoutePath r = ''Unknown'');
              r1 = (if path_missing then r\<lparr>rec_RoutePath := ClassifyRoute metas\<rparr> else r);
              as_missing = (rec_ASPath r = [] \<or> rec_ASNodes r = []);
              r2 = (if as_missing then (case GenerateASPath metas of (p, ns) \<Rightarrow> r1\<lparr>rec_ASPath := p, rec_ASNodes := ns\<rparr>) else r1)
          in ((i, r2), (path_missing \<or> as_missing) \<and> i \<noteq> []))"

text \<open>The query parameter \<^verbatim>\<open>time\<close>: milliseconds, or a text the time library reads (\<open>parse\<close>). The zero time counts as absent.\<close>

definition trace_time :: "(string \<Rightarrow> nanosec option) \<Rightarrow> string \<Rightarrow> nanosec option" where
  "trace_time parse s =
     (if s = [] then None
      else case Atoi s of
             (ms, None) \<Rightarrow> if ms = -62135596800000 then None else Some (ms * 1000000)
           | (ms, Some e) \<Rightarrow> parse s)"

fun pick_closest :: "nanosec \<Rightarrow> trace_row \<Rightarrow> trace_row list \<Rightarrow> trace_row" where
  "pick_closest t best [] = best"
| "pick_closest t best (r # rs) =
     (if diffDuration (rec_Timestamp (snd r)) t < diffDuration (rec_Timestamp (snd best)) t then pick_closest t r rs else pick_closest t best rs)"

definition trace_filter :: "string \<Rightarrow> string \<Rightarrow> trace_row list \<Rightarrow> trace_row list" where
  "trace_filter agentID targetID rows =
     filter (\<lambda>r. (agentID = [] \<or> rec_AgentID (snd r) = agentID) \<and> (targetID = [] \<or> rec_TargetID (snd r) = targetID)) rows"

definition trace_time_of :: "trace_row \<Rightarrow> nanosec" where
  "trace_time_of r = rec_Timestamp (snd r)"

definition trace_window :: "nanosec \<Rightarrow> trace_row list \<Rightarrow> trace_row list" where
  "trace_window t rows =
     take 5 (newest_first trace_time_of (filter (\<lambda>r. trace_time_of r \<ge> t - minutes 15 \<and> trace_time_of r \<le> t + minutes 15) rows))"

definition getPublicTraceroute ::
  "(string \<Rightarrow> nanosec option) \<Rightarrow> string \<Rightarrow> string \<Rightarrow> string \<Rightarrow> string \<Rightarrow> trace_row list \<Rightarrow> reply + TracerouteRecord" where
  "getPublicTraceroute parse rid agentID targetID timeStr rows =
     (let found = (\<lambda>r. Inr (snd (fst (fixMissingRoutePath r))))
      in if rid \<noteq> [] then
           (case find (\<lambda>r. fst r = rid) rows of None \<Rightarrow> Inl (Reply 404 ''Traceroute record not found'') | Some r \<Rightarrow> found r)
         else if agentID = [] then Inl (Reply 400 ''agent_id is required'')
         else let q = trace_filter agentID targetID rows;
                  latest = (case newest_first trace_time_of q of [] \<Rightarrow> Inl (Reply 404 ''No traceroute telemetry available'') | r # _ \<Rightarrow> found r)
              in case trace_time parse timeStr of
                   None \<Rightarrow> latest
                 | Some t \<Rightarrow> (case trace_window t q of [] \<Rightarrow> latest | r # rs \<Rightarrow> found (pick_closest t r rs)))"

definition getPublicTracerouteByID :: "string \<Rightarrow> trace_row list \<Rightarrow> reply + TracerouteRecord" where
  "getPublicTracerouteByID rid rows =
     (case find (\<lambda>r. fst r = rid) rows of None \<Rightarrow> Inl (Reply 404 ''Traceroute record not found'')
      | Some r \<Rightarrow> Inr (snd (fst (fixMissingRoutePath r))))"

record TraceSummary =
  tsm_ID :: string
  tsm_AgentID :: string
  tsm_TargetID :: string
  tsm_TargetHost :: string
  tsm_ResolvedIP :: string
  tsm_Timestamp :: nanosec
  tsm_DurationMs :: int
  tsm_Reached :: bool
  tsm_HopCount :: int
  tsm_RoutePath :: string
  tsm_ASPath :: string
  tsm_ASNodes :: "ASNode list"

definition trace_summary :: "trace_row \<Rightarrow> TraceSummary" where
  "trace_summary row = (case fst (fixMissingRoutePath row) of (i, r) \<Rightarrow>
     \<lparr>tsm_ID = i, tsm_AgentID = rec_AgentID r, tsm_TargetID = rec_TargetID r, tsm_TargetHost = rec_TargetHost r,
       tsm_ResolvedIP = rec_ResolvedIP r, tsm_Timestamp = rec_Timestamp r, tsm_DurationMs = rec_DurationMs r, tsm_Reached = rec_Reached r,
       tsm_HopCount = rec_HopCount r, tsm_RoutePath = rec_RoutePath r, tsm_ASPath = rec_ASPath r, tsm_ASNodes = rec_ASNodes r\<rparr>)"

definition getPublicTraceroutes :: "string \<Rightarrow> string \<Rightarrow> trace_row list \<Rightarrow> TraceSummary list" where
  "getPublicTraceroutes agentID targetID rows =
     map trace_summary (take 50 (newest_first trace_time_of (trace_filter agentID targetID rows)))"

text \<open>The start-up repair: the rows written back, for the first 500 rows with an empty path.\<close>

definition AutoBackfillHistoricalTraceroutes :: "trace_row list \<Rightarrow> trace_row list" where
  "AutoBackfillHistoricalTraceroutes rows =
     (let todo = map fst (take 500 (filter (\<lambda>r. rec_RoutePath (snd r) = [] \<or> rec_ASPath (snd r) = []) rows))
      in map (\<lambda>r. if fst r \<in> set todo \<and> snd (fixMissingRoutePath r) then fst (fixMissingRoutePath r) else r) rows)"


section \<open>What an anonymous visitor can tell apart\<close>

text \<open>
  Two addresses that look the same to a visitor: the same text, two texts that are no addresses at all, two IPv4 addresses of one /16 network, two
  IPv6 addresses written with at least four groups whose first two groups agree, or two IPv6 addresses written with fewer groups.
\<close>

definition same_net :: "string \<Rightarrow> string \<Rightarrow> bool" where
  "same_net s t \<longleftrightarrow> s = t \<or> TrimSpace s \<noteq> [] \<and> TrimSpace t \<noteq> [] \<and>
     (case (ParseIP (TrimSpace s), ParseIP (TrimSpace t)) of
        (Some p, Some q) \<Rightarrow>
          (case (To4 p, To4 q) of
             (Some b, Some c) \<Rightarrow> b ! 0 = c ! 0 \<and> b ! 1 = c ! 1
           | (None, None) \<Rightarrow>
               (let g = Split (CHR '':'') (TrimSpace s); h = Split (CHR '':'') (TrimSpace t)
                in 4 \<le> length g \<and> 4 \<le> length h \<and> take 2 g = take 2 h \<or> length g < 4 \<and> length h < 4)
           | _ \<Rightarrow> False)
      | (None, None) \<Rightarrow> True
      | _ \<Rightarrow> False)"

lemma ParseIP_Nil: "ParseIP [] = None"
  by code_simp

lemma take2_nth: "take 2 xs = take 2 ys \<Longrightarrow> 2 \<le> length xs \<Longrightarrow> 2 \<le> length ys \<Longrightarrow> xs ! 0 = ys ! 0 \<and> xs ! 1 = ys ! 1"
  by (cases xs; cases ys; cases "tl xs"; cases "tl ys") (auto simp: numeral_2_eq_2)

lemma MaskIP_same: "same_net s t \<Longrightarrow> MaskIP s = MaskIP t"
proof -
  assume n: "same_net s t"
  show ?thesis
  proof (cases "s = t")
    case False
    then have t: "TrimSpace s \<noteq> []" "TrimSpace t \<noteq> []" using n by (simp_all add: same_net_def)
    show ?thesis using n False t take2_nth [of "Split (CHR '':'') (TrimSpace s)" "Split (CHR '':'') (TrimSpace t)"]
      by (auto simp: same_net_def MaskIP_def Let_def split: option.splits)
  qed simp
qed

text \<open>
  What is left of a host name: of a name of one label nothing, of a name of two labels the second, of a longer name the last two. Two hosts look the
  same when they are addresses that do, or two names of which the same labels are left, however many labels each has.
\<close>

definition labels_left :: "string \<Rightarrow> string list" where
  "labels_left name = (let ls = Split (CHR ''.'') name in drop (max 1 (length ls - 2)) ls)"

definition same_domain :: "string \<Rightarrow> string \<Rightarrow> bool" where
  "same_domain s t \<longleftrightarrow> s = t \<or> ParseIP (TrimSpace s) \<noteq> None \<and> ParseIP (TrimSpace t) \<noteq> None \<and> same_net (TrimSpace s) (TrimSpace t) \<or>
     ParseIP (TrimSpace s) = None \<and> ParseIP (TrimSpace t) = None \<and> TrimSpace s \<noteq> [] \<and> TrimSpace t \<noteq> [] \<and>
     labels_left (TrimSpace s) = labels_left (TrimSpace t)"

lemma MaskHost_labels:
  assumes "ParseIP (TrimSpace s) = None" and "TrimSpace s \<noteq> []"
  shows "MaskHost s = concat (''***'' # map (\<lambda>l. CHR ''.'' # l) (labels_left (TrimSpace s)))"
proof -
  let ?ls = "Split (CHR ''.'') (TrimSpace s)"
  consider "length ?ls = 1" | "length ?ls = 2" | "3 \<le> length ?ls" using length_Split [of "CHR ''.''" "TrimSpace s"] by fastforce
  then show ?thesis
  proof cases
    case 3
    then have "drop (length ?ls - 2) ?ls = [?ls ! (length ?ls - 2), ?ls ! (length ?ls - 1)]"
      by (simp add: Cons_nth_drop_Suc [symmetric] numeral_2_eq_2 Suc_diff_Suc)
    then show ?thesis using 3 assms by (simp add: MaskHost_def labels_left_def Let_def max_def)
  next
    case 2
    then have "drop 1 ?ls = [?ls ! 1]" by (cases ?ls; cases "tl ?ls") (simp_all add: numeral_2_eq_2)
    then show ?thesis using 2 assms by (simp add: MaskHost_def labels_left_def Let_def)
  qed (use assms in \<open>simp add: MaskHost_def labels_left_def Let_def\<close>)
qed

lemma MaskHost_same: "same_domain s t \<Longrightarrow> MaskHost s = MaskHost t"
proof -
  assume "same_domain s t"
  then show ?thesis
    unfolding same_domain_def Let_def
  proof (elim disjE conjE, goal_cases)
    case 2
    then have "TrimSpace s \<noteq> []" "TrimSpace t \<noteq> []" using ParseIP_Nil by auto
    then show ?case using 2(1,2) MaskIP_same [OF 2(3)] by (simp add: MaskHost_def)
  next
    case 3
    then show ?case by (simp add: MaskHost_labels)
  qed simp
qed

definition same_agent :: "Agent \<Rightarrow> Agent \<Rightarrow> bool" where
  "same_agent a b \<longleftrightarrow> ag_ID a = ag_ID b \<and> ag_Name a = ag_Name b \<and> ag_OS a = ag_OS b \<and> ag_Arch a = ag_Arch b \<and> ag_Version a = ag_Version b \<and>
     ag_Tags a = ag_Tags b \<and> ag_IsOnline a = ag_IsOnline b \<and> ag_LastSeenAt a = ag_LastSeenAt b \<and> same_net (ag_PublicIP a) (ag_PublicIP b)"

definition same_target :: "Target \<Rightarrow> Target \<Rightarrow> bool" where
  "same_target a b \<longleftrightarrow> tg_ID a = tg_ID b \<and> tg_Name a = tg_Name b \<and> tg_PacketCount a = tg_PacketCount b \<and>
     tg_IntervalSec a = tg_IntervalSec b \<and> tg_Tags a = tg_Tags b \<and> same_domain (tg_Host a) (tg_Host b)"

lemma list_all2_map_eq: "list_all2 R xs ys \<Longrightarrow> (\<And>x y. R x y \<Longrightarrow> f x = f y) \<Longrightarrow> map f xs = map f ys"
  by (induction rule: list_all2_induct) auto

text \<open>
  C36: what an anonymous visitor sees of probes, targets and metrics does not depend on the last two bytes of a probe's IPv4 address,
  on the groups after the second of an IPv6 address written with at least four groups or on any group of a shorter one, or on a text in its
  place that is no address; nor on the labels of a target's host name that \<open>labels_left\<close> leaves out, which are all but the last two
  of a name of three or more labels, the first of a name of two labels, and the whole of a name of one label; nor on tokens or overrides,
  or on the text of an error.
\<close>

theorem anonymous_noninterference:
  assumes "list_all2 same_agent as bs" "list_all2 same_target ts us" "secret \<noteq> []"
  shows "getPublicAgents False recent as = getPublicAgents False recent bs \<and>
    getPublicTargets False ts = getPublicTargets False us \<and>
    getPublicMetrics False now tid aid r ms =
      getPublicMetrics False now tid aid r (map (\<lambda>m. m\<lparr>pm_ErrorMsg := (if pm_ErrorMsg m = [] then [] else secret)\<rparr>) ms)"
proof (intro conjI)
  show "getPublicAgents False recent as = getPublicAgents False recent bs"
    unfolding getPublicAgents_def using assms(1)
    by (rule list_all2_map_eq) (auto simp: same_agent_def MaskIP_same split: prod.split)
  show "getPublicTargets False ts = getPublicTargets False us"
    unfolding getPublicTargets_def using assms(2)
    by (rule list_all2_map_eq) (auto simp: same_target_def MaskHost_same)
  let ?f = "\<lambda>m. m\<lparr>pm_ErrorMsg := (if pm_ErrorMsg m = [] then [] else secret)\<rparr>"
  have sort: "sort_key pm_Timestamp (map ?f xs) = map ?f (sort_key pm_Timestamp xs)" for xs
  proof (induction xs)
    case (Cons x xs)
    have "insort_key pm_Timestamp (?f x) (map ?f ys) = map ?f (insort_key pm_Timestamp x ys)" for ys by (induction ys) simp_all
    then show ?case using Cons by simp
  qed simp
  have point: "metric_point False (?f m) = metric_point False m" for m using assms(3) by (simp add: metric_point_def)
  show "getPublicMetrics False now tid aid r ms = getPublicMetrics False now tid aid r (map ?f ms)"
    by (simp add: getPublicMetrics_def filter_map o_def sort take_map point del: if_split_asm)
qed

text \<open>
  the trace endpoints do not mask anything: for any visitor, the summaries carry the stored target host and resolved address
  of every listed trace, and a single trace its hops' addresses.
\<close>

theorem traces_are_not_masked:
  "map (\<lambda>s. (tsm_TargetHost s, tsm_ResolvedIP s)) (getPublicTraceroutes aid tid rows) =
     map (\<lambda>r. (rec_TargetHost (snd r), rec_ResolvedIP (snd r))) (take 50 (newest_first trace_time_of (trace_filter aid tid rows))) \<and>
   (case getPublicTracerouteByID rid rows of
      Inl e \<Rightarrow> rid \<notin> fst ` set rows
    | Inr r \<Rightarrow> \<exists>r0. (rid, r0) \<in> set rows \<and> rec_TargetHost r = rec_TargetHost r0 \<and> rec_Hops r = rec_Hops r0)"
proof
  have fx: "rec_TargetHost (snd (fst (fixMissingRoutePath r))) = rec_TargetHost (snd r) \<and>
      rec_ResolvedIP (snd (fst (fixMissingRoutePath r))) = rec_ResolvedIP (snd r) \<and> rec_Hops (snd (fst (fixMissingRoutePath r))) = rec_Hops (snd r)" for r
    by (cases r) (simp add: fixMissingRoutePath_def Let_def split: prod.split)
  then show "map (\<lambda>s. (tsm_TargetHost s, tsm_ResolvedIP s)) (getPublicTraceroutes aid tid rows) =
     map (\<lambda>r. (rec_TargetHost (snd r), rec_ResolvedIP (snd r))) (take 50 (newest_first trace_time_of (trace_filter aid tid rows)))"
    by (simp add: getPublicTraceroutes_def trace_summary_def split_beta)
  show "case getPublicTracerouteByID rid rows of
      Inl e \<Rightarrow> rid \<notin> fst ` set rows
    | Inr r \<Rightarrow> \<exists>r0. (rid, r0) \<in> set rows \<and> rec_TargetHost r = rec_TargetHost r0 \<and> rec_Hops r = rec_Hops r0"
  proof (cases "find (\<lambda>r. fst r = rid) rows")
    case None
    then show ?thesis using find_key [of fst rid rows] by (simp add: getPublicTracerouteByID_def)
  next
    case (Some x)
    then have "x \<in> set rows" "fst x = rid" using find_SomeD by fast+
    then show ?thesis using Some fx [of x] by (auto simp: getPublicTracerouteByID_def intro!: exI [of _ "snd x"])
  qed
qed


definition hosted :: "string \<Rightarrow> Target" where
  "hosted h = \<lparr>tg_ID = ''1'', tg_Name = ''n'', tg_Host = h, tg_PacketCount = 1, tg_IntervalSec = 5, tg_Tags = [], tg_Enabled = True, tg_DisableRoute = False\<rparr>"

theorem anonymous_noninterference_witness:
  "getPublicTargets False (map hosted [''db.eu.example.com'', ''gw.corp'', ''nas'']) =
   getPublicTargets False (map hosted [''mail.example.com'', ''vpn.corp'', ''printer''])"
proof -
  have "same_domain ''db.eu.example.com'' ''mail.example.com''" "same_domain ''gw.corp'' ''vpn.corp''" "same_domain ''nas'' ''printer''"
    by code_simp+
  then have "list_all2 same_target (map hosted [''db.eu.example.com'', ''gw.corp'', ''nas'']) (map hosted [''mail.example.com'', ''vpn.corp'', ''printer''])"
    by (simp add: same_target_def hosted_def)
  then show ?thesis using anonymous_noninterference [of "[]" "[]" _ _ "''x''"] by blast
qed

section \<open>The trace nearest to a time\<close>

lemma pick_closest_in: "pick_closest t r rs \<in> set (r # rs)"
  by (induction t r rs rule: pick_closest.induct) auto

lemma pick_closest_min:
  "x \<in> set (r # rs) \<Longrightarrow> diffDuration (rec_Timestamp (snd (pick_closest t r rs))) t \<le> diffDuration (rec_Timestamp (snd x)) t"
  by (induction t r rs arbitrary: x rule: pick_closest.induct) (auto, force+)

lemma set_newest_first [simp]: "set (newest_first f xs) = set xs" "length (newest_first f xs) = length xs"
  by (simp_all add: newest_first_def)

text \<open>The rows a search looks at: the probe's and target's traces within a quarter of an hour of the time.\<close>

definition in_window :: "nanosec \<Rightarrow> trace_row \<Rightarrow> bool" where
  "in_window t r \<longleftrightarrow> trace_time_of r \<ge> t - minutes 15 \<and> trace_time_of r \<le> t + minutes 15"

text \<open>
  asked for the trace nearest to a time, the Host answers with a trace of that probe and target; when at most five of its traces
  lie within a quarter of an hour, no other trace is nearer than the answered one. With more than five only the five
  newest are looked at, and the nearest one can be missed.
\<close>

theorem nearest_trace:
  assumes "agentID \<noteq> []" "trace_time parse timeStr = Some t" "row \<in> set (trace_filter agentID targetID rows)" "in_window t row"
    and "length (filter (in_window t) (trace_filter agentID targetID rows)) \<le> 5"
  shows "\<exists>best. best \<in> set (trace_filter agentID targetID rows) \<and>
    getPublicTraceroute parse [] agentID targetID timeStr rows = Inr (snd (fst (fixMissingRoutePath best))) \<and>
    (\<forall>x. x \<in> set (trace_filter agentID targetID rows) \<longrightarrow> diffDuration (trace_time_of best) t \<le> diffDuration (trace_time_of x) t)"
proof -
  let ?q = "trace_filter agentID targetID rows"
  have w: "trace_window t ?q = newest_first trace_time_of (filter (in_window t) ?q)"
    using assms(5) by (simp add: trace_window_def in_window_def [abs_def])
  then have s: "set (trace_window t ?q) = {x \<in> set ?q. in_window t x}" by auto
  have "row \<in> set (trace_window t ?q)" unfolding s using assms(3,4) by blast
  then obtain r rs where c: "trace_window t ?q = r # rs" by (cases "trace_window t ?q") simp_all
  let ?b = "pick_closest t r rs"
  have b: "?b \<in> set ?q" "in_window t ?b" using pick_closest_in [of t r rs] s c by auto
  have "diffDuration (trace_time_of ?b) t \<le> diffDuration (trace_time_of x) t" if "x \<in> set ?q" for x
  proof (cases "in_window t x")
    case True
    then have "x \<in> set (r # rs)" using that s c by auto
    then show ?thesis using pick_closest_min by (simp add: trace_time_of_def)
  next
    case False
    have "diffDuration (trace_time_of ?b) t \<le> minutes 15" using b(2) by (auto simp: in_window_def diffDuration_def Let_def)
    also have "\<dots> \<le> diffDuration (trace_time_of x) t" using False by (auto simp: in_window_def diffDuration_def Let_def)
    finally show ?thesis .
  qed
  moreover have "getPublicTraceroute parse [] agentID targetID timeStr rows = Inr (snd (fst (fixMissingRoutePath ?b)))"
    using assms(1,2) c by (simp add: getPublicTraceroute_def Let_def)
  ultimately show ?thesis using b(1) by blast
qed

definition demo_trace :: "nanosec \<Rightarrow> trace_row" where
  "demo_trace t = (''i'', \<lparr>rec_AgentID = ''a'', rec_TargetID = ''t'', rec_TargetHost = ''db.corp'', rec_ResolvedIP = ''10.0.0.7'', rec_Timestamp = t,
     rec_DurationMs = 1, rec_Reached = True, rec_HopCount = 0, rec_RoutePath = ''x'', rec_ASPath = ''y'', rec_ASNodes = [], rec_Hops = []\<rparr>)"

lemma demo_trace_time: "trace_time (\<lambda>_. None) ''1000'' = Some 1000000000"
  by code_simp

theorem nearest_trace_witness:
  "\<exists>best. best \<in> set (trace_filter ''a'' ''t'' [demo_trace 0, demo_trace 1000000007]) \<and>
    getPublicTraceroute (\<lambda>_. None) [] ''a'' ''t'' ''1000'' [demo_trace 0, demo_trace 1000000007] = Inr (snd (fst (fixMissingRoutePath best)))"
proof -
  have "demo_trace 0 \<in> set (trace_filter ''a'' ''t'' [demo_trace 0, demo_trace 1000000007])" "in_window 1000000000 (demo_trace 0)"
    "length (filter (in_window 1000000000) (trace_filter ''a'' ''t'' [demo_trace 0, demo_trace 1000000007])) \<le> 5"
    by (simp_all add: trace_filter_def demo_trace_def in_window_def trace_time_of_def minutes_def)
  then show ?thesis using nearest_trace [OF _ demo_trace_time] by blast
qed

text \<open>Six traces a second apart, asked for the time of the oldest: the answer is the second oldest.\<close>

lemma nearest_trace_missed:
  "getPublicTraceroute (\<lambda>_. None) [] ''a'' ''t'' ''1000'' (map (\<lambda>k. demo_trace (k * 1000000000)) [1, 2, 3, 4, 5, 6]) = Inr (snd (demo_trace 2000000000))"
  by (simp add: getPublicTraceroute_def demo_trace_time trace_filter_def trace_window_def newest_first_def trace_time_of_def demo_trace_def
      minutes_def diffDuration_def fixMissingRoutePath_def Let_def numeral_eq_Suc)

section \<open>Quality and matrix\<close>

text \<open>The score as a chain of monotone steps; a penalty that does not apply is zero.\<close>

definition jitter_penalty :: "float64 \<Rightarrow> float64" where
  "jitter_penalty j = (if j > 5 then rnd (rnd (j - 5) * (1 / 2)) else 0)"

definition rtt_penalty :: "float64 \<Rightarrow> float64" where
  "rtt_penalty r = (if r > 100 then rnd (rnd (r - 100) * rnd (1 / 10)) else 0)"

lemma quality_score_chain:
  "quality_score rtt jitter loss = max 0 (rnd (rnd (rnd (100 - rnd (loss * 3)) - jitter_penalty jitter) - rtt_penalty rtt))"
  by (auto simp: quality_score_def jitter_penalty_def rtt_penalty_def Let_def max_def)

lemma jitter_penalty_mono: "j \<le> k \<Longrightarrow> jitter_penalty j \<le> jitter_penalty k"
  by (auto simp: jitter_penalty_def intro!: rnd_mono rnd_nonneg mult_right_mono mult_nonneg_nonneg)

lemma rtt_penalty_mono: "j \<le> k \<Longrightarrow> rtt_penalty j \<le> rtt_penalty k"
  by (auto simp: rtt_penalty_def intro!: rnd_mono rnd_nonneg mult_right_mono mult_nonneg_nonneg)

lemma quality_score_antimono:
  assumes "rtt \<le> rtt'" "jitter \<le> jitter'" "loss \<le> loss'"
  shows "quality_score rtt' jitter' loss' \<le> quality_score rtt jitter loss"
  unfolding quality_score_chain using jitter_penalty_mono [OF assms(2)] rtt_penalty_mono [OF assms(1)] assms(3)
  by (intro max.mono order.refl rnd_mono diff_mono) (auto intro: rnd_mono)

lemma quality_score_100: "0 \<le> rtt \<Longrightarrow> 0 \<le> jitter \<Longrightarrow> 0 \<le> loss \<Longrightarrow> quality_score rtt jitter loss \<le> 100"
proof -
  assume "0 \<le> rtt" "0 \<le> jitter" "0 \<le> loss"
  then have "quality_score rtt jitter loss \<le> quality_score 0 0 0" by (rule quality_score_antimono)
  also have "\<dots> = 100" by (simp add: quality_score_def rnd_numeral)
  finally show ?thesis .
qed

lemma quality_Score: "q_Score (calculateAgentQuality rtt jitter loss True) = \<lfloor>math_Round (quality_score rtt jitter loss)\<rfloor>"
  by (simp add: calculateAgentQuality_def Let_def split: prod.split)

text \<open>
  the quality score of a probe is between 0 and 100, it never rises when round trip time, jitter or loss rise, computed in
  floating point as the code does, and an offline probe has score 0 and grade \<^verbatim>\<open>Offline\<close>.
\<close>

theorem quality_bounded_antitone:
  assumes "0 \<le> rtt" "0 \<le> jitter" "0 \<le> loss" "rtt \<le> rtt'" "jitter \<le> jitter'" "loss \<le> loss'"
  shows "0 \<le> q_Score (calculateAgentQuality rtt jitter loss on) \<and> q_Score (calculateAgentQuality rtt jitter loss on) \<le> 100 \<and>
    q_Score (calculateAgentQuality rtt' jitter' loss' True) \<le> q_Score (calculateAgentQuality rtt jitter loss True) \<and>
    q_Grade (calculateAgentQuality rtt jitter loss False) = ''Offline''"
proof -
  have m: "math_Round (quality_score rtt' jitter' loss') \<le> math_Round (quality_score rtt jitter loss)"
    using quality_score_antimono [OF assms(4-6)] by (rule math_Round_mono)
  have h: "math_Round (quality_score rtt jitter loss) \<le> 100"
    using math_Round_mono [OF quality_score_100 [OF assms(1-3)]] math_Round_of_int [of 100] by simp
  have z: "0 \<le> math_Round (quality_score rtt jitter loss)" by (rule math_Round_nonneg) (simp add: quality_score_chain)
  have "\<lfloor>math_Round (quality_score rtt jitter loss)\<rfloor> \<le> 100" "0 \<le> \<lfloor>math_Round (quality_score rtt jitter loss)\<rfloor>"
    using h z by linarith+
  then show ?thesis using floor_mono [OF m]
    by (cases on) (simp_all add: quality_Score, simp_all add: calculateAgentQuality_def)
qed

theorem quality_bounded_antitone_witness:
  "q_Score (calculateAgentQuality 200 20 3 True) \<le> q_Score (calculateAgentQuality 100 5 1 True)"
  using quality_bounded_antitone [of 100 5 1 200 20 3] by simp

lemma distinct_on_keys: "key ` set (distinct_on key xs) = key ` set xs \<and> distinct (map key (distinct_on key xs)) \<and> set (distinct_on key xs) \<subseteq> set xs"
proof (induction key xs rule: distinct_on.induct)
  case (2 key x xs)
  then show ?case by auto
qed simp

lemma distinct_on_first:
  "sorted (map f xs) \<Longrightarrow> x \<in> set (distinct_on key xs) \<Longrightarrow> y \<in> set xs \<Longrightarrow> key y = key x \<Longrightarrow> f x \<le> f y" for f :: "'a \<Rightarrow> int"
proof (induction key xs rule: distinct_on.induct)
  case (2 key z zs)
  have sub: "sorted (map f (filter (\<lambda>y. key y \<noteq> key z) zs))" using 2(2) sorted_filter by auto
  show ?case
  proof (cases "x = z")
    case True
    then show ?thesis using 2 by auto
  next
    case False
    then have x: "x \<in> set (distinct_on key (filter (\<lambda>y. key y \<noteq> key z) zs))" using 2 by simp
    then have "key x \<noteq> key z" using distinct_on_keys [of key "filter (\<lambda>y. key y \<noteq> key z) zs"] by auto
    then have "y \<in> set (filter (\<lambda>y. key y \<noteq> key z) zs)" using 2 by auto
    then show ?thesis using 2(1) [OF sub x] 2(5) by blast
  qed
qed simp

text \<open>
  the matrix has exactly one cell for every pair of probe and target with a metric of the last ten minutes, and the cell is a newest
  metric of the pair.
\<close>

theorem matrix_latest:
  "distinct (map (\<lambda>c. (mc_AgentID c, mc_TargetID c)) (getPublicMatrix now rows)) \<and>
   (\<forall>a t. (\<exists>c. c \<in> set (getPublicMatrix now rows) \<and> mc_AgentID c = a \<and> mc_TargetID c = t) \<longleftrightarrow>
      (\<exists>m. m \<in> set rows \<and> pm_Timestamp m \<ge> now - minutes 10 \<and> pm_AgentID m = a \<and> pm_TargetID m = t)) \<and>
   (\<forall>c m. c \<in> set (getPublicMatrix now rows) \<and> m \<in> set rows \<and> pm_AgentID m = mc_AgentID c \<and> pm_TargetID m = mc_TargetID c \<longrightarrow>
      pm_Timestamp m \<le> mc_Timestamp c)"
proof -
  let ?xs = "newest_first pm_Timestamp (filter (\<lambda>m. pm_Timestamp m \<ge> now - minutes 10) rows)"
  let ?ds = "distinct_on metric_key ?xs"
  have g: "getPublicMatrix now rows = map matrix_cell ?ds" by (simp add: getPublicMatrix_def)
  have cell: "(mc_AgentID (matrix_cell m), mc_TargetID (matrix_cell m)) = metric_key m" "mc_Timestamp (matrix_cell m) = pm_Timestamp m" for m
    by (simp_all add: matrix_cell_def metric_key_def)
  note k = distinct_on_keys [of metric_key ?xs]
  have x: "set ?xs = {m \<in> set rows. pm_Timestamp m \<ge> now - minutes 10}" by auto
  have "distinct (map (\<lambda>c. (mc_AgentID c, mc_TargetID c)) (getPublicMatrix now rows))" using k by (simp add: g o_def cell)
  moreover have "(\<exists>c. c \<in> set (getPublicMatrix now rows) \<and> mc_AgentID c = a \<and> mc_TargetID c = t) \<longleftrightarrow>
      (\<exists>m. m \<in> set rows \<and> pm_Timestamp m \<ge> now - minutes 10 \<and> pm_AgentID m = a \<and> pm_TargetID m = t)" for a t
  proof -
    have "(\<exists>c. c \<in> set (getPublicMatrix now rows) \<and> mc_AgentID c = a \<and> mc_TargetID c = t) \<longleftrightarrow> (a, t) \<in> metric_key ` set ?ds"
      by (auto simp: g matrix_cell_def metric_key_def image_iff)
    also have "\<dots> \<longleftrightarrow> (a, t) \<in> metric_key ` set ?xs" using k by simp
    finally show ?thesis by (auto simp: x metric_key_def)
  qed
  moreover have "pm_Timestamp m \<le> mc_Timestamp c"
    if c: "c \<in> set (getPublicMatrix now rows)" and m: "m \<in> set rows" "pm_AgentID m = mc_AgentID c" "pm_TargetID m = mc_TargetID c" for c m
  proof -
    obtain d where d: "d \<in> set ?ds" "c = matrix_cell d" using c by (auto simp: g)
    then have dx: "d \<in> set ?xs" "metric_key m = metric_key d" using k m by (auto simp: matrix_cell_def metric_key_def)
    show ?thesis
    proof (cases "pm_Timestamp m \<ge> now - minutes 10")
      case True
      then have "m \<in> set ?xs" using m x by simp
      moreover have "sorted (map (\<lambda>x. - pm_Timestamp x) ?xs)" by (simp add: newest_first_def)
      ultimately have "- pm_Timestamp d \<le> - pm_Timestamp m" using distinct_on_first [OF _ d(1) _ dx(2)] by blast
      then show ?thesis using d cell by simp
    next
      case False
      then show ?thesis using dx x d cell by auto
    qed
  qed
  ultimately show ?thesis by blast
qed

definition demo_metric :: "nanosec \<Rightarrow> PingMetric" where
  "demo_metric t = \<lparr>pm_AgentID = ''a'', pm_TargetID = ''t'', pm_Timestamp = t, pm_PacketsSent = 1, pm_PacketsRecv = 1, pm_LossPct = 0, pm_MinRTT = 1,
     pm_MaxRTT = 1, pm_AvgRTT = 1, pm_Jitter = 0, pm_StdDev = 0, pm_ErrorMsg = []\<rparr>"

theorem matrix_latest_witness:
  "\<exists>c. c \<in> set (getPublicMatrix 10 [demo_metric 1, demo_metric 2]) \<and> mc_AgentID c = ''a'' \<and> mc_TargetID c = ''t''"
proof -
  have "\<exists>m. m \<in> set [demo_metric 1, demo_metric 2] \<and> pm_Timestamp m \<ge> 10 - minutes 10 \<and> pm_AgentID m = ''a'' \<and> pm_TargetID m = ''t''"
    by (intro exI [of _ "demo_metric 1"]) (simp add: demo_metric_def minutes_def)
  then show ?thesis by (rule matrix_latest [THEN conjunct2, THEN conjunct1, THEN spec, THEN spec, THEN iffD2])
qed

end
