(* ===== verification/Host_Main.thy ===== *)
theory Host_Main
  imports Admin_Api Public_Api
begin

text \<open>
  The Host's start-up configuration and everything around the API: \<^verbatim>\<open>host/cmd/server/main.go\<close> (dispatch of requests, origins,
  trusted proxies, the install script), \<^verbatim>\<open>host/internal/ui/static.go\<close> (static files) and the retention cleaner of
  \<^verbatim>\<open>host/internal/db/db.go\<close>. \<open>stat\<close> is what the file system says of a path: nothing, a file or a directory.
\<close>

section \<open>Dispatch and configuration\<close>

text \<open>\<open>upgrade\<close> says whether the request asks for a WebSocket.\<close>

definition IsTunnelRequest :: "string \<Rightarrow> bool \<Rightarrow> bool" where
  "IsTunnelRequest path upgrade \<longleftrightarrow> path = ''/api/proxy/tunnel'' \<and> upgrade"

datatype route = ToTunnel | ToConnect | ToRouter

definition host_dispatch :: "string \<Rightarrow> bool \<Rightarrow> string \<Rightarrow> route" where
  "host_dispatch path upgrade meth = (if IsTunnelRequest path upgrade then ToTunnel else if meth = ''CONNECT'' then ToConnect else ToRouter)"

definition allowedOrigins :: "(string \<Rightarrow> string) \<Rightarrow> Accounts \<Rightarrow> string list" where
  "allowedOrigins env a =
     (let appURL = setting_or_env env a ''app_url'' ''APP_URL'';
          base = [''http://localhost:5173'', ''http://localhost:8080'', ''http://127.0.0.1:5173'', ''http://127.0.0.1:8080'']
      in if appURL \<noteq> [] then base @ [TrimRight appURL (CHR ''/'')] else base)"

definition listen_port :: "(string \<Rightarrow> string) \<Rightarrow> string" where
  "listen_port env = '':'' @ (if env ''PORT'' = [] then ''8080'' else env ''PORT'')"

definition defaultProxies :: "string list" where
  "defaultProxies = [''127.0.0.0/8'', ''10.0.0.0/8'', ''172.16.0.0/12'', ''192.168.0.0/16'', ''::1/128'', ''fc00::/7'']"

text \<open>The networks handed to the router, \<open>None\<close> for none at all.\<close>

definition configureTrustedProxies :: "(string \<Rightarrow> string) \<Rightarrow> string list option" where
  "configureTrustedProxies env =
     (let trimmed = TrimSpace (env ''TRUSTED_PROXIES'');
          proxies = filter (\<lambda>s. s \<noteq> []) (map TrimSpace (Split (CHR '','') trimmed))
      in if env ''TRUSTED_PROXIES'' \<noteq> [] then
           (if trimmed \<in> {''none'', ''nil'', ''off'', ''false''} then None
            else if trimmed = ''*'' \<or> trimmed = ''all'' then Some [''0.0.0.0/0'', ''::/0'']
            else if proxies \<noteq> [] then Some proxies
            else Some defaultProxies)
         else Some defaultProxies)"

definition serveInstallScript :: "(string \<Rightarrow> bool option) \<Rightarrow> string + string" where
  "serveInstallScript stat =
     (case find (\<lambda>p. stat p \<noteq> None) [''scripts/install.sh'', ''../scripts/install.sh'', ''/app/scripts/install.sh''] of
        Some p \<Rightarrow> Inr p
      | None \<Rightarrow> Inl (''#!/bin/sh'' @ [CHR 0x0A] @ ''echo '' @ [CHR 0x27] @ ''JustPing agent installer'' @ [CHR 0x27, CHR 0x0A]))"

section \<open>Static files\<close>

text \<open>The path library on a rooted path: empty and \<open>.\<close> elements go, \<open>..\<close> takes the element before it away.\<close>

definition clean_step :: "string list \<Rightarrow> string \<Rightarrow> string list" where
  "clean_step acc c = (if c = [] \<or> c = ''.'' then acc else if c = ''..'' then butlast acc else acc @ [c])"

definition path_elements :: "string \<Rightarrow> string list" where
  "path_elements s = foldl clean_step [] (Split (CHR ''/'') s)"

definition path_Clean :: "string \<Rightarrow> string" where
  "path_Clean s = ''/'' @ Join ''/'' (path_elements s)"

definition filepath_Join :: "string \<Rightarrow> string \<Rightarrow> string" where
  "filepath_Join a b = path_Clean (if b = [] then a else a @ ''/'' @ b)"

definition findDiskDist :: "(string \<Rightarrow> bool option) \<Rightarrow> string" where
  "findDiskDist stat =
     (case find (\<lambda>dir. stat dir = Some True \<and> stat (dir @ ''/index.html'') \<noteq> None) [''web/dist'', ''../web/dist'', ''/app/web/dist'', ''dist''] of
        None \<Rightarrow> [] | Some dir \<Rightarrow> dir)"

datatype served = ServeFile string | Forbidden | PassOn

definition serveFromDisk :: "(string \<Rightarrow> bool option) \<Rightarrow> (string \<Rightarrow> string option) \<Rightarrow> string \<Rightarrow> string \<Rightarrow> served" where
  "serveFromDisk stat absolute diskDist relPath =
     (case absolute diskDist of None \<Rightarrow> PassOn
      | Some absDist \<Rightarrow>
          let targetClean = path_Clean (filepath_Join absDist relPath); indexPath = filepath_Join absDist ''index.html''
          in if \<not> HasPrefix targetClean (absDist @ ''/'') \<and> targetClean \<noteq> absDist then Forbidden
             else if stat targetClean = Some False then ServeFile targetClean
             else if stat indexPath = Some False then ServeFile indexPath
             else PassOn)"

text \<open>\<open>open\<close> is the embedded file system: nothing, a file or a directory.\<close>

definition serveFromFS :: "(string \<Rightarrow> bool option) \<Rightarrow> string \<Rightarrow> served" where
  "serveFromFS embedded relPath =
     (if relPath \<noteq> [] \<and> embedded relPath = Some False then ServeFile relPath
      else if embedded ''index.html'' \<noteq> None then ServeFile ''index.html'' else PassOn)"

definition static_handler ::
  "(string \<Rightarrow> bool option) \<Rightarrow> (string \<Rightarrow> string option) \<Rightarrow> (string \<Rightarrow> bool option) \<Rightarrow> string \<Rightarrow> string \<Rightarrow> served" where
  "static_handler stat absolute embedded diskDist reqPath =
     (if HasPrefix reqPath ''/api'' \<or> reqPath = ''/install.sh'' then PassOn
      else let trimmed = TrimPrefix (path_Clean (''/'' @ reqPath)) ''/''
           in if diskDist \<noteq> [] then serveFromDisk stat absolute diskDist trimmed else serveFromFS embedded trimmed)"

section \<open>Retention\<close>

text \<open>\<^verbatim>\<open>Sscanf\<close> with \<open>%d\<close>: leading white space, an optional sign and the digits that follow; \<open>None\<close> when there is no number or it does not fit.\<close>

definition scan_int :: "string \<Rightarrow> int option" where
  "scan_int raw =
     (let s = trim_left raw;
          (sign, rest) = (case s of [] \<Rightarrow> ([], []) | c # cs \<Rightarrow> if c = CHR ''-'' \<or> c = CHR ''+'' then ([c], cs) else ([], s));
          ds = takeWhile is_digit rest
      in if ds = [] then None else case Atoi (sign @ ds) of (n, None) \<Rightarrow> Some n | (n, Some e) \<Rightarrow> None)"

definition retention_days :: "string \<Rightarrow> int" where
  "retention_days setting = (if setting = [] then 30 else case scan_int setting of Some d \<Rightarrow> if d > 0 then d else 30 | None \<Rightarrow> 30)"

definition day :: nanosec where
  "day = 24 * 60 * 60 * 1000000000"

text \<open>One round of the cleaner, in UTC; \<open>metric_err\<close> and \<open>trace_err\<close> say whether a deletion fails.\<close>

definition clean_once :: "bool \<Rightarrow> bool \<Rightarrow> nanosec \<Rightarrow> Accounts \<Rightarrow> DB \<Rightarrow> DB" where
  "clean_once metric_err trace_err now a d =
     (let cutoff = now - retention_days (GetSetting a ''retention_days'') * day;
          d1 = (if metric_err then d else d\<lparr>metric_rows := filter (\<lambda>m. \<not> pm_Timestamp m < cutoff) (metric_rows d)\<rparr>)
      in if trace_err then d1 else d1\<lparr>trace_rows := filter (\<lambda>r. \<not> rec_Timestamp r < cutoff) (trace_rows d1)\<rparr>)"

section \<open>Properties\<close>

definition plain_element :: "string \<Rightarrow> bool" where
  "plain_element c \<longleftrightarrow> c \<noteq> [] \<and> c \<noteq> ''.'' \<and> c \<noteq> ''..'' \<and> CHR ''/'' \<notin> set c"

lemma Split_append_both: "Split d (a @ d # b) = Split d a @ Split d b"
proof (induction a)
  case (Cons x a)
  then show ?case by (cases "Split d a") auto
qed simp

lemma foldl_clean_plain: "list_all plain_element cs \<Longrightarrow> foldl clean_step acc cs = acc @ cs"
  by (induction cs arbitrary: acc) (auto simp: clean_step_def plain_element_def)

lemma foldl_clean_all:
  "list_all plain_element acc \<Longrightarrow> (\<And>c. c \<in> set cs \<Longrightarrow> CHR ''/'' \<notin> set c) \<Longrightarrow> list_all plain_element (foldl clean_step acc cs)"
proof (induction cs arbitrary: acc)
  case (Cons c cs)
  have "list_all plain_element (clean_step acc c)"
    using Cons.prems by (auto simp: clean_step_def plain_element_def list_all_iff dest: in_set_butlastD)
  then show ?case using Cons by simp
qed simp

lemma path_elements_plain: "list_all plain_element (path_elements s)"
  unfolding path_elements_def using Split_no_sep by (intro foldl_clean_all) auto

lemma path_elements_join:
  assumes "list_all plain_element cs" "cs \<noteq> []"
  shows "path_elements (a @ ''/'' @ Join ''/'' cs) = path_elements a @ cs"
proof -
  have "Split (CHR ''/'') (Join ''/'' cs) = cs"
    using assms by (intro Split_Join) (auto simp: list_all_iff plain_element_def)
  then show ?thesis using foldl_clean_plain [OF assms(1)] Split_append_both [of "CHR ''/''" a "Join ''/'' cs"] by (simp add: path_elements_def)
qed

lemma path_elements_Clean: "path_elements (path_Clean s) = path_elements s"
proof (cases "path_elements s = []")
  case False
  then show ?thesis using path_elements_join [OF path_elements_plain [of s] False, of "[]"]
    by (simp add: path_Clean_def path_elements_def clean_step_def)
qed (simp add: path_Clean_def path_elements_def clean_step_def)

lemma path_Clean_idem [simp]: "path_Clean (path_Clean s) = path_Clean s"
proof -
  have "path_Clean (path_Clean s) = ''/'' @ Join ''/'' (path_elements (path_Clean s))" by (rule path_Clean_def)
  then show ?thesis unfolding path_elements_Clean path_Clean_def [of s, symmetric] .
qed

lemma Join_append: "xs \<noteq> [] \<Longrightarrow> ys \<noteq> [] \<Longrightarrow> Join d (xs @ ys) = Join d xs @ d @ Join d ys"
  by (induction d xs rule: Join.induct) (auto, cases ys, auto)

text \<open>A cleaned request path joined to the directory is the directory itself or a path below it.\<close>

lemma joined_below:
  assumes "path_Clean dir = dir" "dir \<noteq> ''/''"
  shows "filepath_Join dir (TrimPrefix (path_Clean p) ''/'') = dir \<and> path_elements p = [] \<or>
    filepath_Join dir (TrimPrefix (path_Clean p) ''/'') = dir @ ''/'' @ Join ''/'' (path_elements p)"
proof -
  let ?cs = "path_elements p"
  have t: "TrimPrefix (path_Clean p) ''/'' = Join ''/'' ?cs" by (simp add: path_Clean_def del: append_Cons)
  have ne: "path_elements dir \<noteq> []" using assms by (metis Join.simps(1) append_Nil2 path_Clean_def)
  show ?thesis
  proof (cases "?cs = []")
    case True
    then show ?thesis using assms(1) by (simp add: filepath_Join_def t)
  next
    case False
    have pl: "list_all plain_element ?cs" by (rule path_elements_plain)
    then have j: "Join ''/'' ?cs \<noteq> []" using False by (cases ?cs; cases "tl ?cs") (auto simp: plain_element_def)
    have "path_elements (dir @ ''/'' @ Join ''/'' ?cs) = path_elements dir @ ?cs" by (rule path_elements_join [OF pl False])
    then have "filepath_Join dir (Join ''/'' ?cs) = ''/'' @ Join ''/'' (path_elements dir) @ ''/'' @ Join ''/'' ?cs"
      using j False ne by (simp add: filepath_Join_def path_Clean_def Join_append)
    also have "\<dots> = dir @ ''/'' @ Join ''/'' ?cs" using assms(1) by (metis append.assoc path_Clean_def)
    finally show ?thesis using t by simp
  qed
qed

lemma HasPrefix_below: "HasPrefix (dir @ ''/'' @ rest) (dir @ ''/'')"
  using HasPrefix_append [of "dir @ ''/''" rest] by simp

lemma path_elements_index: "path_elements ''/index.html'' = [''index.html'']"
  by code_simp

text \<open>
  C37: for every request path, however many \<^verbatim>\<open>..\<close> elements it has, the disk server never answers 403 and a file it serves is below the
  directory of the user interface: its path is the directory's followed by a slash and elements that are neither empty nor \<^verbatim>\<open>.\<close>
  nor \<^verbatim>\<open>..\<close>, and it is a file that exists. API paths and the path \<^verbatim>\<open>/install.sh\<close> are passed on to the router, and so is every path when the directory
  has neither the file asked for nor an index page. (Hypotheses: the configured directory resolves to a clean absolute path other than the root,
  and that path is not a plain file.)
\<close>

theorem static_stays_inside:
  assumes "absolute diskDist = Some dir" "path_Clean dir = dir" "dir \<noteq> ''/''" "diskDist \<noteq> []" "stat dir \<noteq> Some False"
  shows "static_handler stat absolute embedded diskDist reqPath \<noteq> Forbidden \<and>
    (\<forall>f. static_handler stat absolute embedded diskDist reqPath = ServeFile f \<longrightarrow>
       stat f = Some False \<and> (\<exists>es. es \<noteq> [] \<and> list_all plain_element es \<and> f = dir @ ''/'' @ Join ''/'' es)) \<and>
    (HasPrefix reqPath ''/api'' \<longrightarrow> static_handler stat absolute embedded diskDist reqPath = PassOn) \<and>
    static_handler stat absolute embedded diskDist ''/install.sh'' = PassOn \<and>
    ((\<forall>f. stat f \<noteq> Some False) \<longrightarrow> static_handler stat absolute embedded diskDist reqPath = PassOn)"
proof -
  let ?p = "''/'' @ reqPath"
  let ?j = "filepath_Join dir (TrimPrefix (path_Clean ?p) ''/'')"
  note below = joined_below [OF assms(2,3)]
  have cl: "path_Clean ?j = ?j" by (simp add: filepath_Join_def)
  have tp: "TrimPrefix (path_Clean ''/index.html'') ''/'' = ''index.html''" by code_simp
  have index: "filepath_Join dir ''index.html'' = dir @ ''/'' @ Join ''/'' [''index.html'']"
    using below [of "''/index.html''"] by (simp only: tp path_elements_index) simp
  have pl: "list_all plain_element (path_elements ?p)" "list_all plain_element [''index.html'']"
    by (rule path_elements_plain) (simp add: plain_element_def)
  have pre: "HasPrefix ?j (dir @ ''/'') \<or> ?j = dir" using below [of ?p] HasPrefix_below by (metis (no_types))
  have j: "?j = dir \<or> (\<exists>es. es \<noteq> [] \<and> list_all plain_element es \<and> ?j = dir @ ''/'' @ Join ''/'' es)"
  proof (cases "path_elements ?p = []")
    case True
    then have "TrimPrefix (path_Clean ?p) ''/'' = []" by (simp add: path_Clean_def TrimPrefix_def HasPrefix_def)
    then show ?thesis using assms(2) by (simp add: filepath_Join_def)
  next
    case False
    then show ?thesis using below [of ?p] pl(1) by blast
  qed
  have disk: "static_handler stat absolute embedded diskDist reqPath =
      (if HasPrefix reqPath ''/api'' \<or> reqPath = ''/install.sh'' then PassOn
       else if stat ?j = Some False then ServeFile ?j
       else if stat (filepath_Join dir ''index.html'') = Some False then ServeFile (filepath_Join dir ''index.html'') else PassOn)"
    using pre assms(1,4) cl by (auto simp: static_handler_def serveFromDisk_def Let_def)
  define P where "P f \<longleftrightarrow> (\<exists>es. es \<noteq> [] \<and> list_all plain_element es \<and> f = dir @ ''/'' @ Join ''/'' es)" for f
  have "P ?j" if "stat ?j = Some False" using j that assms(5) unfolding P_def by metis
  moreover have "P (filepath_Join dir ''index.html'')" unfolding P_def using index pl(2) by blast
  moreover have "static_handler stat absolute embedded diskDist ''/install.sh'' = PassOn" by (simp add: static_handler_def)
  ultimately show ?thesis unfolding P_def [symmetric] disk by (auto simp only: split: if_splits)
qed

theorem static_stays_inside_witness:
  "static_handler (\<lambda>p. if p = ''/srv/a.js'' then Some False else None) Some (\<lambda>_. None) ''/srv'' ''/../../x/../a.js'' = ServeFile ''/srv/a.js'' \<and>
   static_handler (\<lambda>p. if p = ''/srv/a.js'' then Some False else None) Some (\<lambda>_. None) ''/srv'' ''/../../x/../a.js'' \<noteq> Forbidden"
proof
  show "static_handler (\<lambda>p. if p = ''/srv/a.js'' then Some False else None) Some (\<lambda>_. None) ''/srv'' ''/../../x/../a.js'' = ServeFile ''/srv/a.js''"
    by code_simp
  have "path_Clean ''/srv'' = ''/srv''" by code_simp
  then show "static_handler (\<lambda>p. if p = ''/srv/a.js'' then Some False else None) Some (\<lambda>_. None) ''/srv'' ''/../../x/../a.js'' \<noteq> Forbidden"
    by (intro static_stays_inside [of Some "''/srv''" "''/srv''", THEN conjunct1]) simp_all
qed

text \<open>
  a round of the retention cleaner that meets no database error deletes exactly the metrics and traces older than the configured number of
  days, thirty when the setting is missing, not a number or not positive, and touches no probe and no target.
\<close>

theorem retention_exact:
  "(\<forall>m. m \<in> set (metric_rows (clean_once False False now a d)) \<longleftrightarrow>
      m \<in> set (metric_rows d) \<and> now - retention_days (GetSetting a ''retention_days'') * day \<le> pm_Timestamp m) \<and>
   (\<forall>r. r \<in> set (trace_rows (clean_once False False now a d)) \<longleftrightarrow>
      r \<in> set (trace_rows d) \<and> now - retention_days (GetSetting a ''retention_days'') * day \<le> rec_Timestamp r) \<and>
   agent_rows (clean_once False False now a d) = agent_rows d \<and> target_rows (clean_once False False now a d) = target_rows d \<and>
   retention_days (GetSetting a ''retention_days'') \<ge> 1"
  by (auto simp: clean_once_def Let_def retention_days_def split: option.splits)

end
