(* ===== verification/Routes.thy ===== *)
theory Routes
  imports Accounts
begin

text \<open>
  The table of routes, \<^verbatim>\<open>host/internal/api/routes.go\<close>, with the middlewares a request passes before its handler, and the handlers of
  \<^verbatim>\<open>host/internal/api/auth.go\<close> and \<^verbatim>\<open>version.go\<close> that start a login, end a session and show who is asking. A handler is its name; the
  router itself, which picks the row for a method and a path, is not modelled.
\<close>

section \<open>The table\<close>

datatype middleware = OptionalAuthMW | AuthRequiredMW | SuperadminRequiredMW

record api_route =
  ro_method :: string
  ro_path :: string
  ro_chain :: "middleware list"
  ro_handler :: string

definition group :: "string \<Rightarrow> middleware list \<Rightarrow> (string \<times> string \<times> string) list \<Rightarrow> api_route list" where
  "group base chain rows = map (\<lambda>(meth, path, h). \<lparr>ro_method = meth, ro_path = base @ path, ro_chain = chain, ro_handler = h\<rparr>) rows"

definition open_routes :: "api_route list" where
  "open_routes = group ''/api'' []
     [(''GET'', ''/version'', ''getVersion''), (''GET'', ''/agent/ws'', ''HandleWebSocket''),
      (''GET'', ''/setup/status'', ''getSetupStatus''), (''POST'', ''/setup/config'', ''saveSetupConfig''),
      (''GET'', ''/auth/github/login'', ''githubLogin''), (''GET'', ''/auth/github/callback'', ''githubCallback''),
      (''GET'', ''/auth/google/login'', ''googleLogin''), (''GET'', ''/auth/google/callback'', ''googleCallback''),
      (''GET'', ''/auth/oidc/login'', ''oidcLogin''), (''GET'', ''/auth/oidc/callback'', ''oidcCallback'')] @
     group ''/api'' [OptionalAuthMW] [(''GET'', ''/auth/me'', ''getCurrentUser'')] @
     group ''/api'' [] [(''POST'', ''/auth/logout'', ''logout'')]"

definition public_routes :: "api_route list" where
  "public_routes = group ''/api/public'' [OptionalAuthMW]
     [(''GET'', ''/summary'', ''getPublicSummary''), (''GET'', ''/agents'', ''getPublicAgents''), (''GET'', ''/targets'', ''getPublicTargets''),
      (''GET'', ''/matrix'', ''getPublicMatrix''), (''GET'', ''/metrics'', ''getPublicMetrics''),
      (''GET'', ''/traceroute'', ''getPublicTraceroute''), (''GET'', ''/traceroutes'', ''getPublicTraceroutes''),
      (''GET'', ''/traceroute/:id'', ''getPublicTracerouteByID'')]"

definition admin_routes :: "api_route list" where
  "admin_routes = group ''/api/admin'' [AuthRequiredMW]
     [(''GET'', ''/targets'', ''adminListTargets''), (''POST'', ''/targets'', ''adminCreateTarget''),
      (''PUT'', ''/targets/:id'', ''adminUpdateTarget''), (''DELETE'', ''/targets/:id'', ''adminDeleteTarget''),
      (''GET'', ''/agents'', ''adminListAgents''), (''POST'', ''/agents'', ''adminCreateAgent''),
      (''POST'', ''/agents/update-check'', ''adminAllAgentsUpdateCheck''), (''POST'', ''/agents/crash-update'', ''adminAllAgentsCrashUpdate''),
      (''POST'', ''/agents/:id/rotate-token'', ''adminRotateAgentToken''), (''POST'', ''/agents/:id/update-check'', ''adminAgentUpdateCheck''),
      (''POST'', ''/agents/:id/crash-update'', ''adminAgentCrashUpdate''), (''PUT'', ''/agents/:id'', ''adminUpdateAgent''),
      (''DELETE'', ''/agents/:id'', ''adminDeleteAgent''), (''GET'', ''/features'', ''adminListFeatures''),
      (''POST'', ''/proxy/sessions'', ''adminCreateProxySession''), (''GET'', ''/proxy/sessions'', ''adminListProxySessions''),
      (''DELETE'', ''/proxy/sessions/:id'', ''adminRevokeProxySession''), (''GET'', ''/whitelist'', ''adminListWhitelist''),
      (''POST'', ''/whitelist'', ''adminCreateWhitelist''), (''DELETE'', ''/whitelist/:id'', ''adminDeleteWhitelist'')] @
     group ''/api/admin/settings'' [AuthRequiredMW, SuperadminRequiredMW]
     [(''GET'', [], ''adminGetSettings''), (''POST'', [], ''adminSaveSettings'')]"

definition RegisterRoutes :: "api_route list" where
  "RegisterRoutes = open_routes @ public_routes @ admin_routes"

section \<open>From a request to its handler\<close>

text \<open>What the middlewares share: the JWT library, the environment, random bytes, the time and the request.\<close>

record asking =
  as_jwt :: jwt_lib
  as_env :: "string \<Rightarrow> string"
  as_rand :: string
  as_now :: nanosec
  as_req :: http_request

definition asker :: "asking \<Rightarrow> Accounts \<Rightarrow> User option \<times> Accounts" where
  "asker q a = extractUser (as_jwt q) (as_env q) (as_rand q) (as_now q) (as_req q) a"

text \<open>The middlewares in order: the first refusal ends the request, otherwise the handler runs with the user found.\<close>

fun run_chain :: "asking \<Rightarrow> middleware list \<Rightarrow> User option \<times> Accounts \<Rightarrow> (reply + User option) \<times> Accounts" where
  "run_chain q [] (ctx, a) = (Inr ctx, a)"
| "run_chain q (mw # mws) (ctx, a) =
     (let (u, a1) = asker q a
      in case mw of
           OptionalAuthMW \<Rightarrow> run_chain q mws (case OptionalAuth u of None \<Rightarrow> ctx | Some x \<Rightarrow> Some x, a1)
         | AuthRequiredMW \<Rightarrow> (case AuthRequired u of Inl r \<Rightarrow> (Inl r, a1) | Inr x \<Rightarrow> run_chain q mws (Some x, a1))
         | SuperadminRequiredMW \<Rightarrow> (case SuperadminRequired u of Inl r \<Rightarrow> (Inl r, a1) | Inr x \<Rightarrow> run_chain q mws (Some x, a1)))"

definition admit :: "asking \<Rightarrow> api_route \<Rightarrow> Accounts \<Rightarrow> (reply + User option) \<times> Accounts" where
  "admit q r a = run_chain q (ro_chain r) (None, a)"

section \<open>Simple handlers\<close>

definition getVersion :: "string \<Rightarrow> (string \<times> string) list" where
  "getVersion version = [(''version'', version)]"

text \<open>\<open>auth_url\<close> is the OAuth library's \<^verbatim>\<open>AuthCodeURL\<close>.\<close>

definition start_login :: "string \<Rightarrow> (OAuthConfig \<Rightarrow> string \<Rightarrow> string) \<Rightarrow> OAuthConfig option \<Rightarrow> asking \<Rightarrow> Accounts \<Rightarrow> reply \<times> cookie list" where
  "start_login err auth_url cfg q a =
     (case cfg of
        None \<Rightarrow> (Redirect (''/setup?error='' @ err), [])
      | Some x \<Rightarrow> (let (state, ck) = GenerateOAuthState (as_env q) (as_rand q) (as_req q) a in (Redirect (auth_url x state), [ck])))"

definition githubLogin :: "string \<times> string \<Rightarrow> (OAuthConfig \<Rightarrow> string \<Rightarrow> string) \<Rightarrow> asking \<Rightarrow> Accounts \<Rightarrow> reply \<times> cookie list" where
  "githubLogin endpoint auth_url q a = start_login ''oauth_not_configured'' auth_url (GetOAuthConfig endpoint (as_env q) a) q a"

definition googleLogin :: "string \<times> string \<Rightarrow> (OAuthConfig \<Rightarrow> string \<Rightarrow> string) \<Rightarrow> asking \<Rightarrow> Accounts \<Rightarrow> reply \<times> cookie list" where
  "googleLogin endpoint auth_url q a = start_login ''google_oauth_not_configured'' auth_url (GetGoogleOAuthConfig endpoint (as_env q) a) q a"

definition oidcLogin :: "(OAuthConfig \<Rightarrow> string \<Rightarrow> string) \<Rightarrow> asking \<Rightarrow> Accounts \<Rightarrow> reply \<times> cookie list" where
  "oidcLogin auth_url q a = start_login ''oidc_not_configured'' auth_url (GetGenericOAuthConfig (as_env q) a) q a"

record current_user =
  cu_id :: int
  cu_provider :: string
  cu_username :: string
  cu_email :: string
  cu_avatar_url :: string
  cu_role :: string

definition getCurrentUser :: "User option \<Rightarrow> current_user option" where
  "getCurrentUser ctx = map_option (\<lambda>u. \<lparr>cu_id = us_ID u, cu_provider = us_Provider u, cu_username = us_Username u, cu_email = us_Email u,
     cu_avatar_url = us_AvatarURL u, cu_role = us_Role u\<rparr>) ctx"

definition logout :: "asking \<Rightarrow> Accounts \<Rightarrow> reply \<times> cookie list" where
  "logout q a = (Reply 200 ''Logged out successfully'', [ClearSessionCookie (as_env q) (as_req q) a])"

section \<open>Properties\<close>

definition admin_handler :: "string \<Rightarrow> bool" where
  "admin_handler h \<longleftrightarrow> HasPrefix h ''admin''"

definition settings_handler :: "string \<Rightarrow> bool" where
  "settings_handler h \<longleftrightarrow> h = ''adminGetSettings'' \<or> h = ''adminSaveSettings''"

lemma chains:
  "list_all (\<lambda>r. admin_handler (ro_handler r) \<longrightarrow>
     ro_chain r = (if settings_handler (ro_handler r) then [AuthRequiredMW, SuperadminRequiredMW] else [AuthRequiredMW])) RegisterRoutes"
  "list_all (\<lambda>r. admin_handler (ro_handler r) \<or> (\<forall>mw\<in>set (ro_chain r). mw = OptionalAuthMW)) RegisterRoutes"
  by code_simp+

text \<open>A token identifies a user: the user is stored, and a token with an HMAC header that the JWT library accepts names it.\<close>

definition identified :: "asking \<Rightarrow> Accounts \<Rightarrow> User \<Rightarrow> bool" where
  "identified q a u \<longleftrightarrow> u \<in> set (users a) \<and> auth_token (as_req q) \<noteq> [] \<and> jwt_hmac (as_jwt q) (auth_token (as_req q)) = Some True \<and>
     (case jwt_check (as_jwt q) (fst (GetJWTSecret (as_env q) (as_rand q) a)) (as_now q) (auth_token (as_req q)) of
        None \<Rightarrow> False | Some cl \<Rightarrow> cl_UserID cl = us_ID u)"

lemma GetJWTSecret_again: "GetJWTSecret env rand a = (k, a1) \<Longrightarrow> fst (GetJWTSecret env rand a1) = k \<and> users a1 = users a"
  by (auto simp: GetJWTSecret_def GetSetting_def SetSetting_def split: if_splits)

lemma asker_identified:
  assumes "asker q a = (ou, a1)"
  shows "users a1 = users a" and "identified q a1 x = identified q a x" and "ou = Some u \<Longrightarrow> identified q a u"
proof -
  have u: "users a1 = users a \<and> fst (GetJWTSecret (as_env q) (as_rand q) a1) = fst (GetJWTSecret (as_env q) (as_rand q) a)"
    using assms GetJWTSecret_again [of "as_env q" "as_rand q" a]
    by (auto simp: asker_def extractUser_def ParseToken_def split: if_splits option.splits bool.splits prod.splits)
  then show "users a1 = users a" "identified q a1 x = identified q a x" by (simp_all add: identified_def)
  show "identified q a u" if o: "ou = Some u"
  proof -
    obtain k b where s: "GetJWTSecret (as_env q) (as_rand q) a = (k, b)" by fastforce
    then have ub: "users b = users a" using GetJWTSecret_again by blast
    obtain cl where "auth_token (as_req q) \<noteq> []" "jwt_hmac (as_jwt q) (auth_token (as_req q)) = Some True"
      and "jwt_check (as_jwt q) k (as_now q) (auth_token (as_req q)) = Some cl" and f: "find_user (cl_UserID cl) b = Some u"
      using assms o s by (auto simp: asker_def extractUser_def ParseToken_def split: if_splits option.splits bool.splits prod.splits)
    moreover have "us_ID u = cl_UserID cl \<and> u \<in> set (users a)" using f ub unfolding find_user_def using find_SomeD by fastforce
    ultimately show ?thesis by (simp add: identified_def s)
  qed
qed

text \<open>
  C8: the administration handlers are behind a session and nothing else is: of all routes, a handler of the administration API runs only for a
  request with a token that the JWT library accepts for the Host's secret and that names a stored user, whom it is handed; the two settings
  handlers only when that user, as stored now, is a superadmin. Every other route admits every request.
\<close>

theorem admin_needs_session:
  assumes "r \<in> set RegisterRoutes"
  shows "if admin_handler (ro_handler r)
    then (case admit q r a of
       (Inr ctx, a') \<Rightarrow> (\<exists>u. ctx = Some u \<and> identified q a u \<and> (settings_handler (ro_handler r) \<longrightarrow> us_Role u = ''superadmin''))
     | (Inl e, a') \<Rightarrow> e = Reply 401 ''Unauthorized'' \<or> settings_handler (ro_handler r) \<and> e = Reply 403 ''Superadmin permission required'')
    else \<not> isl (fst (admit q r a))"
proof (cases "admin_handler (ro_handler r)")
  case True
  obtain u a1 where 1: "asker q a = (u, a1)" by fastforce
  obtain u' a2 where 2: "asker q a1 = (u', a2)" by fastforce
  note i = asker_identified [OF 1] asker_identified [OF 2]
  have "ro_chain r = (if settings_handler (ro_handler r) then [AuthRequiredMW, SuperadminRequiredMW] else [AuthRequiredMW])"
    using chains(1) assms True unfolding list_all_iff by blast
  then show ?thesis using True i
    by (cases "settings_handler (ro_handler r)"; cases u; cases u')
      (simp_all add: admit_def 1 2 AuthRequired_def SuperadminRequired_def)
next
  case False
  have "\<not> isl (fst (run_chain q mws (ctx, b)))" if "\<forall>mw\<in>set mws. mw = OptionalAuthMW" for mws ctx b
    using that by (induction mws arbitrary: ctx b) (auto simp: split: prod.split)
  moreover have "\<forall>mw\<in>set (ro_chain r). mw = OptionalAuthMW" using chains(2) assms False unfolding list_all_iff by blast
  ultimately show ?thesis using False by (simp add: admit_def)
qed

text \<open>A login comes back: the state in the redirect is the cookie's value, and a callback that carries both is accepted.\<close>

lemma login_state_returns:
  assumes "start_login err auth_url (Some x) q a = (r, cks)" and "as_rand q \<noteq> []"
  obtains st where "r = Redirect (auth_url x st)" and "cks = [SetCookie OAuthStateCookie st 600 ''/api/auth'' (isHTTPSRequest (as_env q) (as_req q) a)]"
    and "\<And>env c b. rq_Cookie c OAuthStateCookie = Some st \<Longrightarrow> fst (ValidateOAuthState env c b st)"
proof (rule that)
  let ?st = "hex_encode (as_rand q)"
  show "r = Redirect (auth_url x ?st)" "cks = [SetCookie OAuthStateCookie ?st 600 ''/api/auth'' (isHTTPSRequest (as_env q) (as_req q) a)]"
    using assms(1) by (auto simp: start_login_def GenerateOAuthState_def)
  have "length ?st \<noteq> 0" using assms(2) by simp
  then have "?st \<noteq> []" by fastforce
  then show "fst (ValidateOAuthState env c b ?st)" if "rq_Cookie c OAuthStateCookie = Some ?st" for env c b
    by (simp add: ValidateOAuthState_def that)
qed

definition demo_asking :: asking where
  "demo_asking = \<lparr>as_jwt = \<lparr>jwt_sign = (\<lambda>_ _. None), jwt_hmac = (\<lambda>_. Some True),
     jwt_check = (\<lambda>_ _ _. Some \<lparr>cl_UserID = 7, cl_GitHubID = 0, cl_Username = [], cl_Email = [], cl_Role = [], cl_ExpiresAt = 0, cl_IssuedAt = 0\<rparr>)\<rparr>,
     as_env = (\<lambda>_. []), as_rand = ''r'', as_now = 0,
     as_req = \<lparr>rq_Host = [], rq_TLS = False, rq_Header = (\<lambda>_. []), rq_Cookie = (\<lambda>_. Some ''tok'')\<rparr>\<rparr>"

definition demo_admins :: Accounts where
  "demo_admins = \<lparr>settings = [(''jwt_secret'', ''k'')], whitelist = [],
     users = [\<lparr>us_ID = 7, us_Provider = [], us_ProviderID = [], us_GitHubID = 0, us_Username = ''ann'', us_Email = [], us_AvatarURL = [],
       us_Role = ''admin'', us_LastLoginAt = 0\<rparr>]\<rparr>"

theorem admin_needs_session_witness:
  "fst (admit demo_asking (last RegisterRoutes) demo_admins) = Inl (Reply 403 ''Superadmin permission required'') \<and>
   (\<exists>u. fst (admit demo_asking (hd admin_routes) demo_admins) = Inr (Some u) \<and> identified demo_asking demo_admins u)"
proof -
  have "last RegisterRoutes \<in> set RegisterRoutes" "hd admin_routes \<in> set RegisterRoutes"
    by (simp_all add: RegisterRoutes_def admin_routes_def group_def)
  note t = this [THEN admin_needs_session, of demo_asking demo_admins]
  have h: "settings_handler (ro_handler (last RegisterRoutes))" "admin_handler (ro_handler (last RegisterRoutes))"
    "admin_handler (ro_handler (hd admin_routes))" by code_simp+
  have a: "fst (admit demo_asking (last RegisterRoutes) demo_admins) = Inl (Reply 403 ''Superadmin permission required'')"
    "\<not> isl (fst (admit demo_asking (hd admin_routes) demo_admins))" by code_simp+
  then show ?thesis using t(2) h(3) by (auto simp: isl_def split: prod.splits sum.splits)
qed

end
