(* ===== verification/Pinger.thy ===== *)
theory Pinger
  imports Protocol
begin

text \<open>
  The probe's pinger, \<^verbatim>\<open>agent/internal/pinger/pinger.go\<close> and \<^verbatim>\<open>single.go\<close>: sliding windows of samples per
  target and the statistics over them, in \<^verbatim>\<open>float64\<close> arithmetic operation by operation (without fused
  multiply-add). Name resolution and the ICMP library are outside: what they return is an argument.
\<close>

section \<open>Samples and windows\<close>

record SinglePingStat =
  sps_Timestamp :: "int option"
  sps_Success :: bool
  sps_RTT :: float64
  sps_ErrorMsg :: string

record TargetWindow =
  history :: "SinglePingStat list"
  maxKeep :: int

text \<open>
  \<^verbatim>\<open>make([]SinglePingStat, 0, maxKeep)\<close> panics when the 56-byte elements would exceed the address space of
  the runtime (\<open>2^48\<close> bytes on 64-bit Linux); the panic is \<open>None\<close>.
\<close>

definition maxAlloc :: int where "maxAlloc = 2 ^ 48"
definition statSize :: int where "statSize = 56"

definition NewTargetWindow :: "int \<Rightarrow> TargetWindow option" where
  "NewTargetWindow n =
     (let keep = (if n \<le> 0 then 20 else n) in
      if statSize * keep > maxAlloc then None else Some \<lparr>history = [], maxKeep = keep\<rparr>)"

definition Window_Add :: "SinglePingStat \<Rightarrow> TargetWindow \<Rightarrow> TargetWindow" where
  "Window_Add stat w =
     (let hist = history w @ [stat]
      in w\<lparr>history := (if int (length hist) > maxKeep w then drop (length hist - nat (maxKeep w)) hist else hist)\<rparr>)"

section \<open>Statistics\<close>

text \<open>\<^verbatim>\<open>round\<close>: to two decimals.\<close>

definition round2 :: "float64 \<Rightarrow> float64" where
  "round2 val = rnd (math_Round (rnd (val * 100)) / 100)"

fun jitter_loop :: "float64 \<Rightarrow> float64 \<Rightarrow> float64 list \<Rightarrow> float64" where
  "jitter_loop jitter prev [] = jitter"
| "jitter_loop jitter prev (r # rs) =
     (let d = \<bar>rnd (r - prev)\<bar> in jitter_loop (rnd (jitter + rnd (rnd (d - jitter) / 16))) r rs)"

definition calculateRFC3550Jitter :: "float64 list \<Rightarrow> float64" where
  "calculateRFC3550Jitter rtts =
     (case rtts of
        [] \<Rightarrow> 0
      | [r] \<Rightarrow> 0
      | r # s # rest \<Rightarrow> round2 (jitter_loop 0 r (s # rest)))"

record WindowSummary =
  TotalSent :: int
  TotalRecv :: int
  sum_LossPct :: float64
  sum_MinRTT :: float64
  sum_MaxRTT :: float64
  sum_AvgRTT :: float64
  sum_Jitter :: float64
  sum_StdDev :: float64
  LatestRTT :: float64
  LatestError :: string

definition zeroSummary :: WindowSummary where
  "zeroSummary = \<lparr>TotalSent = 0, TotalRecv = 0, sum_LossPct = 0, sum_MinRTT = 0, sum_MaxRTT = 0, sum_AvgRTT = 0,
     sum_Jitter = 0, sum_StdDev = 0, LatestRTT = 0, LatestError = ''''\<rparr>"

definition MaxFloat64 :: float64 where
  "MaxFloat64 = (2 ^ 53 - 1) * 2 ^ 971"

record scan =
  recv :: int
  rtts :: "float64 list"
  sumRTT :: float64
  minRTT :: float64
  maxRTT :: float64
  lastErr :: string

definition scan_sample :: "scan \<Rightarrow> SinglePingStat \<Rightarrow> scan" where
  "scan_sample a s =
     (if sps_Success s then
        a\<lparr>recv := recv a + 1, rtts := rtts a @ [sps_RTT s], sumRTT := rnd (sumRTT a + sps_RTT s),
          minRTT := (if sps_RTT s < minRTT a then sps_RTT s else minRTT a),
          maxRTT := (if sps_RTT s > maxRTT a then sps_RTT s else maxRTT a)\<rparr>
      else if sps_ErrorMsg s \<noteq> '''' then a\<lparr>lastErr := sps_ErrorMsg s\<rparr>
      else a)"

definition scan_history :: "SinglePingStat list \<Rightarrow> scan" where
  "scan_history hist = foldl scan_sample
     \<lparr>recv = 0, rtts = [], sumRTT = 0, minRTT = MaxFloat64, maxRTT = 0, lastErr = ''''\<rparr> hist"

fun variance_sum :: "float64 \<Rightarrow> float64 \<Rightarrow> float64 list \<Rightarrow> float64" where
  "variance_sum avg acc [] = acc"
| "variance_sum avg acc (r # rs) = (let d = rnd (r - avg) in variance_sum avg (rnd (acc + rnd (d * d))) rs)"

definition Summary :: "TargetWindow \<Rightarrow> WindowSummary" where
  "Summary w =
     (let total = int (length (history w)) in
      if total = 0 then zeroSummary
      else let a = scan_history (history w);
               lossPct = rnd (rnd (of_int (total - recv a) / of_int total) * 100);
               s = zeroSummary\<lparr>TotalSent := total, TotalRecv := recv a, sum_LossPct := round2 lossPct, LatestError := lastErr a\<rparr>
           in if recv a > 0 then
                (let avg = rnd (sumRTT a / of_int (recv a)) in
                 s\<lparr>sum_MinRTT := round2 (minRTT a), sum_MaxRTT := round2 (maxRTT a), sum_AvgRTT := round2 avg,
                   LatestRTT := round2 (last (rtts a)),
                   sum_StdDev := round2 (math_Sqrt (rnd (variance_sum avg 0 (rtts a) / of_int (recv a)))),
                   sum_Jitter := calculateRFC3550Jitter (rtts a)\<rparr>)
              else s\<lparr>sum_LossPct := 100,
                     LatestError := (if lastErr a = '''' then ''All packets timed out'' else lastErr a)\<rparr>)"

section \<open>One ping\<close>

text \<open>What the resolver and the ICMP library do: addresses or an error, errors of the pinger, the round
  trip time in microseconds \<^verbatim>\<open>OnRecv\<close> saw last, and the final statistics (packets, average).\<close>

record ping_env =
  lookup_host :: "string + string list"
  new_err :: "string option"
  run_err :: "string option"
  on_recv :: "int option"
  ping_stats :: "(int \<times> int) option"

definition failed_stat :: "string \<Rightarrow> SinglePingStat" where
  "failed_stat msg = \<lparr>sps_Timestamp = None, sps_Success = False, sps_RTT = 0, sps_ErrorMsg = msg\<rparr>"

definition micros_ms :: "int \<Rightarrow> float64" where
  "micros_ms us = rnd (rnd (of_int us) / 1000)"

definition pingOnce :: "ping_env \<Rightarrow> SinglePingStat \<times> string option" where
  "pingOnce env =
     (case lookup_host env of
        Inl e \<Rightarrow> (failed_stat e, Some e)
      | Inr [] \<Rightarrow> (failed_stat ''host resolution failed'', Some ''host resolution failed'')
      | Inr (_ # _) \<Rightarrow>
          (case new_err env of
             Some e \<Rightarrow> (failed_stat e, Some e)
           | None \<Rightarrow>
               (case run_err env of
                  Some e \<Rightarrow> (failed_stat e, Some e)
                | None \<Rightarrow>
                    (case (on_recv env, ping_stats env) of
                       (Some us, _) \<Rightarrow> ((failed_stat '''')\<lparr>sps_Success := True, sps_RTT := micros_ms us\<rparr>, None)
                     | (None, Some (n, avg)) \<Rightarrow>
                         if n > 0 then ((failed_stat '''')\<lparr>sps_Success := True, sps_RTT := (if avg > 0 then micros_ms avg else 0)\<rparr>, None)
                         else (failed_stat ''Packet timed out'', None)
                     | (None, None) \<Rightarrow> (failed_stat ''Packet timed out'', None)))))"

record Pinger =
  targets :: "TargetConfig list"
  isPrivileged :: bool
  windows :: "(string, TargetWindow) gomap"

definition NewPinger :: "bool \<Rightarrow> Pinger" where
  "NewPinger is_windows = \<lparr>targets = [], isPrivileged = is_windows, windows = []\<rparr>"

text \<open>The new window is allocated before it is known whether one is stored already.\<close>

definition GetOrCreateWindow :: "string \<Rightarrow> int \<Rightarrow> Pinger \<Rightarrow> (Pinger \<times> TargetWindow) option" where
  "GetOrCreateWindow targetID windowSize p =
     (case NewTargetWindow (if windowSize \<le> 0 then 20 else windowSize) of
        None \<Rightarrow> None
      | Some fresh \<Rightarrow>
          (case mget (windows p) targetID of
             Some w \<Rightarrow> Some (p, w)
           | None \<Rightarrow> Some (p\<lparr>windows := mput targetID fresh (windows p)\<rparr>, fresh)))"

definition SetPrivileged :: "bool \<Rightarrow> Pinger \<Rightarrow> Pinger" where
  "SetPrivileged priv p = p\<lparr>isPrivileged := priv\<rparr>"

definition UpdateTargets :: "TargetConfig list \<Rightarrow> Pinger \<Rightarrow> Pinger" where
  "UpdateTargets ts p = p\<lparr>targets := ts\<rparr>"

definition GetTargets :: "Pinger \<Rightarrow> TargetConfig list" where
  "GetTargets p = targets p"

text \<open>\<open>env\<close> is for the first attempt, \<open>env2\<close> for the privileged retry.\<close>

definition ExecuteSinglePing :: "bool \<Rightarrow> int \<Rightarrow> ping_env \<Rightarrow> ping_env \<Rightarrow> Pinger \<Rightarrow> Pinger \<times> SinglePingStat" where
  "ExecuteSinglePing linux now env env2 p =
     (let (stat, err) = pingOnce env;
          (p1, stat1, err1) =
            (if err \<noteq> None \<and> linux \<and> \<not> isPrivileged p then
               (let (stat2, err2) = pingOnce env2 in
                if err2 = None \<or> sps_Success stat2 then (SetPrivileged True p, stat2, err2) else (p, stat2, err))
             else (p, stat, err));
          stat3 = (case err1 of None \<Rightarrow> stat1 | Some e \<Rightarrow> stat1\<lparr>sps_ErrorMsg := e\<rparr>)
      in (p1, stat3\<lparr>sps_Timestamp := Some now\<rparr>))"

definition ping_result :: "TargetConfig \<Rightarrow> SinglePingStat \<Rightarrow> WindowSummary \<Rightarrow> SinglePingResult" where
  "ping_result t stat summary =
     \<lparr>TargetID = tc_ID t, TargetHost = tc_Host t, Timestamp = sps_Timestamp stat, PacketsSent = 1,
      PacketsRecv = (if sps_Success stat then 1 else 0), LossPct = sum_LossPct summary, MinRTT = sum_MinRTT summary,
      MaxRTT = sum_MaxRTT summary, AvgRTT = (if sps_Success stat then sps_RTT stat else 0), Jitter = sum_Jitter summary,
      StdDev = sum_StdDev summary,
      ErrorMsg = (if sps_Success stat then '''' else if sps_ErrorMsg stat = '''' then ''Packet timed out'' else sps_ErrorMsg stat)\<rparr>"

definition PingTargetOnce ::
  "bool \<Rightarrow> int \<Rightarrow> ping_env \<Rightarrow> ping_env \<Rightarrow> TargetConfig \<Rightarrow> Pinger \<Rightarrow> (Pinger \<times> SinglePingResult) option" where
  "PingTargetOnce linux now env env2 t p =
     (case GetOrCreateWindow (tc_ID t) (if tc_PacketCount t \<le> 0 then 20 else tc_PacketCount t) p of
        None \<Rightarrow> None
      | Some (p1, win) \<Rightarrow>
          let (p2, stat) = ExecuteSinglePing linux now env env2 p1;
              win1 = Window_Add stat win
          in Some (p2\<lparr>windows := mput (tc_ID t) win1 (windows p2)\<rparr>, ping_result t stat (Summary win1)))"


section \<open>What the statistics are\<close>

lemma round2_nonneg: "0 \<le> x \<Longrightarrow> 0 \<le> round2 x"
  by (simp add: round2_def rnd_nonneg math_Round_nonneg)

lemma round2_mono: "x \<le> y \<Longrightarrow> round2 x \<le> round2 y"
  unfolding round2_def by (intro rnd_mono divide_right_mono math_Round_mono mult_right_mono) simp_all

lemma round2_100: "round2 100 = 100"
proof -
  have "rnd (10000 :: rat) = 10000" using rnd_numeral by simp
  moreover have "math_Round 10000 = (10000 :: rat)" using math_Round_of_int [of 10000] by simp
  moreover have "rnd (100 :: rat) = 100" using rnd_numeral by simp
  ultimately show ?thesis by (simp add: round2_def)
qed

lemma round2_0 [simp]: "round2 0 = 0"
  using math_Round_of_int [of 0] by (simp add: round2_def)

lemma round2_float: "rnd (round2 x) = round2 x"
  by (simp add: round2_def)

text \<open>A step of the jitter estimate lies between the estimate and the new difference.\<close>

lemma jitter_step:
  assumes "rnd j = j" and "rnd d = d"
  shows "min j d \<le> rnd (j + rnd (rnd (d - j) / 16)) \<and> rnd (j + rnd (rnd (d - j) / 16)) \<le> max j d"
proof -
  have up: "rnd (rnd y / 16) \<le> y" if "0 \<le> y" for y
  proof -
    have "rnd (rnd y / 16) \<le> 2 * (rnd y / 16)" using that rnd_nonneg by (intro rnd_le_double) simp
    also have "\<dots> \<le> 2 * (2 * y / 16)" using rnd_le_double [OF that] by simp
    also have "\<dots> \<le> y" using that by simp
    finally show ?thesis .
  qed
  have nn: "0 \<le> rnd (rnd y / 16)" if "0 \<le> y" for y using that by (intro rnd_nonneg) (simp add: rnd_nonneg)
  show ?thesis
  proof (cases "j \<le> d")
    case True
    have "rnd (j + rnd (rnd (d - j) / 16)) \<le> rnd d" using up [of "d - j"] True by (intro rnd_mono) simp
    moreover have "rnd j \<le> rnd (j + rnd (rnd (d - j) / 16))" using nn [of "d - j"] True by (intro rnd_mono) simp
    ultimately show ?thesis using True assms by simp
  next
    case False
    have e: "rnd (rnd (d - j) / 16) = - rnd (rnd (j - d) / 16)"
      using rnd_minus [of "j - d"] rnd_minus [of "rnd (j - d) / 16"] by simp
    have "rnd (j + rnd (rnd (d - j) / 16)) \<le> rnd j" unfolding e using nn [of "j - d"] False by (intro rnd_mono) simp
    moreover have "rnd d \<le> rnd (j + rnd (rnd (d - j) / 16))" unfolding e using up [of "j - d"] False by (intro rnd_mono) simp
    ultimately show ?thesis using False assms by simp
  qed
qed

lemma abs_rnd_float: "rnd \<bar>rnd x\<bar> = \<bar>rnd x\<bar>"
  using rnd_minus [of "rnd x"] by (cases "0 \<le> rnd x") simp_all

lemma jitter_loop_bounds:
  assumes "rnd j = j" and "0 \<le> j" and "j \<le> D" and "list_all (\<lambda>(a, b). \<bar>rnd (b - a)\<bar> \<le> D) (zip (prev # rs) rs)"
  shows "0 \<le> jitter_loop j prev rs \<and> jitter_loop j prev rs \<le> D"
  using assms
proof (induction j prev rs rule: jitter_loop.induct)
  case (2 j prev r rs)
  let ?d = "\<bar>rnd (r - prev)\<bar>" and ?j = "rnd (j + rnd (rnd (\<bar>rnd (r - prev)\<bar> - j) / 16))"
  have d: "0 \<le> ?d" "?d \<le> D" using 2(5) by auto
  have "0 \<le> ?j" "?j \<le> D" using jitter_step [OF 2(2) abs_rnd_float, of "r - prev"] 2(3,4) d by linarith+
  moreover have "list_all (\<lambda>(a, b). \<bar>rnd (b - a)\<bar> \<le> D) (zip (r # rs) rs)" using 2(5) by (cases rs) auto
  ultimately have "0 \<le> jitter_loop ?j r rs \<and> jitter_loop ?j r rs \<le> D" by (intro 2(1)) simp_all
  then show ?case by (simp add: Let_def)
qed simp

lemma jitter_nonneg: "0 \<le> calculateRFC3550Jitter rs"
proof -
  have "0 \<le> jitter_loop j prev xs" if "rnd j = j" "0 \<le> j" for j prev xs
    using that
  proof (induction j prev xs rule: jitter_loop.induct)
    case (2 j prev r rs)
    have "0 \<le> rnd (j + rnd (rnd (\<bar>rnd (r - prev)\<bar> - j) / 16))"
      using jitter_step [OF 2(2) abs_rnd_float, of "r - prev"] 2(3) by linarith
    then have "0 \<le> jitter_loop (rnd (j + rnd (rnd (\<bar>rnd (r - prev)\<bar> - j) / 16))) r rs" by (intro 2(1)) simp_all
    then show ?case by (simp add: Let_def)
  qed simp
  from this [of 0] show ?thesis
    by (auto simp: calculateRFC3550Jitter_def simp del: jitter_loop.simps intro!: round2_nonneg split: list.splits)
qed

lemma variance_sum_nonneg: "0 \<le> acc \<Longrightarrow> 0 \<le> variance_sum avg acc rs"
  by (induction rs arbitrary: acc) (simp_all add: Let_def rnd_nonneg)


lemma scan_snoc: "scan_history (hist @ [s]) = scan_sample (scan_history hist) s"
  by (simp add: scan_history_def)

definition samples_ok :: "SinglePingStat list \<Rightarrow> bool" where
  "samples_ok hist \<longleftrightarrow> list_all (\<lambda>s. 0 \<le> sps_RTT s \<and> sps_RTT s \<le> MaxFloat64) (filter sps_Success hist)"

lemma scan_history_counts:
  "recv (scan_history hist) = int (length (filter sps_Success hist)) \<and>
   rtts (scan_history hist) = map sps_RTT (filter sps_Success hist)"
  by (induction hist rule: rev_induct) (auto simp: scan_snoc scan_sample_def, simp_all add: scan_history_def)

lemma scan_history_minmax:
  "samples_ok hist \<Longrightarrow> 0 \<le> minRTT (scan_history hist) \<and> 0 \<le> maxRTT (scan_history hist) \<and>
     (filter sps_Success hist \<noteq> [] \<longrightarrow> minRTT (scan_history hist) \<le> maxRTT (scan_history hist)) \<and>
     minRTT (scan_history hist) \<le> MaxFloat64"
proof (induction hist rule: rev_induct)
  case Nil
  show ?case by (simp add: scan_history_def MaxFloat64_def)
next
  case (snoc s hist)
  have ok: "samples_ok hist" and s: "sps_Success s \<Longrightarrow> 0 \<le> sps_RTT s \<and> sps_RTT s \<le> MaxFloat64"
    using snoc.prems by (auto simp: samples_ok_def)
  show ?case
  proof (cases "sps_Success s")
    case False
    then show ?thesis using snoc.IH [OF ok] by (simp add: scan_snoc scan_sample_def)
  next
    case True
    have "sps_RTT s \<le> maxRTT (scan_sample (scan_history hist) s)" "minRTT (scan_sample (scan_history hist) s) \<le> sps_RTT s"
      using True by (auto simp: scan_sample_def)
    moreover have "0 \<le> minRTT (scan_sample (scan_history hist) s)" "0 \<le> maxRTT (scan_sample (scan_history hist) s)"
      "minRTT (scan_sample (scan_history hist) s) \<le> MaxFloat64"
      using True snoc.IH [OF ok] s [OF True] by (auto simp: scan_sample_def)
    ultimately show ?thesis by (auto simp: scan_snoc)
  qed
qed

lemma loss_bounds:
  assumes "0 \<le> k" and "k \<le> n" and "0 < n"
  shows "0 \<le> round2 (rnd (rnd (of_int k / of_int n) * 100)) \<and> round2 (rnd (rnd (of_int k / of_int n) * 100)) \<le> 100"
proof -
  have "(of_int k :: rat) / of_int n \<le> 1" using assms by (simp add: divide_le_eq)
  then have "rnd (of_int k / of_int n) * 100 \<le> 1 * 100" using rnd_mono [of "of_int k / of_int n" 1] by simp
  then have "rnd (rnd (of_int k / of_int n) * 100) \<le> rnd 100" using rnd_mono by fastforce
  then have "round2 (rnd (rnd (of_int k / of_int n) * 100)) \<le> round2 100" using rnd_numeral [of "num.Bit0 _"] by (intro round2_mono) simp
  moreover have "0 \<le> round2 (rnd (rnd (of_int k / of_int n) * 100))"
    using assms by (intro round2_nonneg rnd_nonneg mult_nonneg_nonneg) simp_all
  ultimately show ?thesis by (simp add: round2_100)
qed


section \<open>Properties\<close>

lemma Window_Add_keep_last: "0 < maxKeep w \<Longrightarrow> Window_Add s w = w\<lparr>history := keep_last (nat (maxKeep w)) (history w @ [s])\<rparr>"
  by (auto simp: Window_Add_def keep_last_def Let_def)

lemma Window_Add_maxKeep [simp]: "maxKeep (Window_Add s w) = maxKeep w"
  by (simp add: Window_Add_def Let_def)

lemma adds_keep_last:
  "0 < maxKeep w \<Longrightarrow> history w = keep_last (nat (maxKeep w)) (history w) \<Longrightarrow>
     history (foldl (\<lambda>w s. Window_Add s w) w xs) = keep_last (nat (maxKeep w)) (history w @ xs)"
proof (induction xs arbitrary: w)
  case Nil
  then show ?case by simp
next
  case (Cons x xs)
  have "history (Window_Add x w) = keep_last (nat (maxKeep w)) (history w @ [x])"
    using Cons.prems(1) by (simp add: Window_Add_keep_last)
  then show ?case
    using Cons.IH [of "Window_Add x w"] Cons.prems(1) keep_last_append [of "nat (maxKeep w)" "history w @ [x]"]
    by (simp add: keep_last_append [of _ _ "[]", simplified])
qed

text \<open>
  a window holds exactly the newest samples, in order, and never more than its size; a size that is
  zero or negative means twenty.
\<close>

theorem window_holds_newest:
  assumes "NewTargetWindow n = Some w"
  shows "history (foldl (\<lambda>w s. Window_Add s w) w xs) = keep_last (nat (if n \<le> 0 then 20 else n)) xs"
  using assms adds_keep_last [of w xs]
  by (auto simp: NewTargetWindow_def Let_def keep_last_def split: if_splits)

theorem window_holds_newest_witness:
  "NewTargetWindow 2 = Some \<lparr>history = [], maxKeep = 2\<rparr> \<and>
   map sps_ErrorMsg (history (foldl (\<lambda>w s. Window_Add s w) \<lparr>history = [], maxKeep = 2\<rparr>
     (map failed_stat [''a'', ''b'', ''c'']))) = [''b'', ''c'']"
proof -
  have n: "NewTargetWindow 2 = Some \<lparr>history = [], maxKeep = 2\<rparr>"
    by (simp add: NewTargetWindow_def statSize_def maxAlloc_def)
  show ?thesis
    using n window_holds_newest [OF n, of "map failed_stat [''a'', ''b'', ''c'']"]
    by (simp add: keep_last_def failed_stat_def)
qed

text \<open>
  C27: the summary of a non-empty window is sane in float arithmetic: it counts every sample and every
  reply once, the loss is between 0 and 100 percent and is 100 when nothing came back, the minimum is
  not above the maximum, jitter and deviation are not negative, and with fewer than two replies the jitter is zero.
\<close>

theorem summary_bounds:
  assumes "history w \<noteq> []" and "samples_ok (history w)"
  shows "TotalSent (Summary w) = int (length (history w)) \<and>
    TotalRecv (Summary w) = int (length (filter sps_Success (history w))) \<and>
    0 \<le> sum_LossPct (Summary w) \<and> sum_LossPct (Summary w) \<le> 100 \<and>
    (filter sps_Success (history w) = [] \<longrightarrow> sum_LossPct (Summary w) = 100) \<and>
    0 \<le> sum_MinRTT (Summary w) \<and> sum_MinRTT (Summary w) \<le> sum_MaxRTT (Summary w) \<and>
    0 \<le> sum_StdDev (Summary w) \<and> 0 \<le> sum_Jitter (Summary w) \<and>
    (length (filter sps_Success (history w)) < 2 \<longrightarrow> sum_Jitter (Summary w) = 0)"
proof (cases "filter sps_Success (history w) = []")
  case True
  then have "recv (scan_history (history w)) = 0" using scan_history_counts [of "history w"] by simp
  then show ?thesis using assms(1) True by (simp add: Summary_def zeroSummary_def Let_def)
next
  case False
  let ?a = "scan_history (history w)"
  have r: "recv ?a = int (length (filter sps_Success (history w)))" using scan_history_counts by blast
  have pos: "0 < recv ?a" unfolding r using False by (cases "filter sps_Success (history w)") simp_all
  have "recv ?a \<le> int (length (history w))" unfolding r by simp
  then have l: "0 \<le> round2 (rnd (rnd (of_int (int (length (history w)) - recv ?a) / of_int (int (length (history w)))) * 100)) \<and>
      round2 (rnd (rnd (of_int (int (length (history w)) - recv ?a) / of_int (int (length (history w)))) * 100)) \<le> 100"
    using pos assms(1) by (intro loss_bounds) simp_all
  have m: "round2 (minRTT ?a) \<le> round2 (maxRTT ?a)" "0 \<le> round2 (minRTT ?a)"
    using scan_history_minmax [OF assms(2)] False by (auto intro: round2_mono round2_nonneg)
  have s: "Summary w = zeroSummary\<lparr>TotalSent := int (length (history w)), TotalRecv := recv ?a,
      sum_LossPct := round2 (rnd (rnd (of_int (int (length (history w)) - recv ?a) / of_int (int (length (history w)))) * 100)),
      LatestError := lastErr ?a, sum_MinRTT := round2 (minRTT ?a), sum_MaxRTT := round2 (maxRTT ?a),
      sum_AvgRTT := round2 (rnd (sumRTT ?a / of_int (recv ?a))), LatestRTT := round2 (last (rtts ?a)),
      sum_StdDev := round2 (math_Sqrt (rnd (variance_sum (rnd (sumRTT ?a / of_int (recv ?a))) 0 (rtts ?a) / of_int (recv ?a)))),
      sum_Jitter := calculateRFC3550Jitter (rtts ?a)\<rparr>"
    using pos assms(1) by (simp add: Summary_def Let_def)
  have j: "calculateRFC3550Jitter (rtts ?a) = 0" if "length (filter sps_Success (history w)) < 2"
    using that scan_history_counts [of "history w"]
    by (cases "rtts ?a") (auto simp: calculateRFC3550Jitter_def split: list.splits)
  show ?thesis
    unfolding s using l m False r j by (simp add: round2_nonneg math_Sqrt_nonneg jitter_nonneg)
qed

definition demo_samples :: "SinglePingStat list" where
  "demo_samples = [failed_stat ''x'', (failed_stat '''')\<lparr>sps_Success := True, sps_RTT := 12\<rparr>,
     (failed_stat '''')\<lparr>sps_Success := True, sps_RTT := 10\<rparr>]"

theorem summary_bounds_witness:
  "TotalRecv (Summary \<lparr>history = demo_samples, maxKeep = 20\<rparr>) = 2 \<and>
   sum_MinRTT (Summary \<lparr>history = demo_samples, maxKeep = 20\<rparr>) \<le> sum_MaxRTT (Summary \<lparr>history = demo_samples, maxKeep = 20\<rparr>)"
proof -
  have "samples_ok demo_samples" by (simp add: samples_ok_def demo_samples_def failed_stat_def MaxFloat64_def)
  moreover have "filter sps_Success demo_samples = tl demo_samples" by (simp add: demo_samples_def failed_stat_def)
  ultimately show ?thesis
    using summary_bounds [of "\<lparr>history = demo_samples, maxKeep = 20\<rparr>"] by (simp add: demo_samples_def)
qed

text \<open>
  the jitter estimate never leaves the range of the differences it averages: it is not negative and
  at most the largest step between neighbouring samples, rounded to two decimals like the estimate itself.
\<close>

theorem jitter_bounded:
  assumes "list_all (\<lambda>(a, b). \<bar>rnd (b - a)\<bar> \<le> D) (zip rs (tl rs))" and "0 \<le> D"
  shows "0 \<le> calculateRFC3550Jitter rs \<and> calculateRFC3550Jitter rs \<le> round2 D"
proof (cases "length rs < 2")
  case True
  then have "calculateRFC3550Jitter rs = 0"
    by (auto simp: calculateRFC3550Jitter_def split: list.splits)
  then show ?thesis using round2_nonneg [OF assms(2)] by simp
next
  case False
  then obtain r s rest where rs: "rs = r # s # rest" by (metis One_nat_def Suc_1 length_Cons less_Suc_eq_0_disj list.exhaust list.size(3) not_less_eq)
  have "0 \<le> jitter_loop 0 r (s # rest) \<and> jitter_loop 0 r (s # rest) \<le> D"
    using assms by (intro jitter_loop_bounds) (auto simp: rs)
  then show ?thesis by (auto simp: rs calculateRFC3550Jitter_def simp del: jitter_loop.simps intro: round2_nonneg round2_mono)
qed

theorem jitter_bounded_witness: "calculateRFC3550Jitter [10, 13, 11] \<le> round2 3"
proof -
  have "rnd 3 = 3" "rnd (- 2) = - 2" using rnd_of_int [of 3] rnd_of_int [of "-2"] by simp_all
  then show ?thesis using jitter_bounded [of 3 "[10, 13, 11]"] by simp
qed

text \<open>
  one ping yields one result, for the target asked, with one packet sent; it reports an error text
  exactly when no reply came, and the round trip time of this very ping; other targets' windows are
  untouched. A packet count above the allocation limit panics, no matter whether the window exists.
\<close>

theorem ping_once_result:
  "case PingTargetOnce linux now env env2 t p of
     None \<Rightarrow> statSize * tc_PacketCount t > maxAlloc
   | Some (p', r) \<Rightarrow> TargetID r = tc_ID t \<and> PacketsSent r = 1 \<and> PacketsRecv r \<in> {0, 1} \<and>
       (PacketsRecv r = 0 \<longleftrightarrow> ErrorMsg r \<noteq> '''') \<and> Timestamp r = Some now \<and> statSize * tc_PacketCount t \<le> maxAlloc \<and>
       mget (windows p') = (mget (windows p))(tc_ID t := mget (windows p') (tc_ID t))"
proof (cases "statSize * tc_PacketCount t > maxAlloc")
  case True
  then show ?thesis
    by (auto simp: PingTargetOnce_def GetOrCreateWindow_def NewTargetWindow_def statSize_def maxAlloc_def)
next
  case False
  then have "NewTargetWindow (if tc_PacketCount t \<le> 0 then 20 else tc_PacketCount t) \<noteq> None"
    by (simp add: NewTargetWindow_def statSize_def maxAlloc_def Let_def)
  then obtain w where w: "NewTargetWindow (if tc_PacketCount t \<le> 0 then 20 else tc_PacketCount t) = Some w" by blast
  have e: "windows (fst (ExecuteSinglePing linux now env env2 q)) = windows q"
    "sps_Timestamp (snd (ExecuteSinglePing linux now env env2 q)) = Some now" for q
    by (auto simp: ExecuteSinglePing_def SetPrivileged_def Let_def split: prod.splits option.splits)
  obtain p1 win where g: "GetOrCreateWindow (tc_ID t) (if tc_PacketCount t \<le> 0 then 20 else tc_PacketCount t) p = Some (p1, win)"
      "\<And>i. i \<noteq> tc_ID t \<Longrightarrow> mget (windows p1) i = mget (windows p) i"
    using w by (cases "mget (windows p) (tc_ID t)") (auto simp: GetOrCreateWindow_def split: if_splits)
  obtain p2 st where x: "ExecuteSinglePing linux now env env2 p1 = (p2, st)" by fastforce
  then have "windows p2 = windows p1" "sps_Timestamp st = Some now" using e [of p1] by auto
  then show ?thesis using g(2) False unfolding PingTargetOnce_def g(1) by (auto simp: x ping_result_def Let_def)
qed

text \<open>
  the size of a window is fixed by the first configuration of its target: a later sync with another
  packet count keeps the old size.
\<close>

theorem window_size_sticks:
  assumes "mget (windows p) (tc_ID t) = Some w" and "0 < tc_PacketCount t" and "statSize * tc_PacketCount t \<le> maxAlloc"
  shows "map_option (maxKeep \<circ> snd) (GetOrCreateWindow (tc_ID t) (tc_PacketCount t) p) = Some (maxKeep w)"
  using assms by (simp add: GetOrCreateWindow_def NewTargetWindow_def)

theorem window_size_sticks_witness:
  "map_option (maxKeep \<circ> snd) (GetOrCreateWindow ''t'' 50
     ((NewPinger False)\<lparr>windows := [(''t'', \<lparr>history = [], maxKeep = 10\<rparr>)]\<rparr>)) = Some 10"
  using window_size_sticks [of "(NewPinger False)\<lparr>windows := [(''t'', \<lparr>history = [], maxKeep = 10\<rparr>)]\<rparr>"
      "\<lparr>tc_ID = ''t'', tc_Name = '''', tc_Host = '''', tc_PacketCount = 50, tc_IntervalSec = 30, tc_DisableRoute = False\<rparr>"]
  by (simp add: mget_def statSize_def maxAlloc_def)

end
