(* ===== verification/Detector.thy ===== *)
theory Detector
  imports Float64
begin

text \<open>
  The latency shift detector, \<^verbatim>\<open>agent/internal/traceroute/detector.go\<close>, in \<^verbatim>\<open>float64\<close> arithmetic operation by
  operation, and what makes it raise an alarm.
\<close>

record LatencyShiftDetector =
  det_history :: "float64 list"
  maxHistory :: nat
  baseline :: float64
  shiftSamples :: "float64 list"
  requiredStreak :: nat

definition NewLatencyShiftDetector :: "int \<Rightarrow> LatencyShiftDetector" where
  "NewLatencyShiftDetector streak =
     \<lparr>det_history = [], maxHistory = 30, baseline = 0, shiftSamples = [],
      requiredStreak = (if streak \<le> 0 then 30 else nat streak)\<rparr>"

definition calcMedian :: "float64 list \<Rightarrow> float64" where
  "calcMedian vals =
     (if vals = [] then 0
      else let copied = sort vals; mid = length copied div 2
           in if length copied mod 2 = 1 then copied ! mid
              else rnd (rnd (copied ! (mid - 1) + copied ! mid) / 2))"

definition calcMAD :: "float64 list \<Rightarrow> float64 \<Rightarrow> float64" where
  "calcMAD vals center = (if vals = [] then 0 else calcMedian (map (\<lambda>v. \<bar>rnd (v - center)\<bar>) vals))"

definition addHistory :: "float64 \<Rightarrow> LatencyShiftDetector \<Rightarrow> LatencyShiftDetector" where
  "addHistory val d = d\<lparr>det_history := keep_last (maxHistory d) (det_history d @ [val])\<rparr>"

text \<open>The decimal constants of the source are the nearest \<^verbatim>\<open>float64\<close> values.\<close>

definition isCandidateShift :: "float64 list \<Rightarrow> float64 \<Rightarrow> bool" where
  "isCandidateShift hist rtt \<longleftrightarrow>
     (let baseMedian = calcMedian hist;
          baseJitter = calcMAD hist baseMedian;
          diff = \<bar>rnd (rtt - baseMedian)\<bar>;
          minDiffRequired = max 40 (rnd (baseJitter * 3))
      in diff \<ge> minDiffRequired \<or>
         (diff \<ge> 25 \<and> baseMedian > 0 \<and> rnd (diff / baseMedian) \<ge> rnd (45 / 100) \<and> diff \<ge> rnd (baseJitter * (5 / 2))))"

definition Feed :: "float64 \<Rightarrow> LatencyShiftDetector \<Rightarrow> LatencyShiftDetector \<times> bool" where
  "Feed rtt d =
     (if rtt \<le> 0 then (d, False)
      else if length (det_history d) < 8 then
        (d\<lparr>det_history := det_history d @ [rtt], baseline := calcMedian (det_history d @ [rtt])\<rparr>, False)
      else let baseMedian = calcMedian (det_history d); d1 = d\<lparr>baseline := baseMedian\<rparr> in
        if \<not> isCandidateShift (det_history d) rtt then (addHistory rtt (d1\<lparr>shiftSamples := []\<rparr>), False)
        else let d2 = d1\<lparr>shiftSamples := shiftSamples d1 @ [rtt]\<rparr> in
          if length (shiftSamples d2) < requiredStreak d then (d2, False)
          else let newMedian = calcMedian (shiftSamples d2);
                   newMAD = calcMAD (shiftSamples d2) newMedian;
                   shiftDist = \<bar>rnd (newMedian - baseMedian)\<bar>
               in if shiftDist < 30 \<and> (baseMedian = 0 \<or> rnd (shiftDist / baseMedian) < rnd (40 / 100))
                  then (d2\<lparr>shiftSamples := []\<rparr>, False)
                  else if \<not> (newMAD \<le> 25 \<or> (newMedian > 0 \<and> rnd (newMAD / newMedian) \<le> 1 / 4))
                  then (d2\<lparr>shiftSamples := tl (shiftSamples d2)\<rparr>, False)
                  else (d2\<lparr>det_history := shiftSamples d2, baseline := newMedian, shiftSamples := []\<rparr>, True))"

fun feed_all :: "float64 list \<Rightarrow> LatencyShiftDetector \<Rightarrow> LatencyShiftDetector \<times> bool list" where
  "feed_all [] d = (d, [])"
| "feed_all (x # xs) d = (let (d1, b) = Feed x d; (d2, bs) = feed_all xs d1 in (d2, b # bs))"

section \<open>Invariant\<close>

text \<open>
  The history is bounded by the larger of its limit and the streak (an alarm replaces it by the streak),
  holds positive times, and fewer shifted samples are pending than an alarm needs.
\<close>

definition det_inv :: "LatencyShiftDetector \<Rightarrow> bool" where
  "det_inv d \<longleftrightarrow> 0 < requiredStreak d \<and> 8 \<le> maxHistory d \<and>
     length (det_history d) \<le> max (maxHistory d) (requiredStreak d) \<and>
     list_all (\<lambda>x. 0 < x) (det_history d) \<and> list_all (\<lambda>x. 0 < x) (shiftSamples d) \<and>
     length (shiftSamples d) < requiredStreak d"

lemma det_inv_New: "det_inv (NewLatencyShiftDetector n)"
  by (simp add: det_inv_def NewLatencyShiftDetector_def)

lemma list_all_keep_last: "list_all P xs \<Longrightarrow> list_all P (keep_last n xs)"
  using set_keep_last [of n xs] by (auto simp: list_all_iff)

text \<open>The six ways a sample can go.\<close>

lemma Feed_cases:
  obtains (ignored) "rtt \<le> 0" "Feed rtt d = (d, False)"
  | (warm_up) "0 < rtt" "length (det_history d) < 8"
      "Feed rtt d = (d\<lparr>det_history := det_history d @ [rtt], baseline := calcMedian (det_history d @ [rtt])\<rparr>, False)"
  | (normal) "0 < rtt" "8 \<le> length (det_history d)" "\<not> isCandidateShift (det_history d) rtt"
      "Feed rtt d = (d\<lparr>baseline := calcMedian (det_history d), shiftSamples := [],
         det_history := keep_last (maxHistory d) (det_history d @ [rtt])\<rparr>, False)"
  | (collecting) "0 < rtt" "8 \<le> length (det_history d)" "isCandidateShift (det_history d) rtt"
      "Suc (length (shiftSamples d)) < requiredStreak d"
      "Feed rtt d = (d\<lparr>baseline := calcMedian (det_history d), shiftSamples := shiftSamples d @ [rtt]\<rparr>, False)"
  | (rejected) q where "0 < rtt" "8 \<le> length (det_history d)" "isCandidateShift (det_history d) rtt"
      "q = [] \<or> q = tl (shiftSamples d @ [rtt])"
      "Feed rtt d = (d\<lparr>baseline := calcMedian (det_history d), shiftSamples := q\<rparr>, False)"
  | (alarm) "0 < rtt" "8 \<le> length (det_history d)" "isCandidateShift (det_history d) rtt"
      "requiredStreak d \<le> Suc (length (shiftSamples d))"
      "Feed rtt d = (d\<lparr>det_history := shiftSamples d @ [rtt], baseline := calcMedian (shiftSamples d @ [rtt]), shiftSamples := []\<rparr>, True)"
proof -
  consider "rtt \<le> 0" | "0 < rtt" "length (det_history d) < 8"
    | "0 < rtt" "8 \<le> length (det_history d)" "\<not> isCandidateShift (det_history d) rtt"
    | "0 < rtt" "8 \<le> length (det_history d)" "isCandidateShift (det_history d) rtt" by linarith
  then show thesis
  proof cases
    case 4
    show thesis
    proof (cases "Suc (length (shiftSamples d)) < requiredStreak d")
      case True
      then show ?thesis using 4 by (intro collecting) (simp_all add: Feed_def Let_def)
    next
      case False
      let ?s = "shiftSamples d @ [rtt]" and ?b = "calcMedian (det_history d)"
      let ?near = "\<bar>rnd (calcMedian ?s - ?b)\<bar> < 30 \<and> (?b = 0 \<or> rnd (\<bar>rnd (calcMedian ?s - ?b)\<bar> / ?b) < rnd (40 / 100))"
      let ?stable = "calcMAD ?s (calcMedian ?s) \<le> 25 \<or> (calcMedian ?s > 0 \<and> rnd (calcMAD ?s (calcMedian ?s) / calcMedian ?s) \<le> 1 / 4)"
      have "Feed rtt d = (if ?near then (d\<lparr>baseline := ?b, shiftSamples := []\<rparr>, False)
          else if \<not> ?stable then (d\<lparr>baseline := ?b, shiftSamples := tl ?s\<rparr>, False)
          else (d\<lparr>det_history := ?s, baseline := calcMedian ?s, shiftSamples := []\<rparr>, True))"
        unfolding Feed_def Let_def using 4 False by (cases d) (simp; blast)
      then consider "Feed rtt d = (d\<lparr>baseline := ?b, shiftSamples := []\<rparr>, False)"
        | "Feed rtt d = (d\<lparr>baseline := ?b, shiftSamples := tl ?s\<rparr>, False)"
        | "Feed rtt d = (d\<lparr>det_history := ?s, baseline := calcMedian ?s, shiftSamples := []\<rparr>, True)"
        by presburger
      then show ?thesis
      proof cases
        case 1
        show ?thesis by (rule rejected [OF 4 _ 1]) simp
      next
        case 2
        show ?thesis by (rule rejected [OF 4 _ 2]) simp
      next
        case 3
        show ?thesis by (rule alarm [OF 4 _ 3]) (use False in simp)
      qed
    qed
  qed (auto simp: Feed_def Let_def addHistory_def intro: ignored warm_up normal)
qed

lemma Feed_inv: "det_inv d \<Longrightarrow> det_inv (fst (Feed rtt d))"
proof (cases rtt d rule: Feed_cases)
  case (rejected q)
  assume i: "det_inv d"
  have "length q < requiredStreak d" "list_all (\<lambda>x. 0 < x) q"
    using i rejected(1,4) by (cases "shiftSamples d"; auto simp: det_inv_def)+
  then show ?thesis using i by (simp add: rejected det_inv_def)
qed (auto simp: det_inv_def list_all_keep_last)

lemma Feed_static: "requiredStreak (fst (Feed rtt d)) = requiredStreak d \<and> maxHistory (fst (Feed rtt d)) = maxHistory d"
  by (cases rtt d rule: Feed_cases) simp_all

text \<open>A sample adds at most one pending shifted sample; an alarm needs the full streak of them.\<close>

lemma Feed_pending:
  "length (shiftSamples (fst (Feed rtt d))) \<le> Suc (length (shiftSamples d)) \<and>
   (snd (Feed rtt d) \<longrightarrow> requiredStreak d \<le> Suc (length (shiftSamples d)) \<and> shiftSamples (fst (Feed rtt d)) = [] \<and>
      det_history (fst (Feed rtt d)) = shiftSamples d @ [rtt] \<and> 8 \<le> length (det_history d))"
  by (cases rtt d rule: Feed_cases) auto


section \<open>Medians\<close>

lemma sort_bounds: "list_all (\<lambda>x. lo \<le> x \<and> x \<le> hi) xs \<Longrightarrow> i < length xs \<Longrightarrow> lo \<le> sort xs ! i \<and> sort xs ! i \<le> hi"
  using nth_mem [of i "sort xs"] by (simp add: list_all_iff)

lemma calcMedian_bounds:
  assumes "list_all (\<lambda>x. lo \<le> x \<and> x \<le> hi) xs" and "xs \<noteq> []" and "rnd lo = lo" and "rnd hi = hi"
  shows "lo \<le> calcMedian xs \<and> calcMedian xs \<le> hi"
proof (cases "length xs mod 2 = 1")
  case True
  have "length xs div 2 < length xs" using assms(2) by (cases xs) simp_all
  from sort_bounds [OF assms(1) this] show ?thesis using True assms(2) by (simp add: calcMedian_def Let_def)
next
  case False
  let ?a = "sort xs ! (length xs div 2 - 1)" and ?b = "sort xs ! (length xs div 2)"
  have len: "length xs div 2 < length xs" using assms(2) by (cases xs) simp_all
  have ab: "lo \<le> ?a \<and> ?a \<le> hi" "lo \<le> ?b \<and> ?b \<le> hi"
    using len by (auto intro!: sort_bounds [OF assms(1)])
  have "rnd (2 * lo) \<le> rnd (?a + ?b)" "rnd (?a + ?b) \<le> rnd (2 * hi)" using ab by (auto intro: rnd_mono)
  then have "2 * lo \<le> rnd (?a + ?b)" "rnd (?a + ?b) \<le> 2 * hi" using rnd_double assms(3,4) by simp_all
  then have "rnd lo \<le> rnd (rnd (?a + ?b) / 2)" "rnd (rnd (?a + ?b) / 2) \<le> rnd hi" by (auto intro: rnd_mono)
  then show ?thesis using False assms by (simp add: calcMedian_def Let_def)
qed

lemma calcMedian_const: "rnd b = b \<Longrightarrow> 0 < n \<Longrightarrow> calcMedian (replicate n b) = b"
  using calcMedian_bounds [of b b "replicate n b"] by (simp add: list_all_iff)

lemma calcMAD_const: "0 < n \<Longrightarrow> calcMAD (replicate n b) b = 0"
  using calcMedian_const [of 0 n] by (simp add: calcMAD_def)

section \<open>Properties\<close>


lemma feed_all_Cons:
  "snd (feed_all (x # xs) d) = snd (Feed x d) # snd (feed_all xs (fst (Feed x d)))"
  "fst (feed_all (x # xs) d) = fst (feed_all xs (fst (Feed x d)))"
  by (simp_all add: Let_def split: prod.splits)

declare feed_all.simps(2) [simp del]
declare feed_all_Cons [simp]

lemma feed_all_inv: "det_inv d \<Longrightarrow> det_inv (fst (feed_all xs d))"
  by (induction xs arbitrary: d) (simp_all add: Feed_inv)

lemma feed_all_length [simp]: "length (snd (feed_all xs d)) = length xs"
  by (induction xs arbitrary: d) simp_all

lemma alarm_index:
  "snd (feed_all xs d) ! i \<Longrightarrow> i < length xs \<Longrightarrow> requiredStreak d \<le> length (shiftSamples d) + i + 1"
proof (induction xs arbitrary: d i)
  case (Cons x xs)
  show ?case
  proof (cases i)
    case 0
    then show ?thesis using Cons.prems Feed_pending [of x d] by simp
  next
    case (Suc k)
    then have "requiredStreak (fst (Feed x d)) \<le> length (shiftSamples (fst (Feed x d))) + k + 1"
      using Cons.prems by (intro Cons.IH) simp_all
    then show ?thesis using Suc Feed_pending [of x d] Feed_static [of x d] by linarith
  qed
qed simp

lemma alarm_spacing:
  "snd (feed_all xs d) ! i \<Longrightarrow> snd (feed_all xs d) ! j \<Longrightarrow> i < j \<Longrightarrow> j < length xs \<Longrightarrow> requiredStreak d \<le> j - i"
proof (induction xs arbitrary: d i j)
  case (Cons x xs)
  obtain j' where j: "j = Suc j'" using Cons.prems(3) by (cases j) simp_all
  show ?case
  proof (cases i)
    case 0
    then have "shiftSamples (fst (Feed x d)) = []" using Cons.prems(1) Feed_pending [of x d] by simp
    moreover have "requiredStreak (fst (Feed x d)) \<le> length (shiftSamples (fst (Feed x d))) + j' + 1"
      using Cons.prems j by (intro alarm_index [of xs]) simp_all
    ultimately show ?thesis using 0 j Feed_static [of x d] by simp
  next
    case (Suc k)
    then have "requiredStreak (fst (Feed x d)) \<le> j' - k" using Cons.prems j by (intro Cons.IH) simp_all
    then show ?thesis using Suc j Feed_static [of x d] by simp
  qed
qed simp

lemma alarm_warm_up:
  "shiftSamples d = [] \<Longrightarrow> snd (feed_all xs d) ! i \<Longrightarrow> i < length xs \<Longrightarrow>
     8 - length (det_history d) + requiredStreak d \<le> i + 1"
proof (induction xs arbitrary: d i)
  case (Cons x xs)
  show ?case
  proof (cases "8 \<le> length (det_history d)")
    case True
    then show ?thesis using alarm_index [of "x # xs" d i] Cons.prems by simp
  next
    case False
    have f: "shiftSamples (fst (Feed x d)) = []" "length (det_history (fst (Feed x d))) \<le> Suc (length (det_history d))" "\<not> snd (Feed x d)"
      using False Cons.prems(1) by (auto simp: Feed_def)
    obtain k where k: "i = Suc k" using Cons.prems(2) f(3) by (cases i) simp_all
    have "8 - length (det_history (fst (Feed x d))) + requiredStreak (fst (Feed x d)) \<le> k + 1"
      using Cons.prems f k by (intro Cons.IH) simp_all
    then show ?thesis using False f(2) k Feed_static [of x d] by linarith
  qed
qed simp

text \<open>
  a new detector raises no alarm before eight warm-up samples and a full streak of shifted ones, and
  any two alarms are at least a streak apart, whatever the samples are.
\<close>

theorem alarms_need_streak:
  assumes "0 < n" and "snd (feed_all xs (NewLatencyShiftDetector (int n))) ! i" and "i < length xs"
  shows "8 + n \<le> i + 1 \<and>
    (\<forall>j. i < j \<and> j < length xs \<and> snd (feed_all xs (NewLatencyShiftDetector (int n))) ! j \<longrightarrow> n \<le> j - i)"
  using alarm_warm_up [of "NewLatencyShiftDetector (int n)" xs i] alarm_spacing [of xs "NewLatencyShiftDetector (int n)" i] assms
  by (auto simp: NewLatencyShiftDetector_def)


text \<open>A streak of constant samples far from a constant history.\<close>

lemma clean_step:
  assumes "rnd b = b" and "rnd v = v" and "0 < v" and "40 \<le> \<bar>rnd (v - b)\<bar>"
    and "det_history d = replicate m b" and "8 \<le> m" and "shiftSamples d = replicate k v" and "k < requiredStreak d"
  shows "snd (Feed v d) \<longleftrightarrow> Suc k = requiredStreak d"
    and "Suc k < requiredStreak d \<Longrightarrow> Feed v d = (d\<lparr>baseline := b, shiftSamples := replicate (Suc k) v\<rparr>, False)"
proof -
  have med: "calcMedian (det_history d) = b" "calcMAD (det_history d) b = 0"
    using assms(1,5,6) calcMedian_const [of b m] calcMAD_const [of m b] by simp_all
  have cand: "isCandidateShift (det_history d) v"
    using assms(4) by (simp add: isCandidateShift_def Let_def med)
  have app: "replicate k v @ [v] = replicate (Suc k) v" by (simp add: replicate_append_same)
  have new: "calcMedian (shiftSamples d @ [v]) = v" "calcMAD (shiftSamples d @ [v]) v = 0"
    unfolding assms(7) app using assms(2) by (simp_all only: calcMedian_const calcMAD_const zero_less_Suc)
  have len: "8 \<le> length (det_history d)" and len2: "length (shiftSamples d) = k" using assms(5-7) by simp_all
  show "snd (Feed v d) \<longleftrightarrow> Suc k = requiredStreak d"
    using assms(3,4,8) len len2 by (auto simp: Feed_def cand new med Let_def)
  show "Suc k < requiredStreak d \<Longrightarrow> Feed v d = (d\<lparr>baseline := b, shiftSamples := replicate (Suc k) v\<rparr>, False)"
    using assms(3,7) len by (simp add: Feed_def cand med Let_def app del: replicate.simps)
qed

lemma clean_run:
  assumes "rnd b = b" and "rnd v = v" and "0 < v" and "40 \<le> \<bar>rnd (v - b)\<bar>" and "8 \<le> m"
  shows "det_history d = replicate m b \<Longrightarrow> shiftSamples d = replicate k v \<Longrightarrow> k + Suc l = requiredStreak d \<Longrightarrow>
    snd (feed_all (replicate (Suc l) v) d) = replicate l False @ [True]"
proof (induction l arbitrary: d k)
  case 0
  then show ?case using clean_step(1) [OF assms(1-4) 0(1) assms(5) 0(2)] by simp
next
  case (Suc l)
  let ?d = "d\<lparr>baseline := b, shiftSamples := replicate (Suc k) v\<rparr>"
  have f: "Feed v d = (?d, False)"
    using clean_step(2) [OF assms(1-4) Suc.prems(1) assms(5) Suc.prems(2)] Suc.prems(3) by simp
  have "snd (feed_all (replicate (Suc l) v) ?d) = replicate l False @ [True]"
    using Suc.prems by (intro Suc.IH [of ?d "Suc k"]) simp_all
  then show ?case using f by simp
qed

text \<open>
  C28: a clean route change is found: after a constant latency, exactly the last sample of a streak of a
  new constant latency at least 40 ms away raises the alarm.
\<close>

theorem clean_shift_detected:
  assumes "rnd b = b" and "rnd v = v" and "0 < v" and "40 \<le> \<bar>rnd (v - b)\<bar>"
    and "det_inv d" and "det_history d = replicate m b" and "8 \<le> m" and "shiftSamples d = []"
  shows "snd (feed_all (replicate (requiredStreak d) v) d) = replicate (requiredStreak d - 1) False @ [True]"
proof -
  obtain l where l: "requiredStreak d = Suc l" using assms(5) by (cases "requiredStreak d") (simp_all add: det_inv_def)
  show ?thesis using clean_run [OF assms(1-4,7,6), of 0 l] assms(8) l by simp
qed

theorem clean_shift_detected_witness:
  "snd (feed_all (replicate 3 100) \<lparr>det_history = replicate 8 50, maxHistory = 30, baseline = 50, shiftSamples = [],
     requiredStreak = 3\<rparr>) = [False, False, True]"
proof -
  let ?d = "\<lparr>det_history = replicate 8 50, maxHistory = 30, baseline = 50, shiftSamples = [], requiredStreak = 3\<rparr> :: LatencyShiftDetector"
  have r: "rnd (50::rat) = 50" "rnd (100::rat) = 100" by (simp_all add: rnd_numeral)
  have i: "det_inv ?d" by (simp add: det_inv_def list_all_iff)
  show ?thesis
    using clean_shift_detected [of 50 100 ?d 8] r i by (simp add: numeral_eq_Suc del: feed_all_Cons)
qed

lemma band_step:
  assumes "rnd lo = lo" and "rnd hi = hi" and "hi - lo \<le> 24"
    and "list_all (\<lambda>x. lo \<le> x \<and> x \<le> hi) (det_history d)" and "shiftSamples d = []" and "lo \<le> x" and "x \<le> hi"
  shows "\<not> snd (Feed x d) \<and> shiftSamples (fst (Feed x d)) = [] \<and>
    list_all (\<lambda>x. lo \<le> x \<and> x \<le> hi) (det_history (fst (Feed x d)))"
proof -
  have no: "\<not> isCandidateShift (det_history d) x" if "8 \<le> length (det_history d)"
  proof -
    have "lo \<le> calcMedian (det_history d) \<and> calcMedian (det_history d) \<le> hi"
      using that by (intro calcMedian_bounds assms) auto
    then have "x - calcMedian (det_history d) \<le> 24" "- (x - calcMedian (det_history d)) \<le> 24" using assms(3,6,7) by linarith+
    then have "rnd (x - calcMedian (det_history d)) \<le> 24" "rnd (- (x - calcMedian (det_history d))) \<le> 24"
      by (auto intro!: rnd_le simp: rnd_numeral)
    then have "\<bar>rnd (x - calcMedian (det_history d))\<bar> \<le> 24" unfolding rnd_minus by linarith
    then show ?thesis by (auto simp: isCandidateShift_def Let_def)
  qed
  show ?thesis
    by (cases x d rule: Feed_cases) (use assms no in \<open>auto intro!: list_all_keep_last\<close>)
qed

text \<open>
  latency that stays within a band of 24 ms never raises an alarm, however it jumps about inside it.
\<close>

theorem band_never_alarms:
  assumes "rnd lo = lo" and "rnd hi = hi" and "hi - lo \<le> 24" and "list_all (\<lambda>x. lo \<le> x \<and> x \<le> hi) xs"
  shows "True \<notin> set (snd (feed_all xs (NewLatencyShiftDetector n)))"
proof -
  have "True \<notin> set (snd (feed_all xs d))"
    if "list_all (\<lambda>x. lo \<le> x \<and> x \<le> hi) (det_history d)" "shiftSamples d = []" for d
    using assms(4) that
  proof (induction xs arbitrary: d)
    case (Cons x xs)
    have s: "\<not> snd (Feed x d) \<and> shiftSamples (fst (Feed x d)) = [] \<and>
      list_all (\<lambda>x. lo \<le> x \<and> x \<le> hi) (det_history (fst (Feed x d)))"
      using Cons.prems by (intro band_step assms) simp_all
    then show ?case using Cons by auto
  qed simp
  then show ?thesis by (simp add: NewLatencyShiftDetector_def)
qed

theorem band_never_alarms_witness:
  "True \<notin> set (snd (feed_all [50, 70, 50, 70, 50, 70, 50, 70, 74, 50] (NewLatencyShiftDetector 1)))"
  by (rule band_never_alarms [of 50 74]) (simp_all add: rnd_numeral)


theorem alarms_need_streak_witness:
  "8 + 1 \<le> (8::nat) + 1 \<and> snd (feed_all (replicate 8 50 @ [100]) (NewLatencyShiftDetector (int 1))) ! 8"
proof -
  have "fst (feed_all (replicate 8 50) (NewLatencyShiftDetector 1)) =
      \<lparr>det_history = replicate 8 50, maxHistory = 30, baseline = 50, shiftSamples = [], requiredStreak = 1\<rparr>"
    by code_simp
  moreover have app: "snd (feed_all (xs @ ys) d) = snd (feed_all xs d) @ snd (feed_all ys (fst (feed_all xs d)))" for xs ys d
    by (induction xs arbitrary: d) simp_all
  moreover have "snd (Feed 100 \<lparr>det_history = replicate 8 50, maxHistory = 30, baseline = 50, shiftSamples = [], requiredStreak = 1\<rparr>)"
    by code_simp
  ultimately have "snd (feed_all (replicate 8 50 @ [100]) (NewLatencyShiftDetector (int 1))) ! 8"
    by (simp only: app feed_all_Cons int_ops of_nat_1) (simp add: nth_append)
  then show ?thesis using alarms_need_streak [of 1 "replicate 8 50 @ [100]" 8] by simp
qed

end
