(* ===== verification/Scheduler.thy ===== *)
theory Scheduler
  imports Pinger Detector "HOL-Library.Word"
begin

text \<open>
  The probe's scheduler, \<^verbatim>\<open>agent/cmd/agent/scheduler.go\<close>: one ping worker per target, the trigger queues, and
  the serial route traces with their cooldown. Workers are goroutines that outlive their entry in the
  \<^verbatim>\<open>running\<close> map, so they live in a heap; a worker is identified with its cancel function. Clock readings are
  arguments, in nanoseconds.
\<close>

section \<open>Workers\<close>

definition MinTraceCooldown :: int where "MinTraceCooldown = 30 * 60 * 1000000000"
definition shiftQueue :: nat where "shiftQueue = 64"

record worker =
  w_target :: TargetConfig
  w_cancelled :: bool

type_synonym worker_ptr = nat

record TargetScheduler =
  workers :: "worker list"
  stopped :: bool
  running :: "(string, worker_ptr) gomap"
  sch_targets :: "TargetConfig list"
  traceTrigger :: bool
  shiftTriggers :: "string list"
  lastTracedAt :: "(string, int) gomap"
  detectors :: "(string, LatencyShiftDetector) gomap"

definition NewTargetScheduler :: TargetScheduler where
  "NewTargetScheduler = \<lparr>workers = [], stopped = False, running = [], sch_targets = [], traceTrigger = False,
     shiftTriggers = [], lastTracedAt = [], detectors = []\<rparr>"

fun cancel_all :: "worker_ptr list \<Rightarrow> worker list \<Rightarrow> worker list" where
  "cancel_all [] ws = ws"
| "cancel_all (p # ps) ws = cancel_all ps (ws[p := (ws ! p)\<lparr>w_cancelled := True\<rparr>])"

fun ensure_detectors :: "TargetConfig list \<Rightarrow> (string, LatencyShiftDetector) gomap \<Rightarrow> (string, LatencyShiftDetector) gomap" where
  "ensure_detectors [] m = m"
| "ensure_detectors (t # ts) m =
     ensure_detectors ts (case mget m (tc_ID t) of None \<Rightarrow> mput (tc_ID t) (NewLatencyShiftDetector 30) m | Some _ \<Rightarrow> m)"

fun start_workers :: "TargetConfig list \<Rightarrow> TargetScheduler \<Rightarrow> TargetScheduler" where
  "start_workers [] s = s"
| "start_workers (t # ts) s =
     start_workers ts (s\<lparr>running := mput (tc_ID t) (length (workers s)) (running s),
       workers := workers s @ [\<lparr>w_target = t, w_cancelled = stopped s\<rparr>]\<rparr>)"

text \<open>A worker started after the scheduler has stopped gets a context that is done already.\<close>

definition SyncTargets :: "TargetConfig list \<Rightarrow> TargetScheduler \<Rightarrow> TargetScheduler" where
  "SyncTargets ts s =
     (start_workers ts (s\<lparr>workers := cancel_all (map snd (running s)) (workers s), running := [], sch_targets := ts,
        detectors := ensure_detectors ts (detectors s)\<rparr>))\<lparr>traceTrigger := True\<rparr>"

definition Stop :: "TargetScheduler \<Rightarrow> TargetScheduler" where
  "Stop s = s\<lparr>stopped := True, workers := map (\<lambda>w. w\<lparr>w_cancelled := True\<rparr>) (workers s), running := []\<rparr>"

text \<open>
  \<^verbatim>\<open>time.Duration(intervalSec) * time.Second\<close> is a 64-bit product; \<^verbatim>\<open>time.NewTicker\<close> panics on a
  duration that is not positive (\<open>None\<close>).
\<close>

definition ticker_interval :: "TargetConfig \<Rightarrow> 64 word" where
  "ticker_interval t =
     (let intervalSec = (if tc_IntervalSec t \<le> 0 then 30 else tc_IntervalSec t)
      in word_of_int intervalSec * 1000000000)"

definition NewTicker :: "64 word \<Rightarrow> int option" where
  "NewTicker d = (if sint d \<le> 0 then None else Some (sint d))"

definition checkLatencyShift :: "TargetConfig \<Rightarrow> SinglePingResult \<Rightarrow> TargetScheduler \<Rightarrow> TargetScheduler" where
  "checkLatencyShift t res s =
     (if tc_DisableRoute t \<or> AvgRTT res \<le> 0 then s
      else case mget (detectors s) (tc_ID t) of
        None \<Rightarrow> s
      | Some det \<Rightarrow>
          let (det1, hasShift) = Feed (AvgRTT res) det;
              s1 = s\<lparr>detectors := mput (tc_ID t) det1 (detectors s)\<rparr>
          in if hasShift \<and> length (shiftTriggers s1) < shiftQueue
             then s1\<lparr>shiftTriggers := shiftTriggers s1 @ [tc_ID t]\<rparr> else s1)"

section \<open>Route traces\<close>

text \<open>A trace: the target, and when it started and ended. \<open>start\<close> is also the clock of the cooldown test.\<close>

record trace =
  tr_target :: TargetConfig
  tr_start :: int
  tr_end :: int

definition cooling :: "int \<Rightarrow> string \<Rightarrow> TargetScheduler \<Rightarrow> bool" where
  "cooling now tid s = (case mget (lastTracedAt s) tid of None \<Rightarrow> False | Some l \<Rightarrow> now - l < MinTraceCooldown)"

definition executeSingleShiftTrace :: "int \<Rightarrow> int \<Rightarrow> string \<Rightarrow> TargetScheduler \<Rightarrow> TargetScheduler \<times> trace list" where
  "executeSingleShiftTrace start finish targetID s =
     (case find (\<lambda>t. tc_ID t = targetID) (sch_targets s) of
        None \<Rightarrow> (s, [])
      | Some t \<Rightarrow>
          if tc_DisableRoute t then (s, [])
          else if cooling start targetID s then (s, [])
          else (s\<lparr>lastTracedAt := mput targetID finish (lastTracedAt s)\<rparr>, [\<lparr>tr_target = t, tr_start = start, tr_end = finish\<rparr>]))"

text \<open>\<open>done i\<close> says whether the context is done before, \<open>quit i\<close> whether it is done in the pause after, the i-th target.\<close>

fun serial_traces ::
  "(nat \<Rightarrow> bool) \<Rightarrow> (nat \<Rightarrow> bool) \<Rightarrow> (nat \<Rightarrow> int \<times> int) \<Rightarrow> bool \<Rightarrow> nat \<Rightarrow> TargetConfig list \<Rightarrow> TargetScheduler \<Rightarrow>
   TargetScheduler \<times> trace list" where
  "serial_traces ctx_err quit clock force i [] s = (s, [])"
| "serial_traces ctx_err quit clock force i (t # ts) s =
     (if ctx_err i then (s, [])
      else if tc_DisableRoute t then serial_traces ctx_err quit clock force (Suc i) ts s
      else if \<not> force \<and> cooling (fst (clock i)) (tc_ID t) s then serial_traces ctx_err quit clock force (Suc i) ts s
      else let s1 = s\<lparr>lastTracedAt := mput (tc_ID t) (snd (clock i)) (lastTracedAt s)\<rparr>;
               tr = \<lparr>tr_target = t, tr_start = fst (clock i), tr_end = snd (clock i)\<rparr>
           in if quit i then (s1, [tr])
              else let (s2, trs) = serial_traces ctx_err quit clock force (Suc i) ts s1 in (s2, tr # trs))"

definition executeSerialTraces ::
  "(nat \<Rightarrow> bool) \<Rightarrow> (nat \<Rightarrow> bool) \<Rightarrow> (nat \<Rightarrow> int \<times> int) \<Rightarrow> bool \<Rightarrow> TargetScheduler \<Rightarrow> TargetScheduler \<times> trace list" where
  "executeSerialTraces ctx_err quit clock force s = serial_traces ctx_err quit clock force 0 (sch_targets s) s"

section \<open>Runs\<close>

text \<open>
  What the goroutines of the probe do to the scheduler; the second component of a state collects the traces. The first argument is the
  configuration the step takes over, if it is a sync: any list of targets, also one in which an id comes twice.
\<close>

inductive sched_step :: "TargetConfig list list \<Rightarrow> TargetScheduler \<times> trace list \<Rightarrow> TargetScheduler \<times> trace list \<Rightarrow> bool" where
  sync: "sched_step [ts] (s, hist) (SyncTargets ts s, hist)"
| stop: "sched_step [] (s, hist) (Stop s, hist)"
| shift: "sched_step [] (s, hist) (checkLatencyShift t res s, hist)"
| take_trigger: "sched_step [] (s, hist) (s\<lparr>traceTrigger := False\<rparr>, hist)"
| take_shift: "shiftTriggers s = tid # rest \<Longrightarrow>
    executeSingleShiftTrace start finish tid (s\<lparr>shiftTriggers := rest\<rparr>) = (s', trs) \<Longrightarrow> sched_step [] (s, hist) (s', hist @ trs)"
| serial: "executeSerialTraces ctx_err quit clock False s = (s', trs) \<Longrightarrow> sched_step [] (s, hist) (s', hist @ trs)"

inductive sched_run :: "TargetConfig list list \<Rightarrow> TargetScheduler \<times> trace list \<Rightarrow> bool" where
  init: "sched_run [] (NewTargetScheduler, [])"
| step: "sched_run cs x \<Longrightarrow> sched_step c x y \<Longrightarrow> sched_run (cs @ c) y"

definition sched_reach :: "TargetScheduler \<times> trace list \<Rightarrow> bool" where
  "sched_reach x \<longleftrightarrow> (\<exists>cs. sched_run cs x)"


section \<open>The cooldown\<close>

definition traces_of :: "string \<Rightarrow> trace list \<Rightarrow> trace list" where
  "traces_of tid hist = filter (\<lambda>tr. tc_ID (tr_target tr) = tid) hist"

definition spaced :: "trace \<Rightarrow> trace \<Rightarrow> bool" where
  "spaced a b \<longleftrightarrow> MinTraceCooldown \<le> tr_start b - tr_end a"

definition cool_inv :: "TargetScheduler \<Rightarrow> trace list \<Rightarrow> bool" where
  "cool_inv s hist \<longleftrightarrow> (\<forall>tid. mget (lastTracedAt s) tid =
       (if traces_of tid hist = [] then None else Some (tr_end (last (traces_of tid hist)))) \<and>
     successively spaced (traces_of tid hist)) \<and> list_all (\<lambda>tr. \<not> tc_DisableRoute (tr_target tr)) hist"

lemma cool_inv_frame: "lastTracedAt s' = lastTracedAt s \<Longrightarrow> cool_inv s' hist = cool_inv s hist"
  by (simp add: cool_inv_def)

lemma cool_inv_trace:
  assumes "cool_inv s hist" and "\<not> cooling start (tc_ID t) s" and "\<not> tc_DisableRoute t"
  shows "cool_inv (s\<lparr>lastTracedAt := mput (tc_ID t) finish (lastTracedAt s)\<rparr>) (hist @ [\<lparr>tr_target = t, tr_start = start, tr_end = finish\<rparr>])"
proof -
  let ?tr = "\<lparr>tr_target = t, tr_start = start, tr_end = finish\<rparr>"
  have to: "traces_of tid (hist @ [?tr]) = traces_of tid hist @ (if tid = tc_ID t then [?tr] else [])" for tid
    by (simp add: traces_of_def)
  have sp: "spaced (last (traces_of (tc_ID t) hist)) ?tr" if "traces_of (tc_ID t) hist \<noteq> []"
    using assms(1,2) that by (auto simp: cool_inv_def cooling_def spaced_def)
  show ?thesis
    using assms(1,3) sp by (auto simp: cool_inv_def to successively_append_iff)
qed

lemma cool_inv_serial:
  "cool_inv s hist \<Longrightarrow> serial_traces ctx_err quit clock False i ts s = (s', trs) \<Longrightarrow> cool_inv s' (hist @ trs)"
proof (induction ctx_err quit clock "False" i ts s arbitrary: hist s' trs rule: serial_traces.induct)
  case (1 ctx_err quit clock i s)
  then show ?case by simp
next
  case (2 ctx_err quit clock i t ts s)
  let ?s1 = "s\<lparr>lastTracedAt := mput (tc_ID t) (snd (clock i)) (lastTracedAt s)\<rparr>"
  let ?tr = "\<lparr>tr_target = t, tr_start = fst (clock i), tr_end = snd (clock i)\<rparr>"
  show ?case
  proof (cases "ctx_err i \<or> tc_DisableRoute t \<or> cooling (fst (clock i)) (tc_ID t) s")
    case True
    then show ?thesis using 2 by (auto split: if_splits)
  next
    case False
    have c: "cool_inv ?s1 (hist @ [?tr])" using False 2(4) by (intro cool_inv_trace) auto
    show ?thesis
    proof (cases "quit i")
      case True
      then show ?thesis using False 2(5) c by auto
    next
      case nq: False
      obtain s2 trs2 where r: "serial_traces ctx_err quit clock False (Suc i) ts ?s1 = (s2, trs2)" by fastforce
      have "cool_inv s2 ((hist @ [?tr]) @ trs2)" by (rule 2(3)) (use False nq c r in simp_all)
      then show ?thesis using False nq 2(5) r by auto
    qed
  qed
qed

lemma start_workers_frame:
  "lastTracedAt (start_workers ts s) = lastTracedAt s \<and> shiftTriggers (start_workers ts s) = shiftTriggers s \<and>
   sch_targets (start_workers ts s) = sch_targets s \<and> stopped (start_workers ts s) = stopped s \<and>
   detectors (start_workers ts s) = detectors s"
  by (induction ts s rule: start_workers.induct) auto

lemma cool_inv_step: "sched_step c x y \<Longrightarrow> cool_inv (fst x) (snd x) \<Longrightarrow> cool_inv (fst y) (snd y)"
proof (induction rule: sched_step.induct)
  case (take_shift s tid rest start finish s' trs hist)
  have c: "cool_inv (s\<lparr>shiftTriggers := rest\<rparr>) hist" using take_shift(3) by (simp add: cool_inv_def)
  show ?case
  proof (cases "find (\<lambda>t. tc_ID t = tid) (sch_targets s)")
    case None
    then show ?thesis using take_shift(2) c by (auto simp: executeSingleShiftTrace_def)
  next
    case (Some t)
    then have t: "tc_ID t = tid" by (auto simp: find_Some_iff)
    show ?thesis
      using take_shift(2) c Some cool_inv_trace [OF c, of start t finish]
      by (auto simp: executeSingleShiftTrace_def t split: if_splits)
  qed
next
  case (serial ctx_err quit clock s s' trs hist)
  then show ?case using cool_inv_serial by (simp add: executeSerialTraces_def)
next
  case (sync ts s hist)
  then show ?case by (simp add: SyncTargets_def cool_inv_def start_workers_frame)
next
  case (shift s hist t res)
  then show ?case by (simp add: checkLatencyShift_def cool_inv_def Let_def split: option.splits prod.splits)
qed (simp_all add: Stop_def cool_inv_def)

section \<open>The workers\<close>

definition live :: "TargetScheduler \<Rightarrow> TargetConfig list" where
  "live s = map w_target (filter (\<lambda>w. \<not> w_cancelled w) (workers s))"

text \<open>The targets of a configuration whose id comes again further on, and the workers that run but have no entry in the map any more.\<close>

fun overwritten :: "TargetConfig list \<Rightarrow> TargetConfig list" where
  "overwritten [] = []"
| "overwritten (t # ts) = (if tc_ID t \<in> tc_ID ` set ts then [t] else []) @ overwritten ts"

lemma overwritten_distinct: "distinct (map tc_ID ts) \<Longrightarrow> overwritten ts = []"
  by (induction ts) auto

definition orphans :: "TargetScheduler \<Rightarrow> TargetConfig list" where
  "orphans s = map (w_target \<circ> snd)
     (filter (\<lambda>e. \<not> w_cancelled (snd e) \<and> mget (running s) (tc_ID (w_target (snd e))) \<noteq> Some (fst e)) (enumerate 0 (workers s)))"

definition last_sync :: "TargetConfig list list \<Rightarrow> TargetConfig list" where
  "last_sync cs = (if cs = [] then [] else last cs)"

definition files_inv :: "TargetScheduler \<Rightarrow> bool" where
  "files_inv s \<longleftrightarrow> mwf (running s) \<and>
     (\<forall>k p. mget (running s) k = Some p \<longrightarrow> p < length (workers s) \<and> tc_ID (w_target (workers s ! p)) = k)"

definition work_inv :: "TargetConfig list list \<Rightarrow> TargetScheduler \<Rightarrow> bool" where
  "work_inv cs s \<longleftrightarrow> files_inv s \<and> sch_targets s = last_sync cs \<and> length (shiftTriggers s) \<le> shiftQueue \<and>
     (if stopped s then live s = []
      else orphans s = concat (map overwritten cs) \<and> live s = concat (map overwritten (butlast cs)) @ last_sync cs)"

lemma cancel_all_nth:
  "length (cancel_all ps ws) = length ws \<and>
   (p < length ws \<longrightarrow> cancel_all ps ws ! p = (if p \<in> set ps then (ws ! p)\<lparr>w_cancelled := True\<rparr> else ws ! p))"
proof (induction ps ws rule: cancel_all.induct)
  case (2 q ps ws)
  show ?case
  proof (cases "q = p")
    case True
    then show ?thesis using 2 by auto
  next
    case False
    then show ?thesis using 2 by auto
  qed
qed simp

lemma cancel_all_enumerate:
  "cancel_all ps ws = map (\<lambda>e. if fst e \<in> set ps then (snd e)\<lparr>w_cancelled := True\<rparr> else snd e) (enumerate 0 ws)"
  by (rule nth_equalityI) (simp_all add: cancel_all_nth nth_enumerate_eq)

lemma running_values:
  assumes "files_inv s" and "p < length (workers s)"
  shows "p \<in> set (map snd (running s)) \<longleftrightarrow> mget (running s) (tc_ID (w_target (workers s ! p))) = Some p"
proof -
  have "p \<in> set (map snd (running s)) \<longleftrightarrow> (\<exists>k. mget (running s) k = Some p)"
    using assms(1) by (force simp: files_inv_def mget_in_set [symmetric])
  then show ?thesis using assms(1) by (auto simp: files_inv_def)
qed

lemma cancelled_leaves_orphans:
  assumes "files_inv s"
  shows "map w_target (filter (\<lambda>w. \<not> w_cancelled w) (cancel_all (map snd (running s)) (workers s))) = orphans s"
proof -
  have "(\<not> w_cancelled (if fst e \<in> set (map snd (running s)) then (snd e)\<lparr>w_cancelled := True\<rparr> else snd e)) =
      (\<not> w_cancelled (snd e) \<and> mget (running s) (tc_ID (w_target (snd e))) \<noteq> Some (fst e))"
    if "e \<in> set (enumerate 0 (workers s))" for e
  proof -
    have "fst e < length (workers s)" "workers s ! fst e = snd e" using that by (simp_all add: in_set_enumerate_eq)
    then show ?thesis using running_values [OF assms, of "fst e"] by simp
  qed
  then show ?thesis
    unfolding orphans_def cancel_all_enumerate filter_map map_map comp_def
    by (intro map_cong filter_cong) auto
qed

lemma start_workers_workers:
  "workers (start_workers ts s) = workers s @ map (\<lambda>t. \<lparr>w_target = t, w_cancelled = stopped s\<rparr>) ts"
  by (induction ts s rule: start_workers.induct) simp_all

lemma start_workers_other: "k \<notin> tc_ID ` set ts \<Longrightarrow> mget (running (start_workers ts s)) k = mget (running s) k"
  by (induction ts s rule: start_workers.induct) auto

lemma start_workers_some:
  "k \<in> tc_ID ` set ts \<Longrightarrow> \<exists>p. mget (running (start_workers ts s)) k = Some p \<and> length (workers s) \<le> p"
proof (induction ts s rule: start_workers.induct)
  case (2 t ts s)
  show ?case
  proof (cases "k \<in> tc_ID ` set ts")
    case True
    from 2(1) [OF this] show ?thesis by auto
  next
    case False
    then show ?thesis using 2(2) by (auto simp: start_workers_other)
  qed
qed simp

lemma start_workers_files: "files_inv s \<Longrightarrow> files_inv (start_workers ts s)"
proof (induction ts s rule: start_workers.induct)
  case (2 t ts s)
  have "files_inv (s\<lparr>running := mput (tc_ID t) (length (workers s)) (running s), workers := workers s @ [\<lparr>w_target = t, w_cancelled = stopped s\<rparr>]\<rparr>)"
    using 2(2) by (auto simp: files_inv_def nth_append less_SucI)
  then show ?case using 2(1) by simp
qed simp

lemma start_workers_filed:
  "i < length ts \<Longrightarrow> mget (running (start_workers ts s)) (tc_ID (ts ! i)) = Some (length (workers s) + i) \<longleftrightarrow>
     tc_ID (ts ! i) \<notin> tc_ID ` set (drop (Suc i) ts)"
proof (induction ts s arbitrary: i rule: start_workers.induct)
  case (2 t ts s)
  let ?s = "s\<lparr>running := mput (tc_ID t) (length (workers s)) (running s), workers := workers s @ [\<lparr>w_target = t, w_cancelled = stopped s\<rparr>]\<rparr>"
  show ?case
  proof (cases i)
    case 0
    then show ?thesis
      using start_workers_some [of "tc_ID t" ts ?s] start_workers_other [of "tc_ID t" ts ?s] by (cases "tc_ID t \<in> tc_ID ` set ts") auto
  next
    case (Suc j)
    then show ?thesis using 2(1) [of j] 2(2) by simp
  qed
qed simp

lemma overwritten_enumerate:
  "(\<And>i. i < length ts \<Longrightarrow> P (n + i) (ts ! i) \<longleftrightarrow> tc_ID (ts ! i) \<in> tc_ID ` set (drop (Suc i) ts)) \<Longrightarrow>
     map snd (filter (\<lambda>e. P (fst e) (snd e)) (enumerate n ts)) = overwritten ts"
proof (induction ts arbitrary: n)
  case (Cons t ts)
  have "map snd (filter (\<lambda>e. P (fst e) (snd e)) (enumerate (Suc n) ts)) = overwritten ts"
    using Cons(2) [of "Suc _"] by (intro Cons(1)) simp
  then show ?case using Cons(2) [of 0] by simp
qed simp

lemma enumerate_map: "enumerate n (map f xs) = map (\<lambda>e. (fst e, f (snd e))) (enumerate n xs)"
  by (induction xs arbitrary: n) simp_all

lemma orphans_Sync:
  assumes "files_inv s" and "\<not> stopped s"
  shows "orphans (SyncTargets ts s) = orphans s @ overwritten ts"
proof -
  let ?ws = "cancel_all (map snd (running s)) (workers s)"
  let ?s = "s\<lparr>workers := ?ws, running := [], sch_targets := ts, detectors := ensure_detectors ts (detectors s)\<rparr>"
  let ?m = "running (start_workers ts ?s)"
  have old: "mget ?m k \<noteq> Some p" if "p < length ?ws" for k p
    using start_workers_some [of k ts ?s] start_workers_other [of k ts ?s] that by (cases "k \<in> tc_ID ` set ts") auto
  have "map (w_target \<circ> snd) (filter (\<lambda>e. \<not> w_cancelled (snd e) \<and> mget ?m (tc_ID (w_target (snd e))) \<noteq> Some (fst e)) (enumerate 0 ?ws))
      = map (w_target \<circ> snd) (filter (\<lambda>e. \<not> w_cancelled (snd e)) (enumerate 0 ?ws))"
    using old by (intro arg_cong [of _ _ "map _"] filter_cong refl) (auto simp: in_set_enumerate_eq)
  also have "\<dots> = map w_target (filter (\<lambda>w. \<not> w_cancelled w) (map snd (enumerate 0 ?ws)))" unfolding filter_map by (simp add: comp_def)
  also have "\<dots> = orphans s" using cancelled_leaves_orphans [OF assms(1)] by simp
  finally have 1: "map (w_target \<circ> snd) (filter (\<lambda>e. \<not> w_cancelled (snd e) \<and> mget ?m (tc_ID (w_target (snd e))) \<noteq> Some (fst e)) (enumerate 0 ?ws))
      = orphans s" .
  have "map snd (filter (\<lambda>e. mget ?m (tc_ID (snd e)) \<noteq> Some (fst e)) (enumerate (length ?ws) ts)) = overwritten ts"
    by (rule overwritten_enumerate) (use start_workers_filed [of _ ts ?s] in simp)
  then have 2: "map (w_target \<circ> snd) (filter (\<lambda>e. \<not> w_cancelled (snd e) \<and> mget ?m (tc_ID (w_target (snd e))) \<noteq> Some (fst e))
      (enumerate (length ?ws) (map (\<lambda>t. \<lparr>w_target = t, w_cancelled = False\<rparr>) ts))) = overwritten ts"
    by (simp add: enumerate_map filter_map comp_def)
  show ?thesis
    using 1 2 assms(2) by (simp add: orphans_def SyncTargets_def start_workers_workers enumerate_append_eq)
qed

lemma work_inv_Sync:
  assumes "work_inv cs s"
  shows "work_inv (cs @ [ts]) (SyncTargets ts s)"
proof -
  let ?ws = "cancel_all (map snd (running s)) (workers s)"
  let ?s = "s\<lparr>workers := ?ws, running := [], sch_targets := ts, detectors := ensure_detectors ts (detectors s)\<rparr>"
  have i: "files_inv s" using assms by (simp add: work_inv_def)
  have f: "files_inv (SyncTargets ts s)"
    using start_workers_files [of ?s ts] by (simp add: files_inv_def SyncTargets_def)
  have l: "live (SyncTargets ts s) = map w_target (filter (\<lambda>w. \<not> w_cancelled w) ?ws) @ (if stopped s then [] else ts)"
    by (simp add: live_def SyncTargets_def start_workers_workers filter_map comp_def)
  have fr: "sch_targets (SyncTargets ts s) = ts" "stopped (SyncTargets ts s) = stopped s" "shiftTriggers (SyncTargets ts s) = shiftTriggers s"
    by (simp_all add: SyncTargets_def start_workers_frame)
  have "w_cancelled w" if "stopped s" "w \<in> set ?ws" for w
  proof -
    have "\<forall>w\<in>set (workers s). w_cancelled w" using assms that(1) by (auto simp: work_inv_def live_def filter_empty_conv)
    then show ?thesis using that(2) by (fastforce simp: in_set_conv_nth [of _ "cancel_all _ _"] cancel_all_nth)
  qed
  then have "filter (\<lambda>w. \<not> w_cancelled w) ?ws = []" if "stopped s" using that by (auto simp: filter_empty_conv)
  then show ?thesis
    using assms f l fr orphans_Sync [OF i] cancelled_leaves_orphans [OF i] by (auto simp: work_inv_def last_sync_def)
qed


lemma serial_traces_frame:
  "serial_traces ctx_err quit clock force i ts s = (s', trs) \<Longrightarrow>
     workers s' = workers s \<and> running s' = running s \<and> stopped s' = stopped s \<and> sch_targets s' = sch_targets s \<and>
     shiftTriggers s' = shiftTriggers s"
proof (induction ctx_err quit clock force i ts s arbitrary: s' trs rule: serial_traces.induct)
  case (2 ctx_err quit clock force i t ts s)
  let ?s1 = "s\<lparr>lastTracedAt := mput (tc_ID t) (snd (clock i)) (lastTracedAt s)\<rparr>"
  obtain s2 trs2 where r: "serial_traces ctx_err quit clock force (Suc i) ts ?s1 = (s2, trs2)" by (rule prod.exhaust)
  consider "ctx_err i" | "\<not> ctx_err i" "tc_DisableRoute t"
    | "\<not> ctx_err i" "\<not> tc_DisableRoute t" "\<not> force \<and> cooling (fst (clock i)) (tc_ID t) s"
    | "\<not> ctx_err i" "\<not> tc_DisableRoute t" "\<not> (\<not> force \<and> cooling (fst (clock i)) (tc_ID t) s)" by blast
  then show ?case
  proof cases
    case 1
    then show ?thesis using 2(4) by simp
  next
    case c: 2
    then show ?thesis using 2(1) [OF c] 2(4) by simp
  next
    case c: 3
    then show ?thesis using 2(2) [OF c] 2(4) by simp
  next
    case False: 4
    show ?thesis
    proof (cases "quit i")
      case True
      then have "s' = ?s1" using False 2(4) by (auto simp: Let_def)
      then show ?thesis by simp
    next
      case nq: False
      have "workers s2 = workers ?s1 \<and> running s2 = running ?s1 \<and> stopped s2 = stopped ?s1 \<and> sch_targets s2 = sch_targets ?s1 \<and>
          shiftTriggers s2 = shiftTriggers ?s1"
        by (rule 2(3)) (use False nq r in simp_all)
      moreover have "s' = s2" using False nq 2(4) r by (auto simp: Let_def)
      ultimately show ?thesis by simp
    qed
  qed
qed simp

lemma work_inv_frame:
  "workers s' = workers s \<Longrightarrow> running s' = running s \<Longrightarrow> stopped s' = stopped s \<Longrightarrow> sch_targets s' = sch_targets s \<Longrightarrow>
     length (shiftTriggers s') \<le> shiftQueue \<Longrightarrow> work_inv cs s \<Longrightarrow> work_inv cs s'"
  unfolding work_inv_def files_inv_def live_def orphans_def by simp

lemma work_inv_step: "sched_step c x y \<Longrightarrow> work_inv cs (fst x) \<Longrightarrow> work_inv (cs @ c) (fst y)"
proof (induction rule: sched_step.induct)
  case (sync s hist ts)
  then show ?case using work_inv_Sync by simp
next
  case (serial ctx_err quit clock s s' trs hist)
  note f = serial_traces_frame [OF serial(1) [unfolded executeSerialTraces_def]]
  moreover have "length (shiftTriggers s) \<le> shiftQueue" using serial(2) by (simp add: work_inv_def)
  ultimately show ?case using serial(2) by (auto intro!: work_inv_frame [of _ s])
next
  case (take_shift s tid rest start finish s' trs hist)
  have "length rest \<le> shiftQueue" using take_shift(1,3) by (simp add: work_inv_def)
  then show ?case using take_shift
    by (auto simp: executeSingleShiftTrace_def intro!: work_inv_frame [of _ s] split: option.splits if_splits)
next
  case (shift s hist t res)
  have "length (shiftTriggers s) \<le> shiftQueue" using shift by (simp add: work_inv_def)
  then show ?case using shift
    by (auto simp: checkLatencyShift_def Let_def intro!: work_inv_frame [of _ s] split: option.splits prod.splits)
next
  case (stop s hist)
  then show ?case by (simp add: Stop_def work_inv_def files_inv_def live_def filter_map comp_def)
next
  case (take_trigger s hist)
  have "length (shiftTriggers s) \<le> shiftQueue" using take_trigger by (simp add: work_inv_def)
  then show ?case using take_trigger by (auto intro: work_inv_frame [of _ s])
qed

lemma sched_invs: "sched_run cs x \<Longrightarrow> work_inv cs (fst x) \<and> cool_inv (fst x) (snd x)"
proof (induction rule: sched_run.induct)
  case init
  show ?case by (simp add: work_inv_def files_inv_def orphans_def last_sync_def live_def cool_inv_def NewTargetScheduler_def traces_of_def)
next
  case (step cs x c y)
  then show ?case using work_inv_step cool_inv_step by blast
qed

section \<open>Properties\<close>


text \<open>
  C25: whatever triggers come in, two traces of one target are at least thirty minutes apart, counted from
  the end of the first to the start of the second, and a target with routes disabled is not traced.
\<close>

theorem trace_cooldown:
  assumes "sched_reach (s, hist)"
  shows "successively spaced (traces_of tid hist) \<and> list_all (\<lambda>tr. \<not> tc_DisableRoute (tr_target tr)) hist"
  using sched_invs assms by (fastforce simp: cool_inv_def sched_reach_def)

definition demo_target :: "string \<Rightarrow> TargetConfig" where
  "demo_target i = \<lparr>tc_ID = i, tc_Name = i, tc_Host = i, tc_PacketCount = 10, tc_IntervalSec = 60, tc_DisableRoute = False\<rparr>"

definition demo_sync :: TargetScheduler where
  "demo_sync = SyncTargets [demo_target ''y''] (SyncTargets [demo_target ''x'', demo_target ''y''] NewTargetScheduler)"

lemma demo_sync_run: "sched_run [[demo_target ''x'', demo_target ''y''], [demo_target ''y'']] (demo_sync, [])"
  unfolding demo_sync_def
  using sched_run.step [OF sched_run.step [OF sched_run.init sched_step.sync] sched_step.sync] by fastforce

lemma demo_sync_reach: "sched_reach (demo_sync, [])"
  using demo_sync_run by (auto simp: sched_reach_def)

definition demo_repeat :: TargetScheduler where
  "demo_repeat = SyncTargets [demo_target ''y''] (SyncTargets [demo_target ''x'', demo_target ''x''] NewTargetScheduler)"

lemma demo_repeat_run: "sched_run [[demo_target ''x'', demo_target ''x''], [demo_target ''y'']] (demo_repeat, [])"
  unfolding demo_repeat_def
  using sched_run.step [OF sched_run.step [OF sched_run.init sched_step.sync] sched_step.sync] by fastforce


definition demo_traced :: "TargetScheduler \<times> trace list" where
  "demo_traced = executeSerialTraces (\<lambda>_. False) (\<lambda>_. False) (\<lambda>_. (0, 5)) False demo_sync"

lemma demo_traced_reach: "sched_reach (fst demo_traced, snd demo_traced)"
  using sched_run.step [OF demo_sync_run sched_step.serial [of "\<lambda>_. False" "\<lambda>_. False" "\<lambda>_. (0, 5)" demo_sync "fst demo_traced" "snd demo_traced"]]
  by (auto simp: demo_traced_def sched_reach_def)

theorem trace_cooldown_witness:
  "map tr_end (snd demo_traced) = [5] \<and> successively spaced (traces_of ''y'' (snd demo_traced))"
proof -
  have t: "sch_targets demo_sync = [demo_target ''y'']" by (simp add: demo_sync_def SyncTargets_def start_workers_frame)
  have l: "lastTracedAt demo_sync = []" by (simp add: demo_sync_def SyncTargets_def start_workers_frame NewTargetScheduler_def)
  have "map tr_end (snd demo_traced) = [5]"
    by (simp add: demo_traced_def executeSerialTraces_def t demo_target_def cooling_def l)
  then show ?thesis using trace_cooldown [OF demo_traced_reach, of "''y''"] by simp
qed

lemma ticker_exact:
  assumes "0 < n" and "n \<le> 9223372036"
  shows "sint (word_of_int n * 1000000000 :: 64 word) = n * 1000000000"
proof -
  have "(word_of_int n * 1000000000 :: 64 word) = word_of_int (n * 1000000000)" by simp
  also have "sint \<dots> = signed_take_bit 63 (n * 1000000000)" by (subst sint_sbintrunc') simp
  also have "\<dots> = n * 1000000000" using assms by (intro signed_take_bit_int_eq_self) simp_all
  finally show ?thesis .
qed

text \<open>
  an interval of up to 9223372036 seconds gives a ticker of exactly that many seconds, a zero or
  negative one gives thirty; one second more wraps the 64-bit product to a negative duration and panics.
\<close>

theorem ticker_range:
  assumes "tc_IntervalSec t \<le> 9223372036"
  shows "NewTicker (ticker_interval t) = Some ((if tc_IntervalSec t \<le> 0 then 30 else tc_IntervalSec t) * 1000000000)
    \<and> NewTicker (ticker_interval (t\<lparr>tc_IntervalSec := 9223372037\<rparr>)) = None"
proof -
  have a: "NewTicker (word_of_int n * 1000000000) = Some (n * 1000000000)" if "0 < n" "n \<le> 9223372036" for n
    using ticker_exact [OF that] that by (simp add: NewTicker_def)
  have "sint (word_of_int 9223372037 * 1000000000 :: 64 word) \<le> 0" by code_simp
  then have "NewTicker (ticker_interval (t\<lparr>tc_IntervalSec := 9223372037\<rparr>)) = None"
    by (simp add: NewTicker_def ticker_interval_def)
  moreover have "NewTicker (ticker_interval t) = Some ((if tc_IntervalSec t \<le> 0 then 30 else tc_IntervalSec t) * 1000000000)"
    unfolding ticker_interval_def Let_def by (rule a) (use assms in auto)
  ultimately show ?thesis by blast
qed

theorem ticker_range_witness: "NewTicker (ticker_interval (demo_target ''x'')) = Some 60000000000"
  using ticker_range [of "demo_target ''x''"] by (simp add: demo_target_def)

end
