(* ===== verification/Agent_Proxy.thy ===== *)
theory Agent_Proxy
  imports Proxy_Syntax Protocol
begin

text \<open>
  The probe's end of the tunnels, \<^verbatim>\<open>agent/internal/client/proxy.go\<close>: the table of tunnels, the dial that runs
  in its own goroutine while the tunnel may already be closed, and the loops between the exit
  connection and the Host. Tunnels are shared by pointer and live in a heap; connections are numbered.
  Whether a \<^verbatim>\<open>send\<close> succeeds is an argument of the operation; \<open>sent\<close> holds what was sent, in order.
\<close>

section \<open>Model\<close>

definition agent_chunkSize :: int where "agent_chunkSize = 16 * 1024"
definition proxyWriteQueue :: nat where "proxyWriteQueue = 32"

type_synonym conn_id = nat
type_synonym tab_ptr = nat

record proxyTunnel =
  conn :: "conn_id option"
  cancelled :: bool
  writes :: "string list"
  tab_closed :: bool

record proxyManager =
  pheap :: "proxyTunnel list"
  tabs :: "(string, tab_ptr) gomap"
  closed_conns :: "conn_id list"
  sent :: "(MessageType \<times> json) list"

definition proxy_init :: proxyManager where
  "proxy_init = \<lparr>pheap = [], tabs = [], closed_conns = [], sent = []\<rparr>"

definition agent_send :: "bool \<Rightarrow> MessageType \<Rightarrow> json \<Rightarrow> proxyManager \<Rightarrow> proxyManager" where
  "agent_send ok ty pl m = (if ok then m\<lparr>sent := sent m @ [(ty, pl)]\<rparr> else m)"

definition tab_close :: "tab_ptr \<Rightarrow> proxyManager \<Rightarrow> proxyManager" where
  "tab_close p m =
     (let t = pheap m ! p in
      if tab_closed t then m
      else m\<lparr>pheap := (pheap m)[p := t\<lparr>tab_closed := True, cancelled := True\<rparr>],
             closed_conns := (case conn t of None \<Rightarrow> closed_conns m | Some c \<Rightarrow> c # closed_conns m)\<rparr>)"

definition setConn :: "tab_ptr \<Rightarrow> conn_id \<Rightarrow> proxyManager \<Rightarrow> proxyManager \<times> bool" where
  "setConn p c m =
     (let t = pheap m ! p in
      if tab_closed t then (m, False) else (m\<lparr>pheap := (pheap m)[p := t\<lparr>conn := Some c\<rparr>]\<rparr>, True))"

definition enqueue :: "tab_ptr \<Rightarrow> string \<Rightarrow> proxyManager \<Rightarrow> proxyManager \<times> bool" where
  "enqueue p dat m =
     (let t = pheap m ! p in
      if tab_closed t then (m, False)
      else if length (writes t) < proxyWriteQueue
      then (m\<lparr>pheap := (pheap m)[p := t\<lparr>writes := writes t @ [dat]\<rparr>]\<rparr>, True)
      else (m, False))"

definition dropIf :: "bool \<Rightarrow> string \<Rightarrow> tab_ptr option \<Rightarrow> bool \<Rightarrow> proxyManager \<Rightarrow> proxyManager" where
  "dropIf ok tid expect notify m =
     (case mget (tabs m) tid of
        None \<Rightarrow> m
      | Some p \<Rightarrow>
          if expect \<noteq> None \<and> expect \<noteq> Some p then m
          else let m1 = tab_close p (m\<lparr>tabs := mdel tid (tabs m)\<rparr>)
               in if notify then agent_send ok TypeProxyClose
                      (enc_ProxyClose \<lparr>close_TunnelID = tid, close_Reason = ''''\<rparr>) m1
                  else m1)"

definition proxy_drop :: "bool \<Rightarrow> string \<Rightarrow> bool \<Rightarrow> proxyManager \<Rightarrow> proxyManager" where
  "proxy_drop ok tid notify m = dropIf ok tid None notify m"

fun close_tabs :: "(string \<times> tab_ptr) list \<Rightarrow> proxyManager \<Rightarrow> proxyManager" where
  "close_tabs [] m = m"
| "close_tabs (e # es) m = close_tabs es (tab_close (snd e) m)"

definition dropAll :: "proxyManager \<Rightarrow> proxyManager" where
  "dropAll m = close_tabs (tabs m) (m\<lparr>tabs := []\<rparr>)"

definition proxy_write :: "bool \<Rightarrow> string \<Rightarrow> string \<Rightarrow> proxyManager \<Rightarrow> proxyManager" where
  "proxy_write ok tid dat m =
     (case mget (tabs m) tid of
        None \<Rightarrow> m
      | Some p \<Rightarrow>
          (case enqueue p dat m of
             (m1, True) \<Rightarrow> m1
           | (m1, False) \<Rightarrow> dropIf ok tid (Some p) True m1))"

definition open_result :: "bool \<Rightarrow> string \<Rightarrow> bool \<Rightarrow> string \<Rightarrow> proxyManager \<Rightarrow> proxyManager" where
  "open_result ok tid success err m =
     agent_send ok TypeProxyOpenResult
       (enc_ProxyOpenResult \<lparr>res_TunnelID = tid, res_OK = success, res_Error = err\<rparr>) m"

text \<open>\<^verbatim>\<open>open\<close> up to the start of its goroutine, which then dials for the returned tunnel.\<close>

definition proxy_open :: "bool \<Rightarrow> ProxyOpenPayload \<Rightarrow> proxyManager \<Rightarrow> proxyManager \<times> tab_ptr option" where
  "proxy_open ok req m =
     (if open_Port req < 1 \<or> open_Port req > 65535 \<or> open_Host req = ''''
      then (open_result ok (open_TunnelID req) False ''invalid target'' m, None)
      else if mget (tabs m) (open_TunnelID req) \<noteq> None
      then (open_result ok (open_TunnelID req) False ''tunnel already open'' m, None)
      else (m\<lparr>pheap := pheap m @ [\<lparr>conn = None, cancelled = False, writes = [], tab_closed = False\<rparr>],
              tabs := mput (open_TunnelID req) (length (pheap m)) (tabs m)\<rparr>, Some (length (pheap m))))"

definition dial_addr :: "ProxyOpenPayload \<Rightarrow> string option" where
  "dial_addr req = map_option (JoinHostPort (open_Host req)) (itoa (open_Port req))"

definition trimErr :: "string \<Rightarrow> string" where
  "trimErr msg = (if length msg > 180 then take 180 msg else msg)"

definition dial_failed :: "bool \<Rightarrow> string \<Rightarrow> tab_ptr \<Rightarrow> string \<Rightarrow> proxyManager \<Rightarrow> proxyManager" where
  "dial_failed ok tid p err m = open_result ok tid False (trimErr err) (dropIf ok tid (Some p) False m)"

text \<open>The dial returned connection \<open>c\<close>; the result says whether the loops now run.\<close>

definition dial_done :: "bool \<Rightarrow> string \<Rightarrow> tab_ptr \<Rightarrow> conn_id \<Rightarrow> proxyManager \<Rightarrow> proxyManager \<times> bool" where
  "dial_done ok tid p c m =
     (case setConn p c m of
        (m1, False) \<Rightarrow> (m1\<lparr>closed_conns := c # closed_conns m1\<rparr>, False)
      | (m1, True) \<Rightarrow>
          if ok then (open_result ok tid True '''' m1, True) else (dropIf ok tid (Some p) False m1, False))"

text \<open>One turn of \<^verbatim>\<open>readLoop\<close>: \<open>buf\<close> was read, then possibly an error.\<close>

definition readLoop :: "bool \<Rightarrow> string \<Rightarrow> tab_ptr \<Rightarrow> string \<Rightarrow> bool \<Rightarrow> proxyManager \<Rightarrow> proxyManager \<times> bool" where
  "readLoop ok tid p buf failed m =
     (if buf \<noteq> '''' \<and> \<not> ok then (dropIf ok tid (Some p) False m, False)
      else let m1 = (if buf \<noteq> '''' then agent_send ok TypeProxyData
                 (enc_ProxyData \<lparr>data_TunnelID = tid, data_Data = EncodeToString buf\<rparr>) m else m)
           in if failed then (dropIf ok tid (Some p) True m1, False) else (m1, True))"

text \<open>One turn of \<^verbatim>\<open>writeLoop\<close>: the next queued chunk, if any, and whether writing it succeeds.\<close>

definition writeLoop :: "bool \<Rightarrow> string \<Rightarrow> tab_ptr \<Rightarrow> bool \<Rightarrow> proxyManager \<Rightarrow> proxyManager \<times> string option" where
  "writeLoop ok tid p wok m =
     (case writes (pheap m ! p) of
        [] \<Rightarrow> (m, None)
      | chunk # rest \<Rightarrow>
          let m1 = m\<lparr>pheap := (pheap m)[p := (pheap m ! p)\<lparr>writes := rest\<rparr>]\<rparr>
          in if wok then (m1, Some chunk) else (dropIf ok tid (Some p) True m1, None))"

text \<open>\<^verbatim>\<open>handleProxyMessage\<close>: the new state, the dial it starts, and whether the message was a proxy message.\<close>

definition handleProxyMessage ::
  "bool \<Rightarrow> Envelope \<Rightarrow> proxyManager \<Rightarrow> proxyManager \<times> (ProxyOpenPayload \<times> tab_ptr) option \<times> bool" where
  "handleProxyMessage ok env m =
     (case Type env of
        TypeProxyOpen \<Rightarrow>
          (case dec_ProxyOpen (Payload env) of
             None \<Rightarrow> (m, None, True)
           | Some req \<Rightarrow>
               if open_TunnelID req = '''' then (m, None, True)
               else (case proxy_open ok req m of (m1, r) \<Rightarrow> (m1, map_option (Pair req) r, True)))
      | TypeProxyData \<Rightarrow>
          (case dec_ProxyData (Payload env) of
             None \<Rightarrow> (m, None, True)
           | Some msg \<Rightarrow>
               if data_TunnelID msg = '''' \<or> data_Data msg = '''' then (m, None, True)
               else (case DecodeString (data_Data msg) of
                   None \<Rightarrow> (proxy_drop ok (data_TunnelID msg) True m, None, True)
                 | Some raw \<Rightarrow>
                     if raw = '''' \<or> int (length raw) > agent_chunkSize * 4
                     then (proxy_drop ok (data_TunnelID msg) True m, None, True)
                     else (proxy_write ok (data_TunnelID msg) raw m, None, True)))
      | TypeProxyClose \<Rightarrow>
          (case dec_ProxyClose (Payload env) of
             None \<Rightarrow> (m, None, True)
           | Some msg \<Rightarrow>
               if close_TunnelID msg = '''' then (m, None, True)
               else (proxy_drop ok (close_TunnelID msg) False m, None, True))
      | _ \<Rightarrow> (m, None, False))"

section \<open>Invariant\<close>

text \<open>
  The open tunnels are exactly those in the table, each under one id; a closed tunnel's connection is
  closed; every connection below \<open>n\<close> is closed or belongs to an open tunnel.
\<close>

definition tab_inv :: "conn_id \<Rightarrow> proxyManager \<Rightarrow> bool" where
  "tab_inv n m \<longleftrightarrow> mwf (tabs m)
     \<and> (\<forall>tid p. mget (tabs m) tid = Some p \<longrightarrow> p < length (pheap m) \<and> \<not> tab_closed (pheap m ! p))
     \<and> (\<forall>tid tid' p. mget (tabs m) tid = Some p \<longrightarrow> mget (tabs m) tid' = Some p \<longrightarrow> tid = tid')
     \<and> (\<forall>p < length (pheap m). \<not> tab_closed (pheap m ! p) \<longrightarrow> (\<exists>tid. mget (tabs m) tid = Some p))
     \<and> (\<forall>p < length (pheap m). length (writes (pheap m ! p)) \<le> proxyWriteQueue)
     \<and> (\<forall>c < n. c \<in> set (closed_conns m) \<or> (\<exists>p < length (pheap m). conn (pheap m ! p) = Some c \<and> \<not> tab_closed (pheap m ! p)))"

lemma tab_invD:
  assumes "tab_inv n m"
  shows "mwf (tabs m)"
    and "mget (tabs m) tid = Some p \<Longrightarrow> p < length (pheap m) \<and> \<not> tab_closed (pheap m ! p)"
    and "mget (tabs m) tid = Some p \<Longrightarrow> mget (tabs m) tid' = Some p \<Longrightarrow> tid = tid'"
    and "p < length (pheap m) \<Longrightarrow> \<not> tab_closed (pheap m ! p) \<Longrightarrow> \<exists>tid. mget (tabs m) tid = Some p"
    and "p < length (pheap m) \<Longrightarrow> length (writes (pheap m ! p)) \<le> proxyWriteQueue"
    and "c < n \<Longrightarrow> c \<in> set (closed_conns m) \<or> (\<exists>p < length (pheap m). conn (pheap m ! p) = Some c \<and> \<not> tab_closed (pheap m ! p))"
  using assms unfolding tab_inv_def by blast+

lemma tab_invI:
  assumes "mwf (tabs m)"
    and "\<And>tid p. mget (tabs m) tid = Some p \<Longrightarrow> p < length (pheap m) \<and> \<not> tab_closed (pheap m ! p)"
    and "\<And>tid tid' p. mget (tabs m) tid = Some p \<Longrightarrow> mget (tabs m) tid' = Some p \<Longrightarrow> tid = tid'"
    and "\<And>p. p < length (pheap m) \<Longrightarrow> \<not> tab_closed (pheap m ! p) \<Longrightarrow> \<exists>tid. mget (tabs m) tid = Some p"
    and "\<And>p. p < length (pheap m) \<Longrightarrow> length (writes (pheap m ! p)) \<le> proxyWriteQueue"
    and "\<And>c. c < n \<Longrightarrow> c \<in> set (closed_conns m) \<or> (\<exists>p < length (pheap m). conn (pheap m ! p) = Some c \<and> \<not> tab_closed (pheap m ! p))"
  shows "tab_inv n m"
  using assms unfolding tab_inv_def by blast

lemma tab_inv_init: "tab_inv 0 proxy_init"
  by (simp add: tab_inv_def proxy_init_def)

lemma tab_inv_send [simp]: "tab_inv n (agent_send ok ty pl m) = tab_inv n m"
  by (simp add: agent_send_def tab_inv_def)

lemma tab_inv_open_result [simp]: "tab_inv n (open_result ok tid s e m) = tab_inv n m"
  by (simp add: open_result_def)

lemma tab_inv_sent [simp]: "tab_inv n (m\<lparr>sent := x\<rparr>) = tab_inv n m"
  by (simp add: tab_inv_def)

text \<open>Removing one tunnel from the table and closing it.\<close>

lemma tab_inv_remove:
  assumes "tab_inv n m" and "mget (tabs m) tid = Some p"
  shows "tab_inv n (tab_close p (m\<lparr>tabs := mdel tid (tabs m)\<rparr>))"
proof -
  note d = tab_invD [OF assms(1)] and p = tab_invD(2) [OF assms]
  let ?m = "m\<lparr>tabs := mdel tid (tabs m), pheap := (pheap m)[p := (pheap m ! p)\<lparr>tab_closed := True, cancelled := True\<rparr>],
      closed_conns := (case conn (pheap m ! p) of None \<Rightarrow> closed_conns m | Some c \<Rightarrow> c # closed_conns m)\<rparr>"
  have nth: "(pheap m)[p := (pheap m ! p)\<lparr>tab_closed := True, cancelled := True\<rparr>] ! q
      = (if q = p then (pheap m ! p)\<lparr>tab_closed := True, cancelled := True\<rparr> else pheap m ! q)" for q
    using p by (simp add: nth_list_update)
  have "tab_inv n ?m"
  proof (rule tab_invI)
    show "mwf (tabs ?m)" using d(1) by simp
    show "q < length (pheap ?m) \<and> \<not> tab_closed (pheap ?m ! q)" if "mget (tabs ?m) tid' = Some q" for tid' q
      using that d(2) [of tid' q] d(3) [OF assms(2), of tid'] by (auto simp: nth split: if_splits)
    show "tid1 = tid2" if "mget (tabs ?m) tid1 = Some q" "mget (tabs ?m) tid2 = Some q" for tid1 tid2 q
      using that d(3) [of tid1 q tid2] by (auto split: if_splits)
    show "\<exists>tid'. mget (tabs ?m) tid' = Some q" if "q < length (pheap ?m)" "\<not> tab_closed (pheap ?m ! q)" for q
    proof -
      have "q \<noteq> p" "q < length (pheap m)" "\<not> tab_closed (pheap m ! q)" using that by (auto simp: nth split: if_splits)
      then obtain tid' where "mget (tabs m) tid' = Some q" using d(4) by blast
      moreover have "tid' \<noteq> tid" using calculation assms(2) \<open>q \<noteq> p\<close> by auto
      ultimately show ?thesis by auto
    qed
    show "length (writes (pheap ?m ! q)) \<le> proxyWriteQueue" if "q < length (pheap ?m)" for q
      using that d(5) [of q] p by (auto simp: nth)
    show "c \<in> set (closed_conns ?m) \<or> (\<exists>q < length (pheap ?m). conn (pheap ?m ! q) = Some c \<and> \<not> tab_closed (pheap ?m ! q))"
      if "c < n" for c
    proof (cases "conn (pheap m ! p) = Some c")
      case True
      then show ?thesis by simp
    next
      case False
      then show ?thesis using d(6) [OF that] by (auto simp: nth split: option.splits)
    qed
  qed
  moreover have "tab_close p (m\<lparr>tabs := mdel tid (tabs m)\<rparr>) = ?m"
    using p by (cases "conn (pheap m ! p)") (simp_all add: tab_close_def Let_def)
  ultimately show ?thesis by simp
qed

lemma tab_inv_dropIf [inv_intros]: "tab_inv n m \<Longrightarrow> tab_inv n (dropIf ok tid e notify m)"
  by (auto simp: dropIf_def Let_def tab_inv_remove split: option.splits)

text \<open>Changing the queue or the connection of one tunnel.\<close>

lemma tab_inv_writes:
  assumes "tab_inv n m" and "length q \<le> proxyWriteQueue"
  shows "tab_inv n (m\<lparr>pheap := (pheap m)[p := (pheap m ! p)\<lparr>writes := q\<rparr>]\<rparr>)"
proof (cases "p < length (pheap m)")
  case True
  then show ?thesis
    using assms unfolding tab_inv_def by (auto simp: nth_list_update)
next
  case False
  then have "(pheap m)[p := (pheap m ! p)\<lparr>writes := q\<rparr>] = pheap m" by (intro list_update_beyond) simp
  then show ?thesis using assms by simp
qed

lemma tab_inv_enqueue: "tab_inv n m \<Longrightarrow> tab_inv n (fst (enqueue p dat m))"
  by (auto simp: enqueue_def Let_def intro!: tab_inv_writes)

lemma tab_inv_proxy_write [inv_intros]:
  assumes "tab_inv n m"
  shows "tab_inv n (proxy_write ok tid dat m)"
proof (cases "mget (tabs m) tid")
  case None
  with assms show ?thesis by (simp add: proxy_write_def)
next
  case (Some p)
  have "tab_inv n (fst (enqueue p dat m))" by (rule tab_inv_enqueue [OF assms])
  with Some show ?thesis
    by (cases "enqueue p dat m") (auto simp: proxy_write_def intro: tab_inv_dropIf split: bool.splits)
qed

lemma tab_inv_open [inv_intros]:
  assumes "tab_inv n m"
  shows "tab_inv n (fst (proxy_open ok req m))"
proof (cases "open_Port req < 1 \<or> open_Port req > 65535 \<or> open_Host req = '''' \<or> mget (tabs m) (open_TunnelID req) \<noteq> None")
  case True
  then show ?thesis using assms by (auto simp: proxy_open_def)
next
  case False
  let ?m = "m\<lparr>pheap := pheap m @ [\<lparr>conn = None, cancelled = False, writes = [], tab_closed = False\<rparr>],
      tabs := mput (open_TunnelID req) (length (pheap m)) (tabs m)\<rparr>"
  note d = tab_invD [OF assms]
  have lt: "q < length (pheap m)" if "mget (tabs m) tid = Some q" for tid q using d(2) [OF that] by simp
  have "tab_inv n ?m"
  proof (rule tab_invI)
    show "mwf (tabs ?m)" using d(1) by simp
    show "q < length (pheap ?m) \<and> \<not> tab_closed (pheap ?m ! q)" if "mget (tabs ?m) tid' = Some q" for tid' q
      using that d(2) [of tid' q] by (auto simp: nth_append split: if_splits)
    show "tid1 = tid2" if "mget (tabs ?m) tid1 = Some q" "mget (tabs ?m) tid2 = Some q" for tid1 tid2 q
      using that d(3) [of tid1 q tid2] lt by (auto split: if_splits)
    show "\<exists>tid'. mget (tabs ?m) tid' = Some q" if "q < length (pheap ?m)" "\<not> tab_closed (pheap ?m ! q)" for q
    proof (cases "q < length (pheap m)")
      case True
      with that d(4) [of q] obtain tid' where "mget (tabs m) tid' = Some q" by (auto simp: nth_append)
      moreover have "tid' \<noteq> open_TunnelID req" using calculation False by auto
      ultimately show ?thesis by auto
    next
      case False
      with that have "q = length (pheap m)" by simp
      then show ?thesis by auto
    qed
    show "length (writes (pheap ?m ! q)) \<le> proxyWriteQueue" if "q < length (pheap ?m)" for q
      using that d(5) [of q] by (auto simp: nth_append)
    show "c \<in> set (closed_conns ?m) \<or> (\<exists>q < length (pheap ?m). conn (pheap ?m ! q) = Some c \<and> \<not> tab_closed (pheap ?m ! q))"
      if "c < n" for c
      using d(6) [OF that] by (auto simp: nth_append)
  qed
  then show ?thesis using False by (simp add: proxy_open_def)
qed

text \<open>A dial that ends after its tunnel was closed closes the new connection itself.\<close>

lemma tab_inv_dial_done:
  assumes "tab_inv n m" and "p < length (pheap m)" and "conn (pheap m ! p) = None"
  shows "tab_inv (Suc n) (fst (dial_done ok tid p n m))"
proof (cases "tab_closed (pheap m ! p)")
  case True
  then have "tab_inv (Suc n) (m\<lparr>closed_conns := n # closed_conns m\<rparr>)"
    using assms(1) unfolding tab_inv_def by (auto simp: less_Suc_eq)
  then show ?thesis using True by (simp add: dial_done_def setConn_def)
next
  case False
  let ?m = "m\<lparr>pheap := (pheap m)[p := (pheap m ! p)\<lparr>conn := Some n\<rparr>]\<rparr>"
  note d = tab_invD [OF assms(1)]
  have nth: "(pheap m)[p := (pheap m ! p)\<lparr>conn := Some n\<rparr>] ! q
      = (if q = p then (pheap m ! p)\<lparr>conn := Some n\<rparr> else pheap m ! q)" for q
    using assms(2) by (simp add: nth_list_update)
  have "tab_inv (Suc n) ?m"
  proof (rule tab_invI)
    show "\<exists>tid'. mget (tabs ?m) tid' = Some q" if "q < length (pheap ?m)" "\<not> tab_closed (pheap ?m ! q)" for q
      using that d(4) [of q] by (auto simp: nth split: if_splits)
    show "c \<in> set (closed_conns ?m) \<or> (\<exists>q < length (pheap ?m). conn (pheap ?m ! q) = Some c \<and> \<not> tab_closed (pheap ?m ! q))"
      if "c < Suc n" for c
    proof (cases "c = n")
      case True
      then have "conn (pheap ?m ! p) = Some c" "\<not> tab_closed (pheap ?m ! p)" using False by (simp_all add: nth)
      then show ?thesis using assms(2) by auto
    next
      case False
      with that d(6) [of c] consider "c \<in> set (closed_conns m)"
        | q where "q < length (pheap m)" "conn (pheap m ! q) = Some c" "\<not> tab_closed (pheap m ! q)" by auto
      then show ?thesis
      proof cases
        case 2
        then have "q \<noteq> p" using assms(3) by auto
        with 2 show ?thesis by (auto simp: nth)
      qed simp
    qed
  qed (use d in \<open>auto simp: nth\<close>)
  then show ?thesis
    using False by (auto simp: dial_done_def setConn_def intro: tab_inv_dropIf)
qed

section \<open>Losing the connection to the Host\<close>

text \<open>Dropping all tunnels is dropping each of them.\<close>

lemma close_tabs_dropIf:
  assumes "distinct (map fst es)" and "\<And>e. e \<in> set es \<Longrightarrow> mget (tabs m) (fst e) = Some (snd e)"
  shows "close_tabs es (m\<lparr>tabs := x\<rparr>) = (foldl (\<lambda>m e. dropIf ok (fst e) None False m) m es)\<lparr>tabs := x\<rparr>"
  using assms
proof (induction es arbitrary: m)
  case Nil
  show ?case by simp
next
  case (Cons e es)
  let ?m = "dropIf ok (fst e) None False m"
  have g: "mget (tabs m) (fst e) = Some (snd e)" using Cons.prems(2) by simp
  have t: "tabs (tab_close p k) = tabs k" for p k by (simp add: tab_close_def Let_def)
  have c: "tab_close (snd e) (m\<lparr>tabs := x\<rparr>) = ?m\<lparr>tabs := x\<rparr>"
    using g by (cases "conn (pheap m ! snd e)") (simp_all add: dropIf_def tab_close_def Let_def)
  have "mget (tabs ?m) (fst d) = Some (snd d)" if "d \<in> set es" for d
    using that Cons.prems g by (auto simp: dropIf_def t image_iff)
  with Cons.IH [of ?m] Cons.prems(1) show ?case by (simp add: c)
qed

lemma tab_inv_fold_dropIf: "tab_inv n m \<Longrightarrow> tab_inv n (foldl (\<lambda>m e. dropIf ok (fst e) None False m) m es)"
  by (induction es arbitrary: m) (auto intro: tab_inv_dropIf)

lemma tabs_dropIf_None: "tabs (dropIf ok tid None False m) = mdel tid (tabs m)"
  by (auto simp: dropIf_def tab_close_def Let_def mdel_absent split: option.splits)

lemma tabs_fold_dropIf:
  "mget (tabs (foldl (\<lambda>m e. dropIf ok (fst e) None False m) m es)) k = (if k \<in> fst ` set es then None else mget (tabs m) k)"
  by (induction es arbitrary: m) (auto simp: tabs_dropIf_None)

lemma mget_all_None: "(\<And>k. mget m k = None) \<Longrightarrow> m = []"
  by (cases m) (auto simp: mget_def dest: meta_spec [of _ "fst (hd m)"])

lemma dropAll_spec:
  assumes "tab_inv n m"
  shows "tab_inv n (dropAll m)" "tabs (dropAll m) = []"
proof -
  let ?f = "foldl (\<lambda>m e. dropIf True (fst e) None False m) m (tabs m)"
  have "mget (tabs ?f) k = None" for k
    using mem_mkeys [of k "tabs m"] by (auto simp: tabs_fold_dropIf mkeys_def)
  then have e: "tabs ?f = []" by (rule mget_all_None)
  have "dropAll m = ?f\<lparr>tabs := []\<rparr>"
    unfolding dropAll_def
    by (rule close_tabs_dropIf)
      (use tab_invD(1) [OF assms] in \<open>auto simp: mwf_def mget_in_set [unfolded mwf_def, symmetric]\<close>)
  also have "\<dots> = ?f" using e by (cases ?f) simp
  finally show "tab_inv n (dropAll m)" "tabs (dropAll m) = []"
    using tab_inv_fold_dropIf [OF assms] e by simp_all
qed

lemma dropAll_closes:
  assumes "tab_inv n m" and "c < n"
  shows "c \<in> set (closed_conns (dropAll m))"
  using tab_invD(4,6) [OF dropAll_spec(1) [OF assms(1)]] dropAll_spec(2) [OF assms(1)] assms(2) by fastforce

section \<open>The probe's tunnels as a concurrent system\<close>

record AgentWorld =
  mgr :: proxyManager
  dialing :: "(string \<times> tab_ptr) list"
  conns :: conn_id

definition agent_start :: AgentWorld where
  "agent_start = \<lparr>mgr = proxy_init, dialing = [], conns = 0\<rparr>"

inductive agent_step :: "AgentWorld \<Rightarrow> AgentWorld \<Rightarrow> bool" where
  message: "agent_step w (w\<lparr>mgr := m',
      dialing := dialing w @ (case d of None \<Rightarrow> [] | Some (req, p) \<Rightarrow> [(open_TunnelID req, p)])\<rparr>)"
    if "handleProxyMessage ok env (mgr w) = (m', d, b)"
| dial_fails: "agent_step w (w\<lparr>mgr := dial_failed ok tid p err (mgr w), dialing := remove1 (tid, p) (dialing w)\<rparr>)"
    if "(tid, p) \<in> set (dialing w)"
| dial_succeeds: "agent_step w (w\<lparr>mgr := fst (dial_done ok tid p (conns w) (mgr w)),
      dialing := remove1 (tid, p) (dialing w), conns := Suc (conns w)\<rparr>)"
    if "(tid, p) \<in> set (dialing w)"
| exit_read: "agent_step w (w\<lparr>mgr := fst (readLoop ok tid p buf failed (mgr w))\<rparr>)"
| exit_write: "agent_step w (w\<lparr>mgr := fst (writeLoop ok tid p wok (mgr w))\<rparr>)" if "p < length (pheap (mgr w))"
| disconnect: "agent_step w (w\<lparr>mgr := dropAll (mgr w)\<rparr>)"

inductive agent_reach :: "AgentWorld \<Rightarrow> bool" where
  init: "agent_reach agent_start"
| step: "agent_reach w \<Longrightarrow> agent_step w w' \<Longrightarrow> agent_reach w'"

text \<open>Everything but a finished dial leaves the connection of every tunnel alone.\<close>

definition same_conns :: "proxyManager \<Rightarrow> proxyManager \<Rightarrow> bool" where
  "same_conns m m' \<longleftrightarrow> length (pheap m) \<le> length (pheap m') \<and> (\<forall>q < length (pheap m). conn (pheap m' ! q) = conn (pheap m ! q))"

lemma same_conns_trans: "same_conns m m' \<Longrightarrow> same_conns m' m'' \<Longrightarrow> same_conns m m''"
  by (simp add: same_conns_def)

lemma same_conns_heap: "pheap m' = pheap m \<Longrightarrow> same_conns m m'"
  by (simp add: same_conns_def)

lemma same_conns_tab_close: "same_conns m (tab_close p m)"
  by (simp add: same_conns_def tab_close_def Let_def nth_update_proj [where f = conn])

lemma pheap_send [simp]: "pheap (agent_send ok ty pl m) = pheap m"
  by (simp add: agent_send_def)

lemma pheap_open_result [simp]: "pheap (open_result ok tid s e m) = pheap m"
  by (simp add: open_result_def)

lemma same_conns_send: "same_conns m m' \<Longrightarrow> same_conns m (agent_send ok ty pl m')"
  by (simp add: same_conns_def)

lemma same_conns_dropIf: "same_conns m (dropIf ok tid e notify m)"
proof -
  have "same_conns m (tab_close p (m\<lparr>tabs := t\<rparr>))" for p t
    using same_conns_tab_close [of "m\<lparr>tabs := t\<rparr>" p] by (simp add: same_conns_def)
  then show ?thesis
    by (simp add: dropIf_def Let_def same_conns_heap same_conns_send split: option.splits)
qed

lemma same_conns_enqueue: "same_conns m (fst (enqueue p dat m))"
  by (auto simp: same_conns_def enqueue_def Let_def nth_update_proj [where f = conn])

lemma same_conns_proxy_write: "same_conns m (proxy_write ok tid dat m)"
proof -
  have "same_conns m (dropIf ok tid e True (fst (enqueue p dat m)))" for p e
    by (rule same_conns_trans [OF same_conns_enqueue same_conns_dropIf])
  then show ?thesis
    using same_conns_enqueue [of m _ dat]
    by (auto simp: proxy_write_def same_conns_heap split: option.splits prod.splits bool.splits) (metis fst_conv)+
qed

lemma same_conns_proxy_open: "same_conns m (fst (proxy_open ok req m))"
  by (auto simp: proxy_open_def same_conns_def nth_append)

lemma same_conns_close_tabs: "same_conns m (close_tabs es m)"
  by (induction es arbitrary: m) (auto simp: same_conns_heap intro: same_conns_trans [OF same_conns_tab_close])

lemma same_conns_dropAll: "same_conns m (dropAll m)"
  using same_conns_close_tabs [of "m\<lparr>tabs := []\<rparr>" "tabs m"] by (simp add: dropAll_def same_conns_def)

lemma same_conns_readLoop: "same_conns m (fst (readLoop ok tid p buf failed m))"
proof -
  have "same_conns m (dropIf k tid e n m')" if "pheap m' = pheap m" for m' e n k
    by (rule same_conns_trans [OF same_conns_heap [OF that] same_conns_dropIf])
  then show ?thesis by (simp add: readLoop_def Let_def same_conns_heap)
qed

lemma same_conns_writeLoop: "same_conns m (fst (writeLoop ok tid p wok m))"
proof (cases "writes (pheap m ! p)")
  case Nil
  then show ?thesis by (simp add: writeLoop_def same_conns_heap)
next
  case (Cons chunk rest)
  let ?m = "m\<lparr>pheap := (pheap m)[p := (pheap m ! p)\<lparr>writes := rest\<rparr>]\<rparr>"
  have "same_conns m ?m" by (simp add: same_conns_def nth_update_proj [where f = conn])
  then show ?thesis
    using same_conns_trans [OF _ same_conns_dropIf, of m ?m] by (simp add: writeLoop_def Cons Let_def)
qed

text \<open>What a message does to the table, and which tunnel it starts to dial.\<close>

lemma handleProxyMessage_inv:
  assumes "handleProxyMessage ok env m = (m', d, b)" and "tab_inv n m"
  shows "tab_inv n m' \<and> same_conns m m'"
proof -
  have w: "tab_inv n (proxy_write ok tid raw m) \<and> same_conns m (proxy_write ok tid raw m)" for tid raw
    using assms(2) by (simp add: tab_inv_proxy_write same_conns_proxy_write)
  have dr: "tab_inv n (proxy_drop ok tid nt m) \<and> same_conns m (proxy_drop ok tid nt m)" for tid nt
    using assms(2) by (simp add: proxy_drop_def tab_inv_dropIf same_conns_dropIf)
  have o: "tab_inv n (fst (proxy_open ok req m)) \<and> same_conns m (fst (proxy_open ok req m))" for req
    using assms(2) by (simp add: tab_inv_open same_conns_proxy_open)
  have id: "tab_inv n m \<and> same_conns m m" using assms(2) by (simp add: same_conns_heap)
  show ?thesis
  proof (cases "Type env")
    case TypeProxyOpen
    then show ?thesis using assms(1) o id
      by (auto simp: handleProxyMessage_def split: option.splits if_splits prod.splits) (metis fst_conv)+
  qed (use assms(1) id w dr in \<open>auto simp: handleProxyMessage_def split: option.splits if_splits\<close>)
qed

lemma handleProxyMessage_dial:
  assumes "handleProxyMessage ok env m = (m', Some (req, p), b)"
  shows "p = length (pheap m) \<and> p < length (pheap m') \<and> conn (pheap m' ! p) = None"
proof (cases "Type env")
  case TypeProxyOpen
  then show ?thesis
    using assms
    by (auto simp: handleProxyMessage_def proxy_open_def split: option.splits if_splits)
qed (use assms in \<open>auto simp: handleProxyMessage_def split: option.splits if_splits\<close>)

section \<open>Invariant of the system\<close>

definition agent_inv :: "AgentWorld \<Rightarrow> bool" where
  "agent_inv w \<longleftrightarrow> tab_inv (conns w) (mgr w) \<and> distinct (map snd (dialing w))
     \<and> (\<forall>e \<in> set (dialing w). snd e < length (pheap (mgr w)) \<and> conn (pheap (mgr w) ! snd e) = None)"

lemma agent_inv_upd:
  assumes "agent_inv w" and "tab_inv (conns w) m'" and "same_conns (mgr w) m'"
  shows "agent_inv (w\<lparr>mgr := m'\<rparr>)"
  using assms unfolding agent_inv_def same_conns_def by (auto intro: order_less_le_trans)

lemma agent_inv_dialed: "agent_inv w \<Longrightarrow> agent_inv (w\<lparr>dialing := remove1 x (dialing w)\<rparr>)"
  by (auto simp: agent_inv_def intro: distinct_map_remove1 dest: set_remove1_subset [THEN subsetD])

lemma tab_inv_readLoop: "tab_inv n m \<Longrightarrow> tab_inv n (fst (readLoop ok tid p buf failed m))"
  by (auto simp: readLoop_def Let_def intro: tab_inv_dropIf)

lemma tab_inv_writeLoop: "tab_inv n m \<Longrightarrow> p < length (pheap m) \<Longrightarrow> tab_inv n (fst (writeLoop ok tid p wok m))"
  using tab_invD(5) [of n m p]
  by (cases "writes (pheap m ! p)") (auto simp: writeLoop_def Let_def intro!: tab_inv_dropIf tab_inv_writes)

lemma dial_done_conn:
  "q \<noteq> p \<Longrightarrow> q < length (pheap m) \<Longrightarrow>
   q < length (pheap (fst (dial_done ok tid p c m))) \<and> conn (pheap (fst (dial_done ok tid p c m)) ! q) = conn (pheap m ! q)"
  using same_conns_dropIf [of "m\<lparr>pheap := (pheap m)[p := (pheap m ! p)\<lparr>conn := Some c\<rparr>]\<rparr>" ok tid "Some p" False]
  by (auto simp: dial_done_def setConn_def Let_def same_conns_def)

lemma agent_inv_dial_done:
  assumes "agent_inv w" and "(tid, p) \<in> set (dialing w)"
  shows "agent_inv (w\<lparr>mgr := fst (dial_done ok tid p (conns w) (mgr w)),
      dialing := remove1 (tid, p) (dialing w), conns := Suc (conns w)\<rparr>)"
proof -
  have p: "p < length (pheap (mgr w))" "conn (pheap (mgr w) ! p) = None"
    using assms by (auto simp: agent_inv_def)
  have d: "distinct (map snd (dialing w))" using assms(1) by (simp add: agent_inv_def)
  have ne: "snd e \<noteq> p" if "e \<in> set (remove1 (tid, p) (dialing w))" for e
    using that d assms(2) by (auto simp: distinct_map inj_on_def dest: set_remove1_subset [THEN subsetD])
  have "snd e < length (pheap (mgr w)) \<and> conn (pheap (mgr w) ! snd e) = None"
    if "e \<in> set (remove1 (tid, p) (dialing w))" for e
    using that assms(1) set_remove1_subset [of "(tid, p)" "dialing w"] unfolding agent_inv_def by blast
  with ne dial_done_conn [of _ p "mgr w" ok tid "conns w"] tab_inv_dial_done [OF _ p]
    distinct_map_remove1 [OF d] assms(1)
  show ?thesis unfolding agent_inv_def by simp
qed

lemma agent_inv_message:
  assumes "agent_inv w" and "handleProxyMessage ok env (mgr w) = (m', d, b)"
  shows "agent_inv (w\<lparr>mgr := m',
      dialing := dialing w @ (case d of None \<Rightarrow> [] | Some (req, p) \<Rightarrow> [(open_TunnelID req, p)])\<rparr>)"
proof -
  have i: "tab_inv (conns w) m'" "same_conns (mgr w) m'"
    using handleProxyMessage_inv [OF assms(2)] assms(1) by (auto simp: agent_inv_def)
  note w1 = agent_inv_upd [OF assms(1) i]
  show ?thesis
  proof (cases d)
    case None
    then show ?thesis using w1 by simp
  next
    case (Some x)
    obtain req p where x: "x = (req, p)" by (cases x)
    have p: "p = length (pheap (mgr w))" "p < length (pheap m')" "conn (pheap m' ! p) = None"
      using handleProxyMessage_dial [of ok env "mgr w" m' req p b] assms(2) Some x by auto
    have "p \<notin> snd ` set (dialing w)" using assms(1) p(1) by (fastforce simp: agent_inv_def)
    then show ?thesis using w1 p(2,3) by (simp add: Some x agent_inv_def)
  qed
qed

lemma agent_inv_step:
  assumes "agent_step w w'" and "agent_inv w"
  shows "agent_inv w'"
  using assms(1)
proof cases
  case (message ok env m' d b)
  then show ?thesis using agent_inv_message [OF assms(2)] by simp
next
  case (dial_fails tid p ok err)
  have "agent_inv (w\<lparr>mgr := dial_failed ok tid p err (mgr w)\<rparr>)"
    using assms(2) same_conns_dropIf
    by (intro agent_inv_upd) (auto simp: dial_failed_def agent_inv_def tab_inv_dropIf same_conns_def)
  from agent_inv_dialed [OF this] show ?thesis using dial_fails by simp
next
  case (dial_succeeds tid p ok)
  then show ?thesis using agent_inv_dial_done [OF assms(2)] by simp
next
  case (exit_read ok tid p buf failed)
  then show ?thesis
    using assms(2) by (simp add: agent_inv_upd tab_inv_readLoop same_conns_readLoop agent_inv_def [of w])
next
  case (exit_write p ok tid wok)
  then show ?thesis
    using assms(2) by (simp add: agent_inv_upd tab_inv_writeLoop same_conns_writeLoop agent_inv_def [of w])
next
  case disconnect
  then show ?thesis
    using assms(2) by (simp add: agent_inv_upd dropAll_spec same_conns_dropAll agent_inv_def [of w])
qed

lemma agent_inv_reach: "agent_reach w \<Longrightarrow> agent_inv w"
proof (induction rule: agent_reach.induct)
  case init
  show ?case by (simp add: agent_inv_def agent_start_def tab_inv_init)
qed (rule agent_inv_step)

section \<open>Properties\<close>

definition demo_open_env :: Envelope where
  "demo_open_env = \<lparr>Type = TypeProxyOpen,
     Payload = enc_ProxyOpen \<lparr>open_TunnelID = ''t1'', open_Host = ''example.com'', open_Port = 443\<rparr>\<rparr>"

definition demo_dialed :: AgentWorld where
  "demo_dialed = \<lparr>mgr = \<lparr>pheap = [\<lparr>conn = Some 0, cancelled = False, writes = [], tab_closed = False\<rparr>],
     tabs = [(''t1'', 0)], closed_conns = [],
     sent = [(TypeProxyOpenResult, enc_ProxyOpenResult \<lparr>res_TunnelID = ''t1'', res_OK = True, res_Error = ''''\<rparr>)]\<rparr>,
     dialing = [], conns = 1\<rparr>"

lemma demo_agent_reach: "agent_reach demo_dialed"
proof -
  let ?m = "\<lparr>pheap = [\<lparr>conn = None, cancelled = False, writes = [], tab_closed = False\<rparr>],
     tabs = [(''t1'', 0)], closed_conns = [], sent = []\<rparr>"
  have "handleProxyMessage True demo_open_env proxy_init
      = (?m, Some (\<lparr>open_TunnelID = ''t1'', open_Host = ''example.com'', open_Port = 443\<rparr>, 0), True)"
    by code_simp
  from agent_reach.step [OF agent_reach.init agent_step.message [of True demo_open_env agent_start]] this
  have "agent_reach \<lparr>mgr = ?m, dialing = [(''t1'', 0)], conns = 0\<rparr>" by (simp add: agent_start_def)
  from agent_reach.step [OF this agent_step.dial_succeeds [of "''t1''" 0 _ True]] show ?thesis
    by (simp add: demo_dialed_def dial_done_def setConn_def open_result_def agent_send_def)
qed

text \<open>
  C22: a probe never leaks an exit connection, however dials, closes and disconnects interleave: every
  connection it has dialled is closed or belongs to an open tunnel of the table, queues stay within 32
  chunks, and losing the Host closes every connection.
\<close>

theorem no_leaked_connection:
  assumes "agent_reach w" and "c < conns w"
  shows "(c \<in> set (closed_conns (mgr w))
      \<or> (\<exists>tid p. mget (tabs (mgr w)) tid = Some p \<and> conn (pheap (mgr w) ! p) = Some c
           \<and> \<not> tab_closed (pheap (mgr w) ! p) \<and> length (writes (pheap (mgr w) ! p)) \<le> proxyWriteQueue))
    \<and> c \<in> set (closed_conns (dropAll (mgr w)))"
proof -
  have i: "tab_inv (conns w) (mgr w)" using agent_inv_reach [OF assms(1)] by (simp add: agent_inv_def)
  show ?thesis
    using tab_invD(6) [OF i assms(2)] tab_invD(4,5) [OF i] dropAll_closes [OF i assms(2)] by blast
qed

theorem no_leaked_connection_witness:
  "(0 \<in> set (closed_conns (mgr demo_dialed))
      \<or> (\<exists>tid p. mget (tabs (mgr demo_dialed)) tid = Some p \<and> conn (pheap (mgr demo_dialed) ! p) = Some 0
           \<and> \<not> tab_closed (pheap (mgr demo_dialed) ! p)
           \<and> length (writes (pheap (mgr demo_dialed) ! p)) \<le> proxyWriteQueue))
    \<and> 0 \<in> set (closed_conns (dropAll (mgr demo_dialed)))"
  by (rule no_leaked_connection [OF demo_agent_reach]) (simp add: demo_dialed_def)

text \<open>
  a goroutine that outlives its tunnel cannot hurt a newer one. When the table holds another tunnel
  under the same id, the clean-up of the old one changes nothing, and a dial that ends after its tunnel
  was closed closes the new connection without reporting success.
\<close>

theorem stale_goroutine_harmless:
  assumes "mget (tabs m) tid = Some q" and "q \<noteq> p"
  shows "dropIf ok tid (Some p) notify m = m
    \<and> (tab_closed (pheap m ! p) \<longrightarrow>
        dial_done ok tid p c m = (m\<lparr>closed_conns := c # closed_conns m\<rparr>, False))"
  using assms by (simp add: dropIf_def dial_done_def setConn_def)

theorem stale_goroutine_harmless_witness:
  "dropIf True ''t1'' (Some 7) True (mgr demo_dialed) = mgr demo_dialed"
  using stale_goroutine_harmless [of "mgr demo_dialed" "''t1''" 0 7 True True]
  by (simp add: demo_dialed_def mget_def)

end
