(* ===== verification/Agent_Client.thy ===== *)
theory Agent_Client
  imports Agent_Proxy Reports Pinger "HOL-Library.Multiset"
begin

text \<open>
  The probe's connection to the Host, \<^verbatim>\<open>agent/internal/client/queue.go\<close>, \<^verbatim>\<open>client.go\<close> and \<^verbatim>\<open>loop.go\<close>: the report
  queue that bridges disconnections, the stages of one connection, the dispatch of the Host's messages
  and the back-off between connections. Whether a write succeeds is an argument; \<open>wire\<close> records what was written.
\<close>

section \<open>State\<close>

definition reportQueueCap :: nat where "reportQueueCap = 500"

record Client =
  cl_conn :: bool
  cl_online :: bool
  cl_agentID :: string
  reportQueue :: "PingReportPayload list"
  wire :: "(MessageType \<times> json) list"

definition NewClient :: Client where
  "NewClient = \<lparr>cl_conn = False, cl_online = False, cl_agentID = '''', reportQueue = [], wire = []\<rparr>"

definition sendEnvelope :: "bool \<Rightarrow> MessageType \<Rightarrow> json \<Rightarrow> Client \<Rightarrow> Client \<times> string option" where
  "sendEnvelope wok ty payload c =
     (if \<not> cl_conn c then (c, Some ''websocket connection is nil'')
      else if wok then (c\<lparr>wire := wire c @ [(ty, payload)]\<rparr>, None)
      else (c, Some ''write failed''))"

section \<open>Reports\<close>

text \<open>A report is stamped with the id of the current registration before it is sent, also when the write fails.\<close>

definition QueueReport :: "(int option \<Rightarrow> string) \<Rightarrow> bool \<Rightarrow> PingReportPayload \<Rightarrow> Client \<Rightarrow> Client" where
  "QueueReport fmt wok report c =
     (let isOnline = cl_online c \<and> cl_conn c;
          r1 = (if isOnline then report\<lparr>rep_AgentID := cl_agentID c\<rparr> else report);
          (c1, sent) = (if isOnline then
               (let (c', err) = sendEnvelope wok TypePingReport (enc_PingReport fmt r1) c in (c', err = None))
             else (c, False))
      in if sent then c1
         else c1\<lparr>reportQueue := (if length (reportQueue c1) \<ge> reportQueueCap then tl (reportQueue c1) else reportQueue c1) @ [r1]\<rparr>)"

definition SendTracerouteReport :: "(int option \<Rightarrow> string) \<Rightarrow> bool \<Rightarrow> TracerouteReportPayload \<Rightarrow> Client \<Rightarrow> Client" where
  "SendTracerouteReport fmt wok report c =
     (if cl_online c \<and> cl_conn c
      then fst (sendEnvelope wok TypeTracerouteReport (enc_TracerouteReport fmt (report\<lparr>tr_AgentID := cl_agentID c\<rparr>)) c)
      else c)"

text \<open>\<open>oks\<close> says for each queued report in turn whether its write succeeds.\<close>

fun flush_loop :: "(int option \<Rightarrow> string) \<Rightarrow> bool list \<Rightarrow> PingReportPayload list \<Rightarrow> Client \<Rightarrow> Client \<times> PingReportPayload list" where
  "flush_loop fmt oks [] c = (c, [])"
| "flush_loop fmt oks (report # rest) c =
     (let r1 = report\<lparr>rep_AgentID := cl_agentID c\<rparr>;
          (c1, err) = sendEnvelope (oks \<noteq> [] \<and> hd oks) TypePingReport (enc_PingReport fmt r1) c;
          (c2, rem) = flush_loop fmt (tl oks) rest c1
      in (c2, (if err = None then rem else r1 # rem)))"

definition flushQueuedReports :: "(int option \<Rightarrow> string) \<Rightarrow> bool list \<Rightarrow> Client \<Rightarrow> Client" where
  "flushQueuedReports fmt oks c =
     (if reportQueue c = [] then c
      else let (c1, rem) = flush_loop fmt oks (reportQueue c) c in c1\<lparr>reportQueue := rem\<rparr>)"

definition SendUpdateResult :: "bool \<Rightarrow> UpdateResultPayload \<Rightarrow> Client \<Rightarrow> Client" where
  "SendUpdateResult wok res c = fst (sendEnvelope wok TypeUpdateResult (enc_UpdateResult (res\<lparr>upd_AgentID := cl_agentID c\<rparr>)) c)"

definition heartbeat :: "bool \<Rightarrow> Client \<Rightarrow> Client \<times> bool" where
  "heartbeat wok c =
     (let (c1, err) = sendEnvelope wok TypeHeartbeat
            (JObj [(''agent_id'', JStr (cl_agentID c)), (''uptime_sec'', JNum 0)]) c
      in (c1, err = None))"

section \<open>One connection\<close>

text \<open>
  \<^verbatim>\<open>connectAndServe\<close> in its stages: the socket is open, the Host has answered the registration, the read
  loop ends. \<open>answer\<close> is the first message read (\<open>None\<close> when reading failed). The result of the second stage is the
  error text, if any; then the deferred clean-up follows.
\<close>

definition dialed :: "Client \<Rightarrow> Client" where
  "dialed c = c\<lparr>cl_conn := True, cl_online := False\<rparr>"

definition register :: "bool \<Rightarrow> RegisterRequest \<Rightarrow> Envelope option \<Rightarrow> Client \<Rightarrow> Client \<times> string option" where
  "register wok req answer c =
     (case sendEnvelope wok TypeRegisterRequest (enc_RegisterRequest req) c of
        (c1, Some e) \<Rightarrow> (c1, Some e)
      | (c1, None) \<Rightarrow>
          (case answer of
             None \<Rightarrow> (c1, Some ''read failed'')
           | Some env \<Rightarrow>
               (case dec_RegisterResponse (Payload env) of
                  None \<Rightarrow> (c1, Some ''registration failed: '')
                | Some resp \<Rightarrow>
                    if \<not> Success resp then (c1, Some (''registration failed: '' @ rr_Message resp))
                    else (c1\<lparr>cl_agentID := rr_AgentID resp, cl_online := True\<rparr>, None))))"

definition conn_closed :: "Client \<Rightarrow> Client" where
  "conn_closed c = c\<lparr>cl_online := False, cl_conn := False\<rparr>"

section \<open>Messages from the Host\<close>

text \<open>What the read loop does with a message besides the proxy: new targets, an update check, a soft exit.\<close>

datatype host_command = CmdProxy | CmdTargets "TargetConfig list" | CmdUpdateCheck | CmdSoftExit | CmdIgnored

definition dispatch :: "Envelope \<Rightarrow> host_command" where
  "dispatch env =
     (if Type env \<in> {TypeProxyOpen, TypeProxyData, TypeProxyClose} then CmdProxy
      else if Type env = TypeTargetSync then
        (case dec_TargetSync (Payload env) of Some ts \<Rightarrow> CmdTargets ts | None \<Rightarrow> CmdIgnored)
      else if Type env = TypeUpdateCheck then CmdUpdateCheck
      else if Type env = TypeSoftExit then CmdSoftExit
      else CmdIgnored)"

section \<open>Back-off\<close>

definition second :: int where "second = 1000000000"

text \<open>\<open>registered\<close> says whether the attempt got as far as a successful registration, which resets the back-off.\<close>

definition attempt_backoff :: "bool \<Rightarrow> int \<Rightarrow> int" where
  "attempt_backoff registered backoff = (if registered then 2 * second else backoff)"

definition next_backoff :: "int \<Rightarrow> int" where
  "next_backoff backoff = (if backoff * 2 > 30 * second then 30 * second else backoff * 2)"

text \<open>The waits of \<^verbatim>\<open>connectionLoop\<close>, one per attempt.\<close>

fun connectionLoop_waits :: "int \<Rightarrow> bool list \<Rightarrow> int list" where
  "connectionLoop_waits backoff [] = []"
| "connectionLoop_waits backoff (registered # rest) =
     (let b = attempt_backoff registered backoff in b # connectionLoop_waits (next_backoff b) rest)"

section \<open>Address of the Host\<close>

text \<open>\<open>parse\<close> stands for \<^verbatim>\<open>url.Parse\<close>: scheme and host of a URL, or an error.\<close>

definition buildWSURL :: "(string \<Rightarrow> string + string \<times> string) \<Rightarrow> string \<Rightarrow> string + string" where
  "buildWSURL parse serverURL =
     (let raw = TrimRight serverURL (CHR ''/'');
          raw1 = (if Contains raw ''://'' then raw else ''https://'' @ raw)
      in case parse raw1 of
           Inl e \<Rightarrow> Inl e
         | Inr (scheme, host) \<Rightarrow>
             Inr ((if scheme = ''http'' \<or> scheme = ''ws'' then ''ws'' else ''wss'') @ ''://'' @ host @ ''/api/agent/ws''))"


section \<open>No report is lost or sent twice\<close>

datatype client_op =
  OpQueue bool PingReportPayload
| OpFlush "bool list"
| OpDial
| OpRegister bool RegisterRequest "Envelope option"
| OpClose
| OpHeartbeat bool
| OpUpdate bool UpdateResultPayload
| OpTrace bool TracerouteReportPayload

fun client_apply :: "(int option \<Rightarrow> string) \<Rightarrow> client_op \<Rightarrow> Client \<Rightarrow> Client" where
  "client_apply fmt (OpQueue wok r) c = QueueReport fmt wok r c"
| "client_apply fmt (OpFlush oks) c = flushQueuedReports fmt oks c"
| "client_apply fmt OpDial c = dialed c"
| "client_apply fmt (OpRegister wok req ans) c = fst (register wok req ans c)"
| "client_apply fmt OpClose c = conn_closed c"
| "client_apply fmt (OpHeartbeat wok) c = fst (heartbeat wok c)"
| "client_apply fmt (OpUpdate wok res) c = SendUpdateResult wok res c"
| "client_apply fmt (OpTrace wok rep) c = SendTracerouteReport fmt wok rep c"

fun client_run :: "(int option \<Rightarrow> string) \<Rightarrow> client_op list \<Rightarrow> Client \<Rightarrow> Client" where
  "client_run fmt [] c = c"
| "client_run fmt (op # ops) c = client_run fmt ops (client_apply fmt op c)"

fun queued_by :: "client_op list \<Rightarrow> PingReportPayload list" where
  "queued_by [] = []"
| "queued_by (OpQueue wok r # ops) = r # queued_by ops"
| "queued_by (op # ops) = queued_by ops"

text \<open>The reports on the wire as the Host reads them, and a report without its stamp.\<close>

definition wire_reports :: "(string \<Rightarrow> int option option) \<Rightarrow> Client \<Rightarrow> PingReportPayload list" where
  "wire_reports parse c = List.map_filter (\<lambda>(ty, p). if ty = TypePingReport then dec_PingReport parse p else None) (wire c)"

definition unstamped :: "PingReportPayload \<Rightarrow> PingReportPayload" where
  "unstamped r = r\<lparr>rep_AgentID := ''''\<rparr>"

lemma unstamped_stamp [simp]: "unstamped (r\<lparr>rep_AgentID := a\<rparr>) = unstamped r"
  by (simp add: unstamped_def)

definition report_bag :: "(string \<Rightarrow> int option option) \<Rightarrow> Client \<Rightarrow> PingReportPayload multiset" where
  "report_bag parse c = mset (map unstamped (wire_reports parse c)) + mset (map unstamped (reportQueue c))"

definition queue_ok :: "Client \<Rightarrow> bool" where
  "queue_ok c \<longleftrightarrow> list_all (\<lambda>r. list_all ping_ok (Results r)) (reportQueue c)"

lemma wire_reports_snoc:
  "wire c' = wire c @ [(ty, p)] \<Longrightarrow>
     wire_reports parse c' = wire_reports parse c @ (if ty = TypePingReport then case dec_PingReport parse p of None \<Rightarrow> [] | Some r \<Rightarrow> [r] else [])"
  by (simp add: wire_reports_def map_filter_def split: option.splits)

lemma sendEnvelope_frame:
  "sendEnvelope wok ty p c = (c', e) \<Longrightarrow> reportQueue c' = reportQueue c \<and> cl_agentID c' = cl_agentID c \<and> cl_conn c' = cl_conn c \<and>
     cl_online c' = cl_online c \<and> wire c' = (if e = None then wire c @ [(ty, p)] else wire c)"
  by (auto simp: sendEnvelope_def split: if_splits)

text \<open>Sending anything but a ping report leaves the bag alone.\<close>

lemma send_other_bag:
  assumes "sendEnvelope wok ty p c = (c', e)" and "ty \<noteq> TypePingReport"
  shows "report_bag parse c' = report_bag parse c \<and> reportQueue c' = reportQueue c"
  using sendEnvelope_frame [OF assms(1)] assms(2) wire_reports_snoc [of c' c ty p parse]
  by (auto simp: report_bag_def wire_reports_def split: if_splits)

lemma send_report_bag:
  assumes "\<And>t. parse (fmt t) = Some t" and "list_all ping_ok (Results r)"
    and "sendEnvelope wok TypePingReport (enc_PingReport fmt r) c = (c', e)"
  shows "mset (map unstamped (wire_reports parse c')) =
    mset (map unstamped (wire_reports parse c)) + (if e = None then {#unstamped r#} else {#})"
  using sendEnvelope_frame [OF assms(3)] wire_reports_snoc [of c' c TypePingReport "enc_PingReport fmt r" parse]
  by (auto simp: dec_enc_PingReport [OF assms(1,2)] wire_reports_def split: if_splits)

lemma flush_loop_bag:
  assumes "\<And>t. parse (fmt t) = Some t"
  shows "list_all (\<lambda>r. list_all ping_ok (Results r)) rs \<Longrightarrow> flush_loop fmt oks rs c = (c', rem) \<Longrightarrow>
    mset (map unstamped (wire_reports parse c')) + mset (map unstamped rem) =
      mset (map unstamped (wire_reports parse c)) + mset (map unstamped rs) \<and>
    list_all (\<lambda>r. list_all ping_ok (Results r)) rem \<and> length rem \<le> length rs"
proof (induction rs arbitrary: oks c c' rem)
  case (Cons r rs)
  let ?r = "r\<lparr>rep_AgentID := cl_agentID c\<rparr>"
  obtain c1 e where s: "sendEnvelope (oks \<noteq> [] \<and> hd oks) TypePingReport (enc_PingReport fmt ?r) c = (c1, e)" by (rule prod.exhaust)
  obtain c2 rm where f: "flush_loop fmt (tl oks) rs c1 = (c2, rm)" by (rule prod.exhaust)
  have ok: "list_all ping_ok (Results ?r)" and oks: "list_all (\<lambda>r. list_all ping_ok (Results r)) rs" using Cons.prems(1) by simp_all
  have c': "c' = c2" "rem = (if e = None then rm else ?r # rm)" using Cons.prems(2) s f by (simp_all add: Let_def)
  show ?case
    using Cons.IH [OF oks f] send_report_bag [OF assms ok s] ok
    by (auto simp: c' ac_simps split: if_splits)
qed simp

lemma client_apply_bag:
  assumes law: "\<And>t. parse (fmt t) = Some t" and "queue_ok c" and "list_all (\<lambda>r. list_all ping_ok (Results r)) (queued_by [op])"
    and "length (reportQueue c) + length (queued_by [op]) \<le> reportQueueCap"
  shows "report_bag parse (client_apply fmt op c) = report_bag parse c + mset (map unstamped (queued_by [op])) \<and>
    queue_ok (client_apply fmt op c) \<and>
    length (reportQueue (client_apply fmt op c)) \<le> length (reportQueue c) + length (queued_by [op])"
proof (cases op)
  case (OpQueue wok r)
  let ?r = "r\<lparr>rep_AgentID := cl_agentID c\<rparr>"
  obtain c1 e where s: "sendEnvelope wok TypePingReport (enc_PingReport fmt ?r) c = (c1, e)" by (rule prod.exhaust)
  have ok: "list_all ping_ok (Results ?r)" using assms(3) by (simp add: OpQueue)
  have len: "length (reportQueue c) < reportQueueCap" using assms(4) by (simp add: OpQueue)
  show ?thesis
    using send_report_bag [OF law ok s] sendEnvelope_frame [OF s] assms(2) ok len
    by (auto simp: OpQueue QueueReport_def s Let_def report_bag_def queue_ok_def wire_reports_def)
next
  case (OpFlush oks)
  obtain c1 rm where f: "flush_loop fmt oks (reportQueue c) c = (c1, rm)" by (rule prod.exhaust)
  show ?thesis
    using flush_loop_bag [OF law assms(2) [unfolded queue_ok_def] f] assms(2)
    by (auto simp: OpFlush flushQueuedReports_def f report_bag_def queue_ok_def wire_reports_def)
next
  case (OpRegister wok req ans)
  obtain c1 e where s: "sendEnvelope wok TypeRegisterRequest (enc_RegisterRequest req) c = (c1, e)" by (rule prod.exhaust)
  have "report_bag parse (fst (register wok req ans c)) = report_bag parse c1 \<and> reportQueue (fst (register wok req ans c)) = reportQueue c1"
    by (auto simp: register_def s report_bag_def wire_reports_def split: option.splits)
  then show ?thesis using send_other_bag [OF s, of parse] assms(2) by (simp add: OpRegister queue_ok_def)
next
  case (OpHeartbeat wok)
  obtain c1 e where s: "sendEnvelope wok TypeHeartbeat (JObj [(''agent_id'', JStr (cl_agentID c)), (''uptime_sec'', JNum 0)]) c = (c1, e)"
    by (rule prod.exhaust)
  show ?thesis using send_other_bag [OF s, of parse] assms(2) by (simp add: OpHeartbeat heartbeat_def s queue_ok_def)
next
  case (OpUpdate wok res)
  obtain c1 e where s: "sendEnvelope wok TypeUpdateResult (enc_UpdateResult (res\<lparr>upd_AgentID := cl_agentID c\<rparr>)) c = (c1, e)"
    by (rule prod.exhaust)
  show ?thesis using send_other_bag [OF s, of parse] assms(2) by (simp add: OpUpdate SendUpdateResult_def s queue_ok_def)
next
  case (OpTrace wok rep)
  obtain c1 e where s: "sendEnvelope wok TypeTracerouteReport (enc_TracerouteReport fmt (rep\<lparr>tr_AgentID := cl_agentID c\<rparr>)) c = (c1, e)"
    by (rule prod.exhaust)
  show ?thesis using send_other_bag [OF s, of parse] assms(2) by (simp add: OpTrace SendTracerouteReport_def s queue_ok_def)
qed (use assms in \<open>simp_all add: dialed_def conn_closed_def report_bag_def wire_reports_def queue_ok_def\<close>)

lemma queued_by_Cons: "queued_by (op # ops) = queued_by [op] @ queued_by ops"
  by (cases op) simp_all

lemma client_run_bag:
  assumes "\<And>t. parse (fmt t) = Some t"
  shows "queue_ok c \<Longrightarrow> list_all (\<lambda>r. list_all ping_ok (Results r)) (queued_by ops) \<Longrightarrow>
    length (reportQueue c) + length (queued_by ops) \<le> reportQueueCap \<Longrightarrow>
    report_bag parse (client_run fmt ops c) = report_bag parse c + mset (map unstamped (queued_by ops))"
proof (induction ops arbitrary: c)
  case (Cons op ops)
  note q = queued_by_Cons [of op ops]
  have a: "report_bag parse (client_apply fmt op c) = report_bag parse c + mset (map unstamped (queued_by [op])) \<and>
      queue_ok (client_apply fmt op c) \<and>
      length (reportQueue (client_apply fmt op c)) \<le> length (reportQueue c) + length (queued_by [op])"
    using Cons.prems unfolding q by (intro client_apply_bag assms) simp_all
  have "report_bag parse (client_run fmt ops (client_apply fmt op c)) =
      report_bag parse (client_apply fmt op c) + mset (map unstamped (queued_by ops))"
    using Cons.prems a unfolding q by (intro Cons.IH) simp_all
  then show ?case using a by (simp add: q)
qed simp

section \<open>Properties\<close>

text \<open>
  C23: whatever happens to the connection (it comes and goes, writes fail, the queue is flushed in part), as
  long as no more than 500 reports are handed over every one of them is either on the wire exactly
  once, readable by the Host, or still queued.
\<close>

theorem reports_conserved:
  assumes "\<And>t. parse (fmt t) = Some t" and "list_all (\<lambda>r. list_all ping_ok (Results r)) (queued_by ops)"
    and "length (queued_by ops) \<le> 500"
  shows "mset (map unstamped (wire_reports parse (client_run fmt ops NewClient))) +
      mset (map unstamped (reportQueue (client_run fmt ops NewClient))) = mset (map unstamped (queued_by ops))"
  using client_run_bag [of parse fmt NewClient ops] assms
  by (simp add: report_bag_def NewClient_def queue_ok_def wire_reports_def map_filter_def reportQueueCap_def)


definition plain_time :: "int option \<Rightarrow> string" where
  "plain_time t = (case t of None \<Rightarrow> '''' | Some n \<Rightarrow> (if n < 0 then CHR ''-'' else CHR ''+'') # replicate (nat \<bar>n\<bar>) (CHR ''1''))"

definition read_plain_time :: "string \<Rightarrow> int option option" where
  "read_plain_time s = (case s of [] \<Rightarrow> Some None
     | c # r \<Rightarrow> Some (Some (if c = CHR ''-'' then - int (length r) else int (length r))))"

lemma read_plain_time: "read_plain_time (plain_time t) = Some t"
  by (cases t) (auto simp: plain_time_def read_plain_time_def)

definition empty_report :: "string \<Rightarrow> PingReportPayload" where
  "empty_report a = \<lparr>rep_AgentID = a, Results = []\<rparr>"

theorem reports_conserved_witness:
  "mset (map unstamped (wire_reports read_plain_time (client_run plain_time
      [OpQueue True (empty_report ''x''), OpDial, OpRegister True \<lparr>Token = ''k'', Hostname = '''', reg_OS = '''', reg_Arch = '''', reg_Version = ''''\<rparr>
         (Some \<lparr>Type = TypeRegisterResponse, Payload = enc_RegisterResponse \<lparr>Success = True, rr_AgentID = ''a'', rr_Message = ''''\<rparr>\<rparr>),
       OpFlush [True]] NewClient))) = {#empty_report ''''#}"
proof -
  let ?req = "\<lparr>Token = ''k'', Hostname = '''', reg_OS = '''', reg_Arch = '''', reg_Version = ''''\<rparr>"
  let ?ops = "[OpQueue True (empty_report ''x''), OpDial, OpRegister True ?req
    (Some \<lparr>Type = TypeRegisterResponse, Payload = enc_RegisterResponse \<lparr>Success = True, rr_AgentID = ''a'', rr_Message = ''''\<rparr>\<rparr>),
    OpFlush [True]]"
  have q: "reportQueue (client_run plain_time ?ops NewClient) = []"
    by (simp add: NewClient_def QueueReport_def reportQueueCap_def dialed_def register_def sendEnvelope_def
        dec_enc_RegisterResponse flushQueuedReports_def Let_def)
  have "mset (map unstamped (wire_reports read_plain_time (client_run plain_time ?ops NewClient))) +
      mset (map unstamped (reportQueue (client_run plain_time ?ops NewClient))) = mset (map unstamped (queued_by ?ops))"
    by (rule reports_conserved [OF read_plain_time]) (simp_all add: empty_report_def)
  then show ?thesis unfolding q by (simp add: unstamped_def empty_report_def del: client_run.simps)
qed

lemma QueueReport_offline:
  "\<not> (cl_online c \<and> cl_conn c) \<Longrightarrow> length (reportQueue c) \<le> reportQueueCap \<Longrightarrow>
     QueueReport fmt wok r c = c\<lparr>reportQueue := keep_last reportQueueCap (reportQueue c @ [r])\<rparr>"
  by (cases "length (reportQueue c) = reportQueueCap")
    (auto simp: QueueReport_def keep_last_def reportQueueCap_def Let_def drop_Suc)

text \<open>
  while the probe is offline its queue holds the newest 500 reports in the order they came, and
  nothing is written.
\<close>

theorem offline_keeps_newest:
  assumes "\<not> (cl_online c \<and> cl_conn c)" and "length (reportQueue c) \<le> 500"
  shows "foldl (\<lambda>c r. QueueReport fmt wok r c) c rs = c\<lparr>reportQueue := keep_last 500 (reportQueue c @ rs)\<rparr>"
  using assms
proof (induction rs arbitrary: c)
  case Nil
  then show ?case by (simp add: keep_last_id)
next
  case (Cons r rs)
  have q: "QueueReport fmt wok r c = c\<lparr>reportQueue := keep_last 500 (reportQueue c @ [r])\<rparr>"
    using QueueReport_offline [of c] Cons.prems by (simp add: reportQueueCap_def)
  show ?case
    using Cons.IH [of "c\<lparr>reportQueue := keep_last 500 (reportQueue c @ [r])\<rparr>"] Cons.prems
    by (simp add: q keep_last_append [of 500 "reportQueue c @ [r]", simplified])
qed

theorem offline_keeps_newest_witness:
  "reportQueue (foldl (\<lambda>c r. QueueReport plain_time True r c) NewClient [empty_report ''x'', empty_report ''y'']) =
     [empty_report ''x'', empty_report ''y'']"
  using offline_keeps_newest [of NewClient plain_time True "[empty_report ''x'', empty_report ''y'']"]
  by (simp add: NewClient_def keep_last_def)

lemma backoff_step: "2 * second \<le> b \<Longrightarrow> b \<le> 30 * second \<Longrightarrow> 2 * second \<le> next_backoff b \<and> next_backoff b \<le> 30 * second"
  by (simp add: next_backoff_def second_def)

lemma waits_bounds:
  "2 * second \<le> b \<Longrightarrow> b \<le> 30 * second \<Longrightarrow> list_all (\<lambda>w. 2 * second \<le> w \<and> w \<le> 30 * second) (connectionLoop_waits b rs)"
proof (induction b rs rule: connectionLoop_waits.induct)
  case (2 b r rs)
  have "2 * second \<le> attempt_backoff r b" "attempt_backoff r b \<le> 30 * second" using 2(2,3) by (auto simp: attempt_backoff_def second_def)
  then show ?case using 2(1) backoff_step by (simp add: Let_def)
qed simp

lemma waits_nth:
  "Suc i < length rs \<Longrightarrow> connectionLoop_waits b rs ! Suc i =
     attempt_backoff (rs ! Suc i) (next_backoff (connectionLoop_waits b rs ! i))"
proof (induction b rs arbitrary: i rule: connectionLoop_waits.induct)
  case (2 b r rs)
  then show ?case by (cases i; cases rs) (auto simp: Let_def)
qed simp

text \<open>
  the waits between connection attempts are between 2 and 30 seconds; each wait without a registration
  in between is twice the one before up to the limit, and a registration sets it back to 2 seconds.
\<close>

theorem backoff_bounds:
  "list_all (\<lambda>w. 2 * second \<le> w \<and> w \<le> 30 * second) (connectionLoop_waits (2 * second) rs) \<and>
   list_all (\<lambda>i. connectionLoop_waits (2 * second) rs ! Suc i =
     (if rs ! Suc i then 2 * second else min (30 * second) (2 * connectionLoop_waits (2 * second) rs ! i))) [0..<length rs - 1]"
  using waits_bounds [of "2 * second" rs] waits_nth [of _ rs "2 * second"]
  by (auto simp: list_all_iff attempt_backoff_def next_backoff_def second_def min_def)

text \<open>
  the text with which the Host refuses a registration never reaches the probe's log: it is a bare
  string, which the probe fails to decode as a registration response.
\<close>

theorem refusal_text_lost:
  "snd (register True req (Some \<lparr>Type = TypeError, Payload = JStr msg\<rparr>) (dialed c)) = Some ''registration failed: ''"
  by (simp add: register_def sendEnvelope_def dialed_def dec_RegisterResponse_def)

end
