(* ===== verification/Updater.thy ===== *)
theory Updater
  imports Version Go_Encoding
begin

text \<open>
  The probe's self-update, \<^verbatim>\<open>agent/internal/updater\<close>: which release is the latest, where its files are, the
  download with its verification and the replacement of the running executable on a file system. HTTP, SHA-256 and
  the outcome of every system call are arguments.
\<close>

section \<open>Names and mirrors\<close>

text \<open>\<open>uname\<close> and \<open>cpuinfo\<close> are the output of \<^verbatim>\<open>uname -m\<close> and the contents of \<^verbatim>\<open>/proc/cpuinfo\<close>, when they can be read.\<close>

definition arm_of_cpuinfo :: "string option \<Rightarrow> string" where
  "arm_of_cpuinfo cpuinfo =
     (case cpuinfo of
        None \<Rightarrow> ''armv7''
      | Some s \<Rightarrow> if Contains s ''v7'' then ''armv7'' else if Contains s ''v6'' then ''armv6''
                  else if Contains s ''v5'' then ''armv5'' else ''armv7'')"

definition detectLinuxArmArch :: "string option \<Rightarrow> string option \<Rightarrow> string" where
  "detectLinuxArmArch uname cpuinfo =
     (case uname of
        None \<Rightarrow> arm_of_cpuinfo cpuinfo
      | Some out \<Rightarrow>
          (let s = TrimSpace out
           in if HasPrefix s ''armv7'' then ''armv7'' else if HasPrefix s ''armv6'' then ''armv6''
              else if HasPrefix s ''armv5'' then ''armv5'' else arm_of_cpuinfo cpuinfo))"

definition getBinaryNameFor :: "string option \<Rightarrow> string option \<Rightarrow> string \<Rightarrow> string \<Rightarrow> string + string" where
  "getBinaryNameFor uname cpuinfo goos goarch =
     (if goos = ''linux'' then
        (if goarch \<in> set [''amd64'', ''386'', ''arm64'', ''riscv64'', ''ppc64le'', ''s390x'', ''mips'', ''mipsle'', ''mips64'', ''mips64le'']
         then Inr (''justping-agent-linux-'' @ goarch)
         else if goarch = ''arm'' then Inr (''justping-agent-linux-'' @ detectLinuxArmArch uname cpuinfo)
         else Inl (''unsupported Linux architecture: '' @ goarch))
      else if goos = ''windows'' then
        (if goarch \<in> set [''amd64'', ''386''] then Inr (''justping-agent-windows-'' @ goarch @ ''.exe'')
         else Inl (''unsupported Windows architecture: '' @ goarch))
      else Inl (''unsupported OS: '' @ goos))"

definition DefaultChinaMirrors :: "string list" where
  "DefaultChinaMirrors =
     [''https://ghfast.top'', ''https://gh-proxy.com'', ''https://ghproxy.net'', ''https://gh.llkk.cc'', ''https://cors.isteed.cc'']"

definition GetDownloadCandidates :: "string \<Rightarrow> string \<Rightarrow> bool \<Rightarrow> string list" where
  "GetDownloadCandidates repo version chinaMirror =
     (let cleanVer = (if \<not> HasPrefix version ''v'' \<and> \<not> HasPrefix version ''V'' then ''v'' @ version else version);
          releasePath = ''/'' @ repo @ ''/releases/download/'' @ cleanVer;
          direct = ''https://github.com'' @ releasePath
      in if \<not> chinaMirror then [direct]
         else map (\<lambda>m. TrimRight m (CHR ''/'') @ ''/https://github.com'' @ releasePath) DefaultChinaMirrors @ [direct])"

definition GetLatestCandidates :: "string \<Rightarrow> bool \<Rightarrow> string list" where
  "GetLatestCandidates repo chinaMirror =
     (let direct = ''https://github.com/'' @ repo @ ''/releases/latest''
      in if \<not> chinaMirror then [direct]
         else map (\<lambda>m. TrimRight m (CHR ''/'') @ ''/https://github.com/'' @ repo @ ''/releases/latest'') DefaultChinaMirrors @ [direct])"

section \<open>The latest release\<close>

text \<open>
  The tag pattern is \<^verbatim>\<open>releases/tag/(v?[0-9]+(?:\.[0-9]+)*(?:-[0-9A-Za-z._-]+)?)\<close>. Each part is greedy and
  everything after the first digits is optional, so the match at a position is the text the functions below take;
  the leftmost position that matches counts.
\<close>

definition tag_char :: "char \<Rightarrow> bool" where
  "tag_char c \<longleftrightarrow> is_digit c \<or> c \<in> set ''abcdefghijklmnopqrstuvwxyzABCDEFGHIJKLMNOPQRSTUVWXYZ._-''"

function tag_dots :: "string \<Rightarrow> string" where
  "tag_dots s =
     (case s of
        [] \<Rightarrow> []
      | c # t \<Rightarrow>
          (if c = CHR ''.'' \<and> takeWhile is_digit t \<noteq> []
           then c # takeWhile is_digit t @ tag_dots (dropWhile is_digit t) else []))"
  by pat_completeness auto

termination
  by (relation "measure length") (auto simp: less_Suc_eq_le length_dropWhile_le)

declare tag_dots.simps [simp del]

definition tag_pre :: "string \<Rightarrow> string" where
  "tag_pre s = (case s of [] \<Rightarrow> [] | c # t \<Rightarrow> if c = CHR ''-'' \<and> takeWhile tag_char t \<noteq> [] then c # takeWhile tag_char t else [])"

definition tag_body :: "string \<Rightarrow> string option" where
  "tag_body s =
     (let v = (if HasPrefix s ''v'' then ''v'' else []); t = drop (length v) s;
          ds = takeWhile is_digit t; t1 = drop (length ds) t;
          dots = tag_dots t1; t2 = drop (length dots) t1
      in if ds = [] then None else Some (v @ ds @ dots @ tag_pre t2))"

definition tag_here :: "string \<Rightarrow> string option" where
  "tag_here s = (if HasPrefix s ''releases/tag/'' then tag_body (drop (length ''releases/tag/'') s) else None)"

fun tagRegex_find :: "string \<Rightarrow> string option" where
  "tagRegex_find [] = None"
| "tagRegex_find (c # s) = (case tag_here (c # s) of Some t \<Rightarrow> Some t | None \<Rightarrow> tagRegex_find s)"

text \<open>
  An HTTP response: status, the \<^verbatim>\<open>Location\<close> header and the body, which reading may fail on. \<open>api\<close> is the answer of
  the API at a URL after JSON decoding: status and tag name, or an error.
\<close>

record Response =
  StatusCode :: int
  Location :: string
  Body :: string
  body_ok :: bool

definition queryEndpointForTag :: "(string \<Rightarrow> string + Response) \<Rightarrow> string \<Rightarrow> string + string" where
  "queryEndpointForTag http url =
     (case http url of
        Inl e \<Rightarrow> Inl e
      | Inr resp \<Rightarrow>
          (let redirect = (if StatusCode resp \<ge> 300 \<and> StatusCode resp < 400 \<and> Location resp \<noteq> [] then tagRegex_find (Location resp) else None);
               page = (if StatusCode resp = 200 then tagRegex_find (take 65536 (Body resp)) else None)
           in case redirect of
                Some t \<Rightarrow> Inr t
              | None \<Rightarrow>
                  (case page of
                     Some t \<Rightarrow> Inr t
                   | None \<Rightarrow> Inl (''tag not found from '' @ url @ '' (status '' @ Itoa (StatusCode resp) @ '')''))))"

definition queryAPIForTag :: "(string \<Rightarrow> string + int \<times> string option) \<Rightarrow> string \<Rightarrow> string + string" where
  "queryAPIForTag api url =
     (case api url of
        Inl e \<Rightarrow> Inl e
      | Inr (status, tag) \<Rightarrow>
          if status \<noteq> 200 then Inl (''GitHub API returned status '' @ Itoa status)
          else case tag of
                 None \<Rightarrow> Inl ''invalid JSON''
               | Some t \<Rightarrow> if t = [] then Inl ''empty tag_name in API response'' else Inr t)"

fun first_tag :: "(string \<Rightarrow> string + string) \<Rightarrow> string list \<Rightarrow> string option" where
  "first_tag query [] = None"
| "first_tag query (ep # eps) =
     (case query ep of Inr tag \<Rightarrow> if tag \<noteq> [] then Some tag else first_tag query eps | Inl e \<Rightarrow> first_tag query eps)"

definition defaultRepo :: string where "defaultRepo = ''guimc233/JustPing''"

definition FetchLatestVersion ::
  "(string \<Rightarrow> string + Response) \<Rightarrow> (string \<Rightarrow> string + int \<times> string option) \<Rightarrow> string \<Rightarrow> bool \<Rightarrow> string + string" where
  "FetchLatestVersion http api repo chinaMirror =
     (let r = (if repo = [] then defaultRepo else repo)
      in case first_tag (queryEndpointForTag http) (GetLatestCandidates r chinaMirror) of
           Some tag \<Rightarrow> Inr tag
         | None \<Rightarrow>
             (case queryAPIForTag api (''https://api.github.com/repos/'' @ r @ ''/releases/latest'') of
                Inr tag \<Rightarrow> if tag \<noteq> [] then Inr tag else Inl ''failed to detect latest release from any endpoint''
              | Inl e \<Rightarrow> Inl ''failed to detect latest release from any endpoint''))"

section \<open>Download and verification\<close>

definition fetchURL :: "(string \<Rightarrow> string + Response) \<Rightarrow> string \<Rightarrow> string + string" where
  "fetchURL http url =
     (case http url of
        Inl e \<Rightarrow> Inl e
      | Inr resp \<Rightarrow>
          if StatusCode resp \<noteq> 200 then Inl (''HTTP status '' @ Itoa (StatusCode resp))
          else if body_ok resp then Inr (Body resp) else Inl ''unexpected EOF'')"

fun checksum_lines :: "string \<Rightarrow> string list \<Rightarrow> string" where
  "checksum_lines binaryName [] = []"
| "checksum_lines binaryName (text # rest) =
     (let line = TrimSpace text; fields = Fields line
      in if line = [] \<or> HasPrefix line ''#'' then checksum_lines binaryName rest
         else if length fields \<ge> 2 \<and> TrimPrefix (fields ! 1) ''*'' = binaryName then fields ! 0
         else checksum_lines binaryName rest)"

definition parseChecksum :: "string \<Rightarrow> string \<Rightarrow> string" where
  "parseChecksum content binaryName = checksum_lines binaryName (Scan_lines content)"

definition validateBinaryHeader :: "string \<Rightarrow> string \<Rightarrow> string option" where
  "validateBinaryHeader goos data =
     (if length data < 4 then Some (''binary too small ('' @ Itoa (int (length data)) @ '' bytes)'')
      else if goos = ''linux'' then
        (if data ! 0 \<noteq> CHR 0x7F \<or> data ! 1 \<noteq> CHR ''E'' \<or> data ! 2 \<noteq> CHR ''L'' \<or> data ! 3 \<noteq> CHR ''F''
         then Some ''not a valid ELF binary'' else None)
      else if goos = ''windows'' then
        (if data ! 0 \<noteq> CHR ''M'' \<or> data ! 1 \<noteq> CHR ''Z'' then Some ''not a valid PE executable'' else None)
      else None)"

definition sha256Hex :: "(string \<Rightarrow> string) \<Rightarrow> string \<Rightarrow> string" where
  "sha256Hex sha256 data = hex_encode (sha256 data)"

text \<open>One mirror: the verified binary, or why this mirror does not give one.\<close>

definition try_candidate :: "(string \<Rightarrow> string) \<Rightarrow> (string \<Rightarrow> string + Response) \<Rightarrow> string \<Rightarrow> string \<Rightarrow> string \<Rightarrow> string + string" where
  "try_candidate sha256 http goos binName base =
     (let binaryURL = base @ ''/'' @ binName
      in case fetchURL http (base @ ''/SHA256SUMS.txt'') of
           Inl e \<Rightarrow> Inl (''failed to fetch SHA256SUMS.txt from '' @ base @ '': '' @ e)
         | Inr sumsData \<Rightarrow>
             (let expectedHash = parseChecksum sumsData binName
              in if expectedHash = [] then Inl (''checksum for '' @ binName @ '' not found in SHA256SUMS.txt from '' @ base)
                 else case fetchURL http binaryURL of
                        Inl e \<Rightarrow> Inl (''failed to fetch binary from '' @ binaryURL @ '': '' @ e)
                      | Inr binData \<Rightarrow>
                          (case validateBinaryHeader goos binData of
                             Some e \<Rightarrow> Inl (''invalid binary format from '' @ binaryURL @ '': '' @ e)
                           | None \<Rightarrow>
                               (let actualHash = sha256Hex sha256 binData
                                in if \<not> EqualFold actualHash expectedHash
                                   then Inl (''checksum mismatch from '' @ binaryURL @ '' (expected '' @ expectedHash @ '', got '' @ actualHash @ '')'')
                                   else Inr binData))))"

fun try_candidates :: "(string \<Rightarrow> string + string) \<Rightarrow> string option \<Rightarrow> string list \<Rightarrow> string + string" where
  "try_candidates try lastErr [] =
     (case lastErr of Some e \<Rightarrow> Inl e | None \<Rightarrow> Inl ''failed to download and verify binary from any source'')"
| "try_candidates try lastErr (base # rest) =
     (case try base of Inr binData \<Rightarrow> Inr binData | Inl e \<Rightarrow> try_candidates try (Some e) rest)"

text \<open>The platform the probe runs on: \<^verbatim>\<open>GOOS\<close> and \<^verbatim>\<open>GOARCH\<close> with the two files that refine \<^verbatim>\<open>arm\<close>.\<close>

record platform =
  GOOS :: string
  GOARCH :: string
  uname_m :: "string option"
  proc_cpuinfo :: "string option"

definition GetBinaryName :: "platform \<Rightarrow> string + string" where
  "GetBinaryName pf = getBinaryNameFor (uname_m pf) (proc_cpuinfo pf) (GOOS pf) (GOARCH pf)"

definition DownloadAndVerify ::
  "(string \<Rightarrow> string) \<Rightarrow> (string \<Rightarrow> string + Response) \<Rightarrow> platform \<Rightarrow> string \<Rightarrow> string \<Rightarrow> bool \<Rightarrow> string + string" where
  "DownloadAndVerify sha256 http pf repo version chinaMirror =
     (case GetBinaryName pf of
        Inl e \<Rightarrow> Inl e
      | Inr binName \<Rightarrow>
          try_candidates (try_candidate sha256 http (GOOS pf) binName) None (GetDownloadCandidates repo version chinaMirror))"

section \<open>Replacing the executable\<close>

text \<open>
  The file system is a map from paths to contents; permissions and capabilities are left out. \<open>syscalls\<close> gives the
  outcome of each system call: the path of a file (\<open>None\<close> when the call fails), how much of a failed write
  reached the file, and whether the call succeeds. \<open>os.CreateTemp\<close> makes a file that did not exist.
\<close>

type_synonym files = "string \<Rightarrow> string option"

record syscalls =
  executable :: "string option"
  evaluated :: "string option"
  temp_here :: "string option"
  temp_default :: "string option"
  written :: nat
  write_ok :: bool
  close_ok :: bool
  chmod_ok :: bool
  remove_old_ok :: bool
  rename_old_ok :: bool
  rename_ok :: bool
  remove_tmp_ok :: bool
  copy_open_ok :: bool
  copy_temp :: "string option"
  copied :: nat
  copy_ok :: bool
  copy_close_ok :: bool
  copy_rename_ok :: bool
  remove_copy_ok :: bool

definition os_Rename :: "bool \<Rightarrow> string \<Rightarrow> string \<Rightarrow> files \<Rightarrow> files option" where
  "os_Rename ok src dst fs = (case (if ok then fs src else None) of None \<Rightarrow> None | Some d \<Rightarrow> Some (fs(src := None, dst := Some d)))"

definition os_Remove :: "bool \<Rightarrow> string \<Rightarrow> files \<Rightarrow> files" where
  "os_Remove ok path fs = (if ok then fs(path := None) else fs)"

definition copy_body :: "syscalls \<Rightarrow> string \<Rightarrow> string \<Rightarrow> string \<Rightarrow> files \<Rightarrow> files \<times> string option" where
  "copy_body sc d tmpName dst fs =
     (if \<not> copy_ok sc then (fs(tmpName := Some (take (copied sc) d)), Some ''copy'')
      else let fs1 = fs(tmpName := Some d)
           in if \<not> copy_close_ok sc then (fs1, Some ''close'')
              else case os_Rename (copy_rename_ok sc) tmpName dst fs1 of
                     None \<Rightarrow> (fs1, Some ''rename'')
                   | Some fs2 \<Rightarrow> (fs2, None))"

definition copyFileAtomic :: "syscalls \<Rightarrow> string \<Rightarrow> string \<Rightarrow> files \<Rightarrow> files \<times> string option" where
  "copyFileAtomic sc src dst fs =
     (case (if copy_open_ok sc then fs src else None) of
        None \<Rightarrow> (fs, Some ''open'')
      | Some d \<Rightarrow>
          (case copy_temp sc of
             None \<Rightarrow> (fs, Some ''create'')
           | Some tmpName \<Rightarrow>
               (let (fs1, err) = copy_body sc d tmpName dst fs
                in (os_Remove (remove_copy_ok sc) tmpName fs1, err))))"

text \<open>What happens once the new binary is in the temporary file: the swap, with a copy as the fallback.\<close>

definition rename_or_copy :: "syscalls \<Rightarrow> string \<Rightarrow> string \<Rightarrow> files \<Rightarrow> files \<times> string option" where
  "rename_or_copy sc tmpPath execPath fs =
     (case os_Rename (rename_ok sc) tmpPath execPath fs of
        Some fs1 \<Rightarrow> (fs1, None)
      | None \<Rightarrow>
          (let (fs1, copyErr) = copyFileAtomic sc tmpPath execPath fs
           in (fs1, if copyErr \<noteq> None then Some (''failed to replace binary '' @ execPath) else None)))"

definition swap_in :: "string \<Rightarrow> syscalls \<Rightarrow> string \<Rightarrow> string \<Rightarrow> files \<Rightarrow> files \<times> string option" where
  "swap_in goos sc tmpPath execPath fs =
     (let oldPath = execPath @ ''.old'';
          (fs1, err1) = (if goos = ''windows'' then
               (let fs0 = os_Remove (remove_old_ok sc) oldPath fs
                in case os_Rename (rename_old_ok sc) execPath oldPath fs0 of
                     None \<Rightarrow> (fs0, Some ''failed to rename existing binary on Windows'')
                   | Some fs' \<Rightarrow> (fs', None))
             else (fs, None))
      in if err1 \<noteq> None then (fs1, err1) else rename_or_copy sc tmpPath execPath fs1)"

definition ReplaceCurrentExecutable :: "string \<Rightarrow> syscalls \<Rightarrow> string \<Rightarrow> files \<Rightarrow> files \<times> string option" where
  "ReplaceCurrentExecutable goos sc newData fs =
     (case executable sc of
        None \<Rightarrow> (fs, Some ''failed to get current executable path'')
      | Some _ \<Rightarrow>
          (case evaluated sc of
             None \<Rightarrow> (fs, Some ''failed to resolve symlink for executable'')
           | Some execPath \<Rightarrow>
               (case (case temp_here sc of Some t \<Rightarrow> Some t | None \<Rightarrow> temp_default sc) of
                  None \<Rightarrow> (fs, Some ''failed to create temporary file'')
                | Some tmpPath \<Rightarrow>
                    (let (fs1, err) =
                           (if \<not> write_ok sc then (fs(tmpPath := Some (take (written sc) newData)), Some ''failed to write update data'')
                            else let fs0 = fs(tmpPath := Some newData)
                                 in if \<not> close_ok sc then (fs0, Some ''failed to close temp file'')
                                    else if \<not> chmod_ok sc then (fs0, Some ''failed to chmod temp binary'')
                                    else swap_in goos sc tmpPath execPath fs0)
                     in (os_Remove (remove_tmp_ok sc) tmpPath fs1, err)))))"

section \<open>Running an update\<close>

record UpdaterConfig =
  uc_CurrentVersion :: string
  ChinaMirror :: bool
  AutoUpdate :: bool
  Repo :: string

text \<open>Everything outside the process, as it is during one check.\<close>

record world =
  w_http :: "string \<Rightarrow> string + Response"
  w_api :: "string \<Rightarrow> string + int \<times> string option"
  w_sha256 :: "string \<Rightarrow> string"
  w_platform :: platform
  w_sys :: syscalls

definition CleanVersion :: "string \<Rightarrow> string" where
  "CleanVersion v = Clean v"

definition default_repo :: "UpdaterConfig \<Rightarrow> UpdaterConfig" where
  "default_repo cfg = (if Repo cfg = [] then cfg\<lparr>Repo := defaultRepo\<rparr> else cfg)"

text \<open>Download, verify and replace; the error says which step failed.\<close>

definition fetch_and_replace :: "world \<Rightarrow> UpdaterConfig \<Rightarrow> string \<Rightarrow> files \<Rightarrow> files \<times> string option" where
  "fetch_and_replace w cfg latest fs =
     (case DownloadAndVerify (w_sha256 w) (w_http w) (w_platform w) (Repo cfg) latest (ChinaMirror cfg) of
        Inl e \<Rightarrow> (fs, Some (''update download failed: '' @ e))
      | Inr data \<Rightarrow>
          (case ReplaceCurrentExecutable (GOOS (w_platform w)) (w_sys w) data fs of
             (fs1, Some e) \<Rightarrow> (fs1, Some (''failed to replace binary: '' @ e))
           | (fs1, None) \<Rightarrow> (fs1, None)))"

definition RunUpdate :: "world \<Rightarrow> UpdaterConfig \<Rightarrow> bool \<Rightarrow> files \<Rightarrow> files \<times> bool \<times> string \<times> string option" where
  "RunUpdate w cfg0 force fs =
     (let cfg = default_repo cfg0
      in case FetchLatestVersion (w_http w) (w_api w) (Repo cfg) (ChinaMirror cfg) of
           Inl e \<Rightarrow> (fs, False, [], Some (''failed to check for updates: '' @ e))
         | Inr latestVersion \<Rightarrow>
             (let needsUpdate = force \<or> CleanVersion (uc_CurrentVersion cfg) \<noteq> CleanVersion latestVersion
              in if \<not> needsUpdate then (fs, False, latestVersion, None)
                 else case fetch_and_replace w cfg latestVersion fs of
                        (fs1, Some e) \<Rightarrow> (fs1, False, latestVersion, Some e)
                      | (fs1, None) \<Rightarrow> (fs1, True, latestVersion, None)))"

text \<open>One background check: the version it installed, if it installed one.\<close>

definition checkAndApply :: "world \<Rightarrow> UpdaterConfig \<Rightarrow> files \<Rightarrow> files \<times> string option" where
  "checkAndApply w cfg fs =
     (case FetchLatestVersion (w_http w) (w_api w) (Repo cfg) (ChinaMirror cfg) of
        Inl e \<Rightarrow> (fs, None)
      | Inr latest \<Rightarrow>
          if \<not> IsNewer latest (uc_CurrentVersion cfg) then (fs, None)
          else case fetch_and_replace w cfg latest fs of
                 (fs1, Some e) \<Rightarrow> (fs1, None)
               | (fs1, None) \<Rightarrow> (fs1, Some latest))"

text \<open>
  The background updater: the first check after the jitter, then one per tick until a check installs something.
  \<open>ws\<close> lists the world at each check made before the context is cancelled; \<open>r\<close> is \<^verbatim>\<open>rand.Intn(180)\<close>.
\<close>

definition initialJitter :: "int \<Rightarrow> int" where
  "initialJitter r = (120 + r) * 1000000000"

fun auto_checks :: "UpdaterConfig \<Rightarrow> world list \<Rightarrow> files \<Rightarrow> files \<times> string option" where
  "auto_checks cfg [] fs = (fs, None)"
| "auto_checks cfg (w # ws) fs =
     (case checkAndApply w cfg fs of
        (fs1, Some v) \<Rightarrow> (fs1, Some v)
      | (fs1, None) \<Rightarrow> auto_checks cfg ws fs1)"

definition StartAutoUpdate :: "UpdaterConfig \<Rightarrow> world list \<Rightarrow> files \<Rightarrow> files \<times> string option" where
  "StartAutoUpdate cfg ws fs = (if \<not> AutoUpdate cfg then (fs, None) else auto_checks (default_repo cfg) ws fs)"

text \<open>
  Restarting the service: \<open>run\<close> gives the output of a command that succeeds, \<open>stat\<close> says whether a path exists.
  The result is the command that restarted the service, if one did.
\<close>

definition RestartActiveService :: "string \<Rightarrow> (string list \<Rightarrow> string option) \<Rightarrow> (string \<Rightarrow> bool) \<Rightarrow> string list option" where
  "RestartActiveService goos run stat =
     (let attempts =
        [((case run [''systemctl'', ''is-active'', ''justping-agent''] of Some out \<Rightarrow> TrimSpace out = ''active'' | None \<Rightarrow> False),
            [''systemctl'', ''restart'', ''justping-agent'']),
         (run [''rc-service'', ''justping-agent'', ''status''] \<noteq> None, [''rc-service'', ''justping-agent'', ''restart'']),
         (stat ''/etc/init.d/justping-agent'', [''/etc/init.d/justping-agent'', ''restart'']),
         (stat ''/var/service/justping-agent'', [''sv'', ''restart'', ''justping-agent''])]
      in if goos \<noteq> ''linux'' then None
         else case List.find (\<lambda>(present, cmd). present \<and> run cmd \<noteq> None) attempts of
                Some (present, cmd) \<Rightarrow> Some cmd
              | None \<Rightarrow> None)"

section \<open>The executable is the old or the new one\<close>

text \<open>Temporary files are new files: none existed before, and none is the executable or its backup.\<close>

definition temp_ok :: "syscalls \<Rightarrow> files \<Rightarrow> string option \<Rightarrow> bool" where
  "temp_ok sc fs t = (case t of None \<Rightarrow> True | Some p \<Rightarrow> fs p = None \<and>
     (case evaluated sc of None \<Rightarrow> True | Some e \<Rightarrow> p \<noteq> e \<and> p \<noteq> e @ ''.old''))"

definition temps_fresh :: "syscalls \<Rightarrow> files \<Rightarrow> bool" where
  "temps_fresh sc fs \<longleftrightarrow> temp_ok sc fs (temp_here sc) \<and> temp_ok sc fs (temp_default sc) \<and> temp_ok sc fs (copy_temp sc) \<and>
     (copy_temp sc = None \<or> copy_temp sc \<noteq> temp_here sc \<and> copy_temp sc \<noteq> temp_default sc)"

lemma os_Rename_Some: "os_Rename ok a b fs = Some fs' \<longleftrightarrow> (\<exists>d. ok \<and> fs a = Some d \<and> fs' = fs(a := None, b := Some d))"
  by (auto simp: os_Rename_def split: option.splits if_splits)

lemma copyFileAtomic_result:
  assumes "copyFileAtomic sc src dst fs = (fs', err)" "fs src = Some d"
    and "\<And>c. copy_temp sc = Some c \<Longrightarrow> c \<noteq> dst \<and> c \<noteq> src"
  shows "(err = None \<longrightarrow> fs' dst = Some d) \<and> (err \<noteq> None \<longrightarrow> fs' dst = fs dst) \<and>
         (\<forall>p. p \<noteq> dst \<and> Some p \<noteq> copy_temp sc \<longrightarrow> fs' p = fs p)"
  using assms
  by (auto simp: copyFileAtomic_def copy_body_def os_Remove_def os_Rename_Some Let_def split: option.splits if_splits prod.splits)

lemma rename_or_copy_result:
  assumes "rename_or_copy sc tmp exe fs = (fs', err)" "fs tmp = Some d" "tmp \<noteq> exe"
    and "\<And>c. copy_temp sc = Some c \<Longrightarrow> c \<noteq> exe \<and> c \<noteq> tmp"
  shows "(err = None \<longrightarrow> fs' exe = Some d) \<and> (err \<noteq> None \<longrightarrow> fs' exe = fs exe) \<and>
         (\<forall>p. p \<noteq> exe \<and> p \<noteq> tmp \<and> Some p \<noteq> copy_temp sc \<longrightarrow> fs' p = fs p)"
  using assms(1-3) copyFileAtomic_result [of sc tmp exe fs _ _ d] assms(4)
  by (auto simp: rename_or_copy_def os_Rename_Some Let_def split: option.splits prod.splits if_splits)

lemma swap_in_result:
  assumes "swap_in goos sc tmp exe fs = (fs', err)" "fs tmp = Some d" "tmp \<noteq> exe" "tmp \<noteq> exe @ ''.old''"
    and "\<And>c. copy_temp sc = Some c \<Longrightarrow> c \<noteq> exe \<and> c \<noteq> tmp \<and> c \<noteq> exe @ ''.old''"
  shows "(err = None \<longrightarrow> fs' exe = Some d) \<and>
         (err \<noteq> None \<longrightarrow> fs' exe = fs exe \<or> goos = ''windows'' \<and> fs' exe = None \<and> fs' (exe @ ''.old'') = fs exe) \<and>
         (\<forall>p. p \<noteq> exe \<and> p \<noteq> tmp \<and> p \<noteq> exe @ ''.old'' \<and> Some p \<noteq> copy_temp sc \<longrightarrow> fs' p = fs p)"
proof (cases "goos = ''windows''")
  case False
  then have "rename_or_copy sc tmp exe fs = (fs', err)" using assms(1) by (simp add: swap_in_def)
  from rename_or_copy_result [OF this assms(2,3)] assms(5) show ?thesis by blast
next
  case True
  define fs0 where "fs0 = os_Remove (remove_old_ok sc) (exe @ ''.old'') fs"
  have fs0: "fs0 p = fs p" if "p \<noteq> exe @ ''.old''" for p using that by (simp add: fs0_def os_Remove_def)
  show ?thesis
  proof (cases "os_Rename (rename_old_ok sc) exe (exe @ ''.old'') fs0")
    case None
    then have "fs' = fs0" "err \<noteq> None" using assms(1) True by (auto simp: swap_in_def Let_def fs0_def)
    then show ?thesis using fs0 by auto
  next
    case (Some fs1)
    then obtain o1 where o1: "fs exe = Some o1" "fs1 = fs0(exe := None, exe @ ''.old'' := Some o1)"
      using fs0 [of exe] by (auto simp: os_Rename_Some)
    have "rename_or_copy sc tmp exe fs1 = (fs', err)" using assms(1) True Some by (simp add: swap_in_def Let_def fs0_def)
    moreover have "fs1 tmp = Some d" using o1 assms(2-4) fs0 by simp
    ultimately have r: "(err = None \<longrightarrow> fs' exe = Some d) \<and> (err \<noteq> None \<longrightarrow> fs' exe = fs1 exe) \<and>
         (\<forall>p. p \<noteq> exe \<and> p \<noteq> tmp \<and> Some p \<noteq> copy_temp sc \<longrightarrow> fs' p = fs1 p)"
      using rename_or_copy_result [of sc tmp exe fs1 fs' err d] assms(3,5) by blast
    have "Some (exe @ ''.old'') \<noteq> copy_temp sc" using assms(5) [of "exe @ ''.old''"] by fastforce
    with r have "fs' (exe @ ''.old'') = Some o1" using o1 assms(4) by simp
    then show ?thesis using r o1 fs0 True by simp
  qed
qed

text \<open>What \<^verbatim>\<open>ReplaceCurrentExecutable\<close> leaves behind.\<close>

definition replaced :: "string \<Rightarrow> string \<Rightarrow> string \<Rightarrow> files \<Rightarrow> files \<Rightarrow> string option \<Rightarrow> bool" where
  "replaced goos exe d fs fs' err \<longleftrightarrow>
     (if err = None then fs' exe = Some d
      else fs' exe = fs exe \<or> goos = ''windows'' \<and> fs' exe = None \<and> fs' (exe @ ''.old'') = fs exe)"

lemma replace_result:
  assumes "ReplaceCurrentExecutable goos sc d fs = (fs', err)" "evaluated sc = Some exe" "temps_fresh sc fs"
  shows "replaced goos exe d fs fs' err"
proof (cases "executable sc = None \<or> (temp_here sc = None \<and> temp_default sc = None)")
  case True
  then show ?thesis using assms
    by (auto simp: ReplaceCurrentExecutable_def replaced_def split: option.splits)
next
  case False
  then obtain tmp where tmp: "(case temp_here sc of Some t \<Rightarrow> Some t | None \<Rightarrow> temp_default sc) = Some tmp"
    by (cases "temp_here sc") auto
  have t: "tmp \<noteq> exe" "tmp \<noteq> exe @ ''.old''" "fs tmp = None"
    using tmp assms(2,3) by (auto simp: temps_fresh_def temp_ok_def split: option.splits)
  have c: "c \<noteq> exe \<and> c \<noteq> tmp \<and> c \<noteq> exe @ ''.old''" if "copy_temp sc = Some c" for c
    using that tmp assms(2,3) by (auto simp: temps_fresh_def temp_ok_def split: option.splits)
  define r where "r = swap_in goos sc tmp exe (fs(tmp := Some d))"
  obtain fs1 e1 where r1: "r = (fs1, e1)" by (cases r)
  have sw: "(e1 = None \<longrightarrow> fs1 exe = Some d) \<and>
         (e1 \<noteq> None \<longrightarrow> fs1 exe = fs exe \<or> goos = ''windows'' \<and> fs1 exe = None \<and> fs1 (exe @ ''.old'') = fs exe)"
    using swap_in_result [of goos sc tmp exe "fs(tmp := Some d)" fs1 e1 d] r1 t c unfolding r_def by simp
  obtain x where x: "executable sc = Some x" using False by auto
  have rep: "ReplaceCurrentExecutable goos sc d fs =
      (let (fs1, err) =
         (if \<not> write_ok sc then (fs(tmp := Some (take (written sc) d)), Some ''failed to write update data'')
          else if \<not> close_ok sc then (fs(tmp := Some d), Some ''failed to close temp file'')
          else if \<not> chmod_ok sc then (fs(tmp := Some d), Some ''failed to chmod temp binary'') else r)
       in (os_Remove (remove_tmp_ok sc) tmp fs1, err))"
    by (simp add: ReplaceCurrentExecutable_def x assms(2) tmp r_def)
  have rm: "os_Remove ok tmp f p = f p" if "p \<noteq> tmp" for ok f p using that by (simp add: os_Remove_def)
  show ?thesis
  proof (cases "write_ok sc \<and> close_ok sc \<and> chmod_ok sc")
    case True
    then have "fs' = os_Remove (remove_tmp_ok sc) tmp fs1" "err = e1" using assms(1) rep r1 by simp_all
    then show ?thesis using sw t rm by (simp add: replaced_def)
  next
    case False
    then have "fs' exe = fs exe" "err \<noteq> None" using assms(1) rep t rm by (auto split: if_splits)
    then show ?thesis by (auto simp: replaced_def)
  qed
qed

section \<open>Only verified releases are installed\<close>

text \<open>
  What it means that a mirror serves a binary, without the updater's own functions. A URL gives a text when it is answered with status 200
  and a complete body. A line of a checksum file lists a checksum for a file when it is no comment, its first field is the checksum and
  its second the name of the file, with or without the asterisk of a binary file; the first line that lists the file counts.
\<close>

definition served :: "(string \<Rightarrow> string + Response) \<Rightarrow> string \<Rightarrow> string \<Rightarrow> bool" where
  "served http url d \<longleftrightarrow> (\<exists>loc. http url = Inr \<lparr>StatusCode = 200, Location = loc, Body = d, body_ok = True\<rparr>)"

definition line_lists :: "string \<Rightarrow> string \<Rightarrow> string \<Rightarrow> bool" where
  "line_lists line file h \<longleftrightarrow> \<not> HasPrefix (TrimSpace line) ''#'' \<and>
     (\<exists>name rest. Fields (TrimSpace line) = h # name # rest \<and> (name = file \<or> name = ''*'' @ file))"

definition listed :: "string \<Rightarrow> string \<Rightarrow> string \<Rightarrow> bool" where
  "listed sums file h \<longleftrightarrow> h \<noteq> [] \<and> (\<exists>before line after. Scan_lines sums = before @ line # after \<and> line_lists line file h \<and>
     (\<forall>l\<in>set before. \<forall>h'. \<not> line_lists l file h'))"

text \<open>A Linux executable starts with the four bytes of the ELF format, a Windows one with the letters of the PE format.\<close>

definition executable_for :: "string \<Rightarrow> string \<Rightarrow> bool" where
  "executable_for goos d \<longleftrightarrow> 4 \<le> length d \<and> (goos = ''linux'' \<longrightarrow> take 4 d = CHR 0x7F # ''ELF'') \<and> (goos = ''windows'' \<longrightarrow> take 2 d = ''MZ'')"

definition mirror_serves :: "(string \<Rightarrow> string) \<Rightarrow> (string \<Rightarrow> string + Response) \<Rightarrow> string \<Rightarrow> string \<Rightarrow> string \<Rightarrow> string \<Rightarrow> bool" where
  "mirror_serves sha256 http goos binName base d \<longleftrightarrow>
     (\<exists>sums h. served http (base @ ''/SHA256SUMS.txt'') sums \<and> listed sums binName h \<and> ToLower (hex_encode (sha256 d)) = ToLower h) \<and>
     served http (base @ ''/'' @ binName) d \<and> executable_for goos d"

text \<open>The name of the binary for a platform, and the places where a release can be, in the order of preference.\<close>

definition binary_for :: "platform \<Rightarrow> string \<Rightarrow> bool" where
  "binary_for pf name \<longleftrightarrow>
     GOOS pf = ''linux'' \<and> GOARCH pf \<in> {''amd64'', ''386'', ''arm64'', ''riscv64'', ''ppc64le'', ''s390x'', ''mips'', ''mipsle'', ''mips64'', ''mips64le''} \<and>
       name = ''justping-agent-linux-'' @ GOARCH pf \<or>
     GOOS pf = ''linux'' \<and> GOARCH pf = ''arm'' \<and> name = ''justping-agent-linux-'' @ detectLinuxArmArch (uname_m pf) (proc_cpuinfo pf) \<or>
     GOOS pf = ''windows'' \<and> GOARCH pf \<in> {''amd64'', ''386''} \<and> name = ''justping-agent-windows-'' @ GOARCH pf @ ''.exe''"

definition release_places :: "string \<Rightarrow> string \<Rightarrow> bool \<Rightarrow> string list" where
  "release_places repo v china =
     map (\<lambda>proxy. proxy @ ''https://github.com/'' @ repo @ ''/releases/download/'' @ (if take 1 v = ''v'' \<or> take 1 v = ''V'' then v else ''v'' @ v))
       ((if china then [''https://ghfast.top/'', ''https://gh-proxy.com/'', ''https://ghproxy.net/'', ''https://gh.llkk.cc/'', ''https://cors.isteed.cc/''] else [])
        @ [''''])"

lemma GetBinaryName_iff: "GetBinaryName pf = Inr name \<longleftrightarrow> binary_for pf name"
  by (auto simp: GetBinaryName_def getBinaryNameFor_def binary_for_def)

lemma GetDownloadCandidates_eq: "GetDownloadCandidates repo v china = release_places repo v china"
proof -
  have "map (\<lambda>m. TrimRight m (CHR ''/'')) DefaultChinaMirrors = DefaultChinaMirrors" by code_simp
  then have "map (\<lambda>m. TrimRight m (CHR ''/'') @ x) DefaultChinaMirrors = map (\<lambda>m. m @ x) DefaultChinaMirrors" for x
    by (simp add: DefaultChinaMirrors_def)
  moreover have "HasPrefix v [c] \<longleftrightarrow> take 1 v = [c]" for c by (simp add: HasPrefix_def)
  ultimately show ?thesis by (simp add: GetDownloadCandidates_def release_places_def Let_def DefaultChinaMirrors_def)
qed

lemma fetchURL_iff: "fetchURL http url = Inr d \<longleftrightarrow> served http url d"
proof (cases "http url")
  case (Inr resp)
  then show ?thesis by (cases resp) (auto simp: fetchURL_def served_def)
qed (simp add: fetchURL_def served_def)

lemma validateBinaryHeader_iff: "validateBinaryHeader goos d = None \<longleftrightarrow> executable_for goos d"
proof (cases "length d < 4")
  case False
  then have "Suc (Suc (Suc (Suc 0))) \<le> length d" by simp
  then obtain a b c e r where "d = a # b # c # e # r" unfolding Suc_le_length_iff by blast
  then show ?thesis by (auto simp: validateBinaryHeader_def executable_for_def)
qed (simp add: validateBinaryHeader_def executable_for_def)

lemma checksum_lines_iff:
  assumes "\<not> HasPrefix file ''*''"
  shows "(h \<noteq> [] \<and> checksum_lines file ls = h) \<longleftrightarrow>
    h \<noteq> [] \<and> (\<exists>before line after. ls = before @ line # after \<and> line_lists line file h \<and> (\<forall>l\<in>set before. \<forall>h'. \<not> line_lists l file h'))"
proof (induction ls)
  case (Cons l ls)
  have here: "line_lists l file h' \<longleftrightarrow> \<not> (TrimSpace l = [] \<or> HasPrefix (TrimSpace l) ''#'') \<and> length (Fields (TrimSpace l)) \<ge> 2 \<and>
      TrimPrefix (Fields (TrimSpace l) ! 1) ''*'' = file \<and> h' = Fields (TrimSpace l) ! 0" for h'
  proof (cases "Fields (TrimSpace l)")
    case (Cons a fs)
    moreover have "Fields [] = []" by code_simp
    ultimately have ne: "TrimSpace l \<noteq> []" by auto
    have p: "TrimPrefix n ''*'' = file \<longleftrightarrow> n = file \<or> n = ''*'' @ file" for n
      using assms by (cases n) (auto simp: TrimPrefix_def HasPrefix_def)
    show ?thesis using \<open>Fields (TrimSpace l) = a # fs\<close> ne by (cases fs) (auto simp: line_lists_def p)
  qed (simp add: line_lists_def)
  show ?case
  proof (cases "\<exists>h'. line_lists l file h'")
    case True
    then have c: "checksum_lines file (l # ls) = Fields (TrimSpace l) ! 0" and u: "line_lists l file h \<longleftrightarrow> h = Fields (TrimSpace l) ! 0"
      using here by (auto simp: Let_def)
    show ?thesis
      unfolding c using True u by (simp add: Cons_eq_append_conv) (metis append_Nil list.set_intros(1) empty_iff list.set(1))
  next
    case False
    then have c: "checksum_lines file (l # ls) = checksum_lines file ls" using here by (auto simp: Let_def)
    have "(\<exists>before line after. l # ls = before @ line # after \<and> line_lists line file h \<and> (\<forall>l\<in>set before. \<forall>h'. \<not> line_lists l file h')) \<longleftrightarrow>
        (\<exists>before line after. ls = before @ line # after \<and> line_lists line file h \<and> (\<forall>l\<in>set before. \<forall>h'. \<not> line_lists l file h'))" (is "?A \<longleftrightarrow> ?B")
    proof
      assume ?A
      then obtain before line after where a: "l # ls = before @ line # after" "line_lists line file h" "\<forall>l\<in>set before. \<forall>h'. \<not> line_lists l file h'" by blast
      then obtain rest where "before = l # rest" using False by (cases before) auto
      then show ?B using a by (intro exI [of _ rest] exI [of _ line] exI [of _ after]) simp
    next
      assume ?B
      then obtain before line after where "ls = before @ line # after" "line_lists line file h" "\<forall>l\<in>set before. \<forall>h'. \<not> line_lists l file h'" by blast
      then show ?A using False by (intro exI [of _ "l # before"] exI [of _ line] exI [of _ after]) simp
    qed
    then show ?thesis unfolding c Cons.IH by simp
  qed
qed auto

lemma parseChecksum_iff: "\<not> HasPrefix file ''*'' \<Longrightarrow> (h \<noteq> [] \<and> parseChecksum sums file = h) \<longleftrightarrow> listed sums file h"
  unfolding parseChecksum_def listed_def by (rule checksum_lines_iff)

lemma binary_for_name: "binary_for pf name \<Longrightarrow> \<not> HasPrefix name ''*''"
  by (auto simp: binary_for_def HasPrefix_def)

lemma try_candidate_iff:
  assumes "\<not> HasPrefix binName ''*''"
  shows "try_candidate sha256 http goos binName base = Inr d \<longleftrightarrow> mirror_serves sha256 http goos binName base d"
proof -
  have "try_candidate sha256 http goos binName base = Inr d \<longleftrightarrow>
      (\<exists>sums. fetchURL http (base @ ''/SHA256SUMS.txt'') = Inr sums \<and>
        (parseChecksum sums binName \<noteq> [] \<and> EqualFold (hex_encode (sha256 d)) (parseChecksum sums binName))) \<and>
      fetchURL http (base @ ''/'' @ binName) = Inr d \<and> validateBinaryHeader goos d = None"
    by (auto simp: try_candidate_def sha256Hex_def Let_def split: sum.splits option.splits if_splits)
  moreover have "(parseChecksum sums binName \<noteq> [] \<and> EqualFold x (parseChecksum sums binName)) \<longleftrightarrow>
      (\<exists>h. listed sums binName h \<and> ToLower x = ToLower h)" for sums x
    unfolding parseChecksum_iff [OF assms, symmetric] EqualFold_def by auto
  ultimately show ?thesis by (simp add: mirror_serves_def fetchURL_iff validateBinaryHeader_iff)
qed

lemma try_candidates_iff:
  "try_candidates try e bases = Inr d \<longleftrightarrow>
     (\<exists>base. List.find (\<lambda>b. \<exists>d'. try b = Inr d') bases = Some base \<and> try base = Inr d)"
proof (induction bases arbitrary: e)
  case Nil
  show ?case by (simp split: option.splits)
next
  case (Cons b bases)
  then show ?case by (cases "try b") simp_all
qed

text \<open>C29: A download succeeds exactly when a place of the release answers both for its checksum file and for the platform's binary with status 200
  and a complete body, the first line of the checksum file that names this binary lists the binary's SHA-256 digest (in
  hexadecimal, in letters of either case), and the binary starts like an executable of the platform (ELF on Linux, PE on Windows); it
  gives the binary of the first such place, the proxies coming before GitHub itself where they are asked for. What a place serves is
  defined by \<open>mirror_serves\<close>, without the updater's own functions.\<close>

theorem download_exact:
  "DownloadAndVerify sha256 http pf repo v china = Inr d \<longleftrightarrow>
     (\<exists>binName base. binary_for pf binName \<and>
        List.find (\<lambda>b. \<exists>d'. mirror_serves sha256 http (GOOS pf) binName b d') (release_places repo v china) = Some base \<and>
        mirror_serves sha256 http (GOOS pf) binName base d)"
proof (cases "GetBinaryName pf")
  case (Inl e)
  then have "\<not> binary_for pf name" for name using GetBinaryName_iff [of pf name] by simp
  with Inl show ?thesis by (simp add: DownloadAndVerify_def)
next
  case (Inr binName)
  then have b: "binary_for pf name \<longleftrightarrow> name = binName" for name using GetBinaryName_iff [of pf name] by auto
  have "\<not> HasPrefix binName ''*''" using b binary_for_name by blast
  note t = try_candidate_iff [OF this]
  show ?thesis using Inr by (simp add: DownloadAndVerify_def try_candidates_iff t b GetDownloadCandidates_eq)
qed

definition release_data :: "world \<Rightarrow> UpdaterConfig \<Rightarrow> string \<Rightarrow> string \<Rightarrow> bool" where
  "release_data w cfg v d \<longleftrightarrow>
     (\<exists>binName base. binary_for (w_platform w) binName \<and>
        base \<in> set (release_places (Repo (default_repo cfg)) v (ChinaMirror cfg)) \<and>
        mirror_serves (w_sha256 w) (w_http w) (GOOS (w_platform w)) binName base d)"

lemma download_data:
  assumes "DownloadAndVerify (w_sha256 w) (w_http w) (w_platform w) (Repo (default_repo cfg)) v (ChinaMirror cfg) = Inr d"
  shows "release_data w cfg v d"
proof (cases "GetBinaryName (w_platform w)")
  case (Inl e)
  then show ?thesis using assms by (simp add: DownloadAndVerify_def)
next
  case (Inr binName)
  then have b: "binary_for (w_platform w) binName" using GetBinaryName_iff by blast
  note t = try_candidate_iff [OF binary_for_name [OF b]]
  from Inr assms b show ?thesis
    by (auto simp: DownloadAndVerify_def try_candidates_iff t release_data_def GetDownloadCandidates_eq dest: find_SomeD)
qed

lemma default_repo_fields [simp]:
  "uc_CurrentVersion (default_repo cfg) = uc_CurrentVersion cfg" "ChinaMirror (default_repo cfg) = ChinaMirror cfg"
  "default_repo (default_repo cfg) = default_repo cfg" "Repo (default_repo cfg) \<noteq> []"
  by (simp_all add: default_repo_def defaultRepo_def)

text \<open>What one attempt does to the executable, whichever way it was started.\<close>

definition kept :: "string \<Rightarrow> string \<Rightarrow> files \<Rightarrow> files \<Rightarrow> bool" where
  "kept goos exe fs fs' \<longleftrightarrow> fs' exe = fs exe \<or> goos = ''windows'' \<and> fs' exe = None \<and> fs' (exe @ ''.old'') = fs exe"

lemma kept_refl [simp]: "kept goos exe fs fs"
  by (simp add: kept_def)

lemma fetch_and_replace_result:
  assumes "fetch_and_replace w (default_repo cfg) v fs = (fs', err)" "evaluated (w_sys w) = Some exe" "temps_fresh (w_sys w) fs"
  shows "if err = None then \<exists>d. release_data w cfg v d \<and> fs' exe = Some d else kept (GOOS (w_platform w)) exe fs fs'"
proof (cases "DownloadAndVerify (w_sha256 w) (w_http w) (w_platform w) (Repo (default_repo cfg)) v (ChinaMirror cfg)")
  case (Inl e)
  then show ?thesis using assms(1) by (auto simp: fetch_and_replace_def)
next
  case (Inr d)
  obtain fs1 e1 where r: "ReplaceCurrentExecutable (GOOS (w_platform w)) (w_sys w) d fs = (fs1, e1)"
    by (rule prod.exhaust)
  have "fs' = fs1" "err = None \<longleftrightarrow> e1 = None"
    using assms(1) Inr r by (auto simp: fetch_and_replace_def split: option.splits)
  with replace_result [OF r assms(2,3)] download_data [OF Inr] show ?thesis
    by (auto simp: replaced_def kept_def)
qed

lemma run_update_cases:
  assumes "evaluated (w_sys w) = Some exe" "temps_fresh (w_sys w) fs" "RunUpdate w cfg force fs = (fs', updated, v, err)"
  shows "if updated then FetchLatestVersion (w_http w) (w_api w) (Repo (default_repo cfg)) (ChinaMirror cfg) = Inr v \<and> err = None \<and>
           (\<exists>d. release_data w cfg v d \<and> fs' exe = Some d)
         else kept (GOOS (w_platform w)) exe fs fs'"
proof (cases "FetchLatestVersion (w_http w) (w_api w) (Repo (default_repo cfg)) (ChinaMirror cfg)")
  case (Inl e)
  then show ?thesis using assms(3) by (auto simp: RunUpdate_def)
next
  case (Inr latest)
  obtain fs1 e1 where r: "fetch_and_replace w (default_repo cfg) latest fs = (fs1, e1)" by (rule prod.exhaust)
  show ?thesis
    using assms(3) Inr r fetch_and_replace_result [OF r assms(1,2)]
    by (auto simp: RunUpdate_def Let_def split: if_splits option.splits)
qed

text \<open>An update on request either installs, as the executable, a binary that a mirror of the latest release serves with a
  matching checksum and header, and then reports the latest version, or leaves the executable as it was; only a
  failed update on Windows can leave the old executable under its backup name instead.\<close>

theorem update_installs_verified:
  assumes "evaluated (w_sys w) = Some exe" "temps_fresh (w_sys w) fs" "RunUpdate w cfg force fs = (fs', updated, v, err)"
  shows "if updated then FetchLatestVersion (w_http w) (w_api w) (Repo (default_repo cfg)) (ChinaMirror cfg) = Inr v \<and> err = None \<and>
           (\<exists>d. release_data w cfg v d \<and> fs' exe = Some d)
         else kept (GOOS (w_platform w)) exe fs fs'"
  by (rule run_update_cases [OF assms])

definition sample_http :: "string \<Rightarrow> string + Response" where
  "sample_http url =
     (if url = ''https://github.com/guimc233/JustPing/releases/latest''
      then Inr \<lparr>StatusCode = 302, Location = ''https://github.com/guimc233/JustPing/releases/tag/v1.3.0'', Body = [], body_ok = True\<rparr>
      else if url = ''https://github.com/guimc233/JustPing/releases/download/v1.3.0/SHA256SUMS.txt''
      then Inr \<lparr>StatusCode = 200, Location = [], Body = ''A5 *justping-agent-linux-amd64'', body_ok = True\<rparr>
      else if url = ''https://github.com/guimc233/JustPing/releases/download/v1.3.0/justping-agent-linux-amd64''
      then Inr \<lparr>StatusCode = 200, Location = [], Body = CHR 0x7F # ''ELF'', body_ok = True\<rparr>
      else Inl ''no route'')"

definition sample_sys :: syscalls where
  "sample_sys = \<lparr>executable = Some ''/a'', evaluated = Some ''/a'', temp_here = Some ''/t'', temp_default = None, written = 0,
     write_ok = True, close_ok = True, chmod_ok = True, remove_old_ok = True, rename_old_ok = True, rename_ok = True,
     remove_tmp_ok = True, copy_open_ok = True, copy_temp = None, copied = 0, copy_ok = True, copy_close_ok = True,
     copy_rename_ok = True, remove_copy_ok = True\<rparr>"

definition sample_world :: world where
  "sample_world = \<lparr>w_http = sample_http, w_api = (\<lambda>_. Inl ''no route''), w_sha256 = (\<lambda>_. [CHR 0xA5]),
     w_platform = \<lparr>GOOS = ''linux'', GOARCH = ''amd64'', uname_m = None, proc_cpuinfo = None\<rparr>, w_sys = sample_sys\<rparr>"

definition sample_config :: "string \<Rightarrow> UpdaterConfig" where
  "sample_config v = \<lparr>uc_CurrentVersion = v, ChinaMirror = False, AutoUpdate = True, Repo = []\<rparr>"

definition sample_files :: files where
  "sample_files = (\<lambda>p. if p = ''/a'' then Some ''old'' else None)"

lemma sample_latest: "FetchLatestVersion sample_http api defaultRepo False = Inr ''v1.3.0''"
  by code_simp

lemma sample_download: "DownloadAndVerify (\<lambda>_. [CHR 0xA5]) sample_http (w_platform sample_world) defaultRepo ''v1.3.0'' False = Inr (CHR 0x7F # ''ELF'')"
  by code_simp

lemma sample_fresh: "evaluated sample_sys = Some ''/a''" "temps_fresh sample_sys sample_files"
  by (simp_all add: sample_sys_def temps_fresh_def temp_ok_def sample_files_def)

lemma sample_repo: "Repo (default_repo (sample_config v)) = defaultRepo" "ChinaMirror (sample_config v) = False"
  "uc_CurrentVersion (sample_config v) = v" "AutoUpdate (sample_config v) = True"
  by (simp_all add: default_repo_def sample_config_def)

lemma sample_world_fields:
  "w_http sample_world = sample_http" "w_sys sample_world = sample_sys" "w_sha256 sample_world = (\<lambda>_. [CHR 0xA5])"
  by (simp_all add: sample_world_def)

lemmas sample_simps = sample_repo sample_world_fields sample_latest sample_fresh

lemma sample_replace:
  "ReplaceCurrentExecutable ''linux'' sample_sys d sample_files = (sample_files(''/a'' := Some d), None)"
  by (auto simp: ReplaceCurrentExecutable_def sample_sys_def swap_in_def rename_or_copy_def os_Rename_def os_Remove_def sample_files_def)

lemma sample_fetch: "fetch_and_replace sample_world (default_repo (sample_config v)) ''v1.3.0'' sample_files =
    (sample_files(''/a'' := Some (CHR 0x7F # ''ELF'')), None)"
proof -
  have "GOOS (w_platform sample_world) = ''linux''" by (simp add: sample_world_def)
  then show ?thesis by (simp add: fetch_and_replace_def sample_simps sample_download sample_replace)
qed

lemma sample_run: "Clean v \<noteq> Clean ''v1.3.0'' \<Longrightarrow> RunUpdate sample_world (sample_config v) False sample_files =
    (sample_files(''/a'' := Some (CHR 0x7F # ''ELF'')), True, ''v1.3.0'', None)"
  by (simp add: RunUpdate_def sample_simps CleanVersion_def sample_fetch)

theorem update_installs_verified_witness:
  "\<exists>d. release_data sample_world (sample_config ''1.2.1'') ''v1.3.0'' d \<and>
     (sample_files(''/a'' := Some (CHR 0x7F # ''ELF''))) ''/a'' = Some d"
proof -
  have "Clean ''1.2.1'' \<noteq> Clean ''v1.3.0''" by code_simp
  then show ?thesis
    using update_installs_verified [of sample_world "''/a''" sample_files "sample_config ''1.2.1''" False
        "sample_files(''/a'' := Some (CHR 0x7F # ''ELF''))" True "''v1.3.0''" None]
    by (simp add: sample_simps sample_run)
qed

text \<open>The background updater meets each world with temporary files that are new at that time.\<close>

fun fresh_run :: "UpdaterConfig \<Rightarrow> string \<Rightarrow> world list \<Rightarrow> files \<Rightarrow> bool" where
  "fresh_run cfg exe [] fs \<longleftrightarrow> True"
| "fresh_run cfg exe (w # ws) fs \<longleftrightarrow> evaluated (w_sys w) = Some exe \<and> temps_fresh (w_sys w) fs \<and>
     fresh_run cfg exe ws (fst (checkAndApply w cfg fs))"

lemma checkAndApply_result:
  assumes "evaluated (w_sys w) = Some exe" "temps_fresh (w_sys w) fs" "checkAndApply w (default_repo cfg) fs = (fs', r)"
  shows "case r of
           Some v \<Rightarrow> IsNewer v (uc_CurrentVersion cfg) \<and> (\<exists>d. release_data w cfg v d \<and> fs' exe = Some d)
         | None \<Rightarrow> kept (GOOS (w_platform w)) exe fs fs'"
proof (cases "FetchLatestVersion (w_http w) (w_api w) (Repo (default_repo cfg)) (ChinaMirror cfg)")
  case (Inl e)
  then show ?thesis using assms(3) by (auto simp: checkAndApply_def)
next
  case (Inr latest)
  obtain fs1 e1 where r: "fetch_and_replace w (default_repo cfg) latest fs = (fs1, e1)" by (rule prod.exhaust)
  show ?thesis
    using assms(3) Inr r fetch_and_replace_result [OF r assms(1,2)]
    by (auto simp: checkAndApply_def split: if_splits option.splits)
qed

lemma auto_checks_result:
  assumes "fresh_run (default_repo cfg) exe ws fs" "list_all (\<lambda>w. GOOS (w_platform w) \<noteq> ''windows'') ws"
    "auto_checks (default_repo cfg) ws fs = (fs', r)"
  shows "case r of
           Some v \<Rightarrow> IsNewer v (uc_CurrentVersion cfg) \<and> list_ex (\<lambda>w. \<exists>d. release_data w cfg v d \<and> fs' exe = Some d) ws
         | None \<Rightarrow> fs' exe = fs exe"
  using assms
proof (induction ws arbitrary: fs)
  case Nil
  then show ?case by auto
next
  case (Cons w ws)
  obtain fs1 r1 where c: "checkAndApply w (default_repo cfg) fs = (fs1, r1)" by (rule prod.exhaust)
  have ca: "case r1 of
           Some v \<Rightarrow> IsNewer v (uc_CurrentVersion cfg) \<and> (\<exists>d. release_data w cfg v d \<and> fs1 exe = Some d)
         | None \<Rightarrow> fs1 exe = fs exe"
    using checkAndApply_result [OF _ _ c] Cons.prems(1,2) by (auto simp: kept_def split: option.splits)
  show ?case
  proof (cases r1)
    case None
    then have "fresh_run (default_repo cfg) exe ws fs1" "list_all (\<lambda>w. GOOS (w_platform w) \<noteq> ''windows'') ws"
        "auto_checks (default_repo cfg) ws fs1 = (fs', r)"
      using Cons.prems c by simp_all
    from Cons.IH [OF this] show ?thesis using ca None by (auto split: option.splits)
  next
    case (Some v)
    then show ?thesis using Cons.prems(3) c ca by auto
  qed
qed


lemma sample_newer: "IsNewer ''v1.3.0'' ''1.2.1''" "\<not> IsNewer ''v1.3.0'' ''1.4.0''" "Clean ''1.4.0'' \<noteq> Clean ''v1.3.0''"
  by code_simp+


text \<open>A requested check compares for difference only: a probe ahead of the published release is taken back to it, which
  the background check refuses.\<close>

theorem update_check_downgrades:
  "fst (snd (RunUpdate sample_world (sample_config ''1.4.0'') False sample_files)) \<and>
   fst (RunUpdate sample_world (sample_config ''1.4.0'') False sample_files) ''/a'' = Some (CHR 0x7F # ''ELF'') \<and>
   StartAutoUpdate (sample_config ''1.4.0'') [sample_world] sample_files = (sample_files, None)"
  by (simp add: sample_run sample_newer StartAutoUpdate_def checkAndApply_def sample_simps)

text \<open>On Windows the executable is moved away first; when the swap and its fallback fail, nothing moves it back.\<close>

theorem windows_update_can_lose_executable:
  "(let sc = sample_sys\<lparr>rename_ok := False\<rparr>; r = ReplaceCurrentExecutable ''windows'' sc d sample_files
    in snd r \<noteq> None \<and> fst r ''/a'' = None \<and> fst r ''/a.old'' = Some ''old'')"
  by (simp add: ReplaceCurrentExecutable_def sample_sys_def swap_in_def rename_or_copy_def copyFileAtomic_def os_Rename_def
      os_Remove_def sample_files_def Let_def)

end
