(* ===== verification/Agent_Main.thy ===== *)
theory Agent_Main
  imports Agent_Client Updater
begin

text \<open>
  The probe's program, \<^verbatim>\<open>agent/cmd/agent/main.go\<close>: where its configuration comes from, what it does when the
  Host asks for an update check or a soft exit, and how it ends.
\<close>

section \<open>Configuration\<close>

record AgentConfig =
  ac_Server :: string
  ac_Token :: string
  ac_ChinaMirror :: bool
  ac_AutoUpdate :: "bool option"

definition IsAutoUpdateEnabled :: "AgentConfig \<Rightarrow> bool" where
  "IsAutoUpdateEnabled c = (case ac_AutoUpdate c of None \<Rightarrow> True | Some b \<Rightarrow> b)"

text \<open>The path of the configuration file; \<open>stat\<close> says which files exist.\<close>

definition config_path :: "(string \<Rightarrow> bool) \<Rightarrow> string \<Rightarrow> string" where
  "config_path stat configFlag =
     (if configFlag \<noteq> [] then configFlag
      else case List.find stat [''/etc/justping/agent.json'', ''agent.json''] of Some p \<Rightarrow> p | None \<Rightarrow> [])"

text \<open>
  The configuration from the file (all zero without one), the environment (the empty string when unset) and the
  flags (\<open>None\<close> for a flag that was not given).
\<close>

record agent_flags =
  f_server :: "string option"
  f_token :: "string option"
  f_china_mirror :: "bool option"
  f_auto_update :: "bool option"

definition env_config :: "(string \<Rightarrow> string) \<Rightarrow> AgentConfig \<Rightarrow> AgentConfig" where
  "env_config getenv c =
     (let c1 = (if getenv ''JUSTPING_SERVER'' \<noteq> [] \<and> ac_Server c = [] then c\<lparr>ac_Server := getenv ''JUSTPING_SERVER''\<rparr> else c);
          c2 = (if getenv ''JUSTPING_TOKEN'' \<noteq> [] \<and> ac_Token c1 = [] then c1\<lparr>ac_Token := getenv ''JUSTPING_TOKEN''\<rparr> else c1)
      in if getenv ''JUSTPING_CHINA_MIRROR'' = ''1'' \<or> getenv ''JUSTPING_CHINA_MIRROR'' = ''true'' then c2\<lparr>ac_ChinaMirror := True\<rparr> else c2)"

definition flag_config :: "agent_flags \<Rightarrow> AgentConfig \<Rightarrow> AgentConfig" where
  "flag_config f c =
     (let c1 = (case f_server f of Some s \<Rightarrow> c\<lparr>ac_Server := s\<rparr> | None \<Rightarrow> c);
          c2 = (case f_token f of Some s \<Rightarrow> c1\<lparr>ac_Token := s\<rparr> | None \<Rightarrow> c1);
          c3 = (case f_china_mirror f of Some b \<Rightarrow> c2\<lparr>ac_ChinaMirror := b\<rparr> | None \<Rightarrow> c2)
      in case f_auto_update f of Some b \<Rightarrow> c3\<lparr>ac_AutoUpdate := Some b\<rparr> | None \<Rightarrow> c3)"

definition resolve_config :: "agent_flags \<Rightarrow> (string \<Rightarrow> string) \<Rightarrow> AgentConfig \<Rightarrow> AgentConfig" where
  "resolve_config f getenv fromFile = flag_config f (env_config getenv fromFile)"

section \<open>Hooks and the end of the program\<close>

record agent_main =
  isUpdating :: bool
  softExit :: bool
  cancelled :: bool

definition main_start :: agent_main where
  "main_start = \<lparr>isUpdating = False, softExit = False, cancelled = False\<rparr>"

definition hook_config :: "string \<Rightarrow> AgentConfig \<Rightarrow> UpdaterConfig" where
  "hook_config ver cfg = \<lparr>uc_CurrentVersion = ver, ChinaMirror = ac_ChinaMirror cfg, AutoUpdate = False, Repo = ''guimc233/JustPing''\<rparr>"

text \<open>The update check the Host asks for: the outcome goes to the Host, and a successful update ends the process.\<close>

definition update_result :: "string \<Rightarrow> string \<Rightarrow> bool \<Rightarrow> string option \<Rightarrow> UpdateResultPayload" where
  "update_result version ver updated err =
     \<lparr>upd_AgentID = [], CurrentVersion = version, LatestVersion = ver, Updating = updated,
      upd_Error = (case err of None \<Rightarrow> [] | Some e \<Rightarrow> e)\<rparr>"

definition update_hook :: "world \<Rightarrow> bool \<Rightarrow> string \<Rightarrow> AgentConfig \<Rightarrow> files \<times> Client \<times> agent_main \<Rightarrow> files \<times> Client \<times> agent_main" where
  "update_hook w wok version cfg = (\<lambda>(fs, c, m).
     (let (fs1, updated, ver, err) = RunUpdate w (hook_config version cfg) False fs;
          c1 = SendUpdateResult wok (update_result version ver updated err) c
      in (fs1, c1, if updated then m\<lparr>isUpdating := True, cancelled := True\<rparr> else m)))"

definition soft_exit_hook :: "agent_main \<Rightarrow> agent_main" where
  "soft_exit_hook m = m\<lparr>softExit := True, cancelled := True\<rparr>"

text \<open>The background updater as the program starts it: a success cancels the context.\<close>

definition auto_update :: "world list \<Rightarrow> string \<Rightarrow> AgentConfig \<Rightarrow> files \<times> agent_main \<Rightarrow> files \<times> agent_main" where
  "auto_update ws version cfg = (\<lambda>(fs, m).
     if IsAutoUpdateEnabled cfg then
       (case StartAutoUpdate ((hook_config version cfg)\<lparr>AutoUpdate := True\<rparr>) ws fs of
          (fs1, Some v) \<Rightarrow> (fs1, m\<lparr>isUpdating := True, cancelled := True\<rparr>)
        | (fs1, None) \<Rightarrow> (fs1, m))
     else (fs, m))"

text \<open>How the process ends after the context is cancelled or a signal came: it runs its own executable again, exits with a
  status, or returns from \<^verbatim>\<open>main\<close>. \<open>exec_ok\<close> says whether \<^verbatim>\<open>syscall.Exec\<close> replaces the process.\<close>

datatype ending = ReExec | Exit int | Return

definition main_end :: "bool \<Rightarrow> agent_main \<Rightarrow> ending" where
  "main_end exec_ok m =
     (if isUpdating m then (if exec_ok then ReExec else Exit 0)
      else if softExit m then Exit 1 else Return)"

section \<open>Properties\<close>

text \<open>An explicit flag wins over everything; the file wins over the environment for the address and the token, and the
  environment can only turn the mirror on.\<close>

lemma env_config_fields:
  "ac_Server (env_config getenv c) = (if ac_Server c = [] then getenv ''JUSTPING_SERVER'' else ac_Server c)"
  "ac_Token (env_config getenv c) = (if ac_Token c = [] then getenv ''JUSTPING_TOKEN'' else ac_Token c)"
  "ac_ChinaMirror (env_config getenv c) \<longleftrightarrow>
     ac_ChinaMirror c \<or> getenv ''JUSTPING_CHINA_MIRROR'' = ''1'' \<or> getenv ''JUSTPING_CHINA_MIRROR'' = ''true''"
  "ac_AutoUpdate (env_config getenv c) = ac_AutoUpdate c"
  by (simp_all add: env_config_def Let_def)

lemma flag_config_fields:
  "ac_Server (flag_config f c) = (case f_server f of Some s \<Rightarrow> s | None \<Rightarrow> ac_Server c)"
  "ac_Token (flag_config f c) = (case f_token f of Some s \<Rightarrow> s | None \<Rightarrow> ac_Token c)"
  "ac_ChinaMirror (flag_config f c) = (case f_china_mirror f of Some b \<Rightarrow> b | None \<Rightarrow> ac_ChinaMirror c)"
  "ac_AutoUpdate (flag_config f c) = (case f_auto_update f of Some b \<Rightarrow> Some b | None \<Rightarrow> ac_AutoUpdate c)"
  by (simp_all add: flag_config_def Let_def split: option.split)

lemma resolve_config_fields:
  "ac_Server (resolve_config f getenv c) =
     (case f_server f of Some s \<Rightarrow> s | None \<Rightarrow> if ac_Server c = [] then getenv ''JUSTPING_SERVER'' else ac_Server c)"
  "ac_Token (resolve_config f getenv c) =
     (case f_token f of Some s \<Rightarrow> s | None \<Rightarrow> if ac_Token c = [] then getenv ''JUSTPING_TOKEN'' else ac_Token c)"
  "ac_ChinaMirror (resolve_config f getenv c) =
     (case f_china_mirror f of Some b \<Rightarrow> b
      | None \<Rightarrow> ac_ChinaMirror c \<or> getenv ''JUSTPING_CHINA_MIRROR'' = ''1'' \<or> getenv ''JUSTPING_CHINA_MIRROR'' = ''true'')"
  "ac_AutoUpdate (resolve_config f getenv c) = (case f_auto_update f of Some b \<Rightarrow> Some b | None \<Rightarrow> ac_AutoUpdate c)"
  unfolding resolve_config_def flag_config_fields env_config_fields by (rule refl)+

lemma send_result_wire:
  "cl_conn c \<Longrightarrow> SendUpdateResult True res c =
     c\<lparr>wire := wire c @ [(TypeUpdateResult, enc_UpdateResult (res\<lparr>upd_AgentID := cl_agentID c\<rparr>))]\<rparr>"
  by (simp add: SendUpdateResult_def sendEnvelope_def)

text \<open>
  an update check asked for by the Host on a live connection answers exactly once, with this probe's id and
  running version; the answer says ``updating'' exactly when the executable was replaced by a verified binary of
  the latest release, and exactly then the process goes on to run its executable again. Otherwise the
  process keeps running with the executable it had (on Windows possibly under its backup name).
\<close>

theorem update_check_reported:
  assumes "cl_conn c" and "evaluated (w_sys w) = Some exe" and "temps_fresh (w_sys w) fs"
  shows "\<exists>fs' m' res. update_hook w True version cfg (fs, c, main_start) =
      (fs', c\<lparr>wire := wire c @ [(TypeUpdateResult, enc_UpdateResult res)]\<rparr>, m') \<and>
    upd_AgentID res = cl_agentID c \<and> CurrentVersion res = version \<and>
    (if Updating res
     then (\<exists>d. release_data w (hook_config version cfg) (LatestVersion res) d \<and> fs' exe = Some d) \<and> main_end True m' = ReExec
     else kept (GOOS (w_platform w)) exe fs fs' \<and> m' = main_start)"
proof -
  obtain fs' u v err where r: "RunUpdate w (hook_config version cfg) False fs = (fs', u, v, err)"
    by (metis prod_cases4)
  let ?res = "(update_result version v u err)\<lparr>upd_AgentID := cl_agentID c\<rparr>"
  have "update_hook w True version cfg (fs, c, main_start) =
      (fs', c\<lparr>wire := wire c @ [(TypeUpdateResult, enc_UpdateResult ?res)]\<rparr>,
       if u then main_start\<lparr>isUpdating := True, cancelled := True\<rparr> else main_start)"
    by (simp add: update_hook_def r send_result_wire assms(1))
  moreover have "if u then (\<exists>d. release_data w (hook_config version cfg) v d \<and> fs' exe = Some d)
      else kept (GOOS (w_platform w)) exe fs fs'"
    using run_update_cases [OF assms(2,3) r] by (simp split: if_splits)
  ultimately show ?thesis
    by (intro exI [of _ fs'] exI [of _ "if u then main_start\<lparr>isUpdating := True, cancelled := True\<rparr> else main_start"] exI [of _ ?res])
      (simp add: update_result_def main_end_def)
qed

theorem update_check_reported_witness:
  "\<exists>fs' m' res. update_hook sample_world True ''1.2.1'' \<lparr>ac_Server = ''h'', ac_Token = ''t'', ac_ChinaMirror = False, ac_AutoUpdate = None\<rparr>
      (sample_files, NewClient\<lparr>cl_conn := True\<rparr>, main_start) =
      (fs', NewClient\<lparr>cl_conn := True, wire := [(TypeUpdateResult, enc_UpdateResult res)]\<rparr>, m') \<and> CurrentVersion res = ''1.2.1''"
proof -
  define cfg where "cfg = \<lparr>ac_Server = ''h'', ac_Token = ''t'', ac_ChinaMirror = False, ac_AutoUpdate = None\<rparr>"
  have "\<exists>fs' m' res. update_hook sample_world True ''1.2.1'' cfg (sample_files, NewClient\<lparr>cl_conn := True\<rparr>, main_start) =
      (fs', (NewClient\<lparr>cl_conn := True\<rparr>)\<lparr>wire := wire (NewClient\<lparr>cl_conn := True\<rparr>) @ [(TypeUpdateResult, enc_UpdateResult res)]\<rparr>, m') \<and>
      CurrentVersion res = ''1.2.1''"
    using update_check_reported [of "NewClient\<lparr>cl_conn := True\<rparr>" sample_world "''/a''" sample_files "''1.2.1''" cfg]
    by (simp add: sample_simps) blast
  then show ?thesis unfolding cfg_def by (simp add: NewClient_def)
qed

end
