(* ===== verification/Installer.thy ===== *)
theory Installer
  imports Agent_Main
begin

text \<open>
  Installing the probe as a service of the machine, \<^verbatim>\<open>agent/internal/service\<close>, and reading the configuration it leaves behind,
  \<^verbatim>\<open>agent/cmd/agent/main.go\<close>.

  A machine is the files, directories and links the installer touches or asks for, by absolute path, and the commands that were run. A
  system call resolves a link in the last element of its path; directories above a path are not looked at. Which system calls the
  operating system refuses (rights, full disks, missing directories), the outcome of commands, which programs exist and the environment
  are arguments; what a command does to the machine itself is not modelled. A configuration file holds a JSON value in place of its text.
\<close>

section \<open>Files\<close>

datatype content = Bytes string | Json json | Torn

datatype node = File content | Dir | Link string

record machine =
  nodes :: "(string, node) gomap"
  ran :: "string list list"

text \<open>
  The operating system: \<open>allows op p\<close> for a call that is not refused, \<open>short_write p\<close> for a write that fails after the file was
  truncated, \<open>cmd_ok\<close> for a command that exits with status 0, \<open>in_path\<close> for \<^verbatim>\<open>exec.LookPath\<close>, \<open>abs_path\<close> for \<^verbatim>\<open>filepath.Abs\<close>.
\<close>

datatype call = Open | Mkdir | Unlink | UnlinkAll | MakeLink

record system =
  os_goos :: string
  allows :: "call \<Rightarrow> string \<Rightarrow> bool"
  short_write :: "string \<Rightarrow> bool"
  cmd_ok :: "string list \<Rightarrow> bool"
  in_path :: "string \<Rightarrow> bool"
  abs_path :: "string \<Rightarrow> string"
  os_getenv :: "string \<Rightarrow> string"

text \<open>At most forty links are followed, as on Linux.\<close>

fun follow :: "nat \<Rightarrow> (string, node) gomap \<Rightarrow> string \<Rightarrow> string option" where
  "follow 0 ns p = None"
| "follow (Suc n) ns p = (case mget ns p of Some (Link t) \<Rightarrow> follow n ns t | _ \<Rightarrow> Some p)"

definition target_node :: "(string, node) gomap \<Rightarrow> string \<Rightarrow> node option" where
  "target_node ns p = (case follow 41 ns p of None \<Rightarrow> None | Some q \<Rightarrow> mget ns q)"

definition os_Stat :: "string \<Rightarrow> machine \<Rightarrow> bool" where
  "os_Stat p m \<longleftrightarrow> target_node (nodes m) p \<noteq> None"

definition os_ReadFile :: "string \<Rightarrow> machine \<Rightarrow> content option" where
  "os_ReadFile p m = (case target_node (nodes m) p of Some (File c) \<Rightarrow> Some c | _ \<Rightarrow> None)"

definition os_WriteFile :: "system \<Rightarrow> string \<Rightarrow> content \<Rightarrow> machine \<Rightarrow> machine \<times> string option" where
  "os_WriteFile e p c m =
     (case follow 41 (nodes m) p of
        None \<Rightarrow> (m, Some ''too many levels of symbolic links'')
      | Some q \<Rightarrow>
          if \<not> allows e Open p \<or> mget (nodes m) q = Some Dir then (m, Some ''open failed'')
          else if short_write e p then (m\<lparr>nodes := mput q (File Torn) (nodes m)\<rparr>, Some ''write failed'')
          else (m\<lparr>nodes := mput q (File c) (nodes m)\<rparr>, None))"

definition os_MkdirAll :: "system \<Rightarrow> string \<Rightarrow> machine \<Rightarrow> machine \<times> string option" where
  "os_MkdirAll e p m =
     (case target_node (nodes m) p of
        Some Dir \<Rightarrow> (m, None)
      | Some _ \<Rightarrow> (m, Some ''not a directory'')
      | None \<Rightarrow> if mget (nodes m) p = None \<and> allows e Mkdir p then (m\<lparr>nodes := mput p Dir (nodes m)\<rparr>, None)
                else (m, Some ''mkdir failed''))"

definition below :: "string \<Rightarrow> string \<Rightarrow> bool" where
  "below p q \<longleftrightarrow> HasPrefix q (p @ ''/'')"

text \<open>Removing takes a link away, not what it points to; a directory must be empty.\<close>

definition fs_Remove :: "system \<Rightarrow> string \<Rightarrow> machine \<Rightarrow> machine" where
  "fs_Remove e p m =
     (if \<not> allows e Unlink p \<or> (mget (nodes m) p = Some Dir \<and> (\<exists>q\<in>set (mkeys (nodes m)). below p q)) then m
      else m\<lparr>nodes := mdel p (nodes m)\<rparr>)"

definition fs_RemoveAll :: "system \<Rightarrow> string \<Rightarrow> machine \<Rightarrow> machine" where
  "fs_RemoveAll e p m =
     (if \<not> allows e UnlinkAll p then m else m\<lparr>nodes := mfilter (\<lambda>q _. q \<noteq> p \<and> \<not> below p q) (nodes m)\<rparr>)"

definition os_Symlink :: "system \<Rightarrow> string \<Rightarrow> string \<Rightarrow> machine \<Rightarrow> machine \<times> string option" where
  "os_Symlink e old new m =
     (if \<not> allows e MakeLink new \<or> mget (nodes m) new \<noteq> None then (m, Some ''symlink failed'')
      else (m\<lparr>nodes := mput new (Link old) (nodes m)\<rparr>, None))"

definition run_cmd :: "system \<Rightarrow> string list \<Rightarrow> machine \<Rightarrow> machine \<times> bool" where
  "run_cmd e args m = (m\<lparr>ran := ran m @ [args]\<rparr>, cmd_ok e args)"

definition run_quiet :: "system \<Rightarrow> string list \<Rightarrow> machine \<Rightarrow> machine" where
  "run_quiet e args m = fst (run_cmd e args m)"

section \<open>The init system\<close>

datatype InitType = InitSystemd | InitOpenRC | InitProcd | InitRunit | InitSysVinit | InitWindows | InitUnknown

definition init_name :: "InitType \<Rightarrow> string" where
  "init_name t = (case t of InitSystemd \<Rightarrow> ''systemd'' | InitOpenRC \<Rightarrow> ''openrc'' | InitProcd \<Rightarrow> ''procd'' | InitRunit \<Rightarrow> ''runit''
     | InitSysVinit \<Rightarrow> ''sysvinit'' | InitWindows \<Rightarrow> ''windows'' | InitUnknown \<Rightarrow> ''unknown'')"

definition DetectInit :: "system \<Rightarrow> machine \<Rightarrow> InitType" where
  "DetectInit e m =
     (if os_goos e = ''windows'' then InitWindows
      else if os_Stat ''/run/systemd/system'' m then InitSystemd
      else if os_Stat ''/etc/openwrt_release'' m then InitProcd
      else if os_Stat ''/run/openrc'' m then InitOpenRC
      else if os_Stat ''/sbin/openrc-run'' m then InitOpenRC
      else if os_Stat ''/etc/sv'' m then InitRunit
      else if os_Stat ''/etc/init.d'' m then InitSysVinit
      else InitUnknown)"

section \<open>Service files\<close>

definition text_of :: "string list \<Rightarrow> string" where
  "text_of ls = concat (map (\<lambda>l. l @ [CHR 0x0A]) ls)"

definition systemd_unit :: "string \<Rightarrow> string" where
  "systemd_unit binPath = text_of
     [''[Unit]'', ''Description=JustPing Agent Service'', ''After=network-online.target'', ''Wants=network-online.target'', [],
      ''[Service]'', ''Type=simple'', ''ExecStart='' @ binPath @ '' --config /etc/justping/agent.json'', ''Restart=always'',
      ''RestartSec=5s'', ''LimitNOFILE=65535'', [], ''[Install]'', ''WantedBy=multi-user.target'']"

definition openrc_script :: "string \<Rightarrow> string" where
  \<open>openrc_script binPath = text_of
     [''#!/sbin/openrc-run'', ''description="JustPing Agent Service"'', [], ''command="'' @ binPath @ ''"'',
      ''command_args="--config /etc/justping/agent.json"'', ''command_background="yes"'', ''pidfile="/run/justping-agent.pid"'', [],
      ''depend() {'', ''    need net'', ''    after firewall'', ''}'']\<close>

definition procd_script :: "string \<Rightarrow> string" where
  "procd_script binPath = text_of
     [''#!/bin/sh /etc/rc.common'', ''USE_PROCD=1'', ''START=99'', ''STOP=10'', [], ''start_service() {'', ''    procd_open_instance'',
      ''    procd_set_param command '' @ binPath @ '' --config /etc/justping/agent.json'', ''    procd_set_param respawn'',
      ''    procd_close_instance'', ''}'']"

definition runit_script :: "string \<Rightarrow> string" where
  "runit_script binPath = text_of [''#!/bin/sh'', ''exec 2>&1'', ''exec '' @ binPath @ '' --config /etc/justping/agent.json'']"

definition sysv_script :: "string \<Rightarrow> string" where
  \<open>sysv_script binPath = text_of
     [''#!/bin/sh'', ''### BEGIN INIT INFO'', ''# Provides:          justping-agent'',
      ''# Required-Start:    $network $remote_fs $syslog'', ''# Required-Stop:     $network $remote_fs $syslog'',
      ''# Default-Start:     2 3 4 5'', ''# Default-Stop:      0 1 6'', ''# Short-Description: JustPing Agent Daemon'',
      ''### END INIT INFO'', [], ''NAME=justping-agent'', ''DAEMON="'' @ binPath @ ''"'',
      ''DAEMON_ARGS="--config /etc/justping/agent.json"'', ''PIDFILE=/var/run/$NAME.pid'', [],
      ''case "$1" in'', ''  start)'', ''    echo "Starting $NAME..."'',
      ''    start-stop-daemon --start --background --make-pidfile --pidfile $PIDFILE --exec $DAEMON -- $DAEMON_ARGS'', ''    ;;'',
      ''  stop)'', ''    echo "Stopping $NAME..."'', ''    start-stop-daemon --stop --pidfile $PIDFILE --oknodo'', ''    rm -f $PIDFILE'',
      ''    ;;'', ''  restart)'', ''    $0 stop'', ''    sleep 1'', ''    $0 start'', ''    ;;'', ''  *)'',
      ''    echo "Usage: $0 {start|stop|restart}"'', ''    exit 1'', ''    ;;'', ''esac'', ''exit 0'']\<close>

section \<open>Installing\<close>

definition systemd_path :: string where "systemd_path = ''/etc/systemd/system/justping-agent.service''"
definition initd_path :: string where "initd_path = ''/etc/init.d/justping-agent''"
definition sv_dir :: string where "sv_dir = ''/etc/sv/justping-agent''"

definition installSystemd :: "system \<Rightarrow> string \<Rightarrow> machine \<Rightarrow> machine \<times> string option" where
  "installSystemd e binPath m =
     (case os_WriteFile e systemd_path (Bytes (systemd_unit binPath)) m of
        (m1, Some err) \<Rightarrow> (m1, Some err)
      | (m1, None) \<Rightarrow>
          (let (m2, ok) = run_cmd e [''systemctl'', ''enable'', ''--now'', ''justping-agent''] (run_quiet e [''systemctl'', ''daemon-reload''] m1)
           in (m2, if ok then None else Some ''systemctl enable --now failed'')))"

definition uninstallSystemd :: "system \<Rightarrow> machine \<Rightarrow> machine" where
  "uninstallSystemd e m =
     run_quiet e [''systemctl'', ''daemon-reload''] (fs_Remove e systemd_path
       (run_quiet e [''systemctl'', ''disable'', ''justping-agent''] (run_quiet e [''systemctl'', ''stop'', ''justping-agent''] m)))"

definition installOpenRC :: "system \<Rightarrow> string \<Rightarrow> machine \<Rightarrow> machine \<times> string option" where
  "installOpenRC e binPath m =
     (case os_WriteFile e initd_path (Bytes (openrc_script binPath)) m of
        (m1, Some err) \<Rightarrow> (m1, Some err)
      | (m1, None) \<Rightarrow>
          (case run_cmd e [''rc-update'', ''add'', ''justping-agent'', ''default''] m1 of
             (m2, False) \<Rightarrow> (m2, Some ''rc-update failed'')
           | (m2, True) \<Rightarrow>
               (let (m3, ok) = run_cmd e [''rc-service'', ''justping-agent'', ''restart''] m2
                in (m3, if ok then None else Some ''rc-service restart failed''))))"

definition uninstallOpenRC :: "system \<Rightarrow> machine \<Rightarrow> machine" where
  "uninstallOpenRC e m =
     fs_Remove e initd_path (run_quiet e [''rc-update'', ''del'', ''justping-agent'', ''default'']
       (run_quiet e [''rc-service'', ''justping-agent'', ''stop''] m))"

definition installProcd :: "system \<Rightarrow> string \<Rightarrow> machine \<Rightarrow> machine \<times> string option" where
  "installProcd e binPath m =
     (case os_WriteFile e initd_path (Bytes (procd_script binPath)) m of
        (m1, Some err) \<Rightarrow> (m1, Some err)
      | (m1, None) \<Rightarrow>
          (case run_cmd e [initd_path, ''enable''] m1 of
             (m2, False) \<Rightarrow> (m2, Some ''procd enable failed'')
           | (m2, True) \<Rightarrow>
               (let (m3, ok) = run_cmd e [initd_path, ''restart''] m2 in (m3, if ok then None else Some ''procd restart failed''))))"

definition runit_service_dir :: "machine \<Rightarrow> string option" where
  "runit_service_dir m =
     (if os_Stat ''/etc/service'' m then Some ''/etc/service'' else if os_Stat ''/var/service'' m then Some ''/var/service'' else None)"

definition installRunit :: "system \<Rightarrow> string \<Rightarrow> machine \<Rightarrow> machine \<times> string option" where
  "installRunit e binPath m =
     (case os_MkdirAll e sv_dir m of
        (m1, Some err) \<Rightarrow> (m1, Some err)
      | (m1, None) \<Rightarrow>
          (case os_WriteFile e (sv_dir @ ''/run'') (Bytes (runit_script binPath)) m1 of
             (m2, Some err) \<Rightarrow> (m2, Some err)
           | (m2, None) \<Rightarrow>
               (case runit_service_dir m2 of
                  None \<Rightarrow> (m2, Some ''runit service directory (/var/service or /etc/service) not found'')
                | Some d \<Rightarrow>
                    (case os_Symlink e sv_dir (d @ ''/justping-agent'') (fs_Remove e (d @ ''/justping-agent'') m2) of
                       (m3, Some err) \<Rightarrow> (m3, Some (''failed to link runit service: '' @ err))
                     | (m3, None) \<Rightarrow> (run_quiet e [''sv'', ''up'', ''justping-agent''] m3, None)))))"

definition sysv_register :: "system \<Rightarrow> machine \<Rightarrow> machine" where
  "sysv_register e m =
     (if in_path e ''update-rc.d'' then run_quiet e [''update-rc.d'', ''justping-agent'', ''defaults''] m
      else if in_path e ''chkconfig'' then run_quiet e [''chkconfig'', ''--add'', ''justping-agent''] m else m)"

definition installSysVinit :: "system \<Rightarrow> string \<Rightarrow> machine \<Rightarrow> machine \<times> string option" where
  "installSysVinit e binPath m =
     (case os_WriteFile e initd_path (Bytes (sysv_script binPath)) m of
        (m1, Some err) \<Rightarrow> (m1, Some err)
      | (m1, None) \<Rightarrow>
          (let (m2, ok) = run_cmd e [initd_path, ''start''] (sysv_register e m1) in (m2, if ok then None else Some ''sysvinit start failed'')))"

text \<open>The configuration as \<^verbatim>\<open>json.MarshalIndent\<close> writes it.\<close>

definition enc_AgentConfig :: "AgentConfig \<Rightarrow> json" where
  "enc_AgentConfig c = JObj ([(''server'', JStr (ac_Server c)), (''token'', JStr (ac_Token c)), (''china_mirror'', JBool (ac_ChinaMirror c))] @
     (case ac_AutoUpdate c of None \<Rightarrow> [] | Some b \<Rightarrow> [(''auto_update'', JBool b)]))"

text \<open>\<open>ProgramData\<close> is taken to be a clean path; \<open>sep\<close> is the backslash.\<close>

definition sep :: string where "sep = [CHR 0x5C]"

definition windows_dir :: "system \<Rightarrow> string" where
  "windows_dir e = (if os_getenv e ''ProgramData'' = [] then ''C:'' @ sep @ ''ProgramData'' else os_getenv e ''ProgramData'') @ sep @ ''JustPing''"

definition installWindows :: "system \<Rightarrow> string \<Rightarrow> AgentConfig \<Rightarrow> machine \<Rightarrow> machine \<times> string option" where
  \<open>installWindows e binPath cfg m =
     (case os_MkdirAll e (windows_dir e) m of
        (m1, Some err) \<Rightarrow> (m1, Some err)
      | (m1, None) \<Rightarrow>
          (let cfgFile = windows_dir e @ sep @ ''agent.json''
           in case os_WriteFile e cfgFile (Json (enc_AgentConfig cfg)) m1 of
                (m2, Some err) \<Rightarrow> (m2, Some err)
              | (m2, None) \<Rightarrow>
                  (case run_cmd e [''sc'', ''create'', ''JustPingAgent'', ''binPath='', ''"'' @ binPath @ ''" --config "'' @ cfgFile @ ''"'',
                                   ''start='', ''auto''] m2 of
                     (m3, False) \<Rightarrow> (m3, Some ''sc create failed'')
                   | (m3, True) \<Rightarrow> (run_quiet e [''sc'', ''start'', ''JustPingAgent''] m3, None))))\<close>

text \<open>The source is opened before the destination, which is emptied before the first byte is read.\<close>

definition installer_copyFile :: "system \<Rightarrow> string \<Rightarrow> string \<Rightarrow> machine \<Rightarrow> machine \<times> string option" where
  "installer_copyFile e src dst m =
     (case follow 41 (nodes m) src of
        None \<Rightarrow> (m, Some ''too many levels of symbolic links'')
      | Some s \<Rightarrow>
          (case mget (nodes m) s of
             None \<Rightarrow> (m, Some ''no such file'')
           | Some n \<Rightarrow>
               if \<not> allows e Open src then (m, Some ''permission denied'')
               else case follow 41 (nodes m) dst of
                      None \<Rightarrow> (m, Some ''too many levels of symbolic links'')
                    | Some d \<Rightarrow>
                        if \<not> allows e Open dst \<or> mget (nodes m) d = Some Dir then (m, Some ''open failed'')
                        else let m1 = m\<lparr>nodes := mput d (File (Bytes [])) (nodes m)\<rparr>
                             in case mget (nodes m1) s of
                                  Some (File c) \<Rightarrow>
                                    if short_write e dst then (m1\<lparr>nodes := mput d (File Torn) (nodes m1)\<rparr>, Some ''write failed'')
                                    else (m1\<lparr>nodes := mput d (File c) (nodes m1)\<rparr>, None)
                                | _ \<Rightarrow> (m1, Some ''is a directory'')))"

definition config_file :: string where "config_file = ''/etc/justping/agent.json''"

definition target_bin :: "machine \<Rightarrow> string" where
  "target_bin m = (if os_Stat ''/usr/local/bin'' m then ''/usr/local/bin/justping-agent'' else ''/usr/bin/justping-agent'')"

definition place_binary :: "system \<Rightarrow> string \<Rightarrow> string \<Rightarrow> machine \<Rightarrow> machine \<times> string option" where
  "place_binary e binPath bin m = (if abs_path e binPath \<noteq> bin then installer_copyFile e (abs_path e binPath) bin m else (m, None))"

definition install_init :: "system \<Rightarrow> InitType \<Rightarrow> string \<Rightarrow> machine \<Rightarrow> machine \<times> string option" where
  "install_init e t bin m =
     (case t of InitSystemd \<Rightarrow> installSystemd e bin m | InitOpenRC \<Rightarrow> installOpenRC e bin m | InitProcd \<Rightarrow> installProcd e bin m
      | InitRunit \<Rightarrow> installRunit e bin m | InitSysVinit \<Rightarrow> installSysVinit e bin m
      | _ \<Rightarrow> (m, Some (''unsupported or unknown init system: '' @ init_name t)))"

definition InstallService :: "system \<Rightarrow> string \<Rightarrow> AgentConfig \<Rightarrow> machine \<Rightarrow> machine \<times> string option" where
  "InstallService e binPath cfg m =
     (if os_goos e = ''windows'' then installWindows e binPath cfg m
      else case os_MkdirAll e ''/etc/justping'' m of
        (m1, Some err) \<Rightarrow> (m1, Some (''failed to create /etc/justping: '' @ err))
      | (m1, None) \<Rightarrow>
          (case os_WriteFile e config_file (Json (enc_AgentConfig cfg)) m1 of
             (m2, Some err) \<Rightarrow> (m2, Some (''failed to write config: '' @ err))
           | (m2, None) \<Rightarrow>
               (let bin = target_bin m2
                in case place_binary e binPath bin m2 of
                     (m3, Some err) \<Rightarrow> (m3, Some (''failed to copy binary to '' @ bin @ '': '' @ err))
                   | (m3, None) \<Rightarrow> install_init e (DetectInit e m) bin (run_quiet e [''setcap'', ''cap_net_raw+ep'', bin] m3))))"

definition sysv_unregister :: "system \<Rightarrow> machine \<Rightarrow> machine" where
  "sysv_unregister e m =
     (if in_path e ''update-rc.d'' then run_quiet e [''update-rc.d'', ''-f'', ''justping-agent'', ''remove''] m
      else if in_path e ''chkconfig'' then run_quiet e [''chkconfig'', ''--del'', ''justping-agent''] m else m)"

definition uninstall_init :: "system \<Rightarrow> InitType \<Rightarrow> machine \<Rightarrow> machine" where
  "uninstall_init e t m =
     (case t of
        InitSystemd \<Rightarrow> uninstallSystemd e m
      | InitOpenRC \<Rightarrow> uninstallOpenRC e m
      | InitProcd \<Rightarrow> fs_Remove e initd_path (run_quiet e [initd_path, ''disable''] (run_quiet e [initd_path, ''stop''] m))
      | InitRunit \<Rightarrow> fs_RemoveAll e sv_dir (fs_Remove e ''/var/service/justping-agent'' (run_quiet e [''sv'', ''down'', ''justping-agent''] m))
      | InitSysVinit \<Rightarrow> fs_Remove e initd_path (sysv_unregister e (run_quiet e [initd_path, ''stop''] m))
      | _ \<Rightarrow> m)"

definition UninstallService :: "system \<Rightarrow> machine \<Rightarrow> machine" where
  "UninstallService e m =
     fs_Remove e ''/var/run/justping-agent.pid'' (fs_Remove e ''/run/justping-agent.pid''
       (fs_Remove e ''/usr/bin/justping-agent'' (fs_Remove e ''/usr/local/bin/justping-agent''
         (fs_RemoveAll e ''/etc/justping'' (uninstall_init e (DetectInit e m) m)))))"

section \<open>The program's first steps\<close>

text \<open>
  Reading the configuration file: \<^verbatim>\<open>json.Unmarshal\<close> stores the fields it can and goes on after one of a wrong type; the pointer
  \<^verbatim>\<open>auto_update\<close> is then set to a fresh \<^verbatim>\<open>false\<close>. The error is ignored.
\<close>

definition zero_config :: AgentConfig where
  "zero_config = \<lparr>ac_Server = [], ac_Token = [], ac_ChinaMirror = False, ac_AutoUpdate = None\<rparr>"

definition dec_bool_ptr :: "bool option \<Rightarrow> json \<Rightarrow> bool option" where
  "dec_bool_ptr old j =
     (case j of JNull \<Rightarrow> None | JBool b \<Rightarrow> Some b | _ \<Rightarrow> Some (case old of None \<Rightarrow> False | Some b \<Rightarrow> b))"

definition config_field :: "AgentConfig \<Rightarrow> string \<times> json \<Rightarrow> AgentConfig" where
  "config_field c kv =
     (let k = fold_key (fst kv); j = snd kv
      in if k = ''server'' then (case dec_string (ac_Server c) j of None \<Rightarrow> c | Some s \<Rightarrow> c\<lparr>ac_Server := s\<rparr>)
         else if k = ''token'' then (case dec_string (ac_Token c) j of None \<Rightarrow> c | Some s \<Rightarrow> c\<lparr>ac_Token := s\<rparr>)
         else if k = ''china_mirror'' then (case dec_bool (ac_ChinaMirror c) j of None \<Rightarrow> c | Some b \<Rightarrow> c\<lparr>ac_ChinaMirror := b\<rparr>)
         else if k = ''auto_update'' then c\<lparr>ac_AutoUpdate := dec_bool_ptr (ac_AutoUpdate c) j\<rparr>
         else c)"

definition read_config :: "content \<Rightarrow> AgentConfig" where
  "read_config f = (case f of Json (JObj kvs) \<Rightarrow> foldl config_field zero_config kvs | _ \<Rightarrow> zero_config)"

definition load_config :: "string \<Rightarrow> machine \<Rightarrow> AgentConfig" where
  "load_config cfgPath m =
     (if cfgPath = [] then zero_config else case os_ReadFile cfgPath m of None \<Rightarrow> zero_config | Some f \<Rightarrow> read_config f)"

text \<open>What the command line asks for, after the configuration is put together.\<close>

record cmdline = agent_flags +
  c_config :: string
  c_update :: bool
  c_force :: bool
  c_install :: bool
  c_uninstall :: bool
  c_version :: bool

text \<open>
  \<^verbatim>\<open>flag.Parse\<close>: an argument with one or two dashes sets the flag it names, with the value after its equals sign; without one a text flag
  takes the next argument and a switch is turned on. The first argument without a dash ends the flags; an unknown flag, a missing or a
  malformed value ends the program (\<open>None\<close>).
\<close>

definition no_flags :: cmdline where
  "no_flags = \<lparr>f_server = None, f_token = None, f_china_mirror = None, f_auto_update = None, c_config = [],
     c_update = False, c_force = False, c_install = False, c_uninstall = False, c_version = False\<rparr>"

definition ParseBool :: "string \<Rightarrow> bool option" where
  "ParseBool s = (if s \<in> set [''1'', ''t'', ''T'', ''TRUE'', ''true'', ''True''] then Some True
     else if s \<in> set [''0'', ''f'', ''F'', ''FALSE'', ''false'', ''False''] then Some False else None)"

definition text_flag :: "string \<Rightarrow> (string \<Rightarrow> cmdline \<Rightarrow> cmdline) option" where
  "text_flag name =
     (if name = ''server'' then Some (\<lambda>v f. f\<lparr>f_server := Some v\<rparr>)
      else if name = ''token'' then Some (\<lambda>v f. f\<lparr>f_token := Some v\<rparr>)
      else if name = ''config'' then Some (\<lambda>v f. f\<lparr>c_config := v\<rparr>) else None)"

definition bool_flag :: "string \<Rightarrow> (bool \<Rightarrow> cmdline \<Rightarrow> cmdline) option" where
  "bool_flag name =
     (if name = ''china-mirror'' then Some (\<lambda>b f. f\<lparr>f_china_mirror := Some b\<rparr>)
      else if name = ''auto-update'' then Some (\<lambda>b f. f\<lparr>f_auto_update := Some b\<rparr>)
      else if name = ''update'' then Some (\<lambda>b f. f\<lparr>c_update := b\<rparr>)
      else if name = ''force'' then Some (\<lambda>b f. f\<lparr>c_force := b\<rparr>)
      else if name = ''install'' then Some (\<lambda>b f. f\<lparr>c_install := b\<rparr>)
      else if name = ''uninstall'' then Some (\<lambda>b f. f\<lparr>c_uninstall := b\<rparr>)
      else if name = ''version'' then Some (\<lambda>b f. f\<lparr>c_version := b\<rparr>) else None)"

fun flag_Parse :: "string list \<Rightarrow> cmdline \<Rightarrow> cmdline option" where
  "flag_Parse [] f = Some f"
| "flag_Parse (a # rest) f =
     (if length a < 2 \<or> hd a \<noteq> CHR ''-'' then Some f
      else if a = ''--'' then Some f
      else let body = TrimPrefix (tl a) ''-'';
               name = takeWhile (\<lambda>c. c \<noteq> CHR ''='') body;
               val = (if CHR ''='' \<in> set body then Some (drop (Suc (length name)) body) else None)
           in if name = [] \<or> hd name = CHR ''-'' then None
              else (case text_flag name of
                 Some upd \<Rightarrow>
                   (case val of
                      Some v \<Rightarrow> flag_Parse rest (upd v f)
                    | None \<Rightarrow> (case rest of [] \<Rightarrow> None | v # rest' \<Rightarrow> flag_Parse rest' (upd v f)))
               | None \<Rightarrow>
                   (case bool_flag name of
                      None \<Rightarrow> None
                    | Some upd \<Rightarrow>
                        (case (case val of None \<Rightarrow> Some True | Some v \<Rightarrow> ParseBool v) of
                           None \<Rightarrow> None
                         | Some b \<Rightarrow> flag_Parse rest (upd b f)))))"

datatype action = ShowVersion | Uninstall | UpdateNow UpdaterConfig bool | Install AgentConfig | NeedsCredentials | Usage | RunProbe AgentConfig

definition main_config :: "cmdline \<Rightarrow> (string \<Rightarrow> string) \<Rightarrow> machine \<Rightarrow> AgentConfig" where
  "main_config f getenv m = resolve_config (agent_flags.truncate f) getenv (load_config (config_path (\<lambda>p. os_Stat p m) (c_config f)) m)"

definition main_action :: "string \<Rightarrow> cmdline \<Rightarrow> (string \<Rightarrow> string) \<Rightarrow> machine \<Rightarrow> action" where
  "main_action version f getenv m =
     (if c_version f then ShowVersion
      else if c_uninstall f then Uninstall
      else let cfg = main_config f getenv m
           in if c_update f then UpdateNow (hook_config version cfg) (c_force f)
              else if c_install f then (if ac_Server cfg = [] \<or> ac_Token cfg = [] then NeedsCredentials else Install cfg)
              else if ac_Server cfg = [] \<or> ac_Token cfg = [] then Usage
              else RunProbe cfg)"

section \<open>What the file operations do\<close>

definition no_link :: "machine \<Rightarrow> string \<Rightarrow> bool" where
  "no_link m p \<longleftrightarrow> (case mget (nodes m) p of Some (Link t) \<Rightarrow> False | _ \<Rightarrow> True)"

lemma follow_plain: "no_link m p \<Longrightarrow> follow 41 (nodes m) p = Some p"
  using follow.simps(2) [of 40 "nodes m" p] by (simp add: no_link_def split: option.splits node.splits)

lemma target_plain: "no_link m p \<Longrightarrow> target_node (nodes m) p = mget (nodes m) p"
  by (simp add: target_node_def follow_plain)

lemma write_plain:
  assumes "no_link m p"
  shows "os_WriteFile e p c m = (m', None) \<Longrightarrow> m' = m\<lparr>nodes := mput p (File c) (nodes m)\<rparr>"
  using assms by (auto simp: os_WriteFile_def follow_plain split: if_splits)

text \<open>
  \<open>changes ps ls ds\<close> says that only files at \<open>ps\<close> were written, links at \<open>ls\<close> made or removed and directories at \<open>ds\<close> created.
\<close>

definition touched :: "string list \<Rightarrow> string list \<Rightarrow> string list \<Rightarrow> string \<Rightarrow> node option \<Rightarrow> bool" where
  "touched ps ls ds q n \<longleftrightarrow>
     (case n of
        None \<Rightarrow> q \<in> set ls
      | Some (File c) \<Rightarrow> q \<in> set ps
      | Some (Link t) \<Rightarrow> q \<in> set ls
      | Some Dir \<Rightarrow> q \<in> set ds)"

lemma touched_simps [simp]:
  "touched ps ls ds q None \<longleftrightarrow> q \<in> set ls" "touched ps ls ds q (Some (File c)) \<longleftrightarrow> q \<in> set ps"
  "touched ps ls ds q (Some (Link t)) \<longleftrightarrow> q \<in> set ls" "touched ps ls ds q (Some Dir) \<longleftrightarrow> q \<in> set ds"
  by (simp_all add: touched_def)

definition changes :: "string list \<Rightarrow> string list \<Rightarrow> string list \<Rightarrow> machine \<Rightarrow> machine \<Rightarrow> bool" where
  "changes ps ls ds m m' \<longleftrightarrow> (mwf (nodes m) \<longrightarrow> mwf (nodes m')) \<and>
     (\<forall>q. mget (nodes m') q = mget (nodes m) q \<or> touched ps ls ds q (mget (nodes m') q))"

lemma changes_refl [simp]: "changes ps ls ds m m"
  by (simp add: changes_def)

lemma changes_trans: "changes ps ls ds m m1 \<Longrightarrow> changes ps ls ds m1 m2 \<Longrightarrow> changes ps ls ds m m2"
  unfolding changes_def by metis

lemma changes_no_link: "changes ps ls ds m m' \<Longrightarrow> p \<notin> set ls \<Longrightarrow> no_link m p \<Longrightarrow> no_link m' p"
proof -
  assume "changes ps ls ds m m'" and "p \<notin> set ls" and "no_link m p"
  moreover from this have "mget (nodes m') p = mget (nodes m) p \<or> touched ps ls ds p (mget (nodes m') p)"
    unfolding changes_def by blast
  ultimately show ?thesis by (auto simp: no_link_def split: option.splits node.splits)
qed

lemma changes_run [simp]: "changes ps ls ds m (run_quiet e args m') = changes ps ls ds m m'"
  "changes ps ls ds m (fst (run_cmd e args m')) = changes ps ls ds m m'"
  by (simp_all add: changes_def run_quiet_def run_cmd_def)

lemma changes_write: "no_link m p \<Longrightarrow> p \<in> set ps \<Longrightarrow> os_WriteFile e p c m = (m', r) \<Longrightarrow> changes ps ls ds m m'"
  by (auto simp: os_WriteFile_def follow_plain changes_def split: if_splits)

lemma changes_mkdir: "no_link m p \<Longrightarrow> p \<in> set ds \<Longrightarrow> os_MkdirAll e p m = (m', r) \<Longrightarrow> changes ps ls ds m m'"
  by (auto simp: os_MkdirAll_def target_plain changes_def split: if_splits option.splits node.splits)

lemma changes_copy: "no_link m d \<Longrightarrow> d \<in> set ps \<Longrightarrow> installer_copyFile e s d m = (m', r) \<Longrightarrow> changes ps ls ds m m'"
  by (auto simp: installer_copyFile_def follow_plain changes_def Let_def split: if_splits option.splits node.splits)

lemma changes_remove: "p \<in> set ls \<Longrightarrow> changes ps ls ds m (fs_Remove e p m)"
  by (auto simp: fs_Remove_def changes_def)

lemma changes_symlink: "p \<in> set ls \<Longrightarrow> os_Symlink e t p m = (m', r) \<Longrightarrow> changes ps ls ds m m'"
  by (auto simp: os_Symlink_def changes_def split: if_splits)

section \<open>What installing touches\<close>

definition init_files :: "InitType \<Rightarrow> string list" where
  "init_files t = (case t of InitSystemd \<Rightarrow> [systemd_path] | InitOpenRC \<Rightarrow> [initd_path] | InitProcd \<Rightarrow> [initd_path]
     | InitSysVinit \<Rightarrow> [initd_path] | InitRunit \<Rightarrow> [sv_dir @ ''/run''] | _ \<Rightarrow> [])"

definition init_links :: "InitType \<Rightarrow> string list" where
  "init_links t = (case t of InitRunit \<Rightarrow> [''/etc/service/justping-agent'', ''/var/service/justping-agent''] | _ \<Rightarrow> [])"

definition own_files :: "InitType \<Rightarrow> string list" where
  "own_files t = [config_file, ''/usr/local/bin/justping-agent'', ''/usr/bin/justping-agent''] @ init_files t"

definition own_dirs :: "InitType \<Rightarrow> string list" where
  "own_dirs t = ''/etc/justping'' # (case t of InitRunit \<Rightarrow> [sv_dir] | _ \<Rightarrow> [])"

lemmas path_defs = config_file_def systemd_path_def initd_path_def sv_dir_def

lemma own_not_links: "p \<in> set (own_files t) \<union> set (own_dirs t) \<Longrightarrow> p \<notin> set (init_links t)"
  by (cases t) (auto simp: own_files_def own_dirs_def init_files_def init_links_def path_defs)

lemma sysv_register_nodes [simp]: "nodes (sysv_register e m) = nodes m" "nodes (sysv_unregister e m) = nodes m"
  by (simp_all add: sysv_register_def sysv_unregister_def run_quiet_def run_cmd_def)

lemma run_nodes [simp]: "nodes (run_quiet e args m) = nodes m"
  by (simp add: run_quiet_def run_cmd_def)

lemma changes_nodes: "nodes m1 = nodes m2 \<Longrightarrow> changes ps ls ds m m1 = changes ps ls ds m m2"
  by (simp add: changes_def)

lemma no_link_nodes: "nodes m1 = nodes m2 \<Longrightarrow> no_link m1 p = no_link m2 p"
  by (simp add: no_link_def)

text \<open>The service file of an init system, written last.\<close>

definition service_file :: "InitType \<Rightarrow> string \<Rightarrow> string \<times> string" where
  "service_file t bin = (case t of InitSystemd \<Rightarrow> (systemd_path, systemd_unit bin) | InitOpenRC \<Rightarrow> (initd_path, openrc_script bin)
     | InitProcd \<Rightarrow> (initd_path, procd_script bin) | InitSysVinit \<Rightarrow> (initd_path, sysv_script bin)
     | InitRunit \<Rightarrow> (sv_dir @ ''/run'', runit_script bin) | _ \<Rightarrow> ([], []))"

text \<open>The four init systems with one script: the script is written, then commands are run.\<close>

lemma install_init_script:
  assumes "t \<in> {InitSystemd, InitOpenRC, InitProcd, InitSysVinit}" and "install_init e t bin m = (m', r)"
  obtains m1 r1 where "os_WriteFile e (fst (service_file t bin)) (Bytes (snd (service_file t bin))) m = (m1, r1)"
    and "nodes m' = nodes m1" and "r = None \<Longrightarrow> r1 = None"
  using assms
  by (auto simp: install_init_def service_file_def installSystemd_def installOpenRC_def installProcd_def installSysVinit_def run_cmd_def
      split: prod.splits option.splits bool.splits if_splits)

lemma service_file_in: "t \<in> {InitSystemd, InitOpenRC, InitProcd, InitSysVinit} \<Longrightarrow> fst (service_file t bin) \<in> set (init_files t)"
  by (auto simp: service_file_def init_files_def)

text \<open>\<open>ls\<close> holds the link the installer makes; which one it is depends on the directories it finds at that moment.\<close>

definition links_into :: "InitType \<Rightarrow> string list \<Rightarrow> machine \<Rightarrow> bool" where
  "links_into t ls m \<longleftrightarrow> (\<forall>m' d. changes (own_files t) ls (own_dirs t) m m' \<longrightarrow> t = InitRunit \<longrightarrow>
     runit_service_dir m' = Some d \<longrightarrow> d @ ''/justping-agent'' \<in> set ls)"

lemma links_into_all: "links_into t (init_links t) m"
  by (auto simp: links_into_def runit_service_dir_def init_links_def split: if_splits)

lemma links_into_step: "links_into t ls m \<Longrightarrow> changes (own_files t) ls (own_dirs t) m m' \<Longrightarrow> links_into t ls m'"
  unfolding links_into_def by (blast intro: changes_trans)

lemma touched_mono:
  "touched ps ls ds q n \<Longrightarrow> set ps \<subseteq> set ps' \<Longrightarrow> set ls \<subseteq> set ls' \<Longrightarrow> set ds \<subseteq> set ds' \<Longrightarrow> touched ps' ls' ds' q n"
  by (auto simp: touched_def split: option.splits node.splits)

lemma changes_mono:
  "changes ps ls ds m m' \<Longrightarrow> set ps \<subseteq> set ps' \<Longrightarrow> set ls \<subseteq> set ls' \<Longrightarrow> set ds \<subseteq> set ds' \<Longrightarrow> changes ps' ls' ds' m m'"
  unfolding changes_def by (blast intro: touched_mono)

lemma touched_own: "touched ps ls ds q n \<Longrightarrow> q \<in> set ps \<union> set ls \<union> set ds"
  by (auto simp: touched_def split: option.splits node.splits)

lemma changes_same: "changes ps ls ds m m' \<Longrightarrow> q \<notin> set ps \<union> set ls \<union> set ds \<Longrightarrow> mget (nodes m') q = mget (nodes m) q"
  using touched_own [of ps ls ds q] unfolding changes_def by blast

lemma runit_changes:
  assumes "no_link m sv_dir" and "no_link m (sv_dir @ ''/run'')" and "installRunit e bin m = (m', r)"
    and ls: "sv_dir @ ''/run'' \<notin> set ls" "links_into InitRunit ls m"
  shows "changes (init_files InitRunit) ls [sv_dir] m m'"
proof -
  let ?c = "changes (init_files InitRunit) ls [sv_dir]"
  have into: "d @ ''/justping-agent'' \<in> set ls" if "?c m m2" "runit_service_dir m2 = Some d" for m2 d
  proof -
    have "changes (own_files InitRunit) ls (own_dirs InitRunit) m m2"
      by (rule changes_mono [OF that(1)]) (auto simp: own_files_def own_dirs_def)
    then show ?thesis using ls(2) that(2) unfolding links_into_def by blast
  qed
  obtain m1 r1 where 1: "os_MkdirAll e sv_dir m = (m1, r1)" by (cases "os_MkdirAll e sv_dir m")
  have c1: "?c m m1" by (rule changes_mkdir [OF assms(1) _ 1]) simp
  obtain m2 r2 where 2: "os_WriteFile e (sv_dir @ ''/run'') (Bytes (runit_script bin)) m1 = (m2, r2)"
    by (cases "os_WriteFile e (sv_dir @ ''/run'') (Bytes (runit_script bin)) m1")
  have "no_link m1 (sv_dir @ ''/run'')" by (rule changes_no_link [OF c1 ls(1) assms(2)])
  then have c2: "?c m m2" using changes_trans [OF c1 changes_write [OF _ _ 2]] by (simp add: init_files_def)
  have c3: "?c m (fs_Remove e (d @ ''/justping-agent'') m2)" if "runit_service_dir m2 = Some d" for d
    by (rule changes_trans [OF c2 changes_remove [OF into [OF c2 that]]])
  have c4: "?c m m3" if "runit_service_dir m2 = Some d" "os_Symlink e sv_dir (d @ ''/justping-agent'') (fs_Remove e (d @ ''/justping-agent'') m2) = (m3, r3)"
    for d m3 r3
    by (rule changes_trans [OF c3 [OF that(1)] changes_symlink [OF into [OF c2 that(1)] that(2)]])
  show ?thesis using assms(3) 1 2 c1 c2 c4 by (auto simp: installRunit_def split: option.splits prod.splits)
qed

lemma init_changes:
  assumes "\<forall>p\<in>set (own_files t) \<union> set (own_dirs t). no_link m p \<and> p \<notin> set ls" and "links_into t ls m"
    and "install_init e t bin m = (m', r)"
  shows "changes (init_files t) ls (tl (own_dirs t)) m m'"
proof (cases "t \<in> {InitSystemd, InitOpenRC, InitProcd, InitSysVinit}")
  case True
  from install_init_script [OF this assms(3)] obtain m1 r1
    where w: "os_WriteFile e (fst (service_file t bin)) (Bytes (snd (service_file t bin))) m = (m1, r1)" and n: "nodes m' = nodes m1" by metis
  have "no_link m (fst (service_file t bin))" using service_file_in [OF True] assms(1) by (auto simp: own_files_def)
  then have "changes (init_files t) ls (tl (own_dirs t)) m m1" by (rule changes_write [OF _ service_file_in [OF True] w])
  then show ?thesis by (simp add: changes_nodes [OF n])
next
  case False
  then consider "t = InitRunit" | "m' = m" using assms(3) by (cases t) (auto simp: install_init_def)
  then show ?thesis
  proof cases
    case 1
    then have "changes (init_files InitRunit) ls [sv_dir] m m'"
      using assms by (intro runit_changes) (auto simp: own_files_def own_dirs_def init_files_def install_init_def)
    then show ?thesis by (simp add: 1 own_dirs_def)
  qed simp
qed

text \<open>The three stages of an installation, with what each leaves alone.\<close>

lemma install_stages:
  assumes "os_goos e \<noteq> ''windows''" and plain: "\<forall>p\<in>set (own_files t) \<union> set (own_dirs t). no_link m p \<and> p \<notin> set ls"
    and into: "links_into t ls m" and "DetectInit e m = t" and "InstallService e binPath cfg m = (m', r)"
  shows "changes (own_files t) ls (own_dirs t) m m'"
    and "r = None \<Longrightarrow> \<exists>m1 m2 m3. changes (own_files t) ls (own_dirs t) m m1 \<and>
       os_WriteFile e config_file (Json (enc_AgentConfig cfg)) m1 = (m2, None) \<and>
       place_binary e binPath (target_bin m2) m2 = (m3, None) \<and> changes (own_files t) ls (own_dirs t) m m3 \<and>
       changes (own_files t) [] [] m1 m2 \<and> changes [] [] (own_dirs t) m m1 \<and>
       install_init e t (target_bin m2) (run_quiet e [''setcap'', ''cap_net_raw+ep'', target_bin m2] m3) = (m', None)"
proof -
  let ?c = "changes (own_files t) ls (own_dirs t)"
  have keep: "no_link m1 p" if "?c m m1" "p \<in> set (own_files t) \<union> set (own_dirs t)" for m1 p
    using changes_no_link [OF that(1)] plain that(2) by blast
  have d: "''/etc/justping'' \<in> set (own_dirs t)" and f: "config_file \<in> set (own_files t)" and b: "target_bin m0 \<in> set (own_files t)" for m0
    by (simp_all add: own_dirs_def own_files_def target_bin_def)
  obtain m1 r1 where 1: "os_MkdirAll e ''/etc/justping'' m = (m1, r1)" by (cases "os_MkdirAll e ''/etc/justping'' m")
  have c1': "changes [] [] (own_dirs t) m m1" by (rule changes_mkdir [OF _ d 1]) (use plain d in blast)
  then have c1: "?c m m1" by (rule changes_mono) simp_all
  obtain m2 r2 where 2: "os_WriteFile e config_file (Json (enc_AgentConfig cfg)) m1 = (m2, r2)"
    by (cases "os_WriteFile e config_file (Json (enc_AgentConfig cfg)) m1")
  have c2': "changes (own_files t) [] [] m1 m2" by (rule changes_write [OF _ f 2]) (use keep [OF c1] f in blast)
  have c2: "?c m m2" by (rule changes_trans [OF c1 changes_mono [OF c2']]) simp_all
  obtain m3 r3 where 3: "place_binary e binPath (target_bin m2) m2 = (m3, r3)" by (cases "place_binary e binPath (target_bin m2) m2")
  have n2: "no_link m2 (target_bin m2)" using keep [OF c2] b by blast
  have "?c m2 m3" using 3 changes_copy [OF n2 b] by (auto simp: place_binary_def split: if_splits)
  then have c3: "?c m m3" by (rule changes_trans [OF c2])
  let ?m3 = "run_quiet e [''setcap'', ''cap_net_raw+ep'', target_bin m2] m3"
  have c3': "?c m ?m3" using c3 by simp
  have c4: "?c m m4" if i: "install_init e t (target_bin m2) ?m3 = (m4, r4)" for m4 r4
  proof -
    have "changes (init_files t) ls (tl (own_dirs t)) ?m3 m4"
      by (rule init_changes [OF _ links_into_step [OF into c3'] i]) (use keep [OF c3'] plain in blast)
    then show ?thesis by (rule changes_trans [OF c3' changes_mono]) (auto simp: own_files_def own_dirs_def)
  qed
  show "?c m m'" using assms(1,4,5) 1 2 3 c1 c2 c3 c4 by (auto simp: InstallService_def Let_def split: option.splits)
  show "r = None \<Longrightarrow> \<exists>m1 m2 m3. ?c m m1 \<and> os_WriteFile e config_file (Json (enc_AgentConfig cfg)) m1 = (m2, None) \<and>
       place_binary e binPath (target_bin m2) m2 = (m3, None) \<and> ?c m m3 \<and>
       changes (own_files t) [] [] m1 m2 \<and> changes [] [] (own_dirs t) m m1 \<and>
       install_init e t (target_bin m2) (run_quiet e [''setcap'', ''cap_net_raw+ep'', target_bin m2] m3) = (m', None)"
    using assms(1,4,5) 1 2 3 c1 c1' c2' c3 by (auto simp: InstallService_def Let_def split: option.splits)
qed

section \<open>Removing the service\<close>

lemma mget_mfilter_keep: "(\<And>v. P q v) \<Longrightarrow> mget (mfilter P m) q = mget m q"
  by (induction m) (auto simp: mget_def mfilter_def)

definition removes :: "system \<Rightarrow> bool" where
  "removes e \<longleftrightarrow> (\<forall>p. allows e Unlink p \<and> allows e UnlinkAll p)"

lemma Remove_lookup:
  "removes e \<Longrightarrow> mget (nodes m) p \<noteq> Some Dir \<Longrightarrow> mget (nodes (fs_Remove e p m)) q = (if q = p then None else mget (nodes m) q)"
  by (simp add: fs_Remove_def removes_def)

lemma RemoveAll_lookup:
  "removes e \<Longrightarrow> mwf (nodes m) \<Longrightarrow>
   mget (nodes (fs_RemoveAll e p m)) q = (if q = p \<or> below p q then None else mget (nodes m) q)"
  by (simp add: fs_RemoveAll_def removes_def mget_mfilter split: option.split)

lemma Remove_wf [simp]: "mwf (nodes m) \<Longrightarrow> mwf (nodes (fs_Remove e p m))" "mwf (nodes m) \<Longrightarrow> mwf (nodes (fs_RemoveAll e p m))"
  by (simp_all add: fs_Remove_def fs_RemoveAll_def)

definition init_removed :: "InitType \<Rightarrow> string list" where
  "init_removed t = (case t of InitSystemd \<Rightarrow> [systemd_path] | InitOpenRC \<Rightarrow> [initd_path] | InitProcd \<Rightarrow> [initd_path]
     | InitSysVinit \<Rightarrow> [initd_path] | InitRunit \<Rightarrow> [''/var/service/justping-agent''] | _ \<Rightarrow> [])"

definition own_removed :: "InitType \<Rightarrow> string list" where
  "own_removed t = init_removed t @ [''/usr/local/bin/justping-agent'', ''/usr/bin/justping-agent'', ''/run/justping-agent.pid'',
     ''/var/run/justping-agent.pid'']"

definition in_dirs :: "string list \<Rightarrow> string \<Rightarrow> bool" where
  "in_dirs ds q \<longleftrightarrow> (\<exists>d\<in>set ds. q = d \<or> below d q)"

lemma uninstall_init_lookup:
  assumes "removes e" and "mwf (nodes m)" and "\<forall>p\<in>set (init_removed t). mget (nodes m) p \<noteq> Some Dir"
  shows "mget (nodes (uninstall_init e t m)) q =
     (if q \<in> set (init_removed t) \<or> in_dirs (tl (own_dirs t)) q then None else mget (nodes m) q)" (is ?look)
    and "mwf (nodes (uninstall_init e t m))"
proof -
  show ?look using assms
    by (cases t) (simp_all add: uninstall_init_def uninstallSystemd_def uninstallOpenRC_def init_removed_def own_dirs_def in_dirs_def
        Remove_lookup RemoveAll_lookup)
  show "mwf (nodes (uninstall_init e t m))" using assms(2)
    by (cases t) (simp_all add: uninstall_init_def uninstallSystemd_def uninstallOpenRC_def)
qed

lemma uninstall_lookup:
  assumes "removes e" and "mwf (nodes m)" and "\<forall>p\<in>set (own_removed t). mget (nodes m) p \<noteq> Some Dir" and "DetectInit e m = t"
  shows "mget (nodes (UninstallService e m)) q =
     (if q \<in> set (own_removed t) \<or> in_dirs (own_dirs t) q then None else mget (nodes m) q)"
proof -
  have d: "own_dirs t = ''/etc/justping'' # tl (own_dirs t)" by (simp add: own_dirs_def)
  have "\<forall>p\<in>set (init_removed t). mget (nodes m) p \<noteq> Some Dir" using assms(3) by (simp add: own_removed_def)
  note u = uninstall_init_lookup [OF assms(1,2) this]
  have nd: "mget (nodes m) p \<noteq> Some Dir"
    if "p \<in> {''/usr/local/bin/justping-agent'', ''/usr/bin/justping-agent'', ''/run/justping-agent.pid'', ''/var/run/justping-agent.pid''}" for p
    using assms(3) that by (auto simp: own_removed_def)
  show ?thesis unfolding UninstallService_def assms(4)
    by (subst d) (simp add: Remove_lookup RemoveAll_lookup assms(1) u nd own_removed_def in_dirs_def)
qed

section \<open>The installed service runs with the installed configuration\<close>

lemma fold_key_config [simp]:
  "fold_key ''server'' = ''server''" "fold_key ''china_mirror'' = ''china_mirror''" "fold_key ''auto_update'' = ''auto_update''"
  by (simp_all add: fold_key.simps lower_char_def)

lemma read_enc_config: "read_config (Json (enc_AgentConfig cfg)) = cfg"
  by (cases cfg) (simp add: read_config_def enc_AgentConfig_def config_field_def zero_config_def dec_bool_ptr_def split: option.split)

text \<open>
  What an init system runs, read from the text of a service file. A setting counts only when exactly one line makes it. systemd runs the
  \<^verbatim>\<open>ExecStart\<close> of the service section; OpenRC and the System V script name the program and its arguments in two quoted variables, which the System V
  script passes on where it starts the daemon; procd and runit have the command itself, runit in the \<^verbatim>\<open>exec\<close> that is not just a redirection.
\<close>

definition setting :: "string \<Rightarrow> string list \<Rightarrow> string option" where
  "setting key ls = (case [drop (length key) l. l \<leftarrow> ls, HasPrefix l key] of [v] \<Rightarrow> Some v | _ \<Rightarrow> None)"

definition unquoted :: "string \<Rightarrow> string option" where
  "unquoted s = (if 2 \<le> length s \<and> hd s = CHR 0x22 \<and> last s = CHR 0x22 \<and> CHR 0x22 \<notin> set (butlast (tl s)) then Some (butlast (tl s)) else None)"

definition quoted_command :: "string \<Rightarrow> string \<Rightarrow> string list \<Rightarrow> string list option" where
  "quoted_command cmd args ls =
     (case (setting cmd ls, setting args ls) of
        (Some c, Some a) \<Rightarrow> (case (unquoted c, unquoted a) of (Some c', Some a') \<Rightarrow> Some (c' # Fields a') | _ \<Rightarrow> None)
      | _ \<Rightarrow> None)"

definition service_command :: "InitType \<Rightarrow> string \<Rightarrow> string list option" where
  "service_command t file =
     (let ls = Split (CHR 0x0A) file
      in case t of
           InitSystemd \<Rightarrow>
             map_option Fields (setting ''ExecStart='' (takeWhile (\<lambda>l. \<not> HasPrefix l ''['') (tl (dropWhile (\<lambda>l. l \<noteq> ''[Service]'') ls))))
         | InitOpenRC \<Rightarrow> quoted_command ''command='' ''command_args='' ls
         | InitProcd \<Rightarrow> map_option Fields (setting ''procd_set_param command '' (map (dropWhile (\<lambda>c. c = CHR '' '')) ls))
         | InitRunit \<Rightarrow> map_option Fields (setting ''exec '' (filter (\<lambda>l. l \<noteq> ''exec 2>&1'') ls))
         | InitSysVinit \<Rightarrow>
             (case setting ''start-stop-daemon --start '' (map (dropWhile (\<lambda>c. c = CHR '' '')) ls) of
                None \<Rightarrow> None
              | Some v \<Rightarrow> if HasSuffix v '' --exec $DAEMON -- $DAEMON_ARGS'' then quoted_command ''DAEMON='' ''DAEMON_ARGS='' ls else None)
         | _ \<Rightarrow> None)"

definition service_path :: "InitType \<Rightarrow> string" where
  "service_path t = (case t of InitSystemd \<Rightarrow> ''/etc/systemd/system/justping-agent.service'' | InitRunit \<Rightarrow> ''/etc/sv/justping-agent/run''
     | _ \<Rightarrow> ''/etc/init.d/justping-agent'')"

definition service_args :: cmdline where
  "service_args = no_flags\<lparr>c_config := config_file\<rparr>"

definition runs_config :: "InitType \<Rightarrow> string \<Rightarrow> bool" where
  "runs_config t bin \<longleftrightarrow> service_command t (snd (service_file t bin)) = Some [bin, ''--config'', config_file] \<and> fst (service_file t bin) = service_path t"

lemma systemd_runs: "runs_config InitSystemd ''/usr/local/bin/justping-agent''" "runs_config InitSystemd ''/usr/bin/justping-agent''"
  by code_simp+

lemma openrc_runs: "runs_config InitOpenRC ''/usr/local/bin/justping-agent''" "runs_config InitOpenRC ''/usr/bin/justping-agent''"
  by code_simp+

lemma procd_runs: "runs_config InitProcd ''/usr/local/bin/justping-agent''" "runs_config InitProcd ''/usr/bin/justping-agent''"
  by code_simp+

lemma runit_runs: "runs_config InitRunit ''/usr/local/bin/justping-agent''" "runs_config InitRunit ''/usr/bin/justping-agent''"
  by code_simp+

lemma sysvinit_runs: "runs_config InitSysVinit ''/usr/local/bin/justping-agent''" "runs_config InitSysVinit ''/usr/bin/justping-agent''"
  by code_simp+

lemma service_command_file:
  assumes "t \<noteq> InitWindows" and "t \<noteq> InitUnknown"
  shows "service_command t (snd (service_file t (target_bin m))) = Some [target_bin m, ''--config'', config_file]"
    and "fst (service_file t (target_bin m)) = service_path t"
proof -
  have "target_bin m = ''/usr/local/bin/justping-agent'' \<or> target_bin m = ''/usr/bin/justping-agent''" by (simp add: target_bin_def)
  then have "runs_config t (target_bin m)"
    using assms systemd_runs openrc_runs procd_runs runit_runs sysvinit_runs by (cases t) metis+
  then show "service_command t (snd (service_file t (target_bin m))) = Some [target_bin m, ''--config'', config_file]"
    and "fst (service_file t (target_bin m)) = service_path t" unfolding runs_config_def by blast+
qed

lemma service_flags: "flag_Parse [''--config'', config_file] no_flags = Some service_args"
  by (simp add: text_flag_def TrimPrefix_def HasPrefix_def service_args_def)

lemma init_success:
  assumes "install_init e t bin m = (m', None)" and "no_link m (fst (service_file t bin))" and "t = InitRunit \<Longrightarrow> no_link m sv_dir"
  shows "mget (nodes m') (fst (service_file t bin)) = Some (File (Bytes (snd (service_file t bin))))"
proof (cases "t \<in> {InitSystemd, InitOpenRC, InitProcd, InitSysVinit}")
  case True
  from install_init_script [OF this assms(1)] obtain m1 r1
    where "os_WriteFile e (fst (service_file t bin)) (Bytes (snd (service_file t bin))) m = (m1, None)" and "nodes m' = nodes m1" by metis
  then show ?thesis using write_plain [OF assms(2)] by fastforce
next
  case False
  then have t: "t = InitRunit" using assms(1) by (cases t) (auto simp: install_init_def)
  then obtain m1 m2 d m3 where 1: "os_MkdirAll e sv_dir m = (m1, None)"
    and 2: "os_WriteFile e (sv_dir @ ''/run'') (Bytes (runit_script bin)) m1 = (m2, None)" and d: "runit_service_dir m2 = Some d"
    and 3: "os_Symlink e sv_dir (d @ ''/justping-agent'') (fs_Remove e (d @ ''/justping-agent'') m2) = (m3, None)" and 4: "nodes m' = nodes m3"
    using assms(1) by (auto simp: install_init_def installRunit_def split: prod.splits option.splits)
  have "no_link m1 (sv_dir @ ''/run'')"
    using changes_no_link [OF changes_mkdir [OF assms(3) [OF t] _ 1, of "[sv_dir]" "[]" "[]"]] assms(2) by (simp add: t service_file_def)
  from write_plain [OF this 2] have "mget (nodes m2) (sv_dir @ ''/run'') = Some (File (Bytes (runit_script bin)))" by simp
  moreover have "sv_dir @ ''/run'' \<noteq> d @ ''/justping-agent''" using d by (auto simp: runit_service_dir_def sv_dir_def split: if_splits)
  ultimately show ?thesis using 3 4
    by (auto simp: t service_file_def os_Symlink_def fs_Remove_def split: if_splits)
qed

lemma place_binary_content:
  assumes "place_binary e binPath bin m = (m', None)" and "no_link m (abs_path e binPath)" and "no_link m bin"
  shows "mget (nodes m') bin = mget (nodes m) (abs_path e binPath) \<and> (\<forall>q. q \<noteq> bin \<longrightarrow> mget (nodes m') q = mget (nodes m) q)"
  using assms(1)
  by (auto simp: place_binary_def installer_copyFile_def follow_plain [OF assms(2)] follow_plain [OF assms(3)] Let_def
      split: if_splits option.splits node.splits)


lemma own_places:
  "target_bin m \<noteq> config_file" "target_bin m \<in> set (own_files t)" "config_file \<in> set (own_files t)"
  "target_bin m \<notin> set (init_files t) \<union> set (init_links t) \<union> set (tl (own_dirs t))"
  "config_file \<notin> set (init_files t) \<union> set (init_links t) \<union> set (tl (own_dirs t))"
  "target_bin m \<notin> set (own_dirs t)" "config_file \<notin> set (own_dirs t)"
  by (cases t; simp add: target_bin_def own_files_def own_dirs_def init_files_def init_links_def path_defs)+

lemma service_action:
  assumes "mget (nodes m) config_file = Some (File (Json (enc_AgentConfig cfg)))" and "ac_Server cfg \<noteq> []" and "ac_Token cfg \<noteq> []"
  shows "main_action version service_args getenv m = RunProbe (cfg\<lparr>ac_ChinaMirror := ac_ChinaMirror cfg \<or>
    getenv ''JUSTPING_CHINA_MIRROR'' = ''1'' \<or> getenv ''JUSTPING_CHINA_MIRROR'' = ''true''\<rparr>)"
proof -
  have "no_link m config_file" by (simp add: no_link_def assms(1))
  then have r: "os_ReadFile config_file m = Some (Json (enc_AgentConfig cfg))" by (simp add: os_ReadFile_def target_plain assms(1))
  have p: "config_path st (c_config service_args) = config_file" for st by (simp add: config_path_def service_args_def config_file_def)
  have l: "load_config config_file m = cfg" by (simp add: load_config_def r read_enc_config) (simp add: config_file_def)
  define c where "c = main_config service_args getenv m"
  have "c = cfg\<lparr>ac_ChinaMirror := ac_ChinaMirror cfg \<or>
    getenv ''JUSTPING_CHINA_MIRROR'' = ''1'' \<or> getenv ''JUSTPING_CHINA_MIRROR'' = ''true''\<rparr>"
    using assms(2,3) unfolding c_def main_config_def p l
    by (intro AgentConfig.equality) (simp_all add: resolve_config_fields service_args_def no_flags_def agent_flags.defs)
  then show ?thesis using assms(2,3) by (simp add: main_action_def Let_def flip: c_def) (simp add: service_args_def no_flags_def)
qed


section \<open>Removing undoes installing\<close>

definition owned :: "InitType \<Rightarrow> string \<Rightarrow> bool" where
  "owned t q \<longleftrightarrow> q \<in> set (own_files t) \<or> q \<in> set (init_links t) \<or> q \<in> set (own_removed t) \<or> in_dirs (own_dirs t) q"

text \<open>A machine without anything of the probe, and without links to places of the probe.\<close>

definition clean_machine :: "InitType \<Rightarrow> machine \<Rightarrow> bool" where
  "clean_machine t m \<longleftrightarrow> list_all (\<lambda>(q, n). \<not> owned t q \<and> (case n of Link l \<Rightarrow> \<not> owned t l | _ \<Rightarrow> True)) (nodes m)"

lemma clean_machineD:
  assumes "clean_machine t m" and "mget (nodes m) q = Some n"
  shows "\<not> owned t q" and "n = Link l \<Longrightarrow> \<not> owned t l"
  using assms mget_SomeD [OF assms(2)] by (auto simp: clean_machine_def list_all_iff)

lemma owned_changed: "q \<in> set (own_files t) \<union> set (init_links t) \<union> set (own_dirs t) \<Longrightarrow> owned t q"
  by (auto simp: owned_def in_dirs_def)

lemma follow_same:
  assumes "clean_machine t m" and "\<forall>q. \<not> owned t q \<longrightarrow> mget (nodes m') q = mget (nodes m) q" and "\<not> owned t p"
  shows "follow n (nodes m') p = follow n (nodes m) p \<and> (\<forall>r. follow n (nodes m) p = Some r \<longrightarrow> \<not> owned t r)"
  using assms(3)
proof (induction n arbitrary: p)
  case (Suc n)
  have "mget (nodes m') p = mget (nodes m) p" using assms(2) Suc.prems by blast
  then show ?case using Suc clean_machineD(2) [OF assms(1)] by (simp split: option.split node.split) blast
qed simp

lemma stat_same:
  assumes "clean_machine t m" and "changes (own_files t) ls (own_dirs t) m m'" and "set ls \<subseteq> set (init_links t)" and "\<not> owned t p"
  shows "os_Stat p m' = os_Stat p m"
proof -
  have same: "\<forall>q. \<not> owned t q \<longrightarrow> mget (nodes m') q = mget (nodes m) q"
    using changes_same [OF assms(2)] owned_changed assms(3) by blast
  note f = follow_same [OF assms(1) same assms(4), of 41]
  show ?thesis using f same by (auto simp: os_Stat_def target_node_def split: option.splits)
qed

lemma probed_not_owned:
  "p \<in> {''/run/systemd/system'', ''/etc/openwrt_release'', ''/run/openrc'', ''/sbin/openrc-run'', ''/etc/sv'', ''/etc/init.d'', ''/etc/service''} \<Longrightarrow>
   \<not> owned t p"
  by (cases t) (auto simp: owned_def own_files_def own_dirs_def init_files_def init_links_def own_removed_def init_removed_def in_dirs_def
      path_defs below_def HasPrefix_def)

lemma detect_same:
  assumes "clean_machine t m" and "changes (own_files t) ls (own_dirs t) m m'" and "set ls \<subseteq> set (init_links t)"
  shows "DetectInit e m' = DetectInit e m"
  using stat_same [OF assms] probed_not_owned [of _ t] by (simp add: DetectInit_def)

definition used_links :: "InitType \<Rightarrow> string list" where
  "used_links t = (if t = InitRunit then [''/var/service/justping-agent''] else [])"

lemma used_links_sub: "set (used_links t) \<subseteq> set (init_links t)"
  by (cases t) (simp_all add: used_links_def init_links_def)

lemma used_links_into:
  assumes "clean_machine t m" and "t = InitRunit \<Longrightarrow> \<not> os_Stat ''/etc/service'' m"
  shows "links_into t (used_links t) m"
  unfolding links_into_def
proof (intro allI impI)
  fix m' d
  assume c: "changes (own_files t) (used_links t) (own_dirs t) m m'" and t: "t = InitRunit" and d: "runit_service_dir m' = Some d"
  have "\<not> os_Stat ''/etc/service'' m'"
    using stat_same [OF assms(1) c used_links_sub probed_not_owned] assms(2) t by simp
  then show "d @ ''/justping-agent'' \<in> set (used_links t)" using d t by (auto simp: runit_service_dir_def used_links_def split: if_splits)
qed

lemma removed_list:
  "list_all (\<lambda>q. q \<in> set (own_removed t) \<or> in_dirs (own_dirs t) q) (own_files t @ used_links t @ own_dirs t)"
  "list_all (\<lambda>q. q \<notin> set (own_dirs t)) (own_removed t)"
  by (cases t; simp add: own_files_def used_links_def own_dirs_def own_removed_def init_removed_def init_files_def in_dirs_def path_defs
      below_def HasPrefix_def)+

lemma removed_covers:
  "q \<in> set (own_files t) \<union> set (used_links t) \<union> set (own_dirs t) \<Longrightarrow> q \<in> set (own_removed t) \<or> in_dirs (own_dirs t) q"
  "q \<in> set (own_removed t) \<Longrightarrow> q \<notin> set (own_dirs t)"
  using removed_list [of t] unfolding list_all_iff set_append by blast+

lemma clean_plain:
  assumes "clean_machine t m" and "p \<in> set (own_files t) \<union> set (own_dirs t)"
  shows "no_link m p \<and> p \<notin> set (used_links t)"
proof -
  have "mget (nodes m) p = None" using clean_machineD(1) [OF assms(1)] owned_changed [of p t] assms(2) by (cases "mget (nodes m) p") auto
  moreover have "p \<notin> set (used_links t)" using own_not_links [OF assms(2)] used_links_sub by blast
  ultimately show ?thesis by (simp add: no_link_def)
qed


section \<open>Concrete machines\<close>

definition demo_os :: system where
  "demo_os = \<lparr>os_goos = ''linux'', allows = (\<lambda>_ _. True), short_write = (\<lambda>_. False), cmd_ok = (\<lambda>_. True), in_path = (\<lambda>_. False),
     abs_path = (\<lambda>p. p), os_getenv = (\<lambda>_. [])\<rparr>"

definition demo_machine :: "string list \<Rightarrow> machine" where
  "demo_machine dirs = \<lparr>nodes = map (\<lambda>d. (d, Dir)) dirs @ [(''/tmp/agent'', File (Bytes ''ELF''))], ran = []\<rparr>"

definition demo_cfg :: AgentConfig where
  "demo_cfg = \<lparr>ac_Server = ''h'', ac_Token = ''t'', ac_ChinaMirror = False, ac_AutoUpdate = Some False\<rparr>"

definition demo_systemd :: machine where
  "demo_systemd = demo_machine [''/run/systemd/system'', ''/usr/local/bin'']"

lemma demo_systemd_facts:
  "snd (InstallService demo_os ''/tmp/agent'' demo_cfg demo_systemd) = None" "DetectInit demo_os demo_systemd = InitSystemd"
  "list_all (no_link demo_systemd) (own_files InitSystemd @ own_dirs InitSystemd)" "clean_machine InitSystemd demo_systemd"
  by code_simp+



text \<open>
  Two ways in which removing leaves something behind. With runit and \<^verbatim>\<open>/etc/service\<close> the installer links the service there, but only
  \<^verbatim>\<open>/var/service\<close> is cleaned: a dangling link stays. On Windows neither the service nor the configuration with its token is removed.
\<close>

lemma runit_uninstall_leaves_link:
  "\<exists>m m'. InstallService demo_os ''/tmp/agent'' demo_cfg m = (m', None) \<and> clean_machine InitRunit m \<and>
     mget (nodes (UninstallService demo_os m')) ''/etc/service/justping-agent'' = Some (Link sv_dir) \<and>
     mget (nodes (UninstallService demo_os m')) sv_dir = None"
proof -
  define m where "m = demo_machine [''/etc/sv'', ''/etc/service'', ''/usr/local/bin'']"
  define m' where "m' = fst (InstallService demo_os ''/tmp/agent'' demo_cfg m)"
  have "snd (InstallService demo_os ''/tmp/agent'' demo_cfg m) = None" "clean_machine InitRunit m"
    "mget (nodes (UninstallService demo_os m')) ''/etc/service/justping-agent'' = Some (Link sv_dir)"
    "mget (nodes (UninstallService demo_os m')) sv_dir = None"
    unfolding m'_def m_def by code_simp+
  then show ?thesis unfolding m'_def by (metis prod.collapse)
qed

lemma windows_uninstall_removes_nothing:
  assumes "os_goos e = ''windows''" and "os_getenv e ''ProgramData'' = []" and "InstallService e binPath cfg m = (m', None)"
  shows "mget (nodes (UninstallService e m')) (windows_dir e @ sep @ ''agent.json'') = mget (nodes m') (windows_dir e @ sep @ ''agent.json'')"
    and "ran (UninstallService e m') = ran m'"
proof -
  have w: "windows_dir e @ sep @ ''agent.json'' = ''C:'' @ sep @ ''ProgramData'' @ sep @ ''JustPing'' @ sep @ ''agent.json''"
    by (simp add: windows_dir_def assms(2))
  have keep: "mget (nodes (fs_Remove e p m)) q = mget (nodes m) q" if "p \<noteq> q" for p q m
    using that by (simp add: fs_Remove_def)
  have keepall: "mget (nodes (fs_RemoveAll e p m)) q = mget (nodes m) q" if "p \<noteq> q" "\<not> below p q" for p q m
    using that mget_mfilter_keep [of "\<lambda>q _. q \<noteq> p \<and> \<not> below p q" q "nodes m"] by (auto simp: fs_RemoveAll_def)
  have r: "ran (fs_Remove e p m) = ran m" "ran (fs_RemoveAll e p m) = ran m" for p m by (simp_all add: fs_Remove_def fs_RemoveAll_def)
  show "ran (UninstallService e m') = ran m'" by (simp add: UninstallService_def r DetectInit_def assms(1) uninstall_init_def)
  show "mget (nodes (UninstallService e m')) (windows_dir e @ sep @ ''agent.json'') = mget (nodes m') (windows_dir e @ sep @ ''agent.json'')"
    unfolding w by (simp add: UninstallService_def DetectInit_def assms(1) uninstall_init_def keep keepall sep_def below_def HasPrefix_def)
qed

end
