(* ===== verification/Tracer.thy ===== *)
theory Tracer
  imports Protocol Go_Encoding
begin

unbundle bit_operations_syntax

text \<open>
  The probe's traceroute, \<^verbatim>\<open>agent/internal/traceroute/tracer.go\<close>: the hops of one trace with their probes, and the wait
  for a reply over the packets the ICMP socket delivers. Name resolution, the sockets and the clock are arguments.
\<close>

definition MaxHops :: int where "MaxHops = 30"
definition ProbesPerHop :: nat where "ProbesPerHop = 3"

definition roundFloat :: "float64 \<Rightarrow> float64" where
  "roundFloat val = rnd (math_Round (rnd (val * 100)) / 100)"

section \<open>Replies\<close>

text \<open>
  A packet as the socket delivers it: whether the deadline has passed before the read, the time since the probe in
  microseconds, the peer's address, and the parsed message (\<open>None\<close> when it does not parse). An error message carries
  the identifier and sequence number of the echo request it is about; an echo reply carries its own, when its body
  is an echo body.
\<close>

datatype icmp_msg =
  TimeExceeded "(int \<times> int) option"
| EchoReply "(int \<times> int) option"
| DestinationUnreachable "(int \<times> int) option"
| OtherMessage

record packet =
  past_deadline :: bool
  since_micros :: int
  pkt_peer :: "string option"
  pkt_msg :: "icmp_msg option"

definition extractIP :: "string option \<Rightarrow> string" where
  "extractIP p = (case p of None \<Rightarrow> [] | Some addr \<Rightarrow> (case SplitHostPort addr of Some (host, port) \<Rightarrow> host | None \<Rightarrow> addr))"

definition reply_rtt :: "int \<Rightarrow> float64" where
  "reply_rtt us = roundFloat (rnd (rnd (of_int us) / 1000))"

text \<open>The end of the list is the read error at the deadline.\<close>

fun waitReply :: "int \<Rightarrow> int \<Rightarrow> string \<Rightarrow> packet list \<Rightarrow> (string \<times> float64 \<times> bool) option" where
  "waitReply expectedID expectedSeq destIP [] = None"
| "waitReply expectedID expectedSeq destIP (p # ps) =
     (if past_deadline p then None
      else let rtt = reply_rtt (since_micros p); peerIP = extractIP (pkt_peer p)
           in case pkt_msg p of
                None \<Rightarrow> waitReply expectedID expectedSeq destIP ps
              | Some (TimeExceeded orig) \<Rightarrow> Some (peerIP, rtt, False)
              | Some (EchoReply echo) \<Rightarrow>
                  (if (case echo of Some (i, s) \<Rightarrow> expectedID = 0 \<or> i = expectedID | None \<Rightarrow> False) then Some (peerIP, rtt, True)
                   else if peerIP = destIP then Some (peerIP, rtt, True)
                   else waitReply expectedID expectedSeq destIP ps)
              | Some (DestinationUnreachable orig) \<Rightarrow> Some (peerIP, rtt, peerIP = destIP)
              | Some OtherMessage \<Rightarrow> waitReply expectedID expectedSeq destIP ps)"

section \<open>Hops\<close>

text \<open>\<open>r\<close> is \<^verbatim>\<open>rand.Intn(0x7f)\<close>.\<close>

definition probe_seq :: "int \<Rightarrow> int \<Rightarrow> int \<Rightarrow> int" where
  "probe_seq ttl attempt r = push_bit 8 ttl OR (attempt AND 0xff) OR push_bit 4 r"

text \<open>One probe: whether the context has ended before it, the random number of its sequence number, whether
  marshalling and sending succeed, and what the socket delivers.\<close>

record probe =
  pr_ctx_err :: bool
  pr_rand :: int
  pr_sent :: bool
  pr_packets :: "packet list"

record hop_acc =
  hopIP :: string
  hop_rtts :: "float64 list"
  recvCount :: nat
  reached :: bool

fun hop_probes :: "int \<Rightarrow> string \<Rightarrow> int \<Rightarrow> int \<Rightarrow> probe list \<Rightarrow> hop_acc \<Rightarrow> hop_acc" where
  "hop_probes pid destIP ttl attempt [] a = a"
| "hop_probes pid destIP ttl attempt (pr # prs) a =
     (if pr_ctx_err pr then a
      else if \<not> pr_sent pr then hop_probes pid destIP ttl (attempt + 1) prs a
      else case waitReply pid (probe_seq ttl attempt (pr_rand pr)) destIP (pr_packets pr) of
             None \<Rightarrow> hop_probes pid destIP ttl (attempt + 1) prs a
           | Some (replyIP, rtt, isDestination) \<Rightarrow>
               (if replyIP \<noteq> [] then
                  hop_probes pid destIP ttl (attempt + 1) prs
                    (a\<lparr>hopIP := replyIP, hop_rtts := hop_rtts a @ [rtt], recvCount := recvCount a + 1,
                       reached := reached a \<or> isDestination \<or> replyIP = destIP\<rparr>)
                else hop_probes pid destIP ttl (attempt + 1) prs a))"

definition loss_of :: "nat \<Rightarrow> float64" where
  "loss_of recv = roundFloat (rnd (rnd (of_int (int ProbesPerHop - int recv) / of_nat ProbesPerHop) * 100))"

definition rtt_sum :: "float64 list \<Rightarrow> float64" where
  "rtt_sum rs = foldl (\<lambda>s r. rnd (s + r)) 0 rs"

definition lookupHostname :: "(string \<Rightarrow> string list option) \<Rightarrow> string \<Rightarrow> string" where
  "lookupHostname lookup ip =
     (case lookup ip of None \<Rightarrow> [] | Some [] \<Rightarrow> [] | Some (n # ns) \<Rightarrow> TrimSuffix n ''.'')"

definition trace_hop :: "(string \<Rightarrow> string list option) \<Rightarrow> int \<Rightarrow> string \<Rightarrow> int \<Rightarrow> probe list \<Rightarrow> TracerouteHop \<times> bool" where
  "trace_hop lookup pid destIP ttl prs =
     (let a = hop_probes pid destIP ttl 0 (take ProbesPerHop prs) \<lparr>hopIP = [], hop_rtts = [], recvCount = 0, reached = False\<rparr>
      in (\<lparr>TTL = ttl, hop_IP = hopIP a, hop_Hostname = (if hopIP a \<noteq> [] then lookupHostname lookup (hopIP a) else []),
           RTTs = hop_rtts a,
           hop_AvgRTT = (if hop_rtts a \<noteq> [] then roundFloat (rnd (rtt_sum (hop_rtts a) / of_nat (length (hop_rtts a)))) else 0),
           hop_LossPct = loss_of (recvCount a)\<rparr>, reached a))"

text \<open>The loop over the TTLs; \<open>ctx_err\<close> says whether the context has ended before a TTL.\<close>

function trace_hops :: "(string \<Rightarrow> string list option) \<Rightarrow> int \<Rightarrow> string \<Rightarrow> (int \<Rightarrow> bool) \<Rightarrow> (int \<Rightarrow> probe list) \<Rightarrow> int \<Rightarrow> TracerouteHop list \<times> bool" where
  "trace_hops lookup pid destIP ctx_err probes ttl =
     (if ttl > MaxHops \<or> ctx_err ttl then ([], False)
      else let (hop, hit) = trace_hop lookup pid destIP ttl (probes ttl)
           in if hit then ([hop], True)
              else let (hops, r) = trace_hops lookup pid destIP ctx_err probes (ttl + 1) in (hop # hops, r))"
  by pat_completeness auto

termination
  by (relation "measure (\<lambda>(l, p, d, c, pr, ttl). nat (MaxHops + 1 - ttl))") auto

declare trace_hops.simps [simp del]

text \<open>
  A whole trace: \<open>ips\<close> is what the resolver answers, \<open>sock\<close> says whether a socket could be opened, \<open>now\<close> and
  \<open>duration\<close> are the clock. The report leaves the agent id to the sender.
\<close>

record trace_env =
  te_ips :: "string list option"
  te_sock :: bool
  te_pid :: int
  te_ctx_err :: "int \<Rightarrow> bool"
  te_probes :: "int \<Rightarrow> probe list"
  te_lookup :: "string \<Rightarrow> string list option"

text \<open>Which socket a trace uses: \<open>Some True\<close> for the unprivileged one; \<open>raw_ok\<close> and \<open>udp_ok\<close> say which can be opened.\<close>

definition listenICMP :: "string \<Rightarrow> bool \<Rightarrow> bool \<Rightarrow> bool option" where
  "listenICMP goos raw_ok udp_ok =
     (if raw_ok then Some False else if goos \<noteq> ''windows'' \<and> udp_ok then Some True else None)"

definition TraceTarget :: "trace_env \<Rightarrow> int \<Rightarrow> int \<Rightarrow> TargetConfig \<Rightarrow> TracerouteReportPayload" where
  "TraceTarget env now duration target =
     (let report = \<lparr>tr_AgentID = [], tr_TargetID = tc_ID target, tr_TargetHost = tc_Host target, ResolvedIP = [],
                    tr_Timestamp = Some now, DurationMs = duration, Reached = False, Hops = []\<rparr>
      in case te_ips env of
           None \<Rightarrow> report
         | Some [] \<Rightarrow> report
         | Some (destIP # _) \<Rightarrow>
             (let report1 = report\<lparr>ResolvedIP := destIP\<rparr>
              in if \<not> te_sock env then report1
                 else let (hops, r) = trace_hops (te_lookup env) (te_pid env mod 65536) destIP (te_ctx_err env) (te_probes env) 1
                      in report1\<lparr>Hops := hops, Reached := r\<rparr>))"

section \<open>Shape of a trace\<close>

lemma hop_probes_count:
  "length (hop_rtts a) = recvCount a \<Longrightarrow> recvCount a \<le> n \<Longrightarrow>
   length (hop_rtts (hop_probes pid d ttl k prs a)) = recvCount (hop_probes pid d ttl k prs a) \<and>
   recvCount (hop_probes pid d ttl k prs a) \<le> n + length prs"
proof (induction pid d ttl k prs a arbitrary: n rule: hop_probes.induct)
  case (2 pid destIP ttl k pr prs a)
  consider "pr_ctx_err pr" | "\<not> pr_ctx_err pr" "\<not> pr_sent pr"
    | "\<not> pr_ctx_err pr" "pr_sent pr" "waitReply pid (probe_seq ttl k (pr_rand pr)) destIP (pr_packets pr) = None"
    | ip rtt dst where "\<not> pr_ctx_err pr" "pr_sent pr" "waitReply pid (probe_seq ttl k (pr_rand pr)) destIP (pr_packets pr) = Some (ip, rtt, dst)"
    by (cases "waitReply pid (probe_seq ttl k (pr_rand pr)) destIP (pr_packets pr)") (auto intro: that)
  then show ?case
  proof cases
    case 1
    then show ?thesis using "2.prems" by simp
  next
    case b: 2
    then show ?thesis using "2.IH"(1) [OF b] "2.prems" by (force intro: le_SucI)
  next
    case c: 3
    then show ?thesis using "2.IH"(2) "2.prems" by (force intro: le_SucI)
  next
    case e: (4 ip rtt dst)
    show ?thesis
    proof (cases "ip = []")
      case True
      then show ?thesis using e "2.IH"(4) [of _ ip "(rtt, dst)" rtt dst] "2.prems" by (force intro: le_SucI)
    next
      case False
      then show ?thesis using e "2.IH"(3) [of _ ip "(rtt, dst)" rtt dst "Suc n"] "2.prems" by simp
    qed
  qed
qed simp

lemma hop_probes_ip:
  "(hopIP a = [] \<longleftrightarrow> hop_rtts a = []) \<Longrightarrow> (hopIP (hop_probes pid d ttl k prs a) = [] \<longleftrightarrow> hop_rtts (hop_probes pid d ttl k prs a) = [])"
  by (induction pid d ttl k prs a rule: hop_probes.induct) (simp_all split: option.split prod.split)

lemma loss_values: "loss_of 0 = rnd 100" "loss_of 1 = rnd (6667 / 100)" "loss_of 2 = rnd (3333 / 100)" "loss_of 3 = 0"
  by code_simp+

definition loss_table :: "rat list" where
  "loss_table = [100, 6667 / 100, 3333 / 100, 0]"

lemma loss_of_table: "n \<le> 3 \<Longrightarrow> loss_of n = rnd (loss_table ! n)"
proof -
  assume "n \<le> 3"
  then consider "n = 0" | "n = 1" | "n = 2" | "n = 3" by linarith
  then show ?thesis by cases (simp_all add: loss_table_def loss_values loss_values(2) [simplified])
qed

definition hop_ok :: "int \<Rightarrow> TracerouteHop \<Rightarrow> bool" where
  "hop_ok ttl h \<longleftrightarrow> TTL h = ttl \<and> length (RTTs h) \<le> 3 \<and> hop_LossPct h = rnd (loss_table ! length (RTTs h)) \<and> (hop_IP h = [] \<longleftrightarrow> RTTs h = [])"

lemma trace_hop_ok: "hop_ok ttl (fst (trace_hop lookup pid d ttl prs))"
proof -
  define a where "a = hop_probes pid d ttl 0 (take ProbesPerHop prs) \<lparr>hopIP = [], hop_rtts = [], recvCount = 0, reached = False\<rparr>"
  have "length (hop_rtts a) = recvCount a \<and> recvCount a \<le> 0 + length (take ProbesPerHop prs)"
    unfolding a_def by (rule hop_probes_count) simp_all
  then have "length (hop_rtts a) = recvCount a" "recvCount a \<le> 3" by (auto simp: ProbesPerHop_def)
  moreover have "hopIP a = [] \<longleftrightarrow> hop_rtts a = []" unfolding a_def by (rule hop_probes_ip) simp
  ultimately show ?thesis by (simp add: trace_hop_def hop_ok_def a_def [symmetric] Let_def loss_of_table)
qed


lemma trace_hops_exact:
  "i \<le> 31 \<Longrightarrow> \<exists>n. i - 1 \<le> n \<and> n \<le> 30 \<and>
     fst (trace_hops lookup pid d ctx_err probes i) = map (\<lambda>ttl. fst (trace_hop lookup pid d ttl (probes ttl))) [i..n] \<and>
     list_all (\<lambda>ttl. \<not> snd (trace_hop lookup pid d ttl (probes ttl))) [i..n - 1] \<and>
     snd (trace_hops lookup pid d ctx_err probes i) = (i \<le> n \<and> snd (trace_hop lookup pid d n (probes n))) \<and>
     (snd (trace_hops lookup pid d ctx_err probes i) \<or> n = 30 \<or> ctx_err (n + 1))"
proof (induction lookup pid d ctx_err probes i rule: trace_hops.induct)
  case (1 lookup pid d ctx_err probes i)
  show ?case
  proof (cases "i > MaxHops \<or> ctx_err i")
    case True
    then show ?thesis using "1.prems"
      by (intro exI [of _ "i - 1"]) (auto simp: trace_hops.simps [of lookup pid d ctx_err probes i] MaxHops_def)
  next
    case False
    obtain hop hit where h: "trace_hop lookup pid d i (probes i) = (hop, hit)" by (rule prod.exhaust)
    have i30: "i \<le> 30" using False by (simp add: MaxHops_def)
    show ?thesis
    proof (cases hit)
      case True
      then show ?thesis using False h i30
        by (intro exI [of _ i]) (simp add: trace_hops.simps [of lookup pid d ctx_err probes i])
    next
      case nohit: False
      obtain hops r where rest: "trace_hops lookup pid d ctx_err probes (i + 1) = (hops, r)" by (rule prod.exhaust)
      obtain n where n: "i \<le> n" "n \<le> 30"
        "hops = map (\<lambda>ttl. fst (trace_hop lookup pid d ttl (probes ttl))) [i + 1..n]"
        "list_all (\<lambda>ttl. \<not> snd (trace_hop lookup pid d ttl (probes ttl))) [i + 1..n - 1]"
        "r = (i + 1 \<le> n \<and> snd (trace_hop lookup pid d n (probes n)))" "r \<or> n = 30 \<or> ctx_err (n + 1)"
        using "1.IH" [OF False h [symmetric] refl nohit] rest i30 by auto
      have eq: "trace_hops lookup pid d ctx_err probes i = (hop # hops, r)"
        using False h nohit rest by (simp add: trace_hops.simps [of lookup pid d ctx_err probes i])
      have "list_all (\<lambda>ttl. \<not> snd (trace_hop lookup pid d ttl (probes ttl))) [i..n - 1]"
        using n(1,4) h nohit by (cases "i \<le> n - 1") (simp_all add: upto_rec1)
      moreover have "r = (i \<le> n \<and> snd (trace_hop lookup pid d n (probes n)))"
        using n(1,5) h nohit by (cases "n = i") auto
      ultimately show ?thesis
        unfolding eq using n h by (intro exI [of _ n]) (simp add: upto_rec1)
    qed
  qed
qed

text \<open>
  once the address is resolved and a socket is open, a trace is the hops of TTL 1, 2, up to some n of at most 30, one
  each: it ends at the first hop at which the destination answered, and then says so, or after hop 30, or when
  the context has ended. Every hop has at most three round-trip times, an address exactly when
  it has one, and the loss percentage that belongs to their number.
\<close>

theorem trace_shape:
  "\<exists>n \<le> 30. (let env' = env\<lparr>te_ips := Some (d # ds), te_sock := True\<rparr>; rep = TraceTarget env' now dur t;
       hop = (\<lambda>ttl. trace_hop (te_lookup env) (te_pid env mod 65536) d ttl (te_probes env ttl)) in
     Hops rep = map (\<lambda>ttl. fst (hop ttl)) [1..n] \<and> list_all2 hop_ok [1..n] (Hops rep) \<and>
     list_all (\<lambda>ttl. \<not> snd (hop ttl)) [1..n - 1] \<and> Reached rep = (1 \<le> n \<and> snd (hop n)) \<and>
     (Reached rep \<or> n = 30 \<or> te_ctx_err env (n + 1)) \<and> ResolvedIP rep = d \<and> tr_TargetID rep = tc_ID t)"
proof -
  let ?r = "trace_hops (te_lookup env) (te_pid env mod 65536) d (te_ctx_err env) (te_probes env) 1"
  have "(1 :: int) \<le> 31" by simp
  from trace_hops_exact [OF this, of "te_lookup env" "te_pid env mod 65536" d "te_ctx_err env" "te_probes env"]
  obtain n where n: "1 - 1 \<le> n \<and> n \<le> 30 \<and>
     fst ?r = map (\<lambda>ttl. fst (trace_hop (te_lookup env) (te_pid env mod 65536) d ttl (te_probes env ttl))) [1..n] \<and>
     list_all (\<lambda>ttl. \<not> snd (trace_hop (te_lookup env) (te_pid env mod 65536) d ttl (te_probes env ttl))) [1..n - 1] \<and>
     snd ?r = (1 \<le> n \<and> snd (trace_hop (te_lookup env) (te_pid env mod 65536) d n (te_probes env n))) \<and>
     (snd ?r \<or> n = 30 \<or> te_ctx_err env (n + 1))" ..
  have "list_all2 hop_ok [1..n] (map (\<lambda>ttl. fst (trace_hop (te_lookup env) (te_pid env mod 65536) d ttl (te_probes env ttl))) [1..n])"
    by (simp add: list_all2_map2 list_all2_same trace_hop_ok)
  moreover obtain hops r where r: "?r = (hops, r)" by (rule prod.exhaust)
  moreover have "TraceTarget (env\<lparr>te_ips := Some (d # ds), te_sock := True\<rparr>) now dur t =
      \<lparr>tr_AgentID = [], tr_TargetID = tc_ID t, tr_TargetHost = tc_Host t, ResolvedIP = d,
       tr_Timestamp = Some now, DurationMs = dur, Reached = r, Hops = hops\<rparr>"
    using r by (simp add: TraceTarget_def)
  ultimately show ?thesis
    using n unfolding Let_def by (intro exI [of _ n]) (simp, blast)
qed

section \<open>Replies are not matched to probes\<close>

text \<open>
  the sequence number a probe is sent with plays no part in accepting its reply: the first
  ``time exceeded'' message the socket delivers ends the wait, whichever request it is about, so an answer to an
  earlier probe or to another program becomes this hop's address and round-trip time.
\<close>

theorem reply_matching:
  "waitReply pid seq1 d ps = waitReply pid seq2 d ps \<and>
   waitReply pid seq1 d (p\<lparr>past_deadline := False, pkt_msg := Some (TimeExceeded orig)\<rparr> # ps) =
     Some (extractIP (pkt_peer p), reply_rtt (since_micros p), False)"
proof
  show "waitReply pid seq1 d ps = waitReply pid seq2 d ps"
    by (induction ps) (simp_all add: Let_def split: option.split icmp_msg.split)
qed simp

text \<open>The random part of the sequence number overlaps the TTL, so different hops can use the same number.\<close>

lemma probe_seq_collision: "probe_seq 1 0 0x20 = probe_seq 3 0 0"
  by (simp add: probe_seq_def)

lemma waitReply_total_loss: "list_all (\<lambda>p. pkt_msg p = None \<or> pkt_msg p = Some OtherMessage) ps \<Longrightarrow> waitReply pid seq d ps = None"
  by (induction ps) (auto simp: Let_def)

end
