(* ===== verification/Tunnel_Client.thy ===== *)
theory Tunnel_Client
  imports Proxy_Syntax Go_Net "HOL-Library.Multiset"
begin

text \<open>
  The tunnel client's dialer, \<^verbatim>\<open>tunnel/cmd/tunnel/dialer.go\<close>, the byte stream over a WebSocket it uses,
  \<^verbatim>\<open>shared/wsutil/conn.go\<close>, and the start of its program, \<^verbatim>\<open>main.go\<close>. The WebSocket library is an argument.
\<close>

section \<open>Addresses and credentials\<close>

definition tunnelPath :: string where "tunnelPath = ''/api/proxy/tunnel''"

text \<open>\<open>parse\<close> stands for \<^verbatim>\<open>url.Parse\<close>: scheme and host, or an error.\<close>

definition buildTunnelURL :: "(string \<Rightarrow> string + string \<times> string) \<Rightarrow> string \<Rightarrow> string + string" where
  "buildTunnelURL parse serverURL =
     (let raw = TrimSpace serverURL
      in if raw = [] then Inl ''server URL is required''
         else case parse (if \<not> Contains raw ''://'' then ''https://'' @ raw else raw) of
                Inl e \<Rightarrow> Inl (''invalid server URL: '' @ e)
              | Inr (scheme, host) \<Rightarrow>
                  if host = [] then Inl ''server URL has no host''
                  else if scheme = ''http'' \<or> scheme = ''ws'' then Inr (''ws://'' @ host @ tunnelPath)
                  else if scheme = ''https'' \<or> scheme = ''wss'' then Inr (''wss://'' @ host @ tunnelPath)
                  else Inl (''unsupported server URL scheme '' @ scheme))"

fun firstNonEmpty :: "string list \<Rightarrow> string" where
  "firstNonEmpty [] = []"
| "firstNonEmpty (v # vs) = (if TrimSpace v \<noteq> [] then TrimSpace v else firstNonEmpty vs)"

definition split_credential :: "string \<Rightarrow> (string \<times> string) option" where
  "split_credential credential =
     (case Cut (CHR '':'') credential of (user, pass, ok) \<Rightarrow> if \<not> ok \<or> user = [] \<or> pass = [] then None else Some (user, pass))"

section \<open>Bytes over a WebSocket\<close>

text \<open>
  A connection for reading: the rest of the message being read, if any, and the messages still to come. \<open>rd\<close> is the
  message reader of the library: for the rest of a message and a buffer size, how many bytes it returns and
  whether it also reports the end of the message. The result of \<^verbatim>\<open>Read\<close> is \<open>None\<close> when the next message cannot be read.
\<close>

record ws_conn =
  rest :: "string option"
  incoming :: "string list"

type_synonym msg_reader = "string \<Rightarrow> nat \<Rightarrow> nat \<times> bool"

function Conn_Read :: "msg_reader \<Rightarrow> nat \<Rightarrow> ws_conn \<Rightarrow> (string \<times> ws_conn) option" where
  "Conn_Read rd n c =
     (case (case rest c of Some r \<Rightarrow> Some (r, incoming c)
            | None \<Rightarrow> (case incoming c of [] \<Rightarrow> None | m # ms \<Rightarrow> Some (m, ms))) of
        None \<Rightarrow> None
      | Some (r, ms) \<Rightarrow>
          (let (k, eof) = rd r n
           in if eof then
                (if k > 0 then Some (take k r, \<lparr>rest = None, incoming = ms\<rparr>)
                 else Conn_Read rd n \<lparr>rest = None, incoming = ms\<rparr>)
              else Some (take k r, \<lparr>rest = Some (drop k r), incoming = ms\<rparr>)))"
  by pat_completeness auto

termination
  by (relation "measure (\<lambda>(rd, n, c). length (incoming c) + (if rest c = None then 0 else 1))")
    (auto split: option.splits list.splits)

declare Conn_Read.simps [simp del]

text \<open>Each \<^verbatim>\<open>Write\<close> is one message.\<close>

definition Conn_Write :: "string \<Rightarrow> string list \<Rightarrow> string list" where
  "Conn_Write p msgs = msgs @ [p]"

fun read_all :: "msg_reader \<Rightarrow> nat list \<Rightarrow> ws_conn \<Rightarrow> string \<times> ws_conn" where
  "read_all rd [] c = ([], c)"
| "read_all rd (n # ns) c =
     (case Conn_Read rd n c of
        None \<Rightarrow> ([], c)
      | Some (d, c1) \<Rightarrow> (case read_all rd ns c1 of (d2, c2) \<Rightarrow> (d @ d2, c2)))"

definition unread :: "ws_conn \<Rightarrow> string" where
  "unread c = (case rest c of None \<Rightarrow> [] | Some r \<Rightarrow> r) @ concat (incoming c)"

lemma Read_end: "Conn_Read rd n \<lparr>rest = None, incoming = []\<rparr> = None"
  by (simp add: Conn_Read.simps [of rd n "\<lparr>rest = None, incoming = []\<rparr>"])

lemma Read_next: "Conn_Read rd n \<lparr>rest = None, incoming = m # ms\<rparr> = Conn_Read rd n \<lparr>rest = Some m, incoming = ms\<rparr>"
  by (simp add: Conn_Read.simps [of rd n "\<lparr>rest = None, incoming = m # ms\<rparr>"] Conn_Read.simps [of rd n "\<lparr>rest = Some m, incoming = ms\<rparr>"])

lemma Read_rest:
  "Conn_Read rd n \<lparr>rest = Some r, incoming = ms\<rparr> =
     (if snd (rd r n) then
        (if fst (rd r n) > 0 then Some (take (fst (rd r n)) r, \<lparr>rest = None, incoming = ms\<rparr>)
         else Conn_Read rd n \<lparr>rest = None, incoming = ms\<rparr>)
      else Some (take (fst (rd r n)) r, \<lparr>rest = Some (drop (fst (rd r n)) r), incoming = ms\<rparr>))"
  by (simp add: Conn_Read.simps [of rd n "\<lparr>rest = Some r, incoming = ms\<rparr>"] case_prod_beta Let_def)

text \<open>What \<^verbatim>\<open>io.Reader\<close> promises of a message reader: never more than asked or left, the end only when nothing is left,
  and progress while something is left.\<close>

locale message_reader =
  fixes rd :: msg_reader
  assumes rd_bound: "fst (rd r n) \<le> n \<and> fst (rd r n) \<le> length r"
    and rd_eof: "snd (rd r n) \<Longrightarrow> fst (rd r n) = length r"
    and rd_progress: "0 < n \<Longrightarrow> r \<noteq> [] \<Longrightarrow> fst (rd r n) > 0"
    and rd_end: "snd (rd [] n)"
begin

lemma Read_some:
  "Conn_Read rd n \<lparr>rest = Some r, incoming = ms\<rparr> = Some (d, c') \<Longrightarrow> r @ concat ms = d @ unread c' \<and> length d \<le> n"
proof (induction ms arbitrary: r)
  case Nil
  then show ?case
    using rd_bound [of r n] rd_eof [of r n] by (auto simp: Read_rest Read_end unread_def split: if_splits)
next
  case (Cons m ms)
  show ?case
  proof (cases "snd (rd r n) \<and> fst (rd r n) = 0")
    case True
    then have "r = []" using rd_eof [of r n] by simp
    then show ?thesis using Cons True by (simp add: Read_rest Read_next)
  next
    case False
    then show ?thesis
      using Cons.prems rd_bound [of r n] rd_eof [of r n] by (auto simp: Read_rest unread_def split: if_splits)
  qed
qed

lemma Read_unread:
  assumes "Conn_Read rd n c = Some (d, c')" shows "unread c = d @ unread c' \<and> length d \<le> n"
proof (cases "rest c")
  case (Some r)
  then have "Conn_Read rd n \<lparr>rest = Some r, incoming = incoming c\<rparr> = Some (d, c')" using assms by (metis ws_conn.surjective old.unit.exhaust)
  then show ?thesis using Read_some [of n r "incoming c" d c'] Some by (simp add: unread_def)
next
  case None
  then have c: "c = \<lparr>rest = None, incoming = incoming c\<rparr>" by simp
  show ?thesis
  proof (cases "incoming c")
    case Nil
    then show ?thesis using assms c by (metis Read_end option.distinct(1))
  next
    case (Cons m ms)
    then have "Conn_Read rd n \<lparr>rest = Some m, incoming = ms\<rparr> = Some (d, c')" using assms c by (metis Read_next)
    then show ?thesis using Read_some [of n m ms d c'] None Cons by (simp add: unread_def)
  qed
qed

text \<open>A read into a buffer that is not empty returns bytes as long as there are any.\<close>

lemma Read_some_progress: "0 < n \<Longrightarrow> r @ concat ms \<noteq> [] \<Longrightarrow> \<exists>d c'. Conn_Read rd n \<lparr>rest = Some r, incoming = ms\<rparr> = Some (d, c') \<and> d \<noteq> []"
proof (induction ms arbitrary: r)
  case Nil
  then show ?case using rd_progress [of n r] by (auto simp: Read_rest)
next
  case (Cons m ms)
  show ?case
  proof (cases "r = []")
    case True
    then have "fst (rd r n) = 0" using rd_bound [of r n] by simp
    then show ?thesis using True Cons rd_end by (simp add: Read_rest Read_next)
  next
    case False
    then show ?thesis using rd_progress [of n r] Cons.prems(1) by (auto simp: Read_rest)
  qed
qed

lemma Read_progress:
  assumes "0 < n" "unread c \<noteq> []" shows "\<exists>d c'. Conn_Read rd n c = Some (d, c') \<and> d \<noteq> []"
proof (cases "rest c")
  case (Some r)
  then have "Conn_Read rd n c = Conn_Read rd n \<lparr>rest = Some r, incoming = incoming c\<rparr>" by (metis ws_conn.surjective old.unit.exhaust)
  then show ?thesis using Read_some_progress [of n r "incoming c"] assms Some by (simp add: unread_def)
next
  case None
  then obtain m ms where m: "incoming c = m # ms" using assms(2) by (cases "incoming c") (auto simp: unread_def)
  then have "Conn_Read rd n c = Conn_Read rd n \<lparr>rest = Some m, incoming = ms\<rparr>"
    using None Read_next by (metis ws_conn.surjective old.unit.exhaust)
  then show ?thesis using Read_some_progress [of n m ms] assms None m by (simp add: unread_def)
qed

lemma read_all_unread: "read_all rd ns c = (d, c') \<Longrightarrow> unread c = d @ unread c'"
proof (induction ns arbitrary: c d)
  case (Cons n ns)
  show ?case
  proof (cases "Conn_Read rd n c")
    case None
    then show ?thesis using Cons.prems by simp
  next
    case (Some q)
    then obtain d1 c1 where q: "Conn_Read rd n c = Some (d1, c1)" by (cases q) simp
    obtain d2 c2 where "read_all rd ns c1 = (d2, c2)" by (rule prod.exhaust)
    then show ?thesis using Cons.prems Cons.IH q Read_unread [OF q] by auto
  qed
qed simp

lemma read_all_complete: "list_all (\<lambda>n. 0 < n) ns \<Longrightarrow> length (unread c) \<le> length ns \<Longrightarrow> fst (read_all rd ns c) = unread c"
proof (induction ns arbitrary: c)
  case (Cons n ns)
  show ?case
  proof (cases "unread c = []")
    case True
    then show ?thesis using read_all_unread [of "n # ns" c] by (metis append_is_Nil_conv prod.collapse)
  next
    case False
    then obtain d c1 where q: "Conn_Read rd n c = Some (d, c1)" "d \<noteq> []" using Read_progress [of n c] Cons.prems by auto
    have u: "unread c = d @ unread c1" using Read_unread [OF q(1)] by simp
    have "1 \<le> length d" using q(2) by (cases d) auto
    then have "length (unread c1) \<le> length ns" using Cons.prems(2) u by simp
    then have "fst (read_all rd ns c1) = unread c1" using Cons.prems(1) by (intro Cons.IH) simp_all
    then show ?thesis using q u by (simp add: case_prod_beta)
  qed
qed simp

end

text \<open>The reader of the WebSocket library: as much as fits, and the end of a message as a read of its own.\<close>

definition lib_reader :: msg_reader where
  "lib_reader r n = (min n (length r), r = [])"

interpretation lib: message_reader lib_reader
  by unfold_locales (auto simp: lib_reader_def)

text \<open>
  the bytes written on one end of a WebSocket, however they were split into messages, are the bytes read on the
  other, in order and without gaps, whatever the buffer sizes: what is read so far and what is still to come make
  up what was written, and enough reads into non-empty buffers return all of it.
\<close>

theorem stream_faithful:
  assumes "message_reader rd" "list_all (\<lambda>n. 0 < n) ns" "length (concat ps) \<le> length ns"
  shows "fst (read_all rd ns \<lparr>rest = None, incoming = foldl (\<lambda>ms p. Conn_Write p ms) [] ps\<rparr>) = concat ps"
proof -
  have "foldl (\<lambda>ms p. Conn_Write p ms) ms ps = ms @ ps" for ms by (induction ps arbitrary: ms) (simp_all add: Conn_Write_def)
  then show ?thesis using message_reader.read_all_complete [OF assms(1,2), of "\<lparr>rest = None, incoming = ps\<rparr>"] assms(3) by (simp add: unread_def)
qed

theorem stream_faithful_witness:
  "fst (read_all lib_reader [2, 2, 2, 2, 2] \<lparr>rest = None, incoming = foldl (\<lambda>ms p. Conn_Write p ms) [] [''ab'', [], ''cde'']\<rparr>) = ''abcde''"
  using stream_faithful [OF lib.message_reader_axioms, of "[2, 2, 2, 2, 2]" "[''ab'', [], ''cde'']"] by simp

section \<open>The dialer\<close>

text \<open>
  A tunnel object is shared by the dialer's table and the connection handed to the caller, so all objects stay in
  \<open>objs\<close> and the table is the list of the ids it holds. \<open>once\<close> says that the close callback has run, \<open>ws_closed\<close> that
  the WebSocket is closed, \<open>tn_done\<close> that the channel the keepalive goroutine waits on is closed.
\<close>

record Tunnel =
  tn_Target :: string
  Tx :: int
  Rx :: int
  has_conn :: bool
  tn_done :: bool
  tn_closed :: bool
  tn_err :: "string option"
  once :: bool
  ws_closed :: bool

record Dialer =
  d_wsURL :: string
  d_auth :: string
  objs :: "(int, Tunnel) gomap"
  tunnels :: "int list"
  nextID :: int

definition NewDialer :: "(string \<Rightarrow> string + string \<times> string) \<Rightarrow> string \<Rightarrow> string \<Rightarrow> string \<Rightarrow> string + Dialer" where
  "NewDialer parse serverURL username password =
     (case buildTunnelURL parse serverURL of
        Inl e \<Rightarrow> Inl e
      | Inr url \<Rightarrow> Inr \<lparr>d_wsURL = url, d_auth = dialer_auth username password, objs = [], tunnels = [], nextID = 0\<rparr>)"

definition forget :: "int \<Rightarrow> Dialer \<Rightarrow> Dialer" where
  "forget i d = d\<lparr>tunnels := filter (\<lambda>j. j \<noteq> i) (tunnels d)\<rparr>"

definition upd_tunnel :: "int \<Rightarrow> (Tunnel \<Rightarrow> Tunnel) \<Rightarrow> Dialer \<Rightarrow> Dialer" where
  "upd_tunnel i f d = (case mget (objs d) i of None \<Rightarrow> d | Some t \<Rightarrow> d\<lparr>objs := mput i (f t) (objs d)\<rparr>)"

text \<open>Errors that only mean the stream has ended are no reason.\<close>

definition closeReason :: "string option \<Rightarrow> string option" where
  "closeReason err =
     (case err of None \<Rightarrow> None | Some e \<Rightarrow> if e = ''EOF'' \<or> e = ''use of closed network connection'' then None else Some e)"

text \<open>\<open>err\<close> is what closing the WebSocket returns.\<close>

definition counted_Close :: "int \<Rightarrow> string option \<Rightarrow> Dialer \<Rightarrow> Dialer" where
  "counted_Close i err d =
     (case mget (objs d) i of
        None \<Rightarrow> d
      | Some t \<Rightarrow>
          if once t then upd_tunnel i (\<lambda>t. t\<lparr>ws_closed := True\<rparr>) d
          else forget i (upd_tunnel i (\<lambda>t. t\<lparr>ws_closed := True, once := True, tn_closed := True,
                 tn_err := (if tn_err t = None then closeReason err else tn_err t), tn_done := True\<rparr>) d))"

definition counted_Read :: "int \<Rightarrow> int \<Rightarrow> Dialer \<Rightarrow> Dialer" where
  "counted_Read i n d = (if n > 0 then upd_tunnel i (\<lambda>t. t\<lparr>Rx := Rx t + n\<rparr>) d else d)"

definition counted_Write :: "int \<Rightarrow> int \<Rightarrow> Dialer \<Rightarrow> Dialer" where
  "counted_Write i n d = (if n > 0 then upd_tunnel i (\<lambda>t. t\<lparr>Tx := Tx t + n\<rparr>) d else d)"

text \<open>Opening a tunnel, first half: the WebSocket handshake, which fails with the status of the answer, if there was one.\<close>

datatype ws_dial = Connected | Refused "int option" string

definition ErrUnauthorized :: string where
  "ErrUnauthorized = ''credential rejected or expired; issue a new one in the web UI''"

definition fresh_tunnel :: "string \<Rightarrow> Tunnel" where
  "fresh_tunnel target = \<lparr>tn_Target = target, Tx = 0, Rx = 0, has_conn = False, tn_done = False, tn_closed = False,
     tn_err = None, once = False, ws_closed = False\<rparr>"

definition dial_start :: "ws_dial \<Rightarrow> string \<Rightarrow> Dialer \<Rightarrow> Dialer \<times> (string + int)" where
  "dial_start r target d =
     (case r of
        Refused status e \<Rightarrow>
          (d, Inl (if status = Some 407 then ErrUnauthorized
                   else case status of
                          Some n \<Rightarrow> ''tunnel handshake failed (HTTP '' @ Itoa n @ ''): '' @ e
                        | None \<Rightarrow> ''cannot reach '' @ d_wsURL d @ '': '' @ e))
      | Connected \<Rightarrow>
          (d\<lparr>nextID := nextID d + 1, objs := mput (nextID d + 1) (fresh_tunnel target) (objs d)\<rparr>, Inr (nextID d + 1)))"

text \<open>Second half: the target is asked for and answered. \<open>werr\<close> is the error of the write, \<open>reply\<close> what was read.\<close>

record tunnelReply =
  OK :: bool
  rpl_Error :: string

definition dial_finish :: "string option \<Rightarrow> string + tunnelReply \<Rightarrow> int \<Rightarrow> Dialer \<Rightarrow> Dialer \<times> (string + int)" where
  "dial_finish werr reply i d =
     (let target = (case mget (objs d) i of Some t \<Rightarrow> tn_Target t | None \<Rightarrow> [])
      in case werr of
           Some e \<Rightarrow> (counted_Close i None d, Inl e)
         | None \<Rightarrow>
             (case reply of
                Inl e \<Rightarrow> (counted_Close i None d, Inl (''no reply from '' @ target @ '': '' @ e))
              | Inr rpl \<Rightarrow>
                  if \<not> OK rpl then
                    (counted_Close i None d,
                     Inl (target @ '': '' @ (if rpl_Error rpl = [] then ''probe refused the target'' else rpl_Error rpl)))
                  else let d1 = upd_tunnel i (\<lambda>t. t\<lparr>has_conn := True\<rparr>) d
                       in (d1\<lparr>tunnels := tunnels d1 @ [i]\<rparr>, Inr i)))"

text \<open>
  \<^verbatim>\<open>Dial\<close> in one piece, when nothing else happens between its halves.
\<close>

definition Dial :: "ws_dial \<Rightarrow> string option \<Rightarrow> string + tunnelReply \<Rightarrow> string \<Rightarrow> Dialer \<Rightarrow> Dialer \<times> (string + int)" where
  "Dial r werr reply addr d =
     (case dial_target addr of
        Inl e \<Rightarrow> (d, Inl (case e of ErrEmptyTarget \<Rightarrow> ''empty target'' | ErrInvalidTarget \<Rightarrow> ''invalid target''))
      | Inr target \<Rightarrow>
          (case dial_start r target d of
             (d1, Inl e) \<Rightarrow> (d1, Inl e)
           | (d1, Inr i) \<Rightarrow> dial_finish werr reply i d1))"

text \<open>The snapshot of the table, sorted by the insertion sort of the code: \<open>sift\<close> is its inner loop on the ids.\<close>

fun sift :: "nat \<Rightarrow> int list \<Rightarrow> int list" where
  "sift 0 out = out"
| "sift (Suc j) out = (if out ! j > out ! Suc j then sift j (out[j := out ! Suc j, Suc j := out ! j]) else out)"

definition Tunnels :: "Dialer \<Rightarrow> int list" where
  "Tunnels d = foldl (\<lambda>out i. sift i out) (tunnels d) [1..<length (tunnels d)]"

definition close_one :: "Dialer \<Rightarrow> int \<Rightarrow> Dialer" where
  "close_one d i =
     (let d1 = upd_tunnel i (\<lambda>t. t\<lparr>tn_closed := True, tn_done := True\<rparr>) d
      in case mget (objs d1) i of
           None \<Rightarrow> d1
         | Some t \<Rightarrow> if has_conn t then counted_Close i None d1 else d1)"

definition CloseAll :: "Dialer \<Rightarrow> Dialer" where
  "CloseAll d = foldl close_one d (Tunnels d)"

section \<open>The snapshot is sorted\<close>

lemma length_sift [simp]: "length (sift j out) = length out"
  by (induction j out rule: sift.induct) simp_all

lemma mset_sift: "j < length out \<Longrightarrow> mset (sift j out) = mset out"
  by (induction j out rule: sift.induct) (simp_all add: mset_swap)

lemma sift_beyond: "j < k \<Longrightarrow> sift j out ! k = out ! k"
  by (induction j out rule: sift.induct) simp_all

text \<open>Sifting moves entry \<open>j\<close> into a sorted prefix.\<close>

lemma sift_sorted:
  "j < length out \<Longrightarrow> sorted (take j out) \<Longrightarrow> sorted (take (Suc j) (sift j out))"
proof (induction j out rule: sift.induct)
  case (2 j out)
  have s: "out ! a \<le> out ! b" if "a \<le> b" "b \<le> j" for a b
    using that "2.prems" sorted_nth_mono [of "take (Suc j) out" a b] by simp
  show ?case
  proof (cases "out ! j > out ! Suc j")
    case False
    have "out ! a \<le> out ! b" if "a \<le> b" "b \<le> Suc j" for a b
    proof (cases "b = Suc j \<and> a \<le> j")
      case True
      then have "out ! a \<le> out ! j" using s [of a j] by simp
      then show ?thesis using True False by simp
    next
      case b: False
      then show ?thesis using that s [of a b] by (cases "a = Suc j") auto
    qed
    then show ?thesis using False "2.prems"(1) by (auto simp: sorted_iff_nth_mono)
  next
    case True
    define out' where "out' = out[j := out ! Suc j, Suc j := out ! j]"
    have len: "length out' = length out" by (simp add: out'_def)
    have pre: "take j out' = take j out" by (simp add: out'_def)
    have "sorted (take j out')" using "2.prems"(2) by (metis pre sorted_wrt_take take_take min.absorb1 le_SucI order_refl)
    then have IH: "sorted (take (Suc j) (sift j out'))" using "2.IH" [OF True] "2.prems"(1) unfolding out'_def [symmetric] by (simp add: len)
    have top: "sift j out' ! Suc j = out ! j" using "2.prems"(1) by (simp add: sift_beyond out'_def)
    have le: "x \<le> out ! j" if "x \<in> set (take (Suc j) (sift j out'))" for x
    proof -
      have ms: "mset (take (Suc j) (sift j out')) = mset (take (Suc j) out')"
      proof -
        have "drop (Suc j) (sift j out') = drop (Suc j) out'" by (rule nth_equalityI) (simp_all add: sift_beyond)
        moreover have "mset (sift j out') = mset out'" using "2.prems"(1) by (intro mset_sift) (simp add: len)
        ultimately show ?thesis by (metis append_take_drop_id mset_append add_right_cancel)
      qed
      then have "x \<in> set (take (Suc j) out')" using that by (metis set_mset_mset)
      then obtain a where a: "a \<le> j" "x = out' ! a" using "2.prems"(1) len by (fastforce simp: in_set_conv_nth less_Suc_eq_le)
      show ?thesis
      proof (cases "a = j")
        case True
        then show ?thesis using a \<open>out ! j > out ! Suc j\<close> "2.prems"(1) by (simp add: out'_def)
      next
        case False
        then show ?thesis using a s [of a j] by (simp add: out'_def)
      qed
    qed
    have "take (Suc (Suc j)) (sift j out') = take (Suc j) (sift j out') @ [out ! j]"
      using top "2.prems"(1) len by (simp add: take_Suc_conv_app_nth)
    then have "sorted (take (Suc (Suc j)) (sift j out'))" using IH le by (simp add: sorted_append)
    then show ?thesis using True by (simp add: out'_def)
  qed
next
  case (1 out)
  then show ?case by (cases out) simp_all
qed

lemma insertion_sorted:
  "k \<le> length xs \<Longrightarrow> k \<ge> 1 \<Longrightarrow>
   sorted (take k (foldl (\<lambda>out i. sift i out) xs [1..<k])) \<and> mset (foldl (\<lambda>out i. sift i out) xs [1..<k]) = mset xs \<and>
   length (foldl (\<lambda>out i. sift i out) xs [1..<k]) = length xs"
proof (induction k)
  case (Suc k)
  show ?case
  proof (cases "k = 0")
    case True
    then show ?thesis by (cases xs) auto
  next
    case False
    then have IH: "sorted (take k (foldl (\<lambda>out i. sift i out) xs [1..<k]))"
      "mset (foldl (\<lambda>out i. sift i out) xs [1..<k]) = mset xs" "length (foldl (\<lambda>out i. sift i out) xs [1..<k]) = length xs"
      using Suc by auto
    have "[1..<Suc k] = [1..<k] @ [k]" using False by simp
    then show ?thesis using IH Suc.prems sift_sorted [of k "foldl (\<lambda>out i. sift i out) xs [1..<k]"] by (simp add: mset_sift)
  qed
qed simp

text \<open>The hand-written loop sorts: it agrees with the library's sort.\<close>

lemma Tunnels_sort: "Tunnels d = sort (tunnels d)"
proof (cases "tunnels d = []")
  case False
  then have "1 \<le> length (tunnels d)" by (cases "tunnels d") auto
  from insertion_sorted [OF order_refl this] show ?thesis
    unfolding Tunnels_def by (metis order_refl properties_for_sort take_all)
qed (simp add: Tunnels_def)

section \<open>No tunnel is leaked\<close>

text \<open>
  Everything that happens to a dialer, in any order: opening starts and ends, connections move bytes and are closed,
  and everything is closed at once. An opening ends once, and a connection exists only once its opening succeeded.
\<close>

datatype dialer_op =
  DialStart ws_dial string
| DialFinish "string option" "string + tunnelReply" int
| ConnClose int "string option"
| ConnRead int int
| ConnWrite int int
| DialerCloseAll

definition pending :: "Dialer \<Rightarrow> int \<Rightarrow> bool" where
  "pending d i = (case mget (objs d) i of None \<Rightarrow> False | Some t \<Rightarrow> \<not> has_conn t \<and> \<not> once t)"

definition handed :: "Dialer \<Rightarrow> int \<Rightarrow> bool" where
  "handed d i = (case mget (objs d) i of None \<Rightarrow> False | Some t \<Rightarrow> has_conn t)"

fun dialer_apply :: "dialer_op \<Rightarrow> Dialer \<Rightarrow> Dialer" where
  "dialer_apply (DialStart r target) d = fst (dial_start r target d)"
| "dialer_apply (DialFinish werr reply i) d = (if pending d i then fst (dial_finish werr reply i d) else d)"
| "dialer_apply (ConnClose i err) d = (if handed d i then counted_Close i err d else d)"
| "dialer_apply (ConnRead i n) d = (if handed d i then counted_Read i n d else d)"
| "dialer_apply (ConnWrite i n) d = (if handed d i then counted_Write i n d else d)"
| "dialer_apply DialerCloseAll d = CloseAll d"

definition dialer_run :: "dialer_op list \<Rightarrow> Dialer \<Rightarrow> Dialer" where
  "dialer_run ops d = foldl (\<lambda>d op. dialer_apply op d) d ops"

text \<open>
  A tunnel is in the table exactly while its connection has been handed out and is open; a tunnel that is not open
  has its WebSocket closed and its keepalive stopped.
\<close>

definition tunnel_ok :: "Dialer \<Rightarrow> int \<Rightarrow> Tunnel \<Rightarrow> bool" where
  "tunnel_ok d i t \<longleftrightarrow> i \<le> nextID d \<and> (i \<in> set (tunnels d) \<longleftrightarrow> has_conn t \<and> \<not> once t) \<and>
     (ws_closed t \<longleftrightarrow> once t) \<and> (tn_done t \<longleftrightarrow> once t) \<and> (tn_closed t \<longleftrightarrow> once t)"

definition dialer_inv :: "Dialer \<Rightarrow> bool" where
  "dialer_inv d \<longleftrightarrow> distinct (tunnels d) \<and> (\<forall>i \<in> set (tunnels d). mget (objs d) i \<noteq> None) \<and>
     (\<forall>i t. mget (objs d) i = Some t \<longrightarrow> tunnel_ok d i t)"

lemma dialer_invD: "dialer_inv d \<Longrightarrow> mget (objs d) i = Some t \<Longrightarrow> tunnel_ok d i t"
  by (simp add: dialer_inv_def)

lemma upd_tunnel_fields [simp]:
  "tunnels (upd_tunnel i f d) = tunnels d" "nextID (upd_tunnel i f d) = nextID d"
  "mget (objs (upd_tunnel i f d)) j = (if j = i then map_option f (mget (objs d) i) else mget (objs d) j)"
  by (auto simp: upd_tunnel_def split: option.splits)

lemma forget_fields [simp]:
  "tunnels (forget i d) = filter (\<lambda>j. j \<noteq> i) (tunnels d)" "nextID (forget i d) = nextID d" "objs (forget i d) = objs d"
  by (simp_all add: forget_def)

lemma inv_start: "dialer_inv d \<Longrightarrow> dialer_inv (fst (dial_start r target d))"
proof (cases r)
  case Connected
  assume inv: "dialer_inv d"
  then have "mget (objs d) (nextID d + 1) = None" using dialer_invD [OF inv, of "nextID d + 1"] by (force simp: tunnel_ok_def)
  then have "nextID d + 1 \<notin> set (tunnels d)" using inv by (auto simp: dialer_inv_def)
  moreover have "mget (objs d) i = Some t \<Longrightarrow> i \<le> nextID d + 1" for i t using dialer_invD [OF inv, of i t] by (simp add: tunnel_ok_def)
  ultimately show ?thesis using inv Connected
    by (auto simp: dial_start_def dialer_inv_def tunnel_ok_def fresh_tunnel_def)
qed (simp add: dial_start_def)

lemma inv_close: "dialer_inv d \<Longrightarrow> dialer_inv (counted_Close i err d)"
  by (auto simp: counted_Close_def dialer_inv_def tunnel_ok_def split: option.splits if_splits)

lemma inv_upd:
  assumes "dialer_inv d" "\<And>t. has_conn (f t) = has_conn t \<and> once (f t) = once t \<and> ws_closed (f t) = ws_closed t \<and>
     tn_done (f t) = tn_done t \<and> tn_closed (f t) = tn_closed t"
  shows "dialer_inv (upd_tunnel i f d)"
  using assms by (auto simp: dialer_inv_def tunnel_ok_def split: option.splits if_splits)

lemma inv_finish: "dialer_inv d \<Longrightarrow> pending d i \<Longrightarrow> dialer_inv (fst (dial_finish werr reply i d))"
proof -
  assume inv: "dialer_inv d" and p: "pending d i"
  obtain t where t: "mget (objs d) i = Some t" "\<not> has_conn t" "\<not> once t" using p by (auto simp: pending_def split: option.splits)
  then have "i \<notin> set (tunnels d)" using dialer_invD [OF inv t(1)] by (simp add: tunnel_ok_def)
  then have "dialer_inv ((upd_tunnel i (\<lambda>t. t\<lparr>has_conn := True\<rparr>) d)\<lparr>tunnels := tunnels d @ [i]\<rparr>)"
    using inv t by (auto simp: dialer_inv_def tunnel_ok_def upd_tunnel_def)
  then show ?thesis using inv_close [OF inv] by (auto simp: dial_finish_def Let_def split: option.splits sum.splits)
qed

text \<open>Closing a tunnel of the table during a shutdown.\<close>

lemma close_one_open:
  assumes inv: "dialer_inv d" and i: "i \<in> set (tunnels d)"
  shows "dialer_inv (close_one d i) \<and> tunnels (close_one d i) = filter (\<lambda>j. j \<noteq> i) (tunnels d)"
proof -
  obtain t where t: "mget (objs d) i = Some t" "has_conn t" "\<not> once t"
    using inv i by (auto simp: dialer_inv_def tunnel_ok_def)
  show ?thesis using inv t
    by (auto simp: close_one_def counted_Close_def Let_def dialer_inv_def tunnel_ok_def split: if_splits)
qed

lemma close_list:
  "dialer_inv d \<Longrightarrow> distinct is \<Longrightarrow> set is \<subseteq> set (tunnels d) \<Longrightarrow>
   dialer_inv (foldl close_one d is) \<and> tunnels (foldl close_one d is) = filter (\<lambda>j. j \<notin> set is) (tunnels d)"
proof (induction "is" arbitrary: d)
  case (Cons i "is")
  have c: "dialer_inv (close_one d i)" "tunnels (close_one d i) = filter (\<lambda>j. j \<noteq> i) (tunnels d)"
    using close_one_open [of d i] Cons.prems by auto
  then have "set is \<subseteq> set (tunnels (close_one d i))" using Cons.prems by auto
  then show ?case using Cons.IH [of "close_one d i"] c Cons.prems by (auto intro!: filter_cong)
qed simp

lemma CloseAll_inv: "dialer_inv d \<Longrightarrow> dialer_inv (CloseAll d) \<and> tunnels (CloseAll d) = []"
  using close_list [of d "sort (tunnels d)"] by (auto simp: CloseAll_def Tunnels_sort dialer_inv_def filter_empty_conv)

lemma dialer_apply_inv: "dialer_inv d \<Longrightarrow> dialer_inv (dialer_apply op d)"
  by (cases op)
    (simp_all add: inv_start inv_finish inv_close CloseAll_inv counted_Read_def counted_Write_def inv_upd)

lemma dialer_run_inv: "dialer_inv d \<Longrightarrow> dialer_inv (dialer_run ops d)"
  unfolding dialer_run_def by (induction ops arbitrary: d) (simp_all add: dialer_apply_inv)

lemma new_dialer_inv: "NewDialer parse url user pass = Inr d \<Longrightarrow> dialer_inv d"
  by (auto simp: NewDialer_def dialer_inv_def split: sum.splits)

text \<open>
  C34: whatever is opened, used and closed in whatever order, a tunnel is in the dialer's table exactly while the connection
  handed to its user is open; every other finished tunnel, also one whose opening failed half-way, has its
  WebSocket closed and its keepalive stopped. Closing all empties the table, and the snapshot of the table is in
  the order of the ids.
\<close>

theorem no_leaked_tunnel:
  assumes "NewDialer parse url user pass = Inr d0"
  shows "(\<forall>i t. mget (objs (dialer_run ops d0)) i = Some t \<longrightarrow>
        (i \<in> set (tunnels (dialer_run ops d0)) \<longleftrightarrow> has_conn t \<and> \<not> ws_closed t) \<and>
        (pending (dialer_run ops d0) i \<or> i \<in> set (tunnels (dialer_run ops d0)) \<or> ws_closed t \<and> tn_done t)) \<and>
      tunnels (CloseAll (dialer_run ops d0)) = [] \<and>
      Tunnels (dialer_run ops d0) = sort (tunnels (dialer_run ops d0))"
proof -
  have inv: "dialer_inv (dialer_run ops d0)" using new_dialer_inv [OF assms] by (rule dialer_run_inv)
  then show ?thesis
    using CloseAll_inv [OF inv] by (auto simp: dialer_inv_def tunnel_ok_def pending_def Tunnels_sort)
qed

definition demo_url :: "string \<Rightarrow> string + string \<times> string" where
  "demo_url u = Inr (''https'', ''h'')"

definition demo_dialer :: Dialer where
  "demo_dialer = \<lparr>d_wsURL = ''wss://h'' @ tunnelPath, d_auth = dialer_auth ''u'' ''p'', objs = [], tunnels = [], nextID = 0\<rparr>"

lemma demo_dialer: "NewDialer demo_url ''h'' ''u'' ''p'' = Inr demo_dialer"
proof -
  have "buildTunnelURL demo_url ''h'' = Inr (''wss://h'' @ tunnelPath)" by code_simp
  then show ?thesis by (simp add: NewDialer_def demo_dialer_def)
qed

theorem no_leaked_tunnel_witness:
  "tunnels (dialer_run [DialStart Connected ''a:1'', DialFinish None (Inr \<lparr>OK = True, rpl_Error = []\<rparr>) 1] demo_dialer) = [1] \<and>
   tunnels (CloseAll (dialer_run [DialStart Connected ''a:1'', DialFinish None (Inr \<lparr>OK = True, rpl_Error = []\<rparr>) 1] demo_dialer)) = []"
proof
  show "tunnels (dialer_run [DialStart Connected ''a:1'', DialFinish None (Inr \<lparr>OK = True, rpl_Error = []\<rparr>) 1] demo_dialer) = [1]"
    by (simp add: dialer_run_def demo_dialer_def dial_start_def dial_finish_def pending_def fresh_tunnel_def)
  show "tunnels (CloseAll (dialer_run [DialStart Connected ''a:1'', DialFinish None (Inr \<lparr>OK = True, rpl_Error = []\<rparr>) 1] demo_dialer)) = []"
    using no_leaked_tunnel [OF demo_dialer] by blast
qed

end
