(* ===== verification/Local_Proxy.thy ===== *)
theory Local_Proxy
  imports Tunnel_Client
begin

text \<open>
  The tunnel client's local entry points: the SOCKS5 server \<^verbatim>\<open>socks5.go\<close>, the port forwards \<^verbatim>\<open>forward.go\<close> and
  the loopback listener with its HTTP side \<^verbatim>\<open>localproxy.go\<close>, all under \<^verbatim>\<open>tunnel/cmd/tunnel\<close>. Opening a tunnel and
  the sockets are arguments.
\<close>

section \<open>SOCKS5\<close>

text \<open>Bytes are integers below 256. What a handler does: the bytes left unread and the bytes written to the client.\<close>

definition socksVersion :: int where "socksVersion = 5"
definition socksNoAuth :: int where "socksNoAuth = 0"
definition socksNoAccept :: int where "socksNoAccept = 255"
definition socksCmdConnect :: int where "socksCmdConnect = 1"
definition socksAtypIPv4 :: int where "socksAtypIPv4 = 1"
definition socksAtypDomain :: int where "socksAtypDomain = 3"
definition socksAtypIPv6 :: int where "socksAtypIPv6 = 4"
definition socksReplyOK :: int where "socksReplyOK = 0"
definition socksReplyHostUnreachable :: int where "socksReplyHostUnreachable = 4"
definition socksReplyCmdNotSupported :: int where "socksReplyCmdNotSupported = 7"
definition socksReplyAtypNotSupported :: int where "socksReplyAtypNotSupported = 8"

lemmas socks_consts = socksVersion_def socksNoAuth_def socksNoAccept_def socksCmdConnect_def socksAtypIPv4_def
  socksAtypDomain_def socksAtypIPv6_def socksReplyOK_def socksReplyHostUnreachable_def socksReplyCmdNotSupported_def
  socksReplyAtypNotSupported_def

definition socksReply :: "int \<Rightarrow> int list" where
  "socksReply reply = [socksVersion, reply, 0, socksAtypIPv4, 0, 0, 0, 0, 0, 0]"

text \<open>\<^verbatim>\<open>io.ReadFull\<close>: the bytes and the rest, or \<open>None\<close> when the input ends early.\<close>

definition ReadFull :: "nat \<Rightarrow> int list \<Rightarrow> (int list \<times> int list) option" where
  "ReadFull n r = (if n \<le> length r then Some (take n r, drop n r) else None)"

datatype 'a socks = Fail "int list" | Got 'a "int list" "int list"

text \<open>\<open>Fail out\<close> ends the connection after writing \<open>out\<close>; \<open>Got v rest out\<close> goes on with \<open>rest\<close> unread.\<close>

definition socksNegotiate :: "int list \<Rightarrow> unit socks" where
  "socksNegotiate br =
     (case ReadFull 2 br of
        None \<Rightarrow> Fail []
      | Some (header, r1) \<Rightarrow>
          if header ! 0 \<noteq> socksVersion then Fail []
          else case ReadFull (nat (header ! 1)) r1 of
                 None \<Rightarrow> Fail []
               | Some (methods, r2) \<Rightarrow>
                   if \<not> list_ex (\<lambda>m. m = socksNoAuth) methods then Fail [socksVersion, socksNoAccept]
                   else Got () r2 [socksVersion, socksNoAuth])"

definition byte_string :: "int list \<Rightarrow> string" where
  "byte_string bs = map char_of bs"

definition socks_host :: "int \<Rightarrow> int list \<Rightarrow> (string \<times> int list) option" where
  "socks_host atyp r =
     (if atyp = socksAtypIPv4 then
        (case ReadFull 4 r of Some (buf, r1) \<Rightarrow> Some (IP_String (v4_mapped buf), r1) | None \<Rightarrow> None)
      else if atyp = socksAtypIPv6 then
        (case ReadFull 16 r of Some (buf, r1) \<Rightarrow> Some (IP_String buf, r1) | None \<Rightarrow> None)
      else if atyp = socksAtypDomain then
        (case ReadFull 1 r of
           None \<Rightarrow> None
         | Some (len, r1) \<Rightarrow> (case ReadFull (nat (len ! 0)) r1 of Some (buf, r2) \<Rightarrow> Some (byte_string buf, r2) | None \<Rightarrow> None))
      else None)"

definition socksReadAddr :: "int \<Rightarrow> int list \<Rightarrow> (string \<times> int list) option" where
  "socksReadAddr atyp r =
     (case socks_host atyp r of
        None \<Rightarrow> None
      | Some (host, r1) \<Rightarrow>
          (case ReadFull 2 r1 of
             None \<Rightarrow> None
           | Some (portBuf, r2) \<Rightarrow>
               (let port = portBuf ! 0 * 256 + portBuf ! 1
                in if host = [] \<or> port = 0 then None else Some (JoinHostPort host (Itoa port), r2))))"

definition socksReadRequest :: "int list \<Rightarrow> string socks" where
  "socksReadRequest br =
     (case ReadFull 4 br of
        None \<Rightarrow> Fail []
      | Some (head, r) \<Rightarrow>
          if head ! 0 \<noteq> socksVersion then Fail []
          else if head ! 1 \<noteq> socksCmdConnect then Fail (socksReply socksReplyCmdNotSupported)
          else case socksReadAddr (head ! 3) r of
                 None \<Rightarrow> Fail (socksReply socksReplyAtypNotSupported)
               | Some (target, r1) \<Rightarrow> Got target r1 [])"

text \<open>
  A whole SOCKS5 connection up to the relay: the bytes written to the client, and the target with the bytes the client
  has already sent for it. \<open>br\<close> is everything the client sends during the handshake, \<open>dial\<close> says whether a tunnel opens.
\<close>

definition handleSOCKS5 :: "(string \<Rightarrow> bool) \<Rightarrow> int list \<Rightarrow> int list \<times> (string \<times> int list) option" where
  "handleSOCKS5 dial br =
     (case socksNegotiate br of
        Fail out \<Rightarrow> (out, None)
      | Got _ r1 out1 \<Rightarrow>
          (case socksReadRequest r1 of
             Fail out2 \<Rightarrow> (out1 @ out2, None)
           | Got target r2 out2 \<Rightarrow>
               if \<not> dial target then (out1 @ out2 @ socksReply socksReplyHostUnreachable, None)
               else (out1 @ out2 @ socksReply socksReplyOK, Some (target, r2))))"

section \<open>Loopback only\<close>

definition ensureLoopback :: "string \<Rightarrow> bool" where
  "ensureLoopback host \<longleftrightarrow> host = ''localhost'' \<or> (case ParseIP host of Some p \<Rightarrow> IsLoopback p | None \<Rightarrow> False)"

definition parsePort :: "string \<Rightarrow> int option" where
  "parsePort field =
     (case Atoi (TrimSpace field) of (port, err) \<Rightarrow> if err \<noteq> None \<or> port < 1 \<or> port > 65535 then None else Some port)"

datatype forward_error = EmptyRule | BadRule | NotLoopback | BadLocalPort | NoTargetHost | BadRemotePort

definition parseForwardSpec :: "string \<Rightarrow> forward_error + string \<times> string" where
  "parseForwardSpec raw =
     (let spec = TrimSpace raw; fields = Split (CHR '':'') spec
      in if spec = [] then Inl EmptyRule
         else if length fields < 3 \<or> length fields > 4 then Inl BadRule
         else let (bindHost, localPortField, targetHost, remotePort) =
                    (if length fields = 3 then (''127.0.0.1'', fields ! 0, fields ! 1, fields ! 2)
                     else (fields ! 0, fields ! 1, fields ! 2, fields ! 3))
              in if \<not> ensureLoopback bindHost then Inl NotLoopback
                 else case parsePort localPortField of
                        None \<Rightarrow> Inl BadLocalPort
                      | Some localPort \<Rightarrow>
                          if targetHost = [] then Inl NoTargetHost
                          else case parsePort remotePort of
                                 None \<Rightarrow> Inl BadRemotePort
                               | Some remotePortNum \<Rightarrow>
                                   Inr (JoinHostPort bindHost (Itoa localPort), JoinHostPort targetHost (Itoa remotePortNum)))"

text \<open>The forward rules: listen address and target of each, and whether it is closed. \<open>listen\<close> gives the actual address.\<close>

record ForwardRule =
  LocalAddr :: string
  fr_Target :: string
  fr_closed :: bool

definition Forwarder_Add :: "(string \<Rightarrow> string option) \<Rightarrow> string \<Rightarrow> ForwardRule list \<Rightarrow> ForwardRule list \<times> bool" where
  "Forwarder_Add listen spec rules =
     (case parseForwardSpec spec of
        Inl e \<Rightarrow> (rules, False)
      | Inr (local_addr, target) \<Rightarrow>
          (case listen local_addr of
             None \<Rightarrow> (rules, False)
           | Some addr \<Rightarrow> (rules @ [\<lparr>LocalAddr = addr, fr_Target = target, fr_closed = False\<rparr>], True)))"

text \<open>Closing gives the closed rules and the empty list the forwarder keeps.\<close>

definition Forwarder_CloseAll :: "ForwardRule list \<Rightarrow> ForwardRule list \<times> ForwardRule list" where
  "Forwarder_CloseAll rules = (map (\<lambda>r. r\<lparr>fr_closed := True\<rparr>) rules, [])"

record LocalProxy =
  lp_addr :: string
  lp_open :: "string list"

definition NewLocalProxy :: LocalProxy where
  "NewLocalProxy = \<lparr>lp_addr = [], lp_open = []\<rparr>"

definition Running :: "LocalProxy \<Rightarrow> bool" where
  "Running p \<longleftrightarrow> lp_addr p \<noteq> []"

text \<open>\<open>lp_open\<close> lists the listen addresses that are bound; a listener is set exactly when the address is.\<close>

definition LocalProxy_Start :: "(string \<Rightarrow> string option) \<Rightarrow> string \<Rightarrow> LocalProxy \<Rightarrow> LocalProxy \<times> string option" where
  "LocalProxy_Start listen addr0 p =
     (if lp_open p \<noteq> [] then (p, Some (''already listening on '' @ lp_addr p))
      else let addr = (if addr0 = [] then ''127.0.0.1:8899'' else addr0)
           in case SplitHostPort addr of
                None \<Rightarrow> (p, Some ''invalid listen address'')
              | Some (host, port) \<Rightarrow>
                  if \<not> ensureLoopback host then (p, Some (''refusing to listen on '' @ host @ '': only loopback addresses are allowed''))
                  else case listen addr of
                         None \<Rightarrow> (p, Some ''listen failed'')
                       | Some bound \<Rightarrow> (p\<lparr>lp_addr := bound, lp_open := [addr]\<rparr>, None))"

definition LocalProxy_Stop :: "LocalProxy \<Rightarrow> LocalProxy" where
  "LocalProxy_Stop p = p\<lparr>lp_addr := [], lp_open := []\<rparr>"

section \<open>Dispatch and HTTP\<close>

datatype protocol_choice = ServeSOCKS5 | ServeHTTP_conn | CloseConn

definition serveConn :: "int list \<Rightarrow> protocol_choice" where
  "serveConn peeked = (case peeked of [] \<Rightarrow> CloseConn | b # _ \<Rightarrow> if b = socksVersion then ServeSOCKS5 else ServeHTTP_conn)"

text \<open>
  A proxied request: method, \<^verbatim>\<open>Host\<close>, the URL's host and whether the URL is absolute, and the headers. The action taken,
  with the headers that go on to the target.
\<close>

record proxy_request =
  Method :: string
  req_Host :: string
  url_Host :: string
  url_abs :: bool
  headers :: "(string \<times> string) list"

datatype proxy_action = Connect_to string | Forward_with "(string \<times> string) list" | Bad_request

definition connect_host :: "proxy_request \<Rightarrow> string" where
  "connect_host r = (if url_Host r \<noteq> [] then url_Host r else req_Host r)"

definition forward_headers :: "(string \<times> string) list \<Rightarrow> (string \<times> string) list" where
  "forward_headers hs = filter (\<lambda>h. fst h \<noteq> ''Proxy-Authorization'' \<and> fst h \<noteq> ''Proxy-Connection'') hs"

definition proxy_ServeHTTP :: "proxy_request \<Rightarrow> proxy_action" where
  "proxy_ServeHTTP r =
     (if Method r = ''CONNECT'' then Connect_to (connect_host r)
      else if \<not> url_abs r then Bad_request
      else Forward_with (forward_headers (headers r)))"

section \<open>Relay\<close>

text \<open>
  \<^verbatim>\<open>relay\<close> runs one copy per direction; a copy ends when its source ends or its destination fails, then closes the
  destination for writing if the connection can do that, and both connections are closed after both copies have
  ended. \<open>half_a\<close> and \<open>half_b\<close> say which connections can be closed for writing; the tunnel's connection cannot.
\<close>

record relay_state =
  a_to_b :: bool
  b_to_a :: bool
  a_write_closed :: bool
  b_write_closed :: bool
  both_closed :: bool

definition relay_start :: relay_state where
  "relay_start = \<lparr>a_to_b = True, b_to_a = True, a_write_closed = False, b_write_closed = False, both_closed = False\<rparr>"

datatype relay_event = EndAB | EndBA

definition relay_step :: "bool \<Rightarrow> bool \<Rightarrow> relay_event \<Rightarrow> relay_state \<Rightarrow> relay_state" where
  "relay_step half_a half_b e s =
     (let s1 = (case e of
          EndAB \<Rightarrow> if a_to_b s then s\<lparr>a_to_b := False, b_write_closed := b_write_closed s \<or> half_b\<rparr> else s
        | EndBA \<Rightarrow> if b_to_a s then s\<lparr>b_to_a := False, a_write_closed := a_write_closed s \<or> half_a\<rparr> else s)
      in if \<not> a_to_b s1 \<and> \<not> b_to_a s1 then s1\<lparr>both_closed := True\<rparr> else s1)"

definition relay_run :: "bool \<Rightarrow> bool \<Rightarrow> relay_event list \<Rightarrow> relay_state" where
  "relay_run half_a half_b es = foldl (\<lambda>s e. relay_step half_a half_b e s) relay_start es"

section \<open>The target a SOCKS client asks for is the one the Host gets\<close>

text \<open>An address as a SOCKS client sends it, and the host name it stands for.\<close>

datatype socks_addr = A4 "int list" | A6 ip | AName string

fun addr_ok :: "socks_addr \<Rightarrow> bool" where
  "addr_ok (A4 b) \<longleftrightarrow> length b = 4 \<and> list_all (\<lambda>x. 0 \<le> x \<and> x < 256) b"
| "addr_ok (A6 p) \<longleftrightarrow> ip_wf p"
| "addr_ok (AName n) \<longleftrightarrow> n \<noteq> [] \<and> length n < 256 \<and> lead_space n = 0 \<and> CHR ''['' \<notin> set n \<and> CHR '']'' \<notin> set n"

fun addr_host :: "socks_addr \<Rightarrow> string" where
  "addr_host (A4 b) = IP_String (v4_mapped b)"
| "addr_host (A6 p) = IP_String p"
| "addr_host (AName n) = n"

fun addr_bytes :: "socks_addr \<Rightarrow> int list" where
  "addr_bytes (A4 b) = b"
| "addr_bytes (A6 p) = p"
| "addr_bytes (AName n) = int (length n) # map of_char n"

fun addr_type :: "socks_addr \<Rightarrow> int" where
  "addr_type (A4 b) = socksAtypIPv4"
| "addr_type (A6 p) = socksAtypIPv6"
| "addr_type (AName n) = socksAtypDomain"

definition socks_connect :: "int list \<Rightarrow> socks_addr \<Rightarrow> int \<Rightarrow> int list \<Rightarrow> int list" where
  "socks_connect methods a port early =
     [socksVersion, int (length methods)] @ methods @
     [socksVersion, socksCmdConnect, 0, addr_type a] @ addr_bytes a @ [port div 256, port mod 256] @ early"

lemma ReadFull_append: "length a = n \<Longrightarrow> ReadFull n (a @ r) = Some (a, r)"
  by (simp add: ReadFull_def)

lemma byte_string_of_char: "byte_string (map of_char s) = s"
  by (induction s) (simp_all add: byte_string_def)

lemma socks_host_ok: "addr_ok a \<Longrightarrow> socks_host (addr_type a) (addr_bytes a @ r) = Some (addr_host a, r)"
proof (cases a)
  case (AName n)
  have "ReadFull 1 ([int (length n)] @ (map of_char n @ r)) = Some ([int (length n)], map of_char n @ r)" by (rule ReadFull_append) simp
  moreover have "ReadFull (length n) (map of_char n @ r) = Some (map of_char n :: int list, r)" by (rule ReadFull_append) simp
  ultimately show ?thesis using AName by (simp add: socks_host_def socks_consts byte_string_of_char)
qed (simp_all add: socks_host_def socks_consts ReadFull_append ip_wf_def)

text \<open>Printed addresses are host names the Host accepts.\<close>

definition host_ok :: "string \<Rightarrow> bool" where
  "host_ok h \<longleftrightarrow> h \<noteq> [] \<and> lead_space h = 0 \<and> CHR ''['' \<notin> set h \<and> CHR '']'' \<notin> set h"

lemma is_hex_plain: "is_hex c \<Longrightarrow> plain_char c \<and> c \<noteq> CHR ''['' \<and> c \<noteq> CHR '']''"
  by (auto simp: is_hex_def hex_val_def plain_char_def Let_def split: if_splits)

lemma plain_host: "h \<noteq> [] \<Longrightarrow> (\<And>c. c \<in> set h \<Longrightarrow> plain_char c \<and> c \<noteq> CHR ''['' \<and> c \<noteq> CHR '']'') \<Longrightarrow> host_ok h"
  by (cases h) (auto simp: host_ok_def plain_lead)

lemma IP_String_host: "ip_wf p \<Longrightarrow> host_ok (IP_String p)"
proof (cases "To4 p")
  case None
  assume wf: "ip_wf p"
  have g: "group_list (groups p)" "length (groups p) = 8" using groups_bytes [of p] wf by (auto simp: ip_wf_def)
  have "plain_char c \<and> c \<noteq> CHR ''['' \<and> c \<noteq> CHR '']''" if "c \<in> set (string6 p)" for c
    using string6_chars [OF g(1) that] is_hex_plain [of c] by (auto simp: plain_char_def)
  moreover have "string6 p \<noteq> []" using string6_colon [OF g(2)] by auto
  ultimately show ?thesis using None plain_host [of "string6 p"] by (simp add: IP_String_def)
next
  case (Some q)
  assume wf: "ip_wf p"
  have q: "q = drop 12 p" using Some by (simp add: To4_def split: if_splits)
  then have "length q = 4" using wf by (simp add: ip_wf_def)
  then obtain a b c d where abcd: "q = [a, b, c, d]" by (auto simp: numeral_eq_Suc length_Suc_conv)
  have "set q \<subseteq> set p" using q set_drop_subset by metis
  then have pos: "0 \<le> a" "0 \<le> b" "0 \<le> c" "0 \<le> d" using wf abcd by (auto simp: ip_wf_def list_all_iff)
  have dig: "is_digit x \<or> x = CHR ''.''" if "x \<in> set (Join ''.'' (map Itoa q))" for x
    using that pos by (auto simp: abcd dest: Itoa_nonneg_digits)
  have "plain_char x \<and> x \<noteq> CHR ''['' \<and> x \<noteq> CHR '']''" if "x \<in> set (Join ''.'' (map Itoa q))" for x
    using dig [OF that] is_digit_plain [of x] digit_not_special by (auto simp: plain_char_def)
  then show ?thesis using Some plain_host [of "Join ''.'' (map Itoa q)"] Itoa_nonempty [OF pos(1)] by (simp add: IP_String_def abcd)
qed

lemma addr_host_ok: "addr_ok a \<Longrightarrow> host_ok (addr_host a)"
  using IP_String_host by (cases a) (auto simp: ip_wf_def v4_mapped_def host_ok_def list_all_iff)

lemma dial_target_JoinHostPort:
  assumes "host_ok h" "1 \<le> port" "port \<le> 65535"
  shows "dial_target (JoinHostPort h (Itoa port)) = Inr (JoinHostPort h (Itoa port))"
proof -
  let ?t = "JoinHostPort h (Itoa port)"
  have last: "plain_char (last (Itoa port))" using Itoa_plain [of "last (Itoa port)" port] Itoa_nonempty [of port] assms(2) by simp
  have trim: "TrimSpace ?t = ?t"
    using assms last Itoa_nonempty [of port] by (intro TrimSpace_JoinHostPort) (auto simp: host_ok_def)
  have "CHR '':'' \<in> set ?t" by (simp add: JoinHostPort_def)
  then have "Contains ?t '':''" by (simp add: Contains_char)
  moreover have "SplitHostPort ?t = Some (h, Itoa port)"
    using assms by (intro SplitHostPort_JoinHostPort_Itoa) (auto simp: host_ok_def)
  moreover have "?t \<noteq> []" by (simp add: JoinHostPort_def)
  ultimately show ?thesis using assms trim Itoa_nonempty [of port] by (simp add: dial_target_def splitTarget_def host_ok_def Let_def)
qed

text \<open>
  C33: when a SOCKS5 client that offers no authentication asks to connect to an IPv4 address, an IPv6 address or a name, with a
  port, and the tunnel opens, it is told so, the tunnel is asked for exactly that host and port in a
  form the Host reads back as that host and that port, and the bytes the client sent ahead go to the target first.
\<close>

theorem socks_end_to_end:
  assumes "addr_ok a" "1 \<le> port" "port \<le> 65535" "0 \<in> set methods" "dial (JoinHostPort (addr_host a) (Itoa port))"
  shows "handleSOCKS5 dial (socks_connect methods a port early) =
      ([5, 0] @ socksReply 0, Some (JoinHostPort (addr_host a) (Itoa port), early)) \<and>
    dial_target (JoinHostPort (addr_host a) (Itoa port)) = Inr (JoinHostPort (addr_host a) (Itoa port)) \<and>
    ParseConnectTarget (JoinHostPort (addr_host a) (Itoa port)) = Some (addr_host a, port)"
proof -
  let ?req = "[socksVersion, socksCmdConnect, 0, addr_type a] @ addr_bytes a @ [port div 256, port mod 256] @ early"
  let ?t = "JoinHostPort (addr_host a) (Itoa port)"
  have h: "host_ok (addr_host a)" using addr_host_ok assms(1) .
  have n: "socksNegotiate ([socksVersion, int (length methods)] @ (methods @ ?req)) = Got () ?req [5, 0]"
    using assms(4) by (simp add: socksNegotiate_def ReadFull_append del: append.simps append_Cons)
      (auto simp: socks_consts list_ex_iff)
  have p: "ReadFull 2 ([port div 256, port mod 256] @ early) = Some ([port div 256, port mod 256], early)" by (rule ReadFull_append) simp
  have pv: "port div 256 * 256 + port mod 256 = port" by (rule div_mult_mod_eq)
  have "socksReadAddr (addr_type a) (addr_bytes a @ [port div 256, port mod 256] @ early) = Some (?t, early)"
    using h assms(1,2) p by (simp add: socksReadAddr_def socks_host_ok pv host_ok_def)
  then have r: "socksReadRequest ?req = Got ?t early []"
    by (simp add: socksReadRequest_def ReadFull_def socks_consts)
  have "handleSOCKS5 dial (socks_connect methods a port early) = ([5, 0] @ socksReply 0, Some (?t, early))"
    unfolding handleSOCKS5_def socks_connect_def n [unfolded append_assoc] using r assms(5) by (simp add: socks_consts)
  then show ?thesis
    using dial_target_JoinHostPort [OF h assms(2,3)] ParseConnectTarget_JoinHostPort [of "addr_host a" port] h assms(2,3)
    by (simp add: host_ok_def)
qed

theorem socks_end_to_end_witness:
  "handleSOCKS5 (\<lambda>_. True) (socks_connect [2, 0] (A4 [10, 0, 0, 1]) 443 [71, 69]) =
     ([5, 0] @ socksReply 0, Some (JoinHostPort ''10.0.0.1'' ''443'', [71, 69]))"
proof -
  have "addr_host (A4 [10, 0, 0, 1]) = ''10.0.0.1''" "Itoa 443 = ''443''" by code_simp+
  then show ?thesis
    using socks_end_to_end [of "A4 [10, 0, 0, 1]" 443 "[2, 0]" "\<lambda>_. True" "[71, 69]"] by simp
qed

lemma negotiate_noauth: "socksNegotiate (5 # 1 # 0 # r) = Got () r [5, 0]"
  by (simp add: socksNegotiate_def ReadFull_def socks_consts)

lemma negotiate_refused:
  "list_all (\<lambda>m. m \<noteq> 0) ms \<Longrightarrow> socksNegotiate (5 # int (length ms) # ms @ r) = Fail [5, 255]"
  by (auto simp: socksNegotiate_def ReadFull_def socks_consts list_ex_iff list_all_iff)

lemma request_head:
  "socksReadRequest (5 # cmd # rsv # atyp # r) =
     (if cmd \<noteq> 1 then Fail (socksReply 7)
      else case socksReadAddr atyp r of None \<Rightarrow> Fail (socksReply 8) | Some (target, r1) \<Rightarrow> Got target r1 [])"
  unfolding socksReadRequest_def socks_consts by (simp add: ReadFull_def)

lemma handle_noauth:
  "handleSOCKS5 dial ([5, 1, 0] @ [5, cmd, 0, atyp] @ r) =
     (case (if cmd \<noteq> 1 then Fail (socksReply 7)
            else case socksReadAddr atyp r of None \<Rightarrow> Fail (socksReply 8) | Some (target, r1) \<Rightarrow> Got target r1 []) of
        Fail out2 \<Rightarrow> ([5, 0] @ out2, None)
      | Got target r2 out2 \<Rightarrow>
          if \<not> dial target then ([5, 0] @ out2 @ socksReply 4, None) else ([5, 0] @ out2 @ socksReply 0, Some (target, r2)))"
  unfolding handleSOCKS5_def socks_consts by (simp add: negotiate_noauth request_head)

lemma readaddr_bad: "socksReadAddr 2 r = None" "socksReadAddr 1 [127] = None"
  by (simp_all add: socksReadAddr_def socks_host_def socks_consts ReadFull_def)

lemma readaddr_name: "socksReadAddr 3 (1 # 97 # 0 # 80 # r) = Some (JoinHostPort (byte_string [97]) (Itoa 80), r)"
  by (simp add: socksReadAddr_def socks_host_def socks_consts ReadFull_def byte_string_def)

text \<open>
  a SOCKS5 request the client cannot serve is answered with the code that says why, and no tunnel is opened for
  it: no acceptable method, a command other than connect, an address type that is not known, an address that is cut
  short or a target that cannot be reached.
\<close>

theorem socks_refusals:
  "handleSOCKS5 dial ([5, int (length ms)] @ map (\<lambda>m. if m = 0 then 1 else m) ms @ r) = ([5, 255], None) \<and>
   handleSOCKS5 dial ([5, 1, 0] @ [5, 2, 0, atyp] @ r) = ([5, 0] @ socksReply 7, None) \<and>
   handleSOCKS5 dial ([5, 1, 0] @ [5, 1, 0, 2] @ r) = ([5, 0] @ socksReply 8, None) \<and>
   handleSOCKS5 dial ([5, 1, 0] @ [5, 1, 0, 1] @ [127]) = ([5, 0] @ socksReply 8, None) \<and>
   handleSOCKS5 (\<lambda>_. False) ([5, 1, 0] @ [5, 1, 0, 3] @ [1, 97, 0, 80] @ r) = ([5, 0] @ socksReply 4, None)"
proof -
  have "list_all (\<lambda>m. m \<noteq> 0) (map (\<lambda>m. if m = 0 then 1 else m) ms)" by (induction ms) simp_all
  from negotiate_refused [OF this, of r]
  have "socksNegotiate (5 # int (length ms) # map (\<lambda>m. if m = 0 then 1 else m) ms @ r) = Fail [5, 255]" by (simp only: length_map)
  then have "handleSOCKS5 dial ([5, int (length ms)] @ map (\<lambda>m. if m = 0 then 1 else m) ms @ r) = ([5, 255], None)"
    by (simp add: handleSOCKS5_def)
  moreover have "handleSOCKS5 (\<lambda>_. False) ([5, 1, 0] @ [5, 1, 0, 3] @ [1, 97, 0, 80] @ r) = ([5, 0] @ socksReply 4, None)"
    using readaddr_name [of r] by (subst handle_noauth) simp
  moreover have "handleSOCKS5 dial ([5, 1, 0] @ [5, 2, 0, atyp] @ r) = ([5, 0] @ socksReply 7, None)"
    by (subst handle_noauth) simp
  moreover have "handleSOCKS5 dial ([5, 1, 0] @ [5, 1, 0, 2] @ r) = ([5, 0] @ socksReply 8, None)"
    by (subst handle_noauth) (simp add: readaddr_bad)
  moreover have "handleSOCKS5 dial ([5, 1, 0] @ [5, 1, 0, 1] @ [127]) = ([5, 0] @ socksReply 8, None)"
    by (subst handle_noauth) (simp add: readaddr_bad)
  ultimately show ?thesis by blast
qed

section \<open>Nothing listens beyond the loopback interface\<close>

text \<open>An address to listen on whose host is \<^verbatim>\<open>localhost\<close>, an IPv4 address in \<open>127.0.0.0/8\<close> or \<open>::1\<close>.\<close>

definition loopback_host :: "string \<Rightarrow> bool" where
  "loopback_host host \<longleftrightarrow> host = ''localhost'' \<or>
     (case ParseIP host of
        None \<Rightarrow> False
      | Some p \<Rightarrow> (\<exists>b c d. p = v4_mapped [127, b, c, d]) \<or> p = replicate 15 0 @ [1])"

definition loopback_addr :: "string \<Rightarrow> bool" where
  "loopback_addr addr = (case SplitHostPort addr of Some (host, port) \<Rightarrow> loopback_host host | None \<Rightarrow> False)"


lemma loopback_shape:
  assumes "ip_wf p" "IsLoopback p"
  shows "(\<exists>b c d. p = v4_mapped [127, b, c, d]) \<or> p = replicate 15 0 @ [1]"
proof (cases "To4 p")
  case (Some q)
  then have t: "take 12 p = replicate 10 0 @ [255, 255]" "q = drop 12 p" by (simp_all add: To4_def split: if_splits)
  have "p = take 12 p @ drop 12 p" by simp
  then have "p = v4_mapped q" unfolding t by (simp add: v4_mapped_def)
  moreover have "length q = 4" "q ! 0 = 127" using assms Some t(2) by (simp_all add: IsLoopback_def ip_wf_def)
  ultimately have q: "p = v4_mapped q" "length q = 4" "q ! 0 = 127" .
  then obtain b c d where "q = [127, b, c, d]" by (auto simp: length_Suc_conv numeral_eq_Suc)
  then show ?thesis using q by blast
qed (use assms in \<open>simp add: IsLoopback_def\<close>)

lemma ensureLoopback_host:
  assumes "ensureLoopback host" shows "loopback_host host"
proof (cases "ParseIP host")
  case None
  then show ?thesis using assms by (simp add: ensureLoopback_def loopback_host_def)
next
  case (Some p)
  show ?thesis using assms Some
    by (cases "host = ''localhost''") (auto simp: ensureLoopback_def loopback_host_def dest: loopback_shape [OF ParseIP_wf])
qed

lemma Split_field_no_colon: "p \<in> set (Split (CHR '':'') s) \<Longrightarrow> CHR '':'' \<notin> set p"
  by (rule Split_no_sep)

lemma parsePort_range: "parsePort f = Some p \<Longrightarrow> 1 \<le> p \<and> p \<le> 65535"
  by (auto simp: parsePort_def split: prod.splits if_splits)

lemma ParseIP_chars: "ParseIP s = Some p \<Longrightarrow> CHR '':'' \<notin> set s \<Longrightarrow> CHR ''['' \<notin> set s \<and> CHR '']'' \<notin> set s"
proof -
  assume p: "ParseIP s = Some p" and nc: "CHR '':'' \<notin> set s"
  then have "parseIPv4Fields s \<noteq> None" using find_SomeD [of _ s] by (fastforce simp: ParseIP_def split: option.splits if_splits)
  then have "list_all (\<lambda>f. v4_field f \<noteq> None) (Split (CHR ''.'') s)"
    by (auto simp: parseIPv4Fields_def split: list.splits option.splits)
  then have d: "list_all (list_all is_digit) (Split (CHR ''.'') s)" by (auto simp: list_all_iff v4_field_def split: if_splits)
  have "set (Join ''.'' ps) \<subseteq> (\<Union>q \<in> set ps. set q) \<union> {CHR ''.''}" for ps
    by (induction "''.''" ps rule: Join.induct) auto
  then have "set s \<subseteq> (\<Union>q \<in> set (Split (CHR ''.'') s). set q) \<union> {CHR ''.''}" using Join_Split [of "CHR ''.''" s] by metis
  then show ?thesis using d digit_not_special by (fastforce simp: list_all_iff)
qed

lemma ensureLoopback_chars: "ensureLoopback h \<Longrightarrow> CHR '':'' \<notin> set h \<Longrightarrow> CHR ''['' \<notin> set h \<and> CHR '']'' \<notin> set h"
  using ParseIP_chars [of h] by (auto simp: ensureLoopback_def split: option.splits)

lemma parseForwardSpec_loopback:
  assumes "parseForwardSpec raw = Inr (l, t)" shows "loopback_addr l"
proof -
  define fields where "fields = Split (CHR '':'') (TrimSpace raw)"
  define q where "q = (if length fields = 3 then (''127.0.0.1'', fields ! 0, fields ! 1, fields ! 2)
    else (fields ! 0, fields ! 1, fields ! 2, fields ! 3))"
  obtain b f1 f2 f3 where q: "q = (b, f1, f2, f3)" by (rule prod_cases4)
  have n: "length fields = 3 \<or> length fields = 4"
    using assms unfolding parseForwardSpec_def Let_def fields_def [symmetric] by (auto split: if_splits)
  have "ensureLoopback b \<and> (\<exists>lp. parsePort f1 = Some lp \<and> l = JoinHostPort b (Itoa lp))"
    using assms unfolding parseForwardSpec_def Let_def fields_def [symmetric] q_def [symmetric] q
    by (simp split: if_splits option.splits)
  then obtain lp where b: "ensureLoopback b" "1 \<le> lp" "l = JoinHostPort b (Itoa lp)" using parsePort_range by blast
  have "b = ''127.0.0.1'' \<or> b \<in> set fields"
    using q n unfolding q_def by (cases "length fields = 3") auto
  then have "CHR '':'' \<notin> set b" using Split_field_no_colon unfolding fields_def by auto
  then have "SplitHostPort l = Some (b, Itoa lp)"
    using b ensureLoopback_chars [OF b(1)] by (simp add: SplitHostPort_JoinHostPort_Itoa)
  then show ?thesis using ensureLoopback_host [OF b(1)] by (simp add: loopback_addr_def)
qed

text \<open>
  no port forward and no local proxy ever listens on an address that is not a loopback address: whether and with
  what result the operating system would let the client listen anywhere else makes no difference to what
  starting and adding do.
\<close>

theorem only_loopback_listeners:
  assumes "\<And>addr. loopback_addr addr \<Longrightarrow> listen1 addr = listen2 addr"
  shows "Forwarder_Add listen1 spec rules = Forwarder_Add listen2 spec rules \<and>
         LocalProxy_Start listen1 addr p = LocalProxy_Start listen2 addr p"
proof
  show "Forwarder_Add listen1 spec rules = Forwarder_Add listen2 spec rules"
    using assms parseForwardSpec_loopback [of spec] by (auto simp: Forwarder_Add_def split: sum.splits)
  define ad where "ad = (if addr = [] then ''127.0.0.1:8899'' else addr)"
  show "LocalProxy_Start listen1 addr p = LocalProxy_Start listen2 addr p"
    unfolding LocalProxy_Start_def ad_def [symmetric] Let_def
    using assms [of ad] ensureLoopback_host by (auto simp: loopback_addr_def split: option.splits)
qed

theorem only_loopback_listeners_witness:
  "Forwarder_Add (\<lambda>a. if loopback_addr a then Some a else None) ''8080:example.org:80'' [] =
     Forwarder_Add Some ''8080:example.org:80'' []"
  using only_loopback_listeners [of "\<lambda>a. if loopback_addr a then Some a else None" Some] by simp

section \<open>A relay ends when both sides have ended\<close>

lemma relay_foldl:
  "a_to_b (foldl (\<lambda>s e. relay_step ha hb e s) s es) = (a_to_b s \<and> EndAB \<notin> set es) \<and>
   b_to_a (foldl (\<lambda>s e. relay_step ha hb e s) s es) = (b_to_a s \<and> EndBA \<notin> set es)"
proof (induction es arbitrary: s)
  case (Cons e es)
  then show ?case by (cases e) (auto simp: relay_step_def Let_def)
qed simp

lemma relay_closed_inv:
  "(both_closed s \<longleftrightarrow> \<not> a_to_b s \<and> \<not> b_to_a s) \<Longrightarrow>
   both_closed (foldl (\<lambda>s e. relay_step ha hb e s) s es) = (\<not> a_to_b (foldl (\<lambda>s e. relay_step ha hb e s) s es) \<and> \<not> b_to_a (foldl (\<lambda>s e. relay_step ha hb e s) s es))"
proof (induction es arbitrary: s)
  case (Cons e es)
  have "both_closed (relay_step ha hb e s) \<longleftrightarrow> \<not> a_to_b (relay_step ha hb e s) \<and> \<not> b_to_a (relay_step ha hb e s)"
    using Cons.prems by (cases e) (auto simp: relay_step_def Let_def)
  then show ?case using Cons.IH by simp
qed simp

text \<open>
  a relay closes its connections exactly when both directions have ended. When only the client is gone and the tunnel's
  connection cannot be closed for writing, nothing tells the other side: the tunnel stays open.
\<close>

theorem relay_needs_both:
  "both_closed (relay_run ha hb es) = (EndAB \<in> set es \<and> EndBA \<in> set es) \<and>
   \<not> both_closed (relay_run ha False [EndAB]) \<and> \<not> b_write_closed (relay_run ha False [EndAB])"
proof -
  have "both_closed (relay_run ha hb es) = (EndAB \<in> set es \<and> EndBA \<in> set es)"
    using relay_closed_inv [of relay_start ha hb es] relay_foldl [of ha hb relay_start es]
    by (simp add: relay_run_def relay_start_def)
  then show ?thesis by (simp add: relay_run_def relay_start_def relay_step_def)
qed

end
