(* ===== verification/Console.thy ===== *)
theory Console
  imports Local_Proxy
begin

text \<open>
  The state of the tunnel client's console, \<^verbatim>\<open>tunnel/cmd/tunnel/ui.go\<close>: its log, the request history, the input line
  what is drawn, and what the keys do; a key is what the
  terminal library reports, and the rendering of styles is an argument.
\<close>

section \<open>The log\<close>

record logBuffer =
  log_lines :: "string list"
  log_max :: nat

definition newLogBuffer :: "nat \<Rightarrow> logBuffer" where
  "newLogBuffer n = \<lparr>log_lines = [], log_max = n\<rparr>"

text \<open>\<open>clock\<close> is the time of day as it is printed in front of a line.\<close>

definition log_add :: "string \<Rightarrow> string \<Rightarrow> logBuffer \<Rightarrow> logBuffer" where
  "log_add clock line b =
     (let ls = log_lines b @ [clock @ ''  '' @ line]
      in b\<lparr>log_lines := (if length ls > log_max b then drop (length ls - log_max b) ls else ls)\<rparr>)"

definition log_tail :: "nat \<Rightarrow> logBuffer \<Rightarrow> string list" where
  "log_tail n b = (if length (log_lines b) \<le> n then log_lines b else drop (length (log_lines b) - n) (log_lines b))"

definition log_clear :: "logBuffer \<Rightarrow> logBuffer" where
  "log_clear b = b\<lparr>log_lines := []\<rparr>"

definition log_empty :: "logBuffer \<Rightarrow> bool" where
  "log_empty b \<longleftrightarrow> length (log_lines b) = 0"

section \<open>The console\<close>

datatype inputMode = modeNone | modeTarget | modeRequest | modeListen | modeForward

text \<open>The result of a request; \<open>rq_took\<close> is the elapsed time as it is printed, rounded to the millisecond.\<close>

record requestResultMsg =
  rq_url :: string
  rq_status :: int
  rq_took :: string
  rq_headers :: "string list"
  rq_body :: string
  rq_err :: "string option"

record console =
  c_server :: string
  c_user :: string
  c_width :: int
  c_height :: int
  mode :: inputMode
  input :: string
  prompt :: string
  reqs :: "requestResultMsg list"
  reqMax :: nat
  logs :: logBuffer
  c_dialer :: Dialer
  c_proxy :: LocalProxy
  c_rules :: "ForwardRule list"

definition newModel :: "string \<Rightarrow> string \<Rightarrow> Dialer \<Rightarrow> LocalProxy \<Rightarrow> ForwardRule list \<Rightarrow> logBuffer \<Rightarrow> console" where
  "newModel server user d p f l = \<lparr>c_server = server, c_user = user, c_width = 0, c_height = 0, mode = modeNone, input = [], prompt = [], reqs = [], reqMax = 20, logs = l,
     c_dialer = d, c_proxy = p, c_rules = f\<rparr>"

text \<open>A key: the special keys the input line knows, text, or a key with only a name.\<close>

datatype key = KeyEsc | KeyCtrlC | KeyEnter | KeyBackspace | KeySpace | KeyRunes string | KeyOther string

fun key_name :: "key \<Rightarrow> string" where
  "key_name KeyEsc = ''esc''"
| "key_name KeyCtrlC = ''ctrl+c''"
| "key_name KeyEnter = ''enter''"
| "key_name KeyBackspace = ''backspace''"
| "key_name KeySpace = '' ''"
| "key_name (KeyRunes s) = s"
| "key_name (KeyOther s) = s"

text \<open>What runs in the background after a key.\<close>

datatype command = NoCommand | Quit | OpenTunnel string | DoRequest string | StartListen string | ReportStopped | NextTick

text \<open>
  What the surroundings answer while one message is handled: the printed time of day, the operating system's answer to a
  listen request, the text of the error for a refused rule or (\<open>None\<close>) a refused listen request, and the error, if any, of closing the local proxy's listener.
\<close>

record console_env =
  os_clock :: string
  os_listen :: "string \<Rightarrow> string option"
  os_refusal :: "forward_error option \<Rightarrow> string"
  os_close :: "string option"

definition say :: "console_env \<Rightarrow> string \<Rightarrow> console \<Rightarrow> console" where
  "say env line m = m\<lparr>logs := log_add (os_clock env) line (logs m)\<rparr>"

text \<open>Removing the last rune of a valid UTF-8 string, which the input line is: its continuation bytes and the byte before them.\<close>

definition is_cont :: "char \<Rightarrow> bool" where
  "is_cont c \<longleftrightarrow> 128 \<le> (of_char c :: int) \<and> (of_char c :: int) < 192"

definition drop_rune :: "string \<Rightarrow> string" where
  "drop_rune s = rev (drop 1 (dropWhile is_cont (rev s)))"

definition submit :: "console_env \<Rightarrow> inputMode \<Rightarrow> string \<Rightarrow> console \<Rightarrow> console \<times> command" where
  "submit env md val m =
     (case md of
        modeListen \<Rightarrow> (say env (''starting local proxy on '' @ val) m, StartListen val)
      | modeTarget \<Rightarrow> (say env (''opening tunnel to '' @ val) m, OpenTunnel val)
      | modeRequest \<Rightarrow> (say env (''requesting '' @ val) m, DoRequest val)
      | modeForward \<Rightarrow>
          (let (rules, ok) = Forwarder_Add (os_listen env) val (c_rules m); m1 = m\<lparr>c_rules := rules\<rparr>
           in if \<not> ok then (say env (''forward failed: '' @ os_refusal env (case parseForwardSpec val of Inl e \<Rightarrow> Some e | Inr t \<Rightarrow> None)) m1, NoCommand)
              else let line = ''forward '' @ LocalAddr (last rules) @ '' -> '' @ fr_Target (last rules)
                   in (say env line (say env line m1), NoCommand))
      | modeNone \<Rightarrow> (m, NoCommand))"

definition toggleLocalProxy :: "console_env \<Rightarrow> console \<Rightarrow> console \<times> command" where
  "toggleLocalProxy env m =
     (if Running (c_proxy m) then
        (let m1 = m\<lparr>c_proxy := LocalProxy_Stop (c_proxy m)\<rparr>
         in case os_close env of Some e \<Rightarrow> (say env (''stop failed: '' @ e) m1, NoCommand) | None \<Rightarrow> (m1, ReportStopped))
      else (m\<lparr>mode := modeListen, prompt := ''listen address'', input := ''127.0.0.1:8899''\<rparr>, NoCommand))"

definition edit_key :: "console_env \<Rightarrow> key \<Rightarrow> console \<Rightarrow> console \<times> command" where
  "edit_key env k m =
     (case k of
        KeyEsc \<Rightarrow> (m\<lparr>mode := modeNone, input := []\<rparr>, NoCommand)
      | KeyCtrlC \<Rightarrow> (m\<lparr>mode := modeNone, input := []\<rparr>, NoCommand)
      | KeyEnter \<Rightarrow>
          (let val = TrimSpace (input m); md = mode m; m1 = m\<lparr>mode := modeNone, input := []\<rparr>
           in if val = [] then (m1, NoCommand) else submit env md val m1)
      | KeyBackspace \<Rightarrow> (m\<lparr>input := drop_rune (input m)\<rparr>, NoCommand)
      | KeySpace \<Rightarrow> (m\<lparr>input := input m @ '' ''\<rparr>, NoCommand)
      | KeyRunes s \<Rightarrow> (m\<lparr>input := input m @ s\<rparr>, NoCommand)
      | KeyOther s \<Rightarrow> (m, NoCommand))"

definition command_key :: "console_env \<Rightarrow> key \<Rightarrow> console \<Rightarrow> console \<times> command" where
  "command_key env k m =
     (let s = key_name k
      in if s = ''q'' \<or> s = ''ctrl+c'' then (m, Quit)
         else if s = ''t'' then (m\<lparr>mode := modeTarget, prompt := ''target host:port'', input := []\<rparr>, NoCommand)
         else if s = ''r'' then (m\<lparr>mode := modeRequest, prompt := ''request URL'', input := ''https://''\<rparr>, NoCommand)
         else if s = ''l'' then toggleLocalProxy env m
         else if s = ''f'' then (m\<lparr>mode := modeForward, prompt := ''localPort:host:port'', input := []\<rparr>, NoCommand)
         else if s = ''x'' then
           (let n = length (Tunnels (c_dialer m))
            in (say env (''closed '' @ Itoa (int n) @ '' tunnel(s)'') (m\<lparr>c_dialer := CloseAll (c_dialer m)\<rparr>), NoCommand))
         else if s = ''c'' then (m\<lparr>logs := log_clear (logs m), reqs := []\<rparr>, NoCommand)
         else (m, NoCommand))"

definition handleKey :: "console_env \<Rightarrow> key \<Rightarrow> console \<Rightarrow> console \<times> command" where
  "handleKey env k m = (if mode m \<noteq> modeNone then edit_key env k m else command_key env k m)"

text \<open>The messages the console handles: a key, the window's size, the clock, and the results of background commands.\<close>

datatype console_msg =
  KeyMsg key
| RequestResult requestResultMsg
| TargetResult string "string option"
| ListenResult string "string option"
| WindowSize int int
| TickMsg

fun console_Update :: "console_env \<Rightarrow> console_msg \<Rightarrow> console \<Rightarrow> console \<times> command" where
  "console_Update env (WindowSize w h) m = (m\<lparr>c_width := w, c_height := h\<rparr>, NoCommand)"
| "console_Update env TickMsg m = (m, NextTick)"
| "console_Update env (TargetResult addr err) m =
     (case err of Some e \<Rightarrow> (say env (''open '' @ addr @ '' failed: '' @ e) m, NoCommand)
      | None \<Rightarrow> (say env (''tunnel open to '' @ addr) m, NoCommand))"
| "console_Update env (ListenResult addr err) m =
     (case err of Some e \<Rightarrow> (say env (''local proxy failed: '' @ e) m, NoCommand)
      | None \<Rightarrow> if addr = [] then (say env ''local proxy stopped'' m, NoCommand)
                else (say env (''local proxy listening on '' @ addr @ '' (export https_proxy=http://'' @ addr @ '')'') m, NoCommand))"
| "console_Update env (RequestResult msg) m =
     (let rs = reqs m @ [msg];
          m1 = m\<lparr>reqs := (if length rs > reqMax m then drop (length rs - reqMax m) rs else rs)\<rparr>
      in case rq_err msg of
           Some e \<Rightarrow> (say env (''request failed: '' @ e) m1, NoCommand)
         | None \<Rightarrow> (say env (rq_url msg @ '' -> '' @ Itoa (rq_status msg) @ '' in '' @ rq_took msg) m1, NoCommand))"
| "console_Update env (KeyMsg k) m = handleKey env k m"

text \<open>
  The background commands: starting the local proxy, and opening a tunnel, whose dial result is given.
\<close>

definition startListen :: "console_env \<Rightarrow> string \<Rightarrow> LocalProxy \<Rightarrow> LocalProxy \<times> console_msg" where
  "startListen env addr p =
     (case LocalProxy_Start (os_listen env) addr p of
        (p', Some e) \<Rightarrow> (p', ListenResult [] (Some e))
      | (p', None) \<Rightarrow> (p', ListenResult (lp_addr p') None))"

definition openTunnel_msg :: "string \<Rightarrow> string + int \<Rightarrow> console_msg" where
  "openTunnel_msg addr dialled = (case dialled of Inl e \<Rightarrow> TargetResult addr (Some e) | Inr i \<Rightarrow> TargetResult addr None)"

text \<open>
  A request through the tunnel. The HTTP library's answers are given: the error of building the request, and the response's
  status, its header lookup and its body or a read error; of the body at most 16 KiB are read.
\<close>

record http_answer =
  ha_status :: int
  ha_header :: "string \<Rightarrow> string"
  ha_body :: "string + string"

definition doRequest :: "string option \<Rightarrow> string + http_answer \<Rightarrow> string \<Rightarrow> string \<Rightarrow> requestResultMsg" where
  "doRequest build answer elapsed rawURL =
     (let failed = (\<lambda>took e. \<lparr>rq_url = rawURL, rq_status = 0, rq_took = took, rq_headers = [], rq_body = [], rq_err = Some e\<rparr>)
      in case build of
           Some e \<Rightarrow> failed ''0s'' e
         | None \<Rightarrow>
             (case answer of
                Inl e \<Rightarrow> failed elapsed e
              | Inr resp \<Rightarrow>
                  (case ha_body resp of
                     Inl e \<Rightarrow> failed elapsed e
                   | Inr body \<Rightarrow>
                       \<lparr>rq_url = rawURL, rq_status = ha_status resp, rq_took = elapsed,
                         rq_headers = map (\<lambda>k. k @ '': '' @ ha_header resp k)
                           (filter (\<lambda>k. ha_header resp k \<noteq> []) [''Server'', ''Content-Type'', ''Content-Length'']),
                         rq_body = TrimSpace (take (16 * 1024) body), rq_err = None\<rparr>)))"

section \<open>Layout helpers\<close>

definition pad :: "string \<Rightarrow> nat \<Rightarrow> string" where
  "pad s n = (if length s \<ge> n then s else s @ replicate (n - length s) (CHR '' ''))"

definition padRight :: "string \<Rightarrow> nat \<Rightarrow> string" where
  "padRight s n = (if length s \<ge> n then take n s else s @ replicate (n - length s) (CHR '' ''))"

definition truncateLines :: "string \<Rightarrow> nat \<Rightarrow> string" where
  "truncateLines s n =
     (let ls = Split (CHR 0x0A) s
      in if length ls \<le> n then s
         else Join [CHR 0x0A] (take n ls) @ [CHR 0x0A, CHR 0xE2, CHR 0x80, CHR 0xA6])"

definition frameWidth :: "int \<Rightarrow> int" where
  "frameWidth w = (if w > 0 \<and> w < 120 then w else 100)"

definition log_rows :: "int \<Rightarrow> int" where
  "log_rows height = (if height > 30 then (if height - 30 < 4 then 4 else height - 30) else 6)"

text \<open>
  A byte count, from a megabyte and a kilobyte on with one decimal. The quotient is a float64 that is exact below \<open>2 ^ 53\<close>
  bytes, and \<open>%.1f\<close> rounds the exact quotient to the nearest tenth, ties to even.
\<close>

definition tenths :: "int \<Rightarrow> int \<Rightarrow> int" where
  "tenths n unit =
     (let q = 10 * n div unit; r = 10 * n mod unit
      in if 2 * r < unit then q else if 2 * r > unit then q + 1 else if even q then q else q + 1)"

definition one_decimal :: "int \<Rightarrow> int \<Rightarrow> string" where
  "one_decimal n unit = Itoa (tenths n unit div 10) @ ''.'' @ Itoa (tenths n unit mod 10)"

definition humanBytes :: "int \<Rightarrow> string" where
  "humanBytes n =
     (if n \<ge> 2 ^ 20 then one_decimal n (2 ^ 20) @ ''MB''
      else if n \<ge> 2 ^ 10 then one_decimal n (2 ^ 10) @ ''KB'' else Itoa n @ ''B'')"

section \<open>Drawing\<close>

text \<open>\<open>render\<close> is the terminal library's rendering of a text in a style.\<close>

datatype style = titleStyle | labelStyle | valueStyle | okStyle | errStyle | warnStyle | borderStyle | helpStyle | headStyle

definition nl :: string where
  "nl = [CHR 0x0A]"

definition statusBlock :: "(style \<Rightarrow> string \<Rightarrow> string) \<Rightarrow> console \<Rightarrow> string" where
  "statusBlock render m =
     (let rows = [(''Server'', c_server m), (''Endpoint'', d_wsURL (c_dialer m)),
                  (''Credential'', c_user m @ '' (10 min TTL, re-issue when it expires)''),
                  (''Local proxy'', if Running (c_proxy m) then render okStyle ''ON'' @ ''  '' @ lp_addr (c_proxy m)
                                    else render labelStyle ''OFF'')]
      in concat (map (\<lambda>(k, v). '' '' @ render labelStyle (pad k 12) @ '' '' @ render valueStyle v @ nl) rows))"

definition forwardsBlock :: "(style \<Rightarrow> string \<Rightarrow> string) \<Rightarrow> console \<Rightarrow> string" where
  "forwardsBlock render m =
     (if c_rules m = [] then '' '' @ render labelStyle ''none'' @ nl
      else concat (map (\<lambda>r. '' '' @ render valueStyle (LocalAddr r) @ '' '' @ render labelStyle ''->'' @ '' '' @ fr_Target r @ nl)
             (c_rules m)))"

definition tunnel_status :: "(style \<Rightarrow> string \<Rightarrow> string) \<Rightarrow> Tunnel \<Rightarrow> string" where
  "tunnel_status render t =
     (if tn_err t \<noteq> None then render errStyle ''error''
      else if tn_closed t then render labelStyle ''closed'' else render okStyle ''open'')"

definition tunnel_row :: "(style \<Rightarrow> string \<Rightarrow> string) \<Rightarrow> int \<Rightarrow> Tunnel \<Rightarrow> string" where
  "tunnel_row render i t =
     '' '' @ padRight (Itoa i) 3 @ padRight (tn_Target t) 34 @ padRight (humanBytes (Tx t)) 10 @
     padRight (humanBytes (Rx t)) 10 @ tunnel_status render t @ nl"

definition tunnelsBlock :: "(style \<Rightarrow> string \<Rightarrow> string) \<Rightarrow> console \<Rightarrow> string" where
  "tunnelsBlock render m =
     (if Tunnels (c_dialer m) = [] then '' '' @ render labelStyle ''none'' @ nl
      else '' '' @ render labelStyle (padRight ''#'' 3 @ padRight ''target'' 34 @ padRight ''tx'' 10 @ padRight ''rx'' 10) @ ''status'' @ nl @
           concat (map (\<lambda>i. case mget (objs (c_dialer m)) i of Some t \<Rightarrow> tunnel_row render i t | None \<Rightarrow> []) (Tunnels (c_dialer m))))"

definition requestsBlock :: "(style \<Rightarrow> string \<Rightarrow> string) \<Rightarrow> console \<Rightarrow> string" where
  "requestsBlock render m =
     (if reqs m = [] then '' '' @ render labelStyle ''none'' @ nl
      else let r = last (reqs m)
           in case rq_err r of
                Some e \<Rightarrow> '' '' @ render errStyle (rq_url r @ '': '' @ e) @ nl
              | None \<Rightarrow>
                  '' '' @ render valueStyle (rq_url r) @ ''  '' @
                  render (if rq_status r \<ge> 400 then errStyle else okStyle) (Itoa (rq_status r)) @ ''  '' @
                  render labelStyle (rq_took r) @ nl @
                  concat (map (\<lambda>h. '' '' @ render labelStyle h @ nl) (rq_headers r)) @
                  (if rq_body r \<noteq> [] then concat (map (\<lambda>l. '' '' @ l @ nl) (Split (CHR 0x0A) (truncateLines (rq_body r) 12)))
                   else []))"

definition logBlock :: "(style \<Rightarrow> string \<Rightarrow> string) \<Rightarrow> console \<Rightarrow> string" where
  "logBlock render m =
     (if log_empty (logs m) then '' '' @ render labelStyle ''no activity yet'' @ nl
      else concat (map (\<lambda>l. '' '' @ l @ nl) (log_tail (nat (log_rows (c_height m))) (logs m))))"

text \<open>The prompt line ends with a block glyph and the rules are drawn with a dash glyph, in UTF-8.\<close>

definition input_line :: "(style \<Rightarrow> string \<Rightarrow> string) \<Rightarrow> console \<Rightarrow> string" where
  "input_line render m =
     (if mode m \<noteq> modeNone then
        render warnStyle (''> '' @ prompt m @ '': '') @ input m @ [CHR 0xE2, CHR 0x96, CHR 0x8F] @ nl @
        render helpStyle (''enter confirm '' @ [CHR 0xC2, CHR 0xB7] @ '' esc cancel'') @ nl
      else render helpStyle ''[t] tunnel  [f] forward port  [r] request  [l] mixed proxy  [x] close tunnels  [c] clear  [q] quit'' @ nl)"

definition View :: "(style \<Rightarrow> string \<Rightarrow> string) \<Rightarrow> console \<Rightarrow> string" where
  "View render m =
     render titleStyle ''JustPing Tunnel'' @ nl @
     render borderStyle (concat (replicate (nat (frameWidth (c_width m))) [CHR 0xE2, CHR 0x94, CHR 0x80])) @ nl @
     statusBlock render m @ nl @
     render headStyle ''Forwards'' @ nl @ forwardsBlock render m @ nl @
     render headStyle ''Tunnels'' @ nl @ tunnelsBlock render m @ nl @
     render headStyle ''Requests'' @ nl @ requestsBlock render m @ nl @
     render headStyle ''Log'' @ nl @ logBlock render m @ nl @
     input_line render m"

lemma humanBytes_exact:
  "tenths (k * unit) unit = 10 * k" if "unit > 0"
  using that by (simp add: tenths_def)

lemma padRight_length: "length (padRight s n) = n"
  by (simp add: padRight_def)

section \<open>Properties\<close>

fun console_run :: "console_env \<Rightarrow> console_msg list \<Rightarrow> console \<Rightarrow> console \<times> command list" where
  "console_run env [] m = (m, [])"
| "console_run env (msg # msgs) m =
     (let (m1, c) = console_Update env msg m; (m2, cs) = console_run env msgs m1 in (m2, c # cs))"

definition console_ok :: "console \<Rightarrow> bool" where
  "console_ok m \<longleftrightarrow> length (reqs m) \<le> reqMax m \<and> length (log_lines (logs m)) \<le> log_max (logs m) \<and>
     (mode m = modeNone \<longrightarrow> input m = [])"

lemma say_fields [simp]:
  "reqs (say env l m) = reqs m" "reqMax (say env l m) = reqMax m" "mode (say env l m) = mode m" "input (say env l m) = input m"
  "log_max (logs (say env l m)) = log_max (logs m)"
  "length (log_lines (logs (say env l m))) = min (log_max (logs m)) (Suc (length (log_lines (logs m))))"
  by (auto simp: say_def log_add_def Let_def)

lemma submit_keeps: "console_ok m \<Longrightarrow> mode m = modeNone \<Longrightarrow> console_ok (fst (submit env md val m)) \<and> mode (fst (submit env md val m)) = modeNone \<and> input (fst (submit env md val m)) = input m"
  by (cases md) (auto simp: submit_def console_ok_def Let_def split: prod.splits)

lemma Update_ok: "console_ok m \<Longrightarrow> console_ok (fst (console_Update env msg m))"
proof (cases msg)
  case (KeyMsg k)
  assume ok: "console_ok m"
  show ?thesis
  proof (cases "mode m = modeNone")
    case True
    then show ?thesis using ok KeyMsg
      by (auto simp: handleKey_def command_key_def toggleLocalProxy_def console_ok_def Let_def log_clear_def split: option.split)
  next
    case False
    have "console_ok (m\<lparr>mode := modeNone, input := []\<rparr>)" using ok by (simp add: console_ok_def)
    then show ?thesis using False ok KeyMsg submit_keeps [of "m\<lparr>mode := modeNone, input := []\<rparr>" env "mode m"]
      by (cases k) (auto simp: handleKey_def edit_key_def Let_def console_ok_def)
  qed
qed (auto simp: console_ok_def Let_def split: option.split)

lemma console_run_ok: "console_ok m \<Longrightarrow> console_ok (fst (console_run env msgs m))"
proof (induction msgs arbitrary: m)
  case (Cons msg msgs)
  then show ?case using Update_ok [OF Cons.prems] by (simp add: case_prod_beta)
qed simp

lemma typing:
  "mode m \<noteq> modeNone \<Longrightarrow>
   console_run env (map (\<lambda>s. KeyMsg (KeyRunes s)) chunks) m = (m\<lparr>input := input m @ concat chunks\<rparr>, map (\<lambda>_. NoCommand) chunks)"
  by (induction chunks arbitrary: m) (simp_all add: handleKey_def edit_key_def)

lemma console_run_append:
  "console_run env (xs @ ys) m = (let (m1, cs) = console_run env xs m; (m2, ds) = console_run env ys m1 in (m2, cs @ ds))"
  by (induction xs arbitrary: m) (simp_all add: case_prod_beta Let_def)

text \<open>
  what is typed at a prompt and confirmed with enter runs that prompt's command with the typed text, trimmed; the
  prompt is gone afterwards; and however the console is used, its request history and its log stay within their limits.
\<close>

theorem prompt_runs_command:
  assumes "mode m = modeNone" "TrimSpace (concat chunks) \<noteq> []" "console_ok m"
  shows "(let (m', cs) = console_run env ([KeyMsg (KeyRunes ''t'')] @ map (\<lambda>s. KeyMsg (KeyRunes s)) chunks @ [KeyMsg KeyEnter]) m in
       last cs = OpenTunnel (TrimSpace (concat chunks)) \<and> mode m' = modeNone \<and> input m' = []) \<and>
     console_ok (fst (console_run env msgs m))"
proof -
  let ?m1 = "m\<lparr>mode := modeTarget, prompt := ''target host:port'', input := []\<rparr>"
  have "console_Update env (KeyMsg (KeyRunes ''t'')) m = (?m1, NoCommand)"
    using assms(1) by (simp add: handleKey_def command_key_def)
  moreover have "console_run env (map (\<lambda>s. KeyMsg (KeyRunes s)) chunks) ?m1 =
      (?m1\<lparr>input := concat chunks\<rparr>, map (\<lambda>_. NoCommand) chunks)"
    using typing [of ?m1 env chunks] by simp
  ultimately show ?thesis
    using assms console_run_ok [OF assms(3), of env msgs]
    by (simp add: console_run_append Let_def handleKey_def edit_key_def submit_def)
qed

definition demo_env :: console_env where
  "demo_env = \<lparr>os_clock = ''12:00:00'', os_listen = Some, os_refusal = (\<lambda>e. ''no''), os_close = None\<rparr>"

theorem prompt_runs_command_witness:
  "(let (m', cs) = console_run demo_env ([KeyMsg (KeyRunes ''t'')] @ map (\<lambda>s. KeyMsg (KeyRunes s)) [''a:'', ''1''] @ [KeyMsg KeyEnter])
      (newModel ''h'' ''u'' demo_dialer NewLocalProxy [] (newLogBuffer 200)) in last cs = OpenTunnel (TrimSpace ''a:1''))"
proof -
  have "TrimSpace ''a:1'' \<noteq> []" by code_simp
  then show ?thesis
    using prompt_runs_command [of "newModel ''h'' ''u'' demo_dialer NewLocalProxy [] (newLogBuffer 200)" "[''a:'', ''1'']" demo_env]
    by (simp add: newModel_def console_ok_def newLogBuffer_def case_prod_beta)
qed

end
