(* ===== verification/Tunnel_Main.thy ===== *)
theory Tunnel_Main
  imports Console
begin

text \<open>
  The paths of the tunnel client that open a tunnel for somebody else, \<^verbatim>\<open>tunnel/cmd/tunnel/localproxy.go\<close> (\<^verbatim>\<open>DialContext\<close>, the HTTP
  proxy) and \<^verbatim>\<open>forward.go\<close>, and its program, \<^verbatim>\<open>main.go\<close>, from the command line to the clean-up. The HTTP server and client are arguments.
\<close>

section \<open>Opening a tunnel under a deadline\<close>

text \<open>
  What comes first, the end of the context (with its error) or of the dial. The dial goes on after the end of the context; the result is the
  dialer once it has ended too.
\<close>

datatype race = CtxFirst string | DialFirst

definition DialContext ::
    "race \<Rightarrow> ws_dial \<Rightarrow> string option \<Rightarrow> string + tunnelReply \<Rightarrow> string \<Rightarrow> string \<Rightarrow> Dialer \<Rightarrow> Dialer \<times> (string + int)" where
  "DialContext first r werr reply network addr d =
     (if network \<noteq> ''tcp'' \<and> network \<noteq> ''tcp4'' \<and> network \<noteq> ''tcp6'' then (d, Inl (''unsupported network '' @ network))
      else case Dial r werr reply addr d of
             (d1, res) \<Rightarrow>
               (case first of
                  DialFirst \<Rightarrow> (d1, res)
                | CtxFirst e \<Rightarrow> (case res of Inr i \<Rightarrow> (counted_Close i None d1, Inl e) | Inl _ \<Rightarrow> (d1, Inl e))))"

section \<open>The HTTP proxy\<close>

text \<open>A listener for one connection.\<close>

definition Accept_once :: "bool \<Rightarrow> bool \<times> (string + unit)" where
  "Accept_once taken = (True, if taken then Inl ''listener closed'' else Inr ())"

text \<open>
  The answer of a \<^verbatim>\<open>CONNECT\<close>: an HTTP error, a connection closed without one, or a relay over the tunnel after the bytes the server had
  already read were passed on. \<open>hijack\<close> says whether the server gives its connection away (\<open>None\<close>: it cannot), \<open>greeted\<close> whether the
  client could be told.
\<close>

datatype connect_result = HttpError int string | Dropped | Relaying int string

definition handleConnect ::
    "ws_dial \<Rightarrow> string option \<Rightarrow> string + tunnelReply \<Rightarrow> bool option \<Rightarrow> bool \<Rightarrow> string \<Rightarrow> proxy_request \<Rightarrow> Dialer \<Rightarrow> Dialer \<times> connect_result" where
  "handleConnect r werr reply hijack greeted buffered req d =
     (case Dial r werr reply (connect_host req) d of
        (d1, Inl e) \<Rightarrow> (d1, HttpError 502 e)
      | (d1, Inr i) \<Rightarrow>
          (case hijack of
             None \<Rightarrow> (counted_Close i None d1, HttpError 500 ''hijacking not supported'')
           | Some False \<Rightarrow> (counted_Close i None d1, Dropped)
           | Some True \<Rightarrow>
               if \<not> greeted then (counted_Close i None d1, Dropped)
               else (counted_Write i (int (length buffered)) d1, Relaying i buffered)))"

text \<open>\<open>answer\<close> is what the HTTP client returned: status, headers with their values, body.\<close>

datatype forward_result = ForwardError int string | Response int "(string \<times> string) list" string

definition copy_headers :: "(string, string list) gomap \<Rightarrow> (string \<times> string) list" where
  "copy_headers h = concat (map (\<lambda>(k, vs). map (\<lambda>v. (k, v)) vs) h)"

definition handleForward :: "string + int \<times> (string, string list) gomap \<times> string \<Rightarrow> forward_result" where
  "handleForward answer =
     (case answer of Inl e \<Rightarrow> ForwardError 502 e | Inr (status, h, body) \<Rightarrow> Response status (copy_headers h) body)"

text \<open>A connection to a forwarded port: the tunnel it is relayed over, or none.\<close>

definition Forwarder_handle :: "ws_dial \<Rightarrow> string option \<Rightarrow> string + tunnelReply \<Rightarrow> ForwardRule \<Rightarrow> Dialer \<Rightarrow> Dialer \<times> int option" where
  "Forwarder_handle r werr reply rule d =
     (case Dial r werr reply (fr_Target rule) d of (d1, Inl e) \<Rightarrow> (d1, None) | (d1, Inr i) \<Rightarrow> (d1, Some i))"

text \<open>The end of a relay closes both connections.\<close>

definition relay_end :: "int \<Rightarrow> Dialer \<Rightarrow> Dialer" where
  "relay_end i d = counted_Close i None d"

section \<open>The program\<close>

record tunnel_flags =
  t_server :: string
  t_credential :: string
  t_listen :: string
  t_no_tui :: bool
  t_forward :: "string list"
  t_version :: bool

record client_state =
  cs_dialer :: Dialer
  cs_proxy :: LocalProxy
  cs_rules :: "ForwardRule list"
  cs_gone :: "ForwardRule list"

text \<open>\<open>cs_gone\<close> keeps the forwards that have left the forwarder, with their listeners, open or closed.\<close>

definition cleanup :: "client_state \<Rightarrow> client_state" where
  "cleanup s =
     (let p = LocalProxy_Stop (cs_proxy s);
          (gone, rules) = Forwarder_CloseAll (cs_rules s)
      in \<lparr>cs_dialer = CloseAll (cs_dialer s), cs_proxy = p, cs_rules = rules, cs_gone = cs_gone s @ gone\<rparr>)"

text \<open>
  How the start ends: with a status before there is anything to clean up (and the addresses it has left bound), with a status after the
  clean-up, or ready to run.
\<close>

datatype start_result = Ended int "string list" | Cleaned int client_state | Ready client_state

fun add_forwards :: "(string \<Rightarrow> string option) \<Rightarrow> string list \<Rightarrow> ForwardRule list \<Rightarrow> ForwardRule list \<times> bool" where
  "add_forwards listen [] rules = (rules, True)"
| "add_forwards listen (spec # specs) rules =
     (case Forwarder_Add listen spec rules of
        (rules1, False) \<Rightarrow> (rules1, False)
      | (rules1, True) \<Rightarrow> add_forwards listen specs rules1)"

definition start_listeners :: "(string \<Rightarrow> string option) \<Rightarrow> tunnel_flags \<Rightarrow> Dialer \<Rightarrow> start_result" where
  "start_listeners listen f d =
     (case (if t_listen f \<noteq> [] then LocalProxy_Start listen (t_listen f) NewLocalProxy else (NewLocalProxy, None)) of
        (p, Some e) \<Rightarrow> Ended 1 (lp_open p)
      | (p, None) \<Rightarrow>
          (case add_forwards listen (t_forward f) [] of
             (rules, ok) \<Rightarrow>
               (let s = \<lparr>cs_dialer = d, cs_proxy = p, cs_rules = rules, cs_gone = []\<rparr> in if ok then Ready s else Cleaned 1 (cleanup s))))"

definition tunnel_main ::
    "(string \<Rightarrow> string + string \<times> string) \<Rightarrow> (string \<Rightarrow> string option) \<Rightarrow> (string \<Rightarrow> string) \<Rightarrow> tunnel_flags \<Rightarrow> start_result" where
  "tunnel_main parse listen getenv f =
     (if t_version f then Ended 0 []
      else let server = firstNonEmpty [t_server f, getenv ''JUSTPING_SERVER''];
               credential = firstNonEmpty [t_credential f, getenv ''JUSTPING_PROXY_CREDENTIAL'']
           in if server = [] \<or> credential = [] then Ended 2 []
              else case split_credential credential of
                     None \<Rightarrow> Ended 2 []
                   | Some (user, pass) \<Rightarrow>
                       (case NewDialer parse server user pass of
                          Inl e \<Rightarrow> Ended 1 []
                        | Inr d \<Rightarrow> start_listeners listen f d))"

text \<open>What the program prints without a console, and whether it then waits for a signal.\<close>

definition runHeadless :: "client_state \<Rightarrow> string list \<times> bool" where
  "runHeadless s =
     (let shown = (if lp_addr (cs_proxy s) \<noteq> [] then [''mixed proxy on '' @ lp_addr (cs_proxy s)] else []) @
            map (\<lambda>r. ''forward '' @ LocalAddr r @ '' -> '' @ fr_Target r) (cs_rules s)
      in if lp_addr (cs_proxy s) = [] \<and> cs_rules s = [] then (shown @ [''nothing to do: pass --listen and/or --forward with --no-tui''], False)
         else (shown, True))"

section \<open>No path keeps a tunnel it does not use\<close>

lemma Dial_inv: "dialer_inv d \<Longrightarrow> dialer_inv (fst (Dial r werr reply addr d))"
proof (cases "dial_target addr")
  case (Inr target)
  assume inv: "dialer_inv d"
  obtain d1 x where s: "dial_start r target d = (d1, x)" by fastforce
  have i1: "dialer_inv d1" using inv_start [OF inv, of r target] s by simp
  have p: "pending d1 i" if "x = Inr i" for i
    using s that by (auto simp: dial_start_def pending_def fresh_tunnel_def split: ws_dial.splits)
  show ?thesis using Inr s i1 inv_finish [OF i1 p] by (auto simp: Dial_def split: sum.splits)
qed (simp add: Dial_def)

text \<open>A dial either adds its tunnel at the end of the table or leaves the table as it was.\<close>

lemma Dial_table:
  assumes inv: "dialer_inv d" and "Dial r werr reply addr d = (d1, res)"
  shows "tunnels d1 = tunnels d @ (case res of Inl e \<Rightarrow> [] | Inr i \<Rightarrow> [i])"
    and "res = Inr i \<Longrightarrow> i \<notin> set (tunnels d) \<and> (\<exists>t. mget (objs d1) i = Some t \<and> \<not> once t)"
proof -
  have new2: "mget (objs d) (nextID d + 1) = None" using dialer_invD [OF inv, of "nextID d + 1"] by (force simp: tunnel_ok_def)
  then have new: "nextID d + 1 \<notin> set (tunnels d)" "mget (objs d) (nextID d + 1) = None" using inv by (auto simp: dialer_inv_def)
  have "filter (\<lambda>j. j \<noteq> nextID d + 1) (tunnels d) = tunnels d" using new(1) by (auto intro!: filter_True)
  then show "tunnels d1 = tunnels d @ (case res of Inl e \<Rightarrow> [] | Inr i \<Rightarrow> [i])"
    using assms(2)
    by (auto simp: Dial_def dial_start_def dial_finish_def counted_Close_def fresh_tunnel_def Let_def
        split: sum.splits ws_dial.splits option.splits if_splits)
  show "i \<notin> set (tunnels d) \<and> (\<exists>t. mget (objs d1) i = Some t \<and> \<not> once t)" if "res = Inr i"
    using assms(2) that new
    by (auto simp: Dial_def dial_start_def dial_finish_def counted_Close_def fresh_tunnel_def Let_def upd_tunnel_def
        split: sum.splits ws_dial.splits option.splits if_splits)
qed

lemma close_dialled:
  assumes "dialer_inv d" and "Dial r werr reply addr d = (d1, Inr i)"
  shows "tunnels (counted_Close i err d1) = tunnels d"
  using Dial_table [OF assms] by (auto simp: counted_Close_def intro!: filter_True)

lemma counted_Write_tunnels [simp]: "tunnels (counted_Write i n d) = tunnels d"
  by (simp add: counted_Write_def)

lemma close_written:
  assumes "dialer_inv d" and "Dial r werr reply addr d = (d1, Inr i)"
  shows "tunnels (relay_end i (counted_Write i n d1)) = tunnels d"
  using Dial_table [OF assms] by (auto simp: relay_end_def counted_Close_def counted_Write_def intro!: filter_True)

text \<open>The table after a path that returned \<open>got\<close>: the new tunnel is in it exactly when the client got it.\<close>

definition table_for :: "Dialer \<Rightarrow> int option \<Rightarrow> Dialer \<Rightarrow> bool" where
  "table_for d got d' \<longleftrightarrow>
     (case got of None \<Rightarrow> tunnels d' = tunnels d | Some i \<Rightarrow> tunnels d' = tunnels d @ [i] \<and> tunnels (relay_end i d') = tunnels d)"

definition relay_tunnel :: "connect_result \<Rightarrow> int option" where
  "relay_tunnel r = (case r of Relaying i b \<Rightarrow> Some i | _ \<Rightarrow> None)"

definition dialled :: "string + int \<Rightarrow> int option" where
  "dialled r = (case r of Inl e \<Rightarrow> None | Inr i \<Rightarrow> Some i)"

lemma DialContext_table:
  assumes inv: "dialer_inv d" and "DialContext first r werr reply network addr d = (d', res)"
  shows "table_for d (dialled res) d'"
proof -
  obtain d1 x where 1: "Dial r werr reply addr d = (d1, x)" by fastforce
  show ?thesis using assms(2) Dial_table(1) [OF inv 1] close_dialled [OF inv] 1
    by (cases x; cases first) (auto simp: DialContext_def table_for_def dialled_def relay_end_def split: if_splits)
qed

lemma handleConnect_table:
  assumes inv: "dialer_inv d" and "handleConnect r werr reply hijack greeted buffered req d = (d', res)"
  shows "table_for d (relay_tunnel res) d'"
proof -
  obtain d1 x where 1: "Dial r werr reply (connect_host req) d = (d1, x)" by fastforce
  show ?thesis using assms(2) Dial_table(1) [OF inv 1] close_dialled [OF inv] close_written [OF inv] 1
    by (cases x) (auto simp: handleConnect_def table_for_def relay_tunnel_def split: if_splits option.splits bool.splits)
qed

lemma Forwarder_handle_table:
  assumes inv: "dialer_inv d" and "Forwarder_handle r werr reply rule d = (d', got)"
  shows "table_for d got d'"
proof -
  obtain d1 x where 1: "Dial r werr reply (fr_Target rule) d = (d1, x)" by fastforce
  show ?thesis using assms(2) Dial_table(1) [OF inv 1] close_dialled [OF inv] 1
    by (cases x) (auto simp: Forwarder_handle_def table_for_def relay_end_def)
qed

text \<open>
  no path that opens a tunnel for a client keeps it when the client does not get it: when a request is cancelled before its tunnel is
  open, when the proxy cannot take the client's connection over or cannot greet it, and when the opening itself fails, the table of tunnels is the
  one from before once the dial has ended; otherwise it is that table with the new tunnel, and the end of the relay takes the tunnel out again.
\<close>

theorem unused_tunnels_released:
  assumes "dialer_inv d"
  shows "(case DialContext first r werr reply network addr d of (d', res) \<Rightarrow> table_for d (dialled res) d') \<and>
    (case handleConnect r werr reply hijack greeted buffered req d of (d', res) \<Rightarrow> table_for d (relay_tunnel res) d') \<and>
    (case Forwarder_handle r werr reply rule d of (d', got) \<Rightarrow> table_for d got d')"
  using DialContext_table [OF assms] handleConnect_table [OF assms] Forwarder_handle_table [OF assms] by (simp split: prod.split)

theorem unused_tunnels_released_witness:
  "tunnels (fst (DialContext (CtxFirst ''cancelled'') Connected None (Inr \<lparr>OK = True, rpl_Error = []\<rparr>) ''tcp'' ''a:1'' demo_dialer)) = []"
proof -
  have "dialer_inv demo_dialer" by (rule new_dialer_inv [OF demo_dialer])
  note t = unused_tunnels_released [OF this, of "CtxFirst ''cancelled''" Connected None "Inr \<lparr>OK = True, rpl_Error = []\<rparr>" "''tcp''" "''a:1''"]
  obtain d' res where r: "DialContext (CtxFirst ''cancelled'') Connected None (Inr \<lparr>OK = True, rpl_Error = []\<rparr>) ''tcp'' ''a:1'' demo_dialer = (d', res)"
    by fastforce
  then have "isl res" by (auto simp: DialContext_def split: prod.splits sum.splits)
  moreover have "table_for demo_dialer (dialled res) d'" using t r by simp
  ultimately show ?thesis using r by (auto simp: table_for_def dialled_def demo_dialer_def isl_def)
qed

section \<open>The program ends with nothing left open\<close>

lemma add_forwards_same:
  "(\<And>a. loopback_addr a \<Longrightarrow> listen1 a = listen2 a) \<Longrightarrow> add_forwards listen1 specs rules = add_forwards listen2 specs rules"
proof (induction specs arbitrary: rules)
  case (Cons spec specs)
  have "Forwarder_Add listen1 spec rules = Forwarder_Add listen2 spec rules"
    using Cons.prems parseForwardSpec_loopback [of spec] by (auto simp: Forwarder_Add_def split: sum.splits)
  then show ?case using Cons by (simp split: prod.split bool.split)
qed simp

text \<open>
  Nothing is open: no tunnel is in the table and every WebSocket is closed except those of dials still waiting for their answer; the proxy has no
  listener, the forwarder no forward, and every forward that has left it has its listener closed.
\<close>

definition nothing_open :: "client_state \<Rightarrow> bool" where
  "nothing_open s \<longleftrightarrow> tunnels (cs_dialer s) = [] \<and>
     (\<forall>i t. mget (objs (cs_dialer s)) i = Some t \<longrightarrow> ws_closed t \<or> pending (cs_dialer s) i) \<and>
     \<not> Running (cs_proxy s) \<and> lp_open (cs_proxy s) = [] \<and> cs_rules s = [] \<and> list_all fr_closed (cs_gone s)"

text \<open>A forward asked for on the command line: the address it listens on and its target, when it can be read and listened on.\<close>

definition forward_of :: "(string \<Rightarrow> string option) \<Rightarrow> string \<Rightarrow> (string \<times> string) option" where
  "forward_of listen spec = (case parseForwardSpec spec of Inl e \<Rightarrow> None | Inr (l, target) \<Rightarrow> map_option (\<lambda>a. (a, target)) (listen l))"

definition ends_of :: "ForwardRule list \<Rightarrow> (string \<times> string) list" where
  "ends_of rules = map (\<lambda>r. (LocalAddr r, fr_Target r)) rules"

text \<open>
  \<open>ops\<close> is what happens to the tunnels between a successful start and the clean-up, \<open>p\<close> the proxy and \<open>rules\<close> the forwards at its end,
  which the console may have changed. The forwards a failed start has closed are those before the first that cannot be opened.
\<close>

definition ends_clean :: "(string \<Rightarrow> string option) \<Rightarrow> string list \<Rightarrow> dialer_op list \<Rightarrow> LocalProxy \<Rightarrow> ForwardRule list \<Rightarrow> start_result \<Rightarrow> bool" where
  "ends_clean listen specs ops p rules res =
     (case res of
        Ended n bound \<Rightarrow> bound = []
      | Cleaned n s \<Rightarrow> n = 1 \<and> nothing_open s \<and>
          (\<exists>k < length specs. those (map (forward_of listen) (take k specs)) = Some (ends_of (cs_gone s)) \<and> forward_of listen (specs ! k) = None)
      | Ready s \<Rightarrow> those (map (forward_of listen) specs) = Some (ends_of (cs_rules s)) \<and>
          (let s' = cleanup \<lparr>cs_dialer = dialer_run ops (cs_dialer s), cs_proxy = p, cs_rules = rules, cs_gone = []\<rparr>
           in nothing_open s' \<and> ends_of (cs_gone s') = ends_of rules))"

lemma add_forwards_spec:
  "add_forwards listen specs rules = (rules', ok) \<Longrightarrow>
     \<exists>k new. k \<le> length specs \<and> rules' = rules @ new \<and> those (map (forward_of listen) (take k specs)) = Some (ends_of new) \<and>
       (if ok then k = length specs else k < length specs \<and> forward_of listen (specs ! k) = None)"
proof (induction specs arbitrary: rules)
  case (Cons spec specs)
  show ?case
  proof (cases "forward_of listen spec")
    case None
    then have "Forwarder_Add listen spec rules = (rules, False)"
      by (auto simp: Forwarder_Add_def forward_of_def split: sum.splits option.splits)
    then show ?thesis using Cons.prems None by (intro exI [of _ 0] exI [of _ "[]"]) (auto simp: ends_of_def)
  next
    case (Some x)
    let ?r = "\<lparr>LocalAddr = fst x, fr_Target = snd x, fr_closed = False\<rparr>"
    have "Forwarder_Add listen spec rules = (rules @ [?r], True)"
      using Some by (auto simp: Forwarder_Add_def forward_of_def split: sum.splits option.splits)
    then have "add_forwards listen specs (rules @ [?r]) = (rules', ok)" using Cons.prems by simp
    from Cons.IH [OF this] obtain k new where k: "k \<le> length specs" "rules' = (rules @ [?r]) @ new"
      "those (map (forward_of listen) (take k specs)) = Some (ends_of new)"
      "if ok then k = length specs else k < length specs \<and> forward_of listen (specs ! k) = None" by blast
    then show ?thesis using Some by (intro exI [of _ "Suc k"] exI [of _ "?r # new"]) (auto simp: ends_of_def)
  qed
qed (auto simp: ends_of_def intro: exI [of _ "[]"])

lemma cleanup_open:
  assumes "dialer_inv (cs_dialer s)" and "list_all fr_closed (cs_gone s)"
  shows "nothing_open (cleanup s) \<and> ends_of (cs_gone (cleanup s)) = ends_of (cs_gone s) @ ends_of (cs_rules s)"
proof -
  have c: "dialer_inv (CloseAll (cs_dialer s))" "tunnels (CloseAll (cs_dialer s)) = []" using CloseAll_inv [OF assms(1)] by simp_all
  have "ws_closed t \<or> pending (CloseAll (cs_dialer s)) i" if "mget (objs (CloseAll (cs_dialer s))) i = Some t" for i t
    using dialer_invD [OF c(1) that] that c(2) by (auto simp: tunnel_ok_def pending_def)
  then show ?thesis
    using c(2) assms(2)
    by (auto simp: nothing_open_def cleanup_def LocalProxy_Stop_def Running_def Forwarder_CloseAll_def ends_of_def list_all_iff)
qed

lemma start_clean:
  assumes "dialer_inv d"
  shows "ends_clean listen (t_forward f) ops p rules (start_listeners listen f d)"
proof -
  have e: "lp_open q = []" if "LocalProxy_Start listen addr NewLocalProxy = (q, Some err)" for addr q err
    using that by (auto simp: LocalProxy_Start_def NewLocalProxy_def Let_def split: option.splits if_splits)
  obtain rs ok where a: "add_forwards listen (t_forward f) [] = (rs, ok)" by fastforce
  from add_forwards_spec [OF a] obtain k where k: "k \<le> length (t_forward f)" "those (map (forward_of listen) (take k (t_forward f))) = Some (ends_of rs)"
    "if ok then k = length (t_forward f) else k < length (t_forward f) \<and> forward_of listen (t_forward f ! k) = None" by auto
  note co = cleanup_open [of "\<lparr>cs_dialer = d, cs_proxy = q, cs_rules = rs, cs_gone = []\<rparr>" for q]
    cleanup_open [of "\<lparr>cs_dialer = dialer_run ops d, cs_proxy = p, cs_rules = rules, cs_gone = []\<rparr>"]
  show ?thesis
    using k co assms dialer_run_inv [OF assms, of ops] e
    by (auto simp: start_listeners_def ends_clean_def Let_def a ends_of_def split: prod.split option.split if_splits)
qed

lemma start_same:
  assumes "\<And>a. loopback_addr a \<Longrightarrow> listen1 a = listen2 a"
  shows "start_listeners listen1 f d = start_listeners listen2 f d"
proof -
  define ad where "ad = (if t_listen f = [] then ''127.0.0.1:8899'' else t_listen f)"
  have p: "LocalProxy_Start listen1 (t_listen f) p = LocalProxy_Start listen2 (t_listen f) p" for p
    unfolding LocalProxy_Start_def ad_def [symmetric] Let_def
    using assms [of ad] ensureLoopback_host by (auto simp: loopback_addr_def split: option.splits)
  have a: "add_forwards listen1 specs rules = add_forwards listen2 specs rules" for specs rules
    by (rule add_forwards_same) (rule assms)
  show ?thesis unfolding start_listeners_def p a by (rule refl)
qed

text \<open>
  C35: starting the client asks the operating system for loopback addresses only, whatever the command line and the environment say. A start
  that fails leaves no listener: when a forward cannot be opened, exactly the forwards before it had been opened, and all of their listeners are closed, as is
  the proxy's. A start that succeeds has opened every forward asked for; and whatever happened to the tunnels while the client ran, and whatever proxy
  and forwards there are at its end, its clean-up closes the listener of every forward, the proxy's listener and every tunnel that was handed out, and
  leaves only the WebSockets of dials that still wait for their answer. (Hypothesis: the two ways of listening that are compared agree on loopback addresses.)
\<close>

theorem client_leaves_nothing_open:
  assumes "\<And>a. loopback_addr a \<Longrightarrow> listen1 a = listen2 a"
  shows "tunnel_main parse listen1 getenv f = tunnel_main parse listen2 getenv f \<and>
    ends_clean listen1 (t_forward f) ops p rules (tunnel_main parse listen1 getenv f)"
proof
  have s: "start_listeners listen1 f d = start_listeners listen2 f d" for d by (rule start_same) (rule assms)
  show "tunnel_main parse listen1 getenv f = tunnel_main parse listen2 getenv f"
    unfolding tunnel_main_def s by (rule refl)
  have e: "ends_clean listen1 (t_forward f) ops p rules (Ended n [])" for n by (simp add: ends_clean_def)
  show "ends_clean listen1 (t_forward f) ops p rules (tunnel_main parse listen1 getenv f)"
    using start_clean [OF new_dialer_inv] e by (simp add: tunnel_main_def Let_def split: sum.split option.split prod.split)
qed

theorem client_leaves_nothing_open_witness:
  "case tunnel_main demo_url Some (\<lambda>_. []) \<lparr>t_server = ''h'', t_credential = ''u:p'', t_listen = ''127.0.0.1:1'', t_no_tui = True,
       t_forward = [''1:a:2'', ''x''], t_version = False\<rparr> of
     Cleaned n s \<Rightarrow> n = 1 \<and> lp_open (cs_proxy s) = [] \<and> cs_rules s = [] \<and> list_all fr_closed (cs_gone s) | _ \<Rightarrow> False"
proof -
  let ?f = "\<lparr>t_server = ''h'', t_credential = ''u:p'', t_listen = ''127.0.0.1:1'', t_no_tui = True,
       t_forward = [''1:a:2'', ''x''], t_version = False\<rparr>"
  have "case tunnel_main demo_url Some (\<lambda>_. []) ?f of Cleaned n s \<Rightarrow> True | _ \<Rightarrow> False" by code_simp
  then show ?thesis using client_leaves_nothing_open [of Some Some demo_url "\<lambda>_. []" ?f "[]" NewLocalProxy "[]"]
    by (auto simp: ends_clean_def nothing_open_def split: start_result.splits)
qed

end
