(* ===== verification/Spec2Isabelle.thy ===== *)
theory Spec2Isabelle
  imports Feature Proxy_Properties Host_Main Routes Scheduler Installer Tracer Tunnel_Main
begin

text \<open>
  JustPing measures networks from many places. A Host keeps the configuration, the reports and the accounts; probes (agents) on other
  machines hold one WebSocket connection each to the Host, ping and trace the targets it sends them and report back; a tunnel client lends
  a user the network of one probe: its connections go to the Host, through the probe's WebSocket and out of the probe. This development
  models the Go code of the three programs and of the packages they share as HOL functions and proves what makes them correct. Paths below
  are under \<^verbatim>\<open>src/\<close>.

  \<^bold>\<open>Common ground.\<close> \<^verbatim>\<open>Prelude\<close>: Go maps as association lists (locale \<^verbatim>\<open>finite_map\<close>, interpreted on them), buffers that keep
  the newest entries, comparators (locale \<^verbatim>\<open>comparator\<close>, interpreted for strings in \<^verbatim>\<open>Go_Strings\<close> and for releases in
  \<^verbatim>\<open>Version\<close>). \<^verbatim>\<open>Go_Strings\<close>, \<^verbatim>\<open>Go_Encoding\<close>, \<^verbatim>\<open>Go_Net\<close>, \<^verbatim>\<open>Go_Json\<close> and \<^verbatim>\<open>Float64\<close> are what the code
  uses of the standard library: strings as byte lists, hex, base64 and host:port syntax with their round trips, IP addresses, JSON values and
  how they decode into structs, and IEEE double arithmetic with rounding written out.

  \<^bold>\<open>Shared packages.\<close> \<^verbatim>\<open>Version\<close> (\<^verbatim>\<open>shared/version\<close>): the order of releases. \<^verbatim>\<open>Protocol\<close> and \<^verbatim>\<open>Reports\<close>
  (\<^verbatim>\<open>shared/protocol/message.go\<close>): every message with its encoding, its decoding and that they are inverse.

  \<^bold>\<open>The Host.\<close>
  \<^item> \<^verbatim>\<open>Feature\<close> (\<^verbatim>\<open>host/internal/feature\<close>): which release of a probe can do what, and the ladder of forced restarts.
  \<^item> \<^verbatim>\<open>Database\<close> (\<^verbatim>\<open>model/models.go\<close>): rows and the queries made on them, as lists.
  \<^item> \<^verbatim>\<open>Session_Store\<close> (\<^verbatim>\<open>proxy/session.go\<close>): temporary proxy credentials in two maps that share session objects; what authenticates,
    what revoking does, as a refinement of an abstract map of credentials.
  \<^item> \<^verbatim>\<open>Proxy_Syntax\<close>, \<^verbatim>\<open>Proxy_Service\<close>, \<^verbatim>\<open>Proxy_Properties\<close> (\<^verbatim>\<open>proxy/service.go\<close>, \<^verbatim>\<open>tunnel.go\<close>): the table of tunnels, the
    messages of probes, the two pumps and the handler of a client as steps of a relation, so that every interleaving is covered: order of bytes,
    bounds of table and queues, isolation of probes, what revocation and disconnection end.
  \<^item> \<^verbatim>\<open>Hub\<close>, \<^verbatim>\<open>Hub_Properties\<close>, \<^verbatim>\<open>Host\<close> (\<^verbatim>\<open>ws/*.go\<close>): connections, their send queues, registration, target sync, restarts, and the
    storing of reports. The proxy reaches probes through an interface; the locale \<^verbatim>\<open>bridge_contract\<close> states what it relies on, and its
    interpretation shows that the hub provides it.
  \<^item> \<^verbatim>\<open>Classifier\<close> and \<^verbatim>\<open>Client_IP\<close> (\<^verbatim>\<open>ipgeo\<close>, \<^verbatim>\<open>iputil\<close>): labels of routes, addresses behind proxies, the cached lookup.
  \<^item> \<^verbatim>\<open>Accounts\<close> (\<^verbatim>\<open>auth\<close>, \<^verbatim>\<open>api/setup.go\<close>, \<^verbatim>\<open>auth.go\<close>, \<^verbatim>\<open>oauth_shared.go\<close>, \<^verbatim>\<open>admin_settings.go\<close>, \<^verbatim>\<open>admin_whitelist.go\<close>): who can
    log in and become what. \<^verbatim>\<open>Admin_Api\<close> and \<^verbatim>\<open>Public_Api\<close> (the other handlers of \<^verbatim>\<open>api\<close>): editing targets and probes, issuing and
    revoking credentials, and what visitors are shown. \<^verbatim>\<open>Host_Main\<close> (\<^verbatim>\<open>cmd/server/main.go\<close>, \<^verbatim>\<open>ui/static.go\<close>, the cleaner of
    \<^verbatim>\<open>db/db.go\<close>): dispatch of requests, static files, retention.

  \<^bold>\<open>The probe.\<close> \<^verbatim>\<open>Pinger\<close>, \<^verbatim>\<open>Detector\<close>, \<^verbatim>\<open>Tracer\<close> (\<^verbatim>\<open>agent/internal/pinger\<close>, \<^verbatim>\<open>traceroute\<close>): windows and their
  statistics, detection of shifts, traces. \<^verbatim>\<open>Scheduler\<close> (\<^verbatim>\<open>cmd/agent/scheduler.go\<close>): workers and traces. \<^verbatim>\<open>Agent_Client\<close>,
  \<^verbatim>\<open>Agent_Proxy\<close> (\<^verbatim>\<open>internal/client\<close>): the report queue, the connection, the exit connections of tunnels as interleaved steps.
  \<^verbatim>\<open>Updater\<close>, \<^verbatim>\<open>Agent_Main\<close>, \<^verbatim>\<open>Installer\<close> (\<^verbatim>\<open>internal/updater\<close>, \<^verbatim>\<open>cmd/agent/main.go\<close>, \<^verbatim>\<open>internal/service\<close>): self-update,
  configuration, how the process ends, and installing and removing the service.

  \<^bold>\<open>The tunnel client.\<close> \<^verbatim>\<open>Tunnel_Client\<close> (\<^verbatim>\<open>tunnel/cmd/tunnel/dialer.go\<close>, \<^verbatim>\<open>shared/wsutil/conn.go\<close>): opening tunnels and the byte
  stream over WebSocket messages (locale \<^verbatim>\<open>message_reader\<close> for the library's reader, interpreted). \<^verbatim>\<open>Local_Proxy\<close> (\<^verbatim>\<open>socks5.go\<close>,
  \<^verbatim>\<open>forward.go\<close>, \<^verbatim>\<open>localproxy.go\<close>): local listeners. \<^verbatim>\<open>Console\<close> (\<^verbatim>\<open>ui.go\<close>): the terminal user interface.

  \<^bold>\<open>This theory\<close> holds what spans programs: a credential issued in the administration API opens a tunnel when the client presents it, a trace
  taken by a probe arrives in the database, and the message that makes an old probe restart does panic it and no ordinary target does.

  \<^bold>\<open>Conventions.\<close> A struct is a record, an error is a value (\<open>Inl\<close> or \<open>Some\<close> text), a mutex section is one step, and goroutines are steps of an
  inductive relation or of a list of events, so theorems hold for every order. Pointers that are shared are indices into a list of objects. Times are
  integers in nanoseconds; counters keep their width where they can wrap. Loops are structural or have a termination proof; where the source
  polls, the bound on the number of rounds is part of the property (\<^verbatim>\<open>SendWait_ends\<close>), and a retry loop over random names is given the list of
  random values it draws. Random bytes, clocks, SHA-256, sockets, resolvers, file system calls that may fail, HTTP answers, identity providers and
  the JWT library are arguments, and a theorem about them holds for every value, or names what it assumes and has a witness.

  \<^bold>\<open>Not modelled.\<close> The database engine and its migrations, the HTTP server and router below the handlers, the text of JSON and of timestamps,
  TLS, WebSocket framing, ICMP sockets and the terminal library (libraries the sources only call), flag parsing and signals, what commands of the
  machine's init system do, log output, and the unused \<^verbatim>\<open>executePing\<close> of the pinger.
\<close>

section \<open>A credential from the console to the tunnel\<close>

lemma hex_char_plain: "0 \<le> n \<Longrightarrow> n < 16 \<Longrightarrow> hex_char n \<noteq> CHR '':''"
proof -
  assume "0 \<le> n" "n < 16"
  then have "n \<in> set [0..15]" by simp
  moreover have "list_all (\<lambda>n. hex_char n \<noteq> CHR '':'') [0..15]" by code_simp
  ultimately show ?thesis unfolding list_all_iff by blast
qed

lemma hex_encode_no_colon: "CHR '':'' \<notin> set (hex_encode bs)"
proof (induction bs)
  case (Cons b bs)
  have "hex_char (of_char b div 16) \<noteq> CHR '':''" by (rule hex_char_plain) (use of_char_bounds [of b] in linarith)+
  moreover have "hex_char (of_char b mod 16) \<noteq> CHR '':''" by (rule hex_char_plain) simp_all
  ultimately show ?case using Cons by (simp add: hex_encode_def)
qed (simp add: hex_encode_def)

lemma alloc_username_form: "alloc_username reads us is = Inr u \<Longrightarrow> \<exists>r. u = ''jp'' @ hex_encode r"
  by (induction reads us "is" rule: alloc_username.induct)
    (auto simp: randomHex_def Let_def split: option.splits if_splits)

lemma Issue_form:
  "Issue H now passRaw idRaw reads aid name uid s = (s', Inr (x, pw)) \<Longrightarrow>
   (\<exists>raw. passRaw = Some raw \<and> pw = hex_encode raw) \<and> (\<exists>r. Username x = ''jp'' @ hex_encode r)"
  using alloc_username_form by (fastforce simp: Issue_def Let_def split: option.splits sum.splits if_splits)

text \<open>
  C5: a credential an administrator is given for an online probe works from the tunnel client: the header the client's dialer makes of the shown
  user name and password is accepted by the Host's tunnel endpoint, at every moment before the shown expiry and whatever else happens to
  credentials meanwhile, and the tunnel is for that probe.
\<close>

theorem admin_credential_opens_tunnel:
  assumes "store_wf (sessions (hsvc w))" and "passRaw \<noteq> Some []"
    and "adminCreateProxySession H now passRaw idRaw reads version user (Some aid) c acc w = (w', Inr v)"
    and "\<forall>opn \<in> set ops. op_time opn \<le> t \<and> (\<forall>n. opn \<noteq> OpRevoke n (sv_ID (iv_view v)))" and "now \<le> t" and "t < sv_ExpiresAt (iv_view v)"
  shows "\<exists>x. HandleTunnel_auth H t [] (dialer_auth (sv_Username (iv_view v)) (iv_Password v)) True
      ((hsvc w')\<lparr>sessions := store_run H (sessions (hsvc w')) ops\<rparr>) = Inr x \<and> AgentID x = aid \<and> ID x = sv_ID (iv_view v)"
proof -
  obtain row where row: "find_agent aid (hdb w) = Some row"
    using assms(3) by (auto simp: adminCreateProxySession_def split: option.splits if_splits)
  obtain st r where i: "Issue H now passRaw idRaw reads (ag_ID row) (ag_Name row) (nat (us_ID user)) (sessions (hsvc w)) = (st, r)"
    by (rule prod.exhaust)
  obtain x pw where r: "r = Inr (x, pw)" and v: "iv_view v = viewSession x" "iv_Password v = pw" and w': "sessions (hsvc w') = st"
    using assms(3) row i by (auto simp: adminCreateProxySession_def split: option.splits if_splits sum.splits)
  note iss = i [unfolded r]
  note cr = Issue_creds [OF assms(1) iss assms(5)]
  obtain raw u where f: "passRaw = Some raw" "pw = hex_encode raw" "Username x = ''jp'' @ hex_encode u" using Issue_form [OF iss] by blast
  then have "raw \<noteq> []" using assms(2) by simp
  then have "hex_encode raw \<noteq> []" by (metis length_0_conv length_hex_encode mult_is_0 zero_neq_numeral)
  then have pb: "ParseBasicAuth (dialer_auth (Username x) pw) = Some (Username x, pw)"
    using f hex_encode_no_colon by (intro ParseBasicAuth_dialer) auto
  have wf: "store_wf st" using Issue_wf [OF assms(1)] iss by (metis fst_conv)
  have "creds st t (Username x) = Some x" using cr(1,4) assms(6) v by (simp add: viewSession_def)
  then have "creds (store_run H st ops) t (Username x) = Some x"
    using wf assms(4) v by (intro store_run_keeps) (auto simp: viewSession_def)
  then have au: "Authenticate H t (Username x) pw (store_run H st ops) = Inr x" using cr(3) by (simp add: Authenticate_creds)
  have "ParseBasicAuth [] = None" by (simp add: ParseBasicAuth_def)
  then have "tunnelCredential [] (dialer_auth (Username x) pw) = Some (Username x, pw)" using pb by (simp add: tunnelCredential_def)
  then show ?thesis using au v w' cr(5) find_agent_in [OF row] by (simp add: HandleTunnel_auth_def viewSession_def)
qed

definition demo_online :: Host where
  "demo_online = demo_host\<lparr>hsvc := (hsvc demo_host)\<lparr>sessions := NewStore\<rparr>\<rparr>"

lemma demo_issued: "\<exists>w' v. adminCreateProxySession demo_hash 0 (Some ''ab'') (Some ''cd'') (\<lambda>_. Some ''ef'') ''v1.2.2'' (users demo_accounts ! 0) (Some ''a'')
    demo_http demo_accounts demo_online = (w', Inr v) \<and> sv_ExpiresAt (iv_view v) = SessionTTL"
proof -
  have b: "bridge (hsvc demo_online) = Some demo_hub" "sessions (hsvc demo_online) = NewStore" "hdb demo_online = demo_db"
    by (simp_all add: demo_online_def demo_host_def demo_svc_def)
  have f: "find_agent ''a'' demo_db = Some (agent_rows demo_db ! 0)" by (simp add: find_agent_def demo_db_def)
  have o: "Hub_Online demo_hub ''a''" by (simp add: Hub_Online_def demo_hub_eval mget_def)
  have a: "alloc_username (\<lambda>_. Some ''ef'') [] [0..<5] = Inr (''jp'' @ hex_encode ''ef'')" by code_simp
  show ?thesis
    by (simp add: adminCreateProxySession_def b f o a Issue_def randomHex_def Let_def NewStore_def purgeLocked_def viewSession_def)
qed

theorem admin_credential_opens_tunnel_witness:
  "\<exists>(w' :: Host) (v :: issuedProxySessionView) x. HandleTunnel_auth demo_hash 1000 [] (dialer_auth (sv_Username (iv_view v)) (iv_Password v)) True
      ((hsvc w')\<lparr>sessions := store_run demo_hash (sessions (hsvc w')) [OpList 7]\<rparr>) = Inr x \<and> AgentID x = ''a''"
proof -
  obtain w' v where i: "adminCreateProxySession demo_hash 0 (Some ''ab'') (Some ''cd'') (\<lambda>_. Some ''ef'') ''v1.2.2'' (users demo_accounts ! 0) (Some ''a'')
      demo_http demo_accounts demo_online = (w', Inr v)" and e: "sv_ExpiresAt (iv_view v) = SessionTTL"
    using demo_issued by blast
  have s: "store_wf (sessions (hsvc demo_online))" by (simp add: demo_online_def store_wf_NewStore)
  have "Some ''ab'' \<noteq> Some []" "\<forall>opn \<in> set [OpList 7]. op_time opn \<le> 1000 \<and> (\<forall>n. opn \<noteq> OpRevoke n (sv_ID (iv_view v)))"
    "(0 :: int) \<le> 1000" "1000 < sv_ExpiresAt (iv_view v)" by (simp_all add: e SessionTTL_def)
  from admin_credential_opens_tunnel [OF s this(1) i this(2-4)] show ?thesis by blast
qed

section \<open>A trace from the probe to the database\<close>

text \<open>
  C12: the report of a route trace that a connected probe sends is read by the Host as it was sent, stamped with the probe's id, and stored as one
  trace of the probe the connection belongs to: with the same target, the same hops in order with their addresses and round trip times,
  the route label the classifier gives these hops, and a time the Host accepts.
\<close>

theorem trace_reaches_database:
  assumes "\<And>t. parse (fmt t) = Some t" "list_all hop_floats (Hops report)" "\<bar>DurationMs report\<bar> \<le> 2 ^ 53" "Hops report \<noteq> []"
    and "cl_online c" "cl_conn c" "SendTracerouteReport fmt True report c = c'"
  shows "\<exists>payload rep r. wire c' = wire c @ [(TypeTracerouteReport, payload)] \<and>
    handleIncomingMessage dr parse dberr now aid p \<lparr>Type = TypeTracerouteReport, Payload = payload\<rparr> w = (w, StoreTrace rep) \<and>
    rep = report\<lparr>tr_AgentID := cl_agentID c\<rparr> \<and>
    trace_rows (fst (persistTracerouteReport nxt api now2 aid rep (d, cache))) = trace_rows d @ [r] \<and>
    rec_AgentID r = aid \<and> rec_TargetID r = tr_TargetID report \<and> rec_Reached r = Reached report \<and>
    map eh_TTL (rec_Hops r) = map TTL (Hops report) \<and> map eh_IP (rec_Hops r) = map hop_IP (Hops report) \<and>
    map eh_RTTs (rec_Hops r) = map RTTs (Hops report) \<and> rec_RoutePath r = ClassifyRoute (map hop_meta (rec_Hops r)) \<and>
    now2 - minutes 2880 \<le> rec_Timestamp r \<and> rec_Timestamp r \<le> now2 + minutes 5"
proof -
  let ?rep = "report\<lparr>tr_AgentID := cl_agentID c\<rparr>"
  have dec: "dec_TracerouteReport parse (enc_TracerouteReport fmt ?rep) = Some ?rep"
    by (rule dec_enc_TracerouteReport) (use assms in simp_all)
  have "wire c' = wire c @ [(TypeTracerouteReport, enc_TracerouteReport fmt ?rep)]"
    using assms(5-7) by (auto simp: SendTracerouteReport_def sendEnvelope_def)
  moreover have "handleIncomingMessage dr parse dberr now aid p \<lparr>Type = TypeTracerouteReport, Payload = enc_TracerouteReport fmt ?rep\<rparr> w = (w, StoreTrace ?rep)"
    by (simp add: handleIncomingMessage_def dec)
  ultimately show ?thesis using persistTracerouteReport_row [of ?rep nxt api now2 aid d cache] assms(4) by fastforce
qed

definition demo_hop :: TracerouteHop where
  "demo_hop = \<lparr>TTL = 1, hop_IP = ''10.0.0.1'', hop_Hostname = [], RTTs = [1], hop_AvgRTT = 1, hop_LossPct = 0\<rparr>"

theorem trace_reaches_database_witness:
  "\<exists>rep r. trace_rows (fst (persistTracerouteReport (\<lambda>_. None) (\<lambda>_. None) 7 ''a'' rep (demo_db, []))) = trace_rows demo_db @ [r] \<and>
     map eh_IP (rec_Hops r) = [''10.0.0.1'']"
proof -
  let ?rep = "\<lparr>tr_AgentID = [], tr_TargetID = ''t1'', tr_TargetHost = ''h'', ResolvedIP = ''10.0.0.9'', tr_Timestamp = Some 5, DurationMs = 3,
    Reached = False, Hops = [demo_hop]\<rparr>"
  let ?c = "NewClient\<lparr>cl_conn := True, cl_online := True\<rparr>"
  have "list_all hop_floats (Hops ?rep)"
    by (simp add: demo_hop_def hop_floats_def is_float_def rnd_of_int [of 0, simplified] rnd_of_int [of 1, simplified])
  then show ?thesis
    using trace_reaches_database [where parse = read_unary and fmt = unary and report = ?rep and c = ?c and nxt = "\<lambda>_. None" and api = "\<lambda>_. None"
        and ?now2.0 = 7 and aid = "''a''" and d = demo_db and cache = "[]", OF read_unary _ _ _ _ _ refl]
    by (fastforce simp: demo_hop_def)
qed

section \<open>The crash a forced restart sends\<close>

text \<open>
  C21: the target list a forced restart sends to an old probe arrives as one target on which the probe's process panics, both when the worker
  starts its ticker and when it allocates the window, while no target list built from targets kept by the API does: every such target gets a
  ticker of exactly its interval and a window.
\<close>

theorem only_the_crash_message_panics:
  assumes "list_all target_ok (target_rows d)"
  shows "(\<exists>t. dec_TargetSync legacyCrashTargetSync = Some [t] \<and> NewTicker (ticker_interval t) = None \<and>
      GetOrCreateWindow (tc_ID t) (tc_PacketCount t) pg = None) \<and>
    list_all (\<lambda>t. NewTicker (ticker_interval t) = Some (tc_IntervalSec t * 1000000000) \<and> GetOrCreateWindow (tc_ID t) (tc_PacketCount t) pg \<noteq> None)
      (buildTargetConfigs aid (enabled_targets d) d)"
proof
  let ?t = "\<lparr>tc_ID = ''justping-force-update'', tc_Name = ''Force update (legacy)'', tc_Host = ''127.0.0.1'',
    tc_PacketCount = LegacyCrashPacketCount, tc_IntervalSec = LegacyCrashIntervalSec, tc_DisableRoute = False\<rparr>"
  have "dec_TargetSync legacyCrashTargetSync = Some [?t]"
    unfolding legacyCrashTargetSync_def by (rule dec_enc_TargetSync) (simp add: LegacyCrashPacketCount_def LegacyCrashIntervalSec_def)
  moreover have "NewTicker (ticker_interval ?t) = None"
    by (simp add: NewTicker_def ticker_interval_def LegacyCrashIntervalSec_def)
  moreover have "GetOrCreateWindow (tc_ID ?t) (tc_PacketCount ?t) pg = None"
    by (simp add: GetOrCreateWindow_def NewTargetWindow_def LegacyCrashPacketCount_def statSize_def maxAlloc_def)
  ultimately show "\<exists>t. dec_TargetSync legacyCrashTargetSync = Some [t] \<and> NewTicker (ticker_interval t) = None \<and>
      GetOrCreateWindow (tc_ID t) (tc_PacketCount t) pg = None" by blast
  have en: "list_all target_ok (enabled_targets d)" using assms by (auto simp: enabled_targets_def list_all_iff)
  have "NewTicker (ticker_interval t) = Some (tc_IntervalSec t * 1000000000) \<and> GetOrCreateWindow (tc_ID t) (tc_PacketCount t) pg \<noteq> None"
    if "t \<in> set (buildTargetConfigs aid (enabled_targets d) d)" for t
    using configs_from_targets [OF en that] ticker_exact [of "tc_IntervalSec t"]
    by (auto simp: NewTicker_def ticker_interval_def GetOrCreateWindow_def NewTargetWindow_def statSize_def maxAlloc_def Let_def split: option.splits)
  then show "list_all (\<lambda>t. NewTicker (ticker_interval t) = Some (tc_IntervalSec t * 1000000000) \<and> GetOrCreateWindow (tc_ID t) (tc_PacketCount t) pg \<noteq> None)
      (buildTargetConfigs aid (enabled_targets d) d)" by (simp add: list_all_iff)
qed

theorem only_the_crash_message_panics_witness:
  "\<exists>t. dec_TargetSync legacyCrashTargetSync = Some [t] \<and> NewTicker (ticker_interval t) = None"
proof -
  have "list_all target_ok (target_rows demo_db)" by (simp add: demo_db_def target_ok_def)
  then show ?thesis using only_the_crash_message_panics [of demo_db] by blast
qed

end
